(* ===== verification/Prelude.thy ===== *)
theory Prelude
  imports Main "HOL-Library.AList" "HOL-Library.Char_ord"
begin

text \<open>
  Shared ground of the development: the values the C++ code computes with and the parts
  of the C++ standard library it uses on them. A \<^verbatim>\<open>std::string\<close> is a HOL \<open>string\<close>,
  one \<open>char\<close> per byte. A thrown exception is an \<open>Inl\<close> of \<open>cxx_error\<close>; a normal return
  is an \<open>Inr\<close>. A search that may return \<^verbatim>\<open>npos\<close> is an \<open>option\<close>, and the size_t
  arithmetic the code does on \<^verbatim>\<open>npos\<close> is written out (\<open>pos_add\<close>). An
  \<^verbatim>\<open>std::unordered_map\<close> is an association list without duplicate keys, whose order is
  the iteration order of the map (which the standard leaves open).
\<close>

named_theorems run_simps \<open>equations that evaluate the operations of the model\<close>
named_theorems inv_intros \<open>preservation of the components' invariants\<close>

section \<open>Exceptions\<close>

text \<open>
  \<open>NawaException n m\<close> is \<^verbatim>\<open>nawa::Exception\<close> with error code \<open>n\<close> and message \<open>m\<close>;
  \<open>InvalidArgument\<close>, \<open>OutOfRange\<close> and \<open>RangeError\<close> are the standard exceptions the code catches or lets
  escape, and \<open>Undefined\<close> marks the places where the C++ code has no defined behaviour (a
  division by zero, \<^verbatim>\<open>back()\<close> of an empty vector).
\<close>

datatype cxx_error = NawaException nat string | InvalidArgument | OutOfRange | RangeError | Undefined

type_synonym 'a result = "cxx_error + 'a"

fun bind_result :: "'a result \<Rightarrow> ('a \<Rightarrow> 'b result) \<Rightarrow> 'b result" where
  "bind_result (Inl e) f = Inl e"
| "bind_result (Inr x) f = f x"

lemma bind_result_Inr_iff [simp]:
  "bind_result m f = Inr y \<longleftrightarrow> (\<exists>x. m = Inr x \<and> f x = Inr y)"
  by (cases m) auto

lemma bind_result_Inl_iff:
  "bind_result m f = Inl e \<longleftrightarrow> m = Inl e \<or> (\<exists>x. m = Inr x \<and> f x = Inl e)"
  by (cases m) auto

section \<open>Searching and cutting strings\<close>

fun find_char :: "char \<Rightarrow> string \<Rightarrow> nat option" where
  "find_char d [] = None"
| "find_char d (c # s) = (if c = d then Some 0 else map_option Suc (find_char d s))"

definition find_last_char :: "char \<Rightarrow> string \<Rightarrow> nat option" where
  "find_last_char d s = map_option (\<lambda>k. length s - 1 - k) (find_char d (rev s))"

fun is_prefix :: "string \<Rightarrow> string \<Rightarrow> bool" where
  "is_prefix [] s = True"
| "is_prefix (p # ps) [] = False"
| "is_prefix (p # ps) (c # s) = (p = c \<and> is_prefix ps s)"

text \<open>\<^verbatim>\<open>s.find(key)\<close>: the first position at which \<open>key\<close> occurs.\<close>

fun find_str :: "string \<Rightarrow> string \<Rightarrow> nat option" where
  "find_str key [] = (if key = [] then Some 0 else None)"
| "find_str key (c # s) =
     (if is_prefix key (c # s) then Some 0 else map_option Suc (find_str key s))"

text \<open>\<^verbatim>\<open>s.find(key, pos)\<close>: as above, from \<open>pos\<close> on; \<^verbatim>\<open>npos\<close> if \<open>pos\<close> is past the end.\<close>

definition find_from :: "string \<Rightarrow> nat \<Rightarrow> string \<Rightarrow> nat option" where
  "find_from key pos s =
     (if pos \<le> length s then map_option (\<lambda>k. pos + k) (find_str key (drop pos s)) else None)"

text \<open>
  \<^verbatim>\<open>npos\<close> is the largest \<^verbatim>\<open>size_t\<close>, so \<^verbatim>\<open>npos + k\<close> wraps around to \<open>k - 1\<close> for
  \<open>k \<ge> 1\<close>.
\<close>

fun pos_add :: "nat option \<Rightarrow> nat \<Rightarrow> nat" where
  "pos_add (Some p) k = p + k"
| "pos_add None k = k - 1"

text \<open>\<^verbatim>\<open>s.substr(0, pos)\<close>, where a \<open>pos\<close> of \<^verbatim>\<open>npos\<close> means the whole string.\<close>

fun substr_to :: "string \<Rightarrow> nat option \<Rightarrow> string" where
  "substr_to s (Some p) = take p s"
| "substr_to s None = s"

text \<open>What a C function reads of \<^verbatim>\<open>s.c_str()\<close>: the characters before the first null.\<close>

definition c_string :: "string \<Rightarrow> string" where
  "c_string s = takeWhile (\<lambda>c. c \<noteq> CHR 0x00) s"

lemma find_char_None_iff: "find_char d s = None \<longleftrightarrow> d \<notin> set s"
  by (induction s) auto

lemma find_char_Some_split:
  "find_char d s = Some p \<Longrightarrow> s = take p s @ d # drop (Suc p) s \<and> d \<notin> set (take p s) \<and> p < length s"
  by (induction s arbitrary: p) (auto split: if_splits)

lemma find_char_append [simp]:
  "d \<notin> set xs \<Longrightarrow> find_char d (xs @ d # ys) = Some (length xs)"
  by (induction xs) auto

lemma find_char_less: "find_char d s = Some p \<Longrightarrow> p < length s"
  using find_char_Some_split by blast

lemma is_prefix_append [simp]: "is_prefix p (p @ s)"
  by (induction p) auto

lemma is_prefix_iff: "is_prefix p s \<longleftrightarrow> (\<exists>t. s = p @ t)"
  by (induction p s rule: is_prefix.induct) auto

lemma find_str_Some_prefix:
  "find_str key s = Some p \<Longrightarrow> p \<le> length s \<and> is_prefix key (drop p s)"
  by (induction s arbitrary: p) (auto split: if_splits)

lemma find_str_Some_bound: "find_str key s = Some p \<Longrightarrow> p + length key \<le> length s"
  by (drule find_str_Some_prefix) (auto simp: is_prefix_iff, metis add_le_cancel_left
      le_add_diff_inverse length_append length_drop le_add1)

lemma find_str_Some_first:
  "find_str key s = Some p \<Longrightarrow> q < p \<Longrightarrow> \<not> is_prefix key (drop q s)"
proof (induction s arbitrary: p q)
  case Nil
  then show ?case by (auto split: if_splits)
next
  case (Cons c s)
  then show ?case by (cases q) (auto split: if_splits)
qed

lemma find_str_None_iff: "find_str key s = None \<longleftrightarrow> (\<forall>q \<le> length s. \<not> is_prefix key (drop q s))"
proof (induction s)
  case Nil
  then show ?case by (cases key) auto
next
  case (Cons c s)
  show ?case
  proof
    assume "find_str key (c # s) = None"
    with Cons show "\<forall>q \<le> length (c # s). \<not> is_prefix key (drop q (c # s))"
      by (auto simp: drop_Cons split: if_splits nat.splits)
  next
    assume *: "\<forall>q \<le> length (c # s). \<not> is_prefix key (drop q (c # s))"
    then have "\<not> is_prefix key (c # s)" by force
    moreover have "\<forall>q \<le> length s. \<not> is_prefix key (drop q s)"
    proof (intro allI impI)
      fix q assume "q \<le> length s"
      with *[rule_format, of "Suc q"] show "\<not> is_prefix key (drop q s)" by simp
    qed
    ultimately show "find_str key (c # s) = None" using Cons by simp
  qed
qed

section \<open>Character classes of the C locale\<close>

abbreviation code :: "char \<Rightarrow> nat" where
  "code c \<equiv> of_char c"

lemma code_inject: "code c = code d \<Longrightarrow> c = d"
  by simp

definition is_upper :: "char \<Rightarrow> bool" where
  "is_upper c \<longleftrightarrow> CHR ''A'' \<le> c \<and> c \<le> CHR ''Z''"

definition is_lower :: "char \<Rightarrow> bool" where
  "is_lower c \<longleftrightarrow> CHR ''a'' \<le> c \<and> c \<le> CHR ''z''"

definition is_digit :: "char \<Rightarrow> bool" where
  "is_digit c \<longleftrightarrow> CHR ''0'' \<le> c \<and> c \<le> CHR ''9''"

definition is_space :: "char \<Rightarrow> bool" where
  "is_space c \<longleftrightarrow> c = CHR '' '' \<or> (9 \<le> code c \<and> code c \<le> 13)"

definition CR :: char where "CR = CHR 0x0D"
definition LF :: char where "LF = CHR 0x0A"
definition TAB :: char where "TAB = CHR 0x09"
definition DQUOTE :: char where "DQUOTE = CHR 0x22"
definition CRLF :: string where "CRLF = [CR, LF]"

lemma char_distinct_facts [simp]:
  "CR \<noteq> LF" "LF \<noteq> CR" "CR \<noteq> TAB" "TAB \<noteq> CR" "LF \<noteq> TAB" "TAB \<noteq> LF"
  by (simp_all add: CR_def LF_def TAB_def)

section \<open>Transition systems\<close>

text \<open>What every state machine of the development needs of its invariant.\<close>

locale transition_system =
  fixes step :: "'s \<Rightarrow> 's \<Rightarrow> bool" and inv :: "'s \<Rightarrow> bool"
  assumes inv_step: "inv s \<Longrightarrow> step s t \<Longrightarrow> inv t"
begin

lemma inv_reachable: "step\<^sup>*\<^sup>* s t \<Longrightarrow> inv s \<Longrightarrow> inv t"
  by (induction rule: rtranclp_induct) (auto intro: inv_step)

lemma never_bad: "step\<^sup>*\<^sup>* s t \<Longrightarrow> inv s \<Longrightarrow> (\<And>u. inv u \<Longrightarrow> \<not> bad u) \<Longrightarrow> \<not> bad t"
  using inv_reachable by blast

end

end
