(* ===== verification/Containers.thy ===== *)
theory Containers
  imports Prelude
begin

text \<open>
  The associative containers the code stores its data in. An \<^verbatim>\<open>std::unordered_map\<close> is a
  list of pairs with distinct keys (\<open>umap_wf\<close>); the order of the list is the iteration order,
  which the C++ standard leaves open, so results that depend on it are stated for every order.
  An \<^verbatim>\<open>std::unordered_multimap\<close> is a list of pairs too, of which only the entries and how often each
  occurs are meant: the standard leaves open where an insertion puts an entry, also among those of the
  same key. \<open>ummap_insert\<close> has to put it somewhere, at the end; results about multimaps that were filled by
  insertions rest on the locale \<open>multimap\<close>, whose law does not say where. The locale \<open>dict\<close> is the contract
  of the map operations; what the clients need of sequences of insertions is proved in it once.
\<close>

type_synonym ('k, 'v) umap = "('k \<times> 'v) list"
type_synonym ('k, 'v) ummap = "('k \<times> 'v) list"

definition umap_wf :: "('k, 'v) umap \<Rightarrow> bool" where
  "umap_wf m \<longleftrightarrow> distinct (map fst m)"

text \<open>\<^verbatim>\<open>m.count(k)\<close> is 0 or 1; \<^verbatim>\<open>m.at(k)\<close> where it is known to be 1.\<close>

definition umap_get :: "('k, 'v) umap \<Rightarrow> 'k \<Rightarrow> 'v option" where
  "umap_get m k = map_of m k"

definition umap_has :: "('k, 'v) umap \<Rightarrow> 'k \<Rightarrow> bool" where
  "umap_has m k = (umap_get m k \<noteq> None)"

text \<open>\<^verbatim>\<open>m[k] = v\<close>.\<close>

definition umap_set :: "'k \<Rightarrow> 'v \<Rightarrow> ('k, 'v) umap \<Rightarrow> ('k, 'v) umap" where
  "umap_set k v m = AList.update k v m"

text \<open>\<^verbatim>\<open>m.insert({k, v})\<close>: an existing entry is kept.\<close>

definition umap_insert :: "'k \<Rightarrow> 'v \<Rightarrow> ('k, 'v) umap \<Rightarrow> ('k, 'v) umap" where
  "umap_insert k v m = (if umap_has m k then m else AList.update k v m)"

text \<open>\<^verbatim>\<open>m.erase(k)\<close>.\<close>

definition umap_erase :: "'k \<Rightarrow> ('k, 'v) umap \<Rightarrow> ('k, 'v) umap" where
  "umap_erase k m = AList.delete k m"

section \<open>The contract of the map operations\<close>

locale dict =
  fixes get :: "'m \<Rightarrow> 'k \<Rightarrow> 'v option"
    and put :: "'k \<Rightarrow> 'v \<Rightarrow> 'm \<Rightarrow> 'm"
    and add :: "'k \<Rightarrow> 'v \<Rightarrow> 'm \<Rightarrow> 'm"
    and erase :: "'k \<Rightarrow> 'm \<Rightarrow> 'm"
    and wf :: "'m \<Rightarrow> bool"
  assumes get_put: "get (put k v m) = (get m)(k \<mapsto> v)"
    and get_add: "get (add k v m) = (if get m k = None then (get m)(k \<mapsto> v) else get m)"
    and get_erase: "wf m \<Longrightarrow> get (erase k m) = (get m)(k := None)"
    and wf_put: "wf m \<Longrightarrow> wf (put k v m)"
    and wf_add: "wf m \<Longrightarrow> wf (add k v m)"
    and wf_erase: "wf m \<Longrightarrow> wf (erase k m)"
begin

lemma get_put_list:
  "get (fold (\<lambda>(k, v). put k v) kvs m) k =
     (case map_of (rev kvs) k of Some v \<Rightarrow> Some v | None \<Rightarrow> get m k)"
  by (induction kvs arbitrary: m) (auto simp: get_put map_of_append map_add_def split: option.splits)

lemma get_add_list:
  "get (fold (\<lambda>(k, v). add k v) kvs m) k =
     (case get m k of Some v \<Rightarrow> Some v | None \<Rightarrow> map_of kvs k)"
  by (induction kvs arbitrary: m) (auto simp: get_add split: option.splits if_splits)

lemma wf_put_list: "wf m \<Longrightarrow> wf (fold (\<lambda>(k, v). put k v) kvs m)"
  by (induction kvs arbitrary: m) (auto simp: wf_put)

lemma wf_add_list: "wf m \<Longrightarrow> wf (fold (\<lambda>(k, v). add k v) kvs m)"
  by (induction kvs arbitrary: m) (auto simp: wf_add)

lemma get_add_keeps: "get m k = Some v \<Longrightarrow> get (add k' v' m) k = Some v"
  by (auto simp: get_add)

lemma get_erase_self: "wf m \<Longrightarrow> get (erase k m) k = None"
  by (simp add: get_erase)

end

interpretation um: dict umap_get umap_set umap_insert umap_erase umap_wf
  by unfold_locales
    (auto simp: umap_get_def umap_has_def umap_set_def umap_insert_def umap_erase_def umap_wf_def
      update_conv' delete_conv' distinct_update fun_eq_iff dest: distinct_delete split: option.splits)

lemma umap_has_set [simp]: "umap_has (umap_set k v m) k' \<longleftrightarrow> k' = k \<or> umap_has m k'"
  by (simp add: umap_has_def um.get_put)

lemma umap_has_erase [simp]: "umap_wf m \<Longrightarrow> umap_has (umap_erase k m) k' \<longleftrightarrow> k' \<noteq> k \<and> umap_has m k'"
  by (simp add: umap_has_def um.get_erase)

lemma umap_empty [simp]: "umap_get [] k = None" "\<not> umap_has [] k" "umap_wf []"
  by (simp_all add: umap_get_def umap_has_def umap_wf_def)

lemma umap_get_in_set: "umap_wf m \<Longrightarrow> umap_get m k = Some v \<longleftrightarrow> (k, v) \<in> set m"
  by (simp add: umap_get_def umap_wf_def)

lemma umap_has_iff: "umap_has m k \<longleftrightarrow> k \<in> fst ` set m"
  by (simp add: umap_has_def umap_get_def map_of_eq_None_iff)

declare um.wf_put [inv_intros] um.wf_add [inv_intros] um.wf_erase [inv_intros]

section \<open>Multimaps\<close>

text \<open>\<^verbatim>\<open>mm.equal_range(k)\<close>, the values of one key; \<^verbatim>\<open>mm.find(k)\<close> yields one of them.\<close>

definition ummap_range :: "('k, 'v) ummap \<Rightarrow> 'k \<Rightarrow> 'v list" where
  "ummap_range mm k = map snd (filter (\<lambda>e. fst e = k) mm)"

definition ummap_insert :: "'k \<Rightarrow> 'v \<Rightarrow> ('k, 'v) ummap \<Rightarrow> ('k, 'v) ummap" where
  "ummap_insert k v mm = mm @ [(k, v)]"

text \<open>\<open>entries m e\<close> is how often the multimap holds the entry.\<close>

locale multimap =
  fixes ins :: "'k \<Rightarrow> 'v \<Rightarrow> 'm \<Rightarrow> 'm"
    and entries :: "'m \<Rightarrow> 'k \<times> 'v \<Rightarrow> nat"
  assumes entries_ins: "entries (ins k v m) e = entries m e + (if e = (k, v) then 1 else 0)"
begin

lemma entries_fold: "entries (fold (\<lambda>(k, v). ins k v) kvs m) e = entries m e + count_list kvs e"
  by (induction kvs arbitrary: m) (auto simp: entries_ins)

lemma entries_collect:
  "entries (fold (\<lambda>x m. case f x of None \<Rightarrow> m | Some (k, v) \<Rightarrow> ins k v m) xs m) e =
     entries m e + count_list (List.map_filter f xs) e"
  by (induction xs arbitrary: m) (auto simp: entries_ins map_filter_simps split: option.split)

end

interpretation umm: multimap ummap_insert count_list
  by unfold_locales (simp add: ummap_insert_def count_list_append)

text \<open>What the reading operations yield depends on the entries alone, up to order.\<close>

lemma ummap_range_entries: "count_list (ummap_range mm k) v = count_list mm (k, v)"
  by (induction mm) (auto simp: ummap_range_def)

lemma ummap_range_length: "length (ummap_range mm k) = length (filter (\<lambda>e. fst e = k) mm)"
  by (simp add: ummap_range_def)

text \<open>A key that has one entry has one value, whatever the order.\<close>

lemma count_list_single:
  assumes "\<And>x. count_list xs x = (if x = v then 1 else 0)"
  shows "xs = [v]"
proof (cases xs)
  case Nil
  with assms [of v] show ?thesis by simp
next
  case (Cons y ys)
  with assms [of y] have y: "y = v" by (auto split: if_splits)
  have "count_list ys x = 0" for x using assms [of x] Cons y by (auto split: if_splits)
  then have "ys = []" by (metis count_list_0_iff list.set_intros(1) neq_Nil_conv)
  with Cons y show ?thesis by simp
qed

lemma count_list_unique:
  assumes "distinct (map fst kvs)" and "(k, v) \<in> set kvs"
  shows "count_list kvs (k, x) = (if x = v then 1 else 0)"
proof -
  have "distinct kvs" using assms(1) by (simp add: distinct_map)
  moreover have "(k, x) \<in> set kvs \<longleftrightarrow> x = v" using assms eq_key_imp_eq_value by fastforce
  moreover have "distinct xs \<Longrightarrow> count_list xs y = (if y \<in> set xs then 1 else 0)" for xs :: "('a \<times> 'b) list" and y
    by (induction xs) (auto simp: count_list_0_iff)
  ultimately show ?thesis by simp
qed

lemma ummap_range_unique:
  assumes "\<And>e. count_list mm e = count_list kvs e" and "distinct (map fst kvs)" and "(k, v) \<in> set kvs"
  shows "ummap_range mm k = [v]"
  by (rule count_list_single) (simp add: ummap_range_entries assms(1) count_list_unique [OF assms(2,3)])

lemma ummap_range_Nil_iff: "ummap_range mm k = [] \<longleftrightarrow> k \<notin> fst ` set mm"
  by (auto simp: ummap_range_def filter_empty_conv image_iff)

lemma map_of_ummap_range: "map_of mm k = (case ummap_range mm k of [] \<Rightarrow> None | v # _ \<Rightarrow> Some v)"
  by (induction mm) (auto simp: ummap_range_def)

end
