(* ===== verification/Numbers.thy ===== *)
theory Numbers
  imports Prelude
begin

text \<open>
  Numbers as text: what the code uses of \<^verbatim>\<open>std::to_string\<close>, \<^verbatim>\<open>operator<<\<close> on integers, the
  \<^verbatim>\<open>hex\<close> manipulator on one byte, and \<^verbatim>\<open>std::stoul\<close> / \<^verbatim>\<open>std::stol\<close> (C's \<^verbatim>\<open>strtoul\<close> and
  \<^verbatim>\<open>strtol\<close>): leading white space is skipped, a sign is accepted, the longest run of digits is
  read and the rest ignored; no digit is \<open>InvalidArgument\<close>, a value out of range \<open>OutOfRange\<close>.
  \<^verbatim>\<open>unsigned long\<close> and \<^verbatim>\<open>long\<close> have 64 bits.
\<close>

section \<open>Digits\<close>

definition digit_char :: "nat \<Rightarrow> char" where
  "digit_char d = (if d < 10 then char_of (48 + d) else char_of (87 + d))"

definition digit_val :: "char \<Rightarrow> nat option" where
  "digit_val c =
     (if is_digit c then Some (code c - 48)
      else if is_upper c then Some (code c - 55)
      else if is_lower c then Some (code c - 87)
      else None)"

definition base_digit :: "nat \<Rightarrow> char \<Rightarrow> nat option" where
  "base_digit b c = (case digit_val c of Some d \<Rightarrow> (if d < b then Some d else None) | None \<Rightarrow> None)"

text \<open>\<^verbatim>\<open>std::to_string\<close> of an unsigned value.\<close>

fun dec :: "nat \<Rightarrow> string" where
  "dec n = (if n < 10 then [digit_char n] else dec (n div 10) @ [digit_char (n mod 10)])"

declare dec.simps [simp del]

definition dec_int :: "int \<Rightarrow> string" where
  "dec_int i = (if i < 0 then CHR ''-'' # dec (nat (- i)) else dec (nat i))"

text \<open>One byte under \<^verbatim>\<open>hex << setfill('0') << setw(2)\<close>.\<close>

definition hex2 :: "char \<Rightarrow> string" where
  "hex2 c = [digit_char (code c div 16), digit_char (code c mod 16)]"

section \<open>stoul and stol\<close>

fun read_digits :: "nat \<Rightarrow> nat \<Rightarrow> string \<Rightarrow> nat" where
  "read_digits b acc [] = acc"
| "read_digits b acc (c # s) =
     (case base_digit b c of None \<Rightarrow> acc | Some d \<Rightarrow> read_digits b (b * acc + d) s)"

definition starts_digit :: "nat \<Rightarrow> string \<Rightarrow> bool" where
  "starts_digit b s = (case s of [] \<Rightarrow> False | c # _ \<Rightarrow> base_digit b c \<noteq> None)"

definition skip_0x :: "nat \<Rightarrow> string \<Rightarrow> string" where
  "skip_0x b s =
     (if b = 16 \<and> 2 \<le> length s \<and> s ! 0 = CHR ''0'' \<and> (s ! 1 = CHR ''x'' \<or> s ! 1 = CHR ''X'')
         \<and> starts_digit 16 (drop 2 s)
      then drop 2 s else s)"

text \<open>The sign and the magnitude, or \<open>None\<close> if there is no number.\<close>

definition parse_int :: "nat \<Rightarrow> string \<Rightarrow> (bool \<times> nat) option" where
  "parse_int b s =
     (let s1 = dropWhile is_space s;
          neg = (s1 \<noteq> [] \<and> hd s1 = CHR ''-'');
          s2 = (if s1 \<noteq> [] \<and> (hd s1 = CHR ''-'' \<or> hd s1 = CHR ''+'') then tl s1 else s1);
          s3 = skip_0x b s2
      in if starts_digit b s3 then Some (neg, read_digits b 0 s3) else None)"

definition stoul :: "nat \<Rightarrow> string \<Rightarrow> nat result" where
  "stoul b s =
     (case parse_int b s of
        None \<Rightarrow> Inl InvalidArgument
      | Some (neg, n) \<Rightarrow>
          (if 2 ^ 64 \<le> n then Inl OutOfRange
           else Inr (if neg then (2 ^ 64 - n) mod 2 ^ 64 else n)))"

definition stol :: "nat \<Rightarrow> string \<Rightarrow> int result" where
  "stol b s =
     (case parse_int b s of
        None \<Rightarrow> Inl InvalidArgument
      | Some (neg, n) \<Rightarrow>
          (let i = (if neg then - int n else int n)
           in if i < - (2 ^ 63) \<or> 2 ^ 63 \<le> i then Inl OutOfRange else Inr i))"

section \<open>Lemmas\<close>

lemma code_less [simp]: "code c < 256"
  using nat_of_char_less_256 [of c] by simp

lemma char_of_code [simp]: "char_of (code c) = c"
  by simp

lemma code_char_of: "n < 256 \<Longrightarrow> code (char_of n) = n"
  by simp

lemma code_ineq_facts:
  "is_upper c \<longleftrightarrow> 65 \<le> code c \<and> code c \<le> 90"
  "is_lower c \<longleftrightarrow> 97 \<le> code c \<and> code c \<le> 122"
  "is_digit c \<longleftrightarrow> 48 \<le> code c \<and> code c \<le> 57"
  by (simp_all add: is_upper_def is_lower_def is_digit_def less_eq_char_def)

lemma digit_val_digit_char: "d < 36 \<Longrightarrow> digit_val (digit_char d) = Some d"
  by (simp add: digit_val_def digit_char_def code_ineq_facts)

lemma base_digit_digit_char: "d < b \<Longrightarrow> b \<le> 36 \<Longrightarrow> base_digit b (digit_char d) = Some d"
  by (simp add: base_digit_def digit_val_digit_char)

lemma read_digits_append_digit:
  "(\<And>c. c \<in> set s \<Longrightarrow> base_digit b c \<noteq> None) \<Longrightarrow>
     read_digits b acc (s @ t) = read_digits b (read_digits b acc s) t"
  by (induction s arbitrary: acc) (fastforce split: option.splits)+

lemma set_dec: "c \<in> set (dec n) \<Longrightarrow> base_digit 10 c \<noteq> None"
  by (induction n rule: dec.induct)
    (subst (asm) (2) dec.simps, auto simp: base_digit_digit_char split: if_splits)

lemma dec_not_Nil [simp]: "dec n \<noteq> []"
  by (subst dec.simps) simp

lemma read_digits_dec: "read_digits 10 0 (dec n) = n"
proof (induction n rule: dec.induct)
  case (1 n)
  show ?case
  proof (cases "n < 10")
    case True
    then show ?thesis by (simp add: dec.simps [of n] base_digit_digit_char)
  next
    case False
    with 1 show ?thesis
      by (simp add: dec.simps [of n] read_digits_append_digit set_dec base_digit_digit_char)
  qed
qed

lemma starts_digit_dec [simp]: "starts_digit 10 (dec n)"
  using set_dec [of "hd (dec n)" n] by (cases "dec n") (auto simp: starts_digit_def)

lemma base_digit_not_sign:
  "base_digit 10 c \<noteq> None \<Longrightarrow> c \<noteq> CHR ''-'' \<and> c \<noteq> CHR ''+'' \<and> \<not> is_space c"
  by (auto simp: base_digit_def digit_val_def code_ineq_facts is_space_def
      split: if_splits option.splits)

lemma parse_int_dec: "parse_int 10 (dec n) = Some (False, n)"
proof -
  obtain c s where d: "dec n = c # s" by (cases "dec n") auto
  then have "base_digit 10 c \<noteq> None" using set_dec [of c n] by simp
  then have c: "c \<noteq> CHR ''-''" "c \<noteq> CHR ''+''" "\<not> is_space c"
    using base_digit_not_sign by blast+
  then have "parse_int 10 (c # s) = (if starts_digit 10 (c # s) then Some (False, read_digits 10 0 (c # s)) else None)"
    by (simp add: parse_int_def skip_0x_def Let_def)
  with d show ?thesis using read_digits_dec [of n] starts_digit_dec [of n] by simp
qed

lemma stoul_dec: "n < 2 ^ 64 \<Longrightarrow> stoul 10 (dec n) = Inr n"
  by (simp add: stoul_def parse_int_dec)

lemma stoul_empty: "stoul b [] = Inl InvalidArgument"
  by (simp add: stoul_def parse_int_def skip_0x_def starts_digit_def)

end
