(* ===== verification/Regex.thy ===== *)
theory Regex
  imports Prelude "HOL-Library.Sublist"
begin

text \<open>
  \<^verbatim>\<open>std::regex\<close> in its default ECMAScript grammar, as far as the code uses it: the patterns of
  the sources are terms of the datatype \<open>rx\<close>, and \<open>rx_run\<close> lists all ways a pattern matches at
  the start of a string, the preferred one (leftmost alternative, greedy or lazy repetition)
  first. \<^verbatim>\<open>regex_match\<close>, \<^verbatim>\<open>regex_search\<close> and \<^verbatim>\<open>regex_token_iterator\<close> are defined from it. A
  character class is a list of ranges, possibly negated, so a pattern reads like its source.
\<close>

datatype rx =
    RSet bool "(char \<times> char) list"  \<comment> \<open>negated?, ranges\<close>
  | RSeq rx rx
  | RAlt rx rx
  | REps
  | RGroup nat rx
  | RRep nat "nat option" bool rx  \<comment> \<open>at least, at most, greedy?\<close>

definition in_ranges :: "(char \<times> char) list \<Rightarrow> char \<Rightarrow> bool" where
  "in_ranges rs c = list_ex (\<lambda>(lo, hi). lo \<le> c \<and> c \<le> hi) rs"

abbreviation RChr :: "char \<Rightarrow> rx" where
  "RChr c \<equiv> RSet False [(c, c)]"

fun RStr :: "string \<Rightarrow> rx" where
  "RStr [] = REps"
| "RStr (c # s) = RSeq (RChr c) (RStr s)"

definition chars :: "string \<Rightarrow> (char \<times> char) list" where
  "chars s = map (\<lambda>c. (c, c)) s"

abbreviation RStar :: "rx \<Rightarrow> rx" where "RStar r \<equiv> RRep 0 None True r"
abbreviation RPlus :: "rx \<Rightarrow> rx" where "RPlus r \<equiv> RRep 1 None True r"
abbreviation ROpt :: "rx \<Rightarrow> rx" where "ROpt r \<equiv> RRep 0 (Some 1) True r"

text \<open>A state of the matcher: the rest of the input and the captured groups, the last first.\<close>

type_synonym caps = "(nat \<times> string) list"
type_synonym mstate = "string \<times> caps"

fun rep_min :: "(mstate \<Rightarrow> mstate list) \<Rightarrow> nat \<Rightarrow> mstate \<Rightarrow> mstate list" where
  "rep_min f 0 st = [st]"
| "rep_min f (Suc n) st = concat (map (rep_min f n) (f st))"

text \<open>Up to \<open>n\<close> further rounds; a round that consumes nothing ends the repetition.\<close>

fun rep_opt :: "(mstate \<Rightarrow> mstate list) \<Rightarrow> bool \<Rightarrow> nat \<Rightarrow> mstate \<Rightarrow> mstate list" where
  "rep_opt f g 0 st = [st]"
| "rep_opt f g (Suc n) st =
     (let more = concat (map (rep_opt f g n) (filter (\<lambda>st'. length (fst st') < length (fst st)) (f st)))
      in if g then more @ [st] else st # more)"

definition rep_rounds :: "nat \<Rightarrow> nat option \<Rightarrow> string \<Rightarrow> nat" where
  "rep_rounds lo hi s = (case hi of None \<Rightarrow> length s | Some h \<Rightarrow> min (h - lo) (length s))"

primrec rx_run :: "rx \<Rightarrow> mstate \<Rightarrow> mstate list" where
  "rx_run (RSet neg rs) st =
     (case fst st of [] \<Rightarrow> [] | c # t \<Rightarrow> (if in_ranges rs c \<noteq> neg then [(t, snd st)] else []))"
| "rx_run (RSeq a b) st = concat (map (rx_run b) (rx_run a st))"
| "rx_run (RAlt a b) st = rx_run a st @ rx_run b st"
| "rx_run REps st = [st]"
| "rx_run (RGroup k a) st =
     map (\<lambda>st'. (fst st', (k, take (length (fst st) - length (fst st')) (fst st)) # snd st')) (rx_run a st)"
| "rx_run (RRep lo hi g a) st =
     concat (map (\<lambda>st'. rep_opt (rx_run a) g (rep_rounds lo hi (fst st')) st') (rep_min (rx_run a) lo st))"

text \<open>\<^verbatim>\<open>mark_count()\<close>: the number of groups.\<close>

primrec rx_marks :: "rx \<Rightarrow> nat" where
  "rx_marks (RSet neg rs) = 0"
| "rx_marks (RSeq a b) = rx_marks a + rx_marks b"
| "rx_marks (RAlt a b) = rx_marks a + rx_marks b"
| "rx_marks REps = 0"
| "rx_marks (RGroup k a) = Suc (rx_marks a)"
| "rx_marks (RRep lo hi g a) = rx_marks a"

text \<open>\<^verbatim>\<open>match[k].str()\<close>: a group that took no part in the match is the empty string.\<close>

definition cap :: "caps \<Rightarrow> nat \<Rightarrow> string" where
  "cap cs k = (case map_of cs k of Some s \<Rightarrow> s | None \<Rightarrow> [])"

definition regex_match :: "rx \<Rightarrow> string \<Rightarrow> caps option" where
  "regex_match r s = map_option snd (List.find (\<lambda>st. fst st = []) (rx_run r (s, [])))"

text \<open>The leftmost match: prefix, matched text, groups, suffix.\<close>

fun rx_search :: "rx \<Rightarrow> string \<Rightarrow> (string \<times> string \<times> caps \<times> string) option" where
  "rx_search r [] =
     (case rx_run r ([], []) of [] \<Rightarrow> None | st # _ \<Rightarrow> Some ([], [], snd st, []))"
| "rx_search r (c # s) =
     (case rx_run r (c # s, []) of
        st # _ \<Rightarrow> Some ([], take (length (c # s) - length (fst st)) (c # s), snd st, fst st)
      | [] \<Rightarrow> map_option (\<lambda>(pre, m, cs, suf). (c # pre, m, cs, suf)) (rx_search r s))"

section \<open>The matcher only consumes\<close>

definition consumes :: "(mstate \<Rightarrow> mstate list) \<Rightarrow> bool" where
  "consumes f \<longleftrightarrow> (\<forall>st. \<forall>st' \<in> set (f st). suffix (fst st') (fst st))"

lemma consumesI: "(\<And>st st'. st' \<in> set (f st) \<Longrightarrow> suffix (fst st') (fst st)) \<Longrightarrow> consumes f"
  unfolding consumes_def by blast

lemma consumesD: "consumes f \<Longrightarrow> st' \<in> set (f st) \<Longrightarrow> suffix (fst st') (fst st)"
  unfolding consumes_def by blast

lemma consumes_bind:
  assumes f: "consumes f" and g: "\<And>st. consumes (g st)"
  shows "consumes (\<lambda>st. concat (map (\<lambda>st'. g st' st') (f st)))"
proof (rule consumesI)
  fix st st' assume "st' \<in> set (concat (map (\<lambda>st'. g st' st') (f st)))"
  then obtain st1 where 1: "st1 \<in> set (f st)" "st' \<in> set (g st1 st1)" by auto
  from consumesD [OF g 1(2)] consumesD [OF f 1(1)] show "suffix (fst st') (fst st)"
    by (rule suffix_order.trans)
qed

lemma rep_min_consumes: "consumes f \<Longrightarrow> consumes (rep_min f n)"
proof (induction n)
  case 0
  then show ?case by (simp add: consumes_def)
next
  case (Suc n)
  from consumes_bind [OF Suc.prems, of "\<lambda>_. rep_min f n", OF Suc.IH [OF Suc.prems]]
  show ?case unfolding consumes_def rep_min.simps .
qed

lemma rep_opt_consumes: "consumes f \<Longrightarrow> consumes (rep_opt f g n)"
proof (induction n)
  case 0
  then show ?case by (simp add: consumes_def)
next
  case (Suc n)
  note IH = Suc.IH [OF Suc.prems]
  show ?case
  proof (rule consumesI)
    fix st st' assume "st' \<in> set (rep_opt f g (Suc n) st)"
    then consider "st' = st" | st1 where "st1 \<in> set (f st)" "st' \<in> set (rep_opt f g n st1)"
      by (auto simp: Let_def split: if_splits)
    then show "suffix (fst st') (fst st)"
    proof cases
      case 2
      from consumesD [OF IH 2(2)] consumesD [OF Suc.prems 2(1)] show ?thesis
        by (rule suffix_order.trans)
    qed simp
  qed
qed

lemma rx_run_consumes: "consumes (rx_run r)"
proof (induction r)
  case (RSet neg rs)
  then show ?case
    by (auto simp: consumes_def suffix_ConsI split: list.splits if_splits)
next
  case (RSeq r1 r2)
  from consumes_bind [OF RSeq(1), of "\<lambda>_. rx_run r2", OF RSeq(2)] show ?case
    unfolding consumes_def rx_run.simps .
next
  case (RAlt r1 r2)
  show ?case
    by (rule consumesI) (auto dest: consumesD [OF RAlt(1)] consumesD [OF RAlt(2)])
next
  case REps
  show ?case by (simp add: consumes_def)
next
  case (RGroup k r)
  show ?case by (rule consumesI) (auto dest: consumesD [OF RGroup])
next
  case (RRep lo hi g r)
  from consumes_bind [OF rep_min_consumes [OF RRep, of lo],
      of "\<lambda>st'. rep_opt (rx_run r) g (rep_rounds lo hi (fst st'))", OF rep_opt_consumes [OF RRep]]
  show ?case unfolding consumes_def rx_run.simps .
qed

lemma rx_run_suffix: "st' \<in> set (rx_run r st) \<Longrightarrow> \<exists>p. fst st = p @ fst st'"
  using consumesD [OF rx_run_consumes] by (auto simp: suffix_def)

lemma rx_run_cut:
  assumes "rx_run r (s, cs) = st # sts"
  shows "take (length s - length (fst st)) s @ fst st = s"
proof -
  obtain p where "s = p @ fst st" using rx_run_suffix [of st r "(s, cs)"] assms by auto
  then show ?thesis by simp
qed

lemma rx_search_split: "rx_search r s = Some (pre, m, cs, suf) \<Longrightarrow> s = pre @ m @ suf"
proof (induction s arbitrary: pre)
  case Nil
  then show ?case by (auto split: list.splits)
next
  case (Cons c s)
  show ?case
  proof (cases "rx_run r (c # s, [])")
    case Nil
    with Cons.prems obtain pre' where "pre = c # pre'" "rx_search r s = Some (pre', m, cs, suf)"
      by auto
    with Cons.IH show ?thesis by simp
  next
    case (Cons st sts)
    then have "take (length (c # s) - length (fst st)) (c # s) @ fst st = c # s"
      by (rule rx_run_cut)
    with Cons Cons.prems show ?thesis by auto
  qed
qed

section \<open>Tokens\<close>

text \<open>
  \<^verbatim>\<open>sregex_token_iterator(begin, end, r, {-1, 0, .., marks})\<close>: for each match its prefix, the
  match and its groups, and after the last match the suffix, if it is not empty or there was no
  match at all. After an empty match the iterator first tries a non-empty match at the same
  place and else searches on from the next character (\<open>after_empty\<close>).
\<close>

definition rx_nonempty_here :: "rx \<Rightarrow> string \<Rightarrow> (string \<times> caps \<times> string) option" where
  "rx_nonempty_here r s =
     (case filter (\<lambda>st. length (fst st) < length s) (rx_run r (s, [])) of
        [] \<Rightarrow> None
      | st # _ \<Rightarrow> Some (take (length s - length (fst st)) s, snd st, fst st))"

definition rx_next :: "rx \<Rightarrow> bool \<Rightarrow> string \<Rightarrow> (string \<times> string \<times> caps \<times> string) option" where
  "rx_next r after_empty s =
     (if \<not> after_empty then rx_search r s
      else (case s of
              [] \<Rightarrow> None
            | c # t \<Rightarrow>
                (case rx_nonempty_here r s of
                   Some (m, cs, suf) \<Rightarrow> Some ([], m, cs, suf)
                 | None \<Rightarrow> map_option (\<lambda>(pre, m, cs, suf). (c # pre, m, cs, suf)) (rx_search r t))))"

lemma rx_nonempty_here_split:
  assumes "rx_nonempty_here r s = Some (m, cs, suf)"
  shows "s = m @ suf \<and> m \<noteq> []"
proof (cases "filter (\<lambda>st. length (fst st) < length s) (rx_run r (s, []))")
  case Nil
  with assms show ?thesis by (simp add: rx_nonempty_here_def)
next
  case (Cons st sts)
  then have "st \<in> set (filter (\<lambda>st. length (fst st) < length s) (rx_run r (s, [])))" by simp
  then have "st \<in> set (rx_run r (s, []))" and l: "length (fst st) < length s" by auto
  with rx_run_suffix [of st r "(s, [])"] obtain p where "s = p @ fst st" by auto
  with Cons l assms show ?thesis by (auto simp: rx_nonempty_here_def)
qed

lemma rx_next_split:
  assumes "rx_next r e s = Some (pre, m, cs, suf)"
  shows "s = pre @ m @ suf \<and> (e \<longrightarrow> pre @ m \<noteq> [])"
proof (cases "\<not> e")
  case True
  with assms show ?thesis by (simp add: rx_next_def rx_search_split)
next
  case False
  with assms obtain c t where s: "s = c # t" by (cases s) (auto simp: rx_next_def)
  show ?thesis
  proof (cases "rx_nonempty_here r s")
    case None
    with assms False s obtain pre' where "pre = c # pre'" "rx_search r t = Some (pre', m, cs, suf)"
      by (auto simp: rx_next_def)
    with s show ?thesis using rx_search_split by fastforce
  next
    case (Some q)
    with assms False s have "pre = []" "rx_nonempty_here r s = Some (m, cs, suf)"
      by (cases q; simp add: rx_next_def)+
    then show ?thesis using rx_nonempty_here_split by fastforce
  qed
qed

function rx_matches :: "rx \<Rightarrow> bool \<Rightarrow> string \<Rightarrow> (string \<times> string \<times> caps) list \<times> string" where
  "rx_matches r e s =
     (case rx_next r e s of
        None \<Rightarrow> ([], s)
      | Some (pre, m, cs, suf) \<Rightarrow>
          (let (ms, rest) = rx_matches r (m = []) suf in ((pre, m, cs) # ms, rest)))"
  by pat_completeness auto
termination
  by (relation "measure (\<lambda>(r, e, s). 2 * length s + (if e then 0 else 1))")
    (auto dest!: rx_next_split simp flip: length_greater_0_conv)

declare rx_matches.simps [simp del]

definition token_list :: "rx \<Rightarrow> string \<Rightarrow> string list" where
  "token_list r s =
     (let (ms, rest) = rx_matches r False s
      in concat (map (\<lambda>(pre, m, cs). pre # m # map (cap cs) [1..<Suc (rx_marks r)]) ms)
         @ (if rest \<noteq> [] \<or> ms = [] then [rest] else []))"

section \<open>Character classes\<close>

lemma in_ranges_simps [simp]:
  "\<not> in_ranges [] c"
  "in_ranges ((lo, hi) # rs) c \<longleftrightarrow> (lo \<le> c \<and> c \<le> hi) \<or> in_ranges rs c"
  by (simp_all add: in_ranges_def)

lemma in_ranges_chars [simp]: "in_ranges (chars s) c \<longleftrightarrow> c \<in> set s"
  by (auto simp: in_ranges_def chars_def list_ex_iff)

lemma in_ranges_append [simp]: "in_ranges (xs @ ys) c \<longleftrightarrow> in_ranges xs c \<or> in_ranges ys c"
  by (simp add: in_ranges_def)

lemma in_ranges_single [simp]: "in_ranges [(a, a)] c \<longleftrightarrow> c = a"
  by auto

end
