(* ===== verification/Tables.thy ===== *)
theory Tables
  imports Containers
begin

text \<open>
  The two constant tables of \<^verbatim>\<open>src/util/utils.cpp\<close>: the MIME type of a file extension and the
  title and explanation of an error page.
\<close>

definition contentTypeMap :: "(string, string) umap" where
  "contentTypeMap = [
     (''aac'', ''audio/aac''),
     (''arc'', ''application/x-freearc''),
     (''avi'', ''video/x-msvideo''),
     (''azw'', ''application/vnd.amazon.ebook''),
     (''bmp'', ''image/bmp''),
     (''bz'', ''application/x-bzip''),
     (''bz2'', ''application/x-bzip2''),
     (''csh'', ''application/x-csh''),
     (''css'', ''text/css''),
     (''csv'', ''text/csv''),
     (''deb'', ''application/vnd.debian.binary-package''),
     (''doc'', ''application/msword''),
     (''dot'', ''application/msword''),
     (''docx'', ''application/vnd.openxmlformats-officedocument.wordprocessingml.document''),
     (''dotx'', ''application/vnd.openxmlformats-officedocument.wordprocessingml.document''),
     (''eot'', ''application/vnd.ms-fontobject''),
     (''epub'', ''application/epub+zip''),
     (''flv'', ''video/x-flv''),
     (''f4v'', ''video/mp4''),
     (''f4a'', ''audio/mp4''),
     (''gif'', ''image/gif''),
     (''gz'', ''application/x-gzip''),
     (''htm'', ''text/html''),
     (''html'', ''text/html''),
     (''ico'', ''image/vnd.microsoft.icon''),
     (''ics'', ''text/calendar''),
     (''jar'', ''application/java-archive''),
     (''java'', ''text/plain''),
     (''jpg'', ''image/jpeg''),
     (''jpeg'', ''image/jpeg''),
     (''js'', ''text/javascript''),
     (''json'', ''application/json''),
     (''mid'', ''audio/x-midi''),
     (''midi'', ''audio/x-midi''),
     (''mjs'', ''application/javascript''),
     (''mp3'', ''audio/mpeg''),
     (''mpeg'', ''video/mpeg''),
     (''mp4'', ''application/mp4''),
     (''m4v'', ''video/mp4''),
     (''m4a'', ''audio/mp4''),
     (''mpkg'', ''application/vnd.apple.installer+xml''),
     (''odp'', ''application/vnd.oasis.opendocument.presentation''),
     (''otp'', ''application/vnd.oasis.opendocument.presentation''),
     (''ods'', ''application/vnd.oasis.opendocument.spreadsheet''),
     (''ots'', ''application/vnd.oasis.opendocument.spreadsheet''),
     (''odt'', ''application/vnd.oasis.opendocument.text''),
     (''ott'', ''application/vnd.oasis.opendocument.text''),
     (''ogg'', ''application/ogg''),
     (''ogx'', ''application/ogg''),
     (''oga'', ''audio/ogg''),
     (''ogv'', ''video/ogg''),
     (''otf'', ''font/otf''),
     (''png'', ''image/png''),
     (''pdf'', ''application/pdf''),
     (''ppt'', ''application/vnd.ms-powerpoint''),
     (''pptx'', ''application/vnd.openxmlformats-officedocument.presentationml.presentation''),
     (''rar'', ''application/x-rar-compressed''),
     (''rtf'', ''application/rtf''),
     (''sh'', ''application/x-sh''),
     (''svg'', ''image/svg+xml''),
     (''swf'', ''application/x-shockwave-flash''),
     (''tar'', ''application/x-tar''),
     (''tif'', ''image/tiff''),
     (''tiff'', ''image/tiff''),
     (''ttf'', ''font/ttf''),
     (''txt'', ''text/plain''),
     (''vsd'', ''application/vnd.visio''),
     (''wav'', ''audio/wav''),
     (''weba'', ''audio/webm''),
     (''webm'', ''video/webm''),
     (''webp'', ''image/webp''),
     (''woff'', ''font/woff''),
     (''woff2'', ''font/woff2''),
     (''xhtml'', ''application/xhtml+xml''),
     (''xls'', ''application/vnd.ms-excel''),
     (''xlt'', ''application/vnd.ms-excel''),
     (''xlsx'', ''application/vnd.openxmlformats-officedocument.spreadsheetml.sheet''),
     (''xltx'', ''application/vnd.openxmlformats-officedocument.spreadsheetml.sheet''),
     (''xml'', ''application/xml''),
     (''xul'', ''application/vnd.mozilla.xul+xml''),
     (''xz'', ''application/x-xz''),
     (''zip'', ''application/zip''),
     (''3gp'', ''video/3gpp''),
     (''3g2'', ''video/3gpp2''),
     (''7z'', ''application/x-7z-compressed'')]"

definition errorPageTexts :: "nat \<Rightarrow> string \<times> string" where
  "errorPageTexts httpStatus =
     (if httpStatus = 400 then
       (''Bad Request'',
        ''The server cannot process your request.'')
      else if httpStatus = 401 then
       (''Unauthorized'',
        ''The necessary credentials have not been provided.'')
      else if httpStatus = 403 then
       (''Forbidden'',
        ''You do not have the necessary permissions to view this page.'')
      else if httpStatus = 404 then
       (''Not Found'',
        ''The requested URL was not found on this server.'')
      else if httpStatus = 405 then
       (''Method Not Allowed'',
        ''The used request method is not supported for the requested resource.'')
      else if httpStatus = 406 then
       (''Not Applicable'',
        ''The requested function is unable to produce a resource that satisfies your browser's Accept header.'')
      else if httpStatus = 408 then
       (''Request Timeout'',
        ''A timeout occurred while waiting for your request.'')
      else if httpStatus = 409 then
       (''Conflict'',
        ''The request cannot be processed due to a conflict on the underlying resource.'')
      else if httpStatus = 410 then
       (''Gone'',
        ''The requested resource is no longer available.'')
      else if httpStatus = 415 then
       (''Unsupported Media Type'',
        ''Your browser has requested a media type that cannot be provided by this resource.'')
      else if httpStatus = 418 then
       (''I'm a teapot'',
        ''I cannot brew coffee for you.'')
      else if httpStatus = 429 then
       (''Too Many Requests'',
        '''')
      else if httpStatus = 451 then
       (''Unavailable For Legal Reasons'',
        '''')
      else if httpStatus = 500 then
       (''Internal Server Error'',
        ''The server encountered an internal error and is unable to fulfill your request.'')
      else if httpStatus = 501 then
       (''Not Implemented'',
        ''The server is not able to fulfill your request.'')
      else if httpStatus = 503 then
       (''Service Unavailable'',
        ''This service is currently unavailable. Please try again later.'')
      else (''Unknown Error'', ''''))"

lemma contentTypeMap_wf: "umap_wf contentTypeMap"
  unfolding umap_wf_def contentTypeMap_def by code_simp

end
