(* ===== verification/Utils.thy ===== *)
theory Utils
  imports Containers Numbers Regex Tables
begin

text \<open>
  The string and path functions of \<^verbatim>\<open>src/util/utils.cpp\<close>: case conversion, hex dump, error
  pages, content types, splitting and merging of strings and paths, line endings, and the
  replacement functions (by character, by string, by regular expression with a callback).
  A file system is a function from paths to contents. The lemmas give the reference behaviour
  of each loop.
\<close>

section \<open>regexReplaceCallback\<close>

text \<open>
  The loop over the token list: \<open>sub = None\<close> is \<^verbatim>\<open>submatch == -1\<close> (the token is a prefix),
  \<open>vec\<close> is \<^verbatim>\<open>submatchVector\<close>. The callback may throw.
\<close>

fun rrc_loop :: "nat \<Rightarrow> (string list \<Rightarrow> string result) \<Rightarrow> string list \<Rightarrow> nat option \<Rightarrow>
    string list \<Rightarrow> string \<Rightarrow> string result" where
  "rrc_loop marks fmt [] sub vec out = Inr out"
| "rrc_loop marks fmt (t # ts) None vec out = rrc_loop marks fmt ts (Some 0) vec (out @ t)"
| "rrc_loop marks fmt (t # ts) (Some k) vec out =
     (if k < marks then rrc_loop marks fmt ts (Some (Suc k)) (vec @ [t]) out
      else bind_result (fmt (vec @ [t])) (\<lambda>o1. rrc_loop marks fmt ts None [] (out @ o1)))"

definition regexReplaceCallback ::
    "string \<Rightarrow> rx \<Rightarrow> (string list \<Rightarrow> string result) \<Rightarrow> string result" where
  "regexReplaceCallback s rgx fmt = rrc_loop (rx_marks rgx) fmt (token_list rgx s) None [] []"

text \<open>The reference: each match is replaced by what the callback makes of it and its groups.\<close>

fun replace_matches :: "nat \<Rightarrow> (string list \<Rightarrow> string result) \<Rightarrow> (string \<times> string \<times> caps) list \<Rightarrow>
    string \<Rightarrow> string result" where
  "replace_matches marks fmt [] rest = Inr rest"
| "replace_matches marks fmt ((pre, m, cs) # ms) rest =
     bind_result (fmt (m # map (cap cs) [1..<Suc marks])) (\<lambda>o1.
     bind_result (replace_matches marks fmt ms rest) (\<lambda>o2. Inr (pre @ o1 @ o2)))"

lemma rrc_loop_groups:
  "length ts = Suc marks - k \<Longrightarrow> k \<le> marks \<Longrightarrow>
     rrc_loop marks fmt (ts @ us) (Some k) vec out =
       bind_result (fmt (vec @ ts)) (\<lambda>o1. rrc_loop marks fmt us None [] (out @ o1))"
proof (induction "marks - k" arbitrary: k ts vec)
  case 0
  then obtain t where "ts = [t]" by (cases ts) auto
  with 0 show ?case by simp
next
  case (Suc n)
  then obtain t ts' where ts: "ts = t # ts'" by (cases ts) auto
  have "k < marks" using Suc.hyps(2) by simp
  with ts Suc.prems Suc.hyps(2) Suc.hyps(1) [of "Suc k" ts' "vec @ [t]"] show ?case by simp
qed

lemma rrc_loop_eq_replace:
  "rrc_loop marks fmt
      (concat (map (\<lambda>(pre, m, cs). pre # m # map (cap cs) [1..<Suc marks]) ms)
        @ (if rest \<noteq> [] \<or> q then [rest] else [])) None [] out =
     bind_result (replace_matches marks fmt ms rest) (\<lambda>o1. Inr (out @ o1))"
proof (induction ms arbitrary: out)
  case Nil
  then show ?case by auto
next
  case (Cons x ms)
  obtain pre m cs where x: "x = (pre, m, cs)" by (cases x)
  let ?g = "map (cap cs) [1..<Suc marks]"
  have l: "length (m # ?g) = Suc marks - 0" by simp
  note step = rrc_loop_groups [OF l, of fmt _ "[]" "out @ pre"]
  show ?case
    using Cons.IH by (cases "fmt (m # ?g)"; cases "replace_matches marks fmt ms rest")
      (simp_all add: x step [simplified])
qed

theorem regexReplaceCallback_reference:
  "regexReplaceCallback s rgx fmt =
     (let (ms, rest) = rx_matches rgx False s in replace_matches (rx_marks rgx) fmt ms rest)"
proof -
  obtain ms rest where m: "rx_matches rgx False s = (ms, rest)" by (cases "rx_matches rgx False s")
  show ?thesis
    using rrc_loop_eq_replace [of "rx_marks rgx" fmt ms rest "ms = []" "[]"]
    by (cases "replace_matches (rx_marks rgx) fmt ms rest")
      (simp_all add: regexReplaceCallback_def token_list_def m)
qed

text \<open>The two rules that evaluate a replacement from left to right.\<close>

lemma rrc_skip:
  assumes "rx_run rgx (c # s, []) = []"
  shows "regexReplaceCallback (c # s) rgx fmt =
    bind_result (regexReplaceCallback s rgx fmt) (\<lambda>o1. Inr (c # o1))"
proof -
  have n: "rx_next rgx False (c # s) =
      map_option (\<lambda>(pre, m, cs, suf). (c # pre, m, cs, suf)) (rx_next rgx False s)"
    using assms by (simp add: rx_next_def)
  show ?thesis
  proof (cases "rx_next rgx False s")
    case None
    then show ?thesis
      unfolding regexReplaceCallback_reference rx_matches.simps [of rgx False "c # s"]
        rx_matches.simps [of rgx False s] n by simp
  next
    case (Some q)
    obtain pre m cs suf where q: "q = (pre, m, cs, suf)" by (cases q)
    obtain ms rest where r: "rx_matches rgx (m = []) suf = (ms, rest)"
      by (cases "rx_matches rgx (m = []) suf")
    show ?thesis
      unfolding regexReplaceCallback_reference rx_matches.simps [of rgx False "c # s"]
        rx_matches.simps [of rgx False s] n Some q
      by (cases "fmt (m # map (cap cs) [1..<Suc (rx_marks rgx)])";
          cases "replace_matches (rx_marks rgx) fmt ms rest") (simp_all add: r)
  qed
qed

lemma rx_search_here:
  "rx_run rgx (s, []) = st # sts \<Longrightarrow>
     rx_search rgx s = Some ([], take (length s - length (fst st)) s, snd st, fst st)"
  using rx_run_suffix [of st rgx "(s, [])"] by (cases s) auto

lemma rrc_match:
  assumes "rx_run rgx (m @ s, []) = (s, cs) # sts" and "m \<noteq> []"
  shows "regexReplaceCallback (m @ s) rgx fmt =
    bind_result (fmt (m # map (cap cs) [1..<Suc (rx_marks rgx)])) (\<lambda>o1.
    bind_result (regexReplaceCallback s rgx fmt) (\<lambda>o2. Inr (o1 @ o2)))"
proof -
  have n: "rx_next rgx False (m @ s) = Some ([], m, cs, s)"
    using rx_search_here [OF assms(1)] by (simp add: rx_next_def)
  obtain ms rest where r: "rx_matches rgx False s = (ms, rest)" by (cases "rx_matches rgx False s")
  show ?thesis
    unfolding regexReplaceCallback_reference rx_matches.simps [of rgx False "m @ s"] n
    using assms(2) by (simp add: r Let_def)
qed

lemma rrc_Nil:
  assumes "rx_run rgx ([], []) = []"
  shows "regexReplaceCallback [] rgx fmt = Inr []"
  unfolding regexReplaceCallback_reference rx_matches.simps [of rgx False "[]"]
  using assms by (simp add: rx_next_def)

section \<open>Bytes and letters\<close>

definition hexDump :: "string \<Rightarrow> string" where
  "hexDump inp = concat (map hex2 inp)"

definition tolower :: "char \<Rightarrow> char" where
  "tolower c = (if is_upper c then char_of (code c + 32) else c)"

definition toupper :: "char \<Rightarrow> char" where
  "toupper c = (if is_lower c then char_of (code c - 32) else c)"

definition toLowercase :: "string \<Rightarrow> string" where
  "toLowercase s = map tolower s"

definition toUppercase :: "string \<Rightarrow> string" where
  "toUppercase s = map toupper s"

lemma tolower_idem [simp]: "tolower (tolower c) = tolower c"
  by (auto simp: tolower_def code_ineq_facts)

lemma toLowercase_idem [simp]: "toLowercase (toLowercase s) = toLowercase s"
  by (simp add: toLowercase_def)

lemma toLowercase_append [simp]: "toLowercase (s @ t) = toLowercase s @ toLowercase t"
  by (simp add: toLowercase_def)

lemma not_upper_tolower [simp]: "\<not> is_upper (tolower c)"
  by (auto simp: tolower_def code_ineq_facts)

lemma toLowercase_fixpoint: "(\<forall>c \<in> set s. \<not> is_upper c) \<Longrightarrow> toLowercase s = s"
  by (simp add: toLowercase_def tolower_def map_idI)

lemma length_hexDump: "length (hexDump s) = 2 * length s"
  by (induction s) (simp_all add: hexDump_def hex2_def)

section \<open>Error pages and content types\<close>

definition generateErrorPage :: "nat \<Rightarrow> string" where
  "generateErrorPage httpStatus =
     (let (errorStr, explanation) = errorPageTexts httpStatus
      in ''<!DOCTYPE html><html><head><title>'' @ dec httpStatus @ '' '' @ errorStr
         @ ''</title></head><body><h1>'' @ errorStr @ ''</h1><p>'' @ explanation
         @ ''</p></body></html>'')"

definition getFileExtension :: "string \<Rightarrow> string" where
  "getFileExtension filename = drop (pos_add (find_last_char (CHR ''.'') filename) 1) filename"

definition contentTypeByExtension :: "string \<Rightarrow> string" where
  "contentTypeByExtension extension =
     (let ext = toLowercase extension
      in case umap_get contentTypeMap ext of
           Some t \<Rightarrow> t
         | None \<Rightarrow> ''application/octet-stream'')"

lemma find_last_char_append: "d \<notin> set t \<Longrightarrow> find_last_char d (s @ d # t) = Some (length s)"
  by (simp add: find_last_char_def)

lemma find_last_char_None: "d \<notin> set s \<Longrightarrow> find_last_char d s = None"
  by (simp add: find_last_char_def find_char_None_iff)

lemma getFileExtension_dot:
  "CHR ''.'' \<notin> set ext \<Longrightarrow> getFileExtension (base @ CHR ''.'' # ext) = ext"
  by (simp add: getFileExtension_def find_last_char_append)

text \<open>Without a dot, \<^verbatim>\<open>npos + 1\<close> is 0, and the whole name is returned.\<close>

lemma getFileExtension_no_dot: "CHR ''.'' \<notin> set f \<Longrightarrow> getFileExtension f = f"
  by (simp add: getFileExtension_def find_last_char_None)

section \<open>Splitting and merging\<close>

function splitString :: "string \<Rightarrow> char \<Rightarrow> bool \<Rightarrow> string list" where
  "splitString str delimiter ignoreEmpty =
     (if str = [] then []
      else
        let pos = find_char delimiter str;
            token = substr_to str pos;
            ret = (if \<not> ignoreEmpty \<or> token \<noteq> [] then [token] else [])
        in case pos of
             Some p \<Rightarrow> ret @ splitString (drop (p + 1) str) delimiter ignoreEmpty
           | None \<Rightarrow> ret)"
  by pat_completeness auto
termination
  by (relation "measure (\<lambda>(s, d, i). length s)") (auto dest: find_char_less)

declare splitString.simps [simp del]

definition mergePath :: "string list \<Rightarrow> string" where
  "mergePath path = (if path = [] then ''/'' else concat (map (\<lambda>e. CHR ''/'' # e) path))"

definition splitPath :: "string \<Rightarrow> string list" where
  "splitPath pathString =
     (let rawPath = substr_to pathString (find_char (CHR ''?'') pathString)
      in splitString rawPath (CHR ''/'') True)"

definition convertLineEndings :: "string \<Rightarrow> string \<Rightarrow> string" where
  "convertLineEndings inp ending =
     concat (map (\<lambda>c. if c = LF then ending else if c \<noteq> CR then [c] else []) inp)"

lemma splitString_Nil [simp]: "splitString [] d ie = []"
  by (simp add: splitString.simps)

lemma splitString_token:
  "d \<notin> set t \<Longrightarrow> t \<noteq> [] \<Longrightarrow> splitString t d ie = [t]"
  by (simp add: splitString.simps find_char_None_iff [THEN iffD2])

lemma splitString_step [simp]:
  "d \<notin> set t \<Longrightarrow> splitString (t @ d # s) d ie =
     (if ie \<and> t = [] then [] else [t]) @ splitString s d ie"
  by (subst splitString.simps) auto

lemma splitString_delim [simp]:
  "splitString (d # s) d ie = (if ie then [] else [[]]) @ splitString s d ie"
  using splitString_step [of d "[]" s ie] by simp

text \<open>Every string is a token, or a token, a delimiter and a rest: the induction of the splits.\<close>

lemma split_induct [case_names token step]:
  fixes d :: char
  assumes token: "\<And>t. d \<notin> set t \<Longrightarrow> P t"
    and step: "\<And>t s. d \<notin> set t \<Longrightarrow> P s \<Longrightarrow> P (t @ d # s)"
  shows "P s"
proof (induction s rule: length_induct)
  case (1 s)
  show ?case
  proof (cases "find_char d s")
    case None
    then show ?thesis by (simp add: token find_char_None_iff)
  next
    case (Some p)
    from find_char_Some_split [OF this]
    have s: "s = take p s @ d # drop (Suc p) s" "d \<notin> set (take p s)" "p < length s" by blast+
    then have "P (drop (Suc p) s)" using 1 by simp
    with s step show ?thesis by metis
  qed
qed

lemma splitString_no_delim: "t \<in> set (splitString s d ie) \<Longrightarrow> d \<notin> set t"
proof (induction s rule: split_induct [where d = d])
  case (token u)
  then show ?case by (cases "u = []") (auto simp: splitString_token)
qed (auto split: if_splits)

lemma splitString_ignoreEmpty: "splitString s d True = filter (\<lambda>t. t \<noteq> []) (splitString s d False)"
proof (induction s rule: split_induct [where d = d])
  case (token u)
  then show ?case by (cases "u = []") (auto simp: splitString_token)
qed auto

definition join_with :: "char \<Rightarrow> string list \<Rightarrow> string" where
  "join_with d ts = concat (map (\<lambda>t. t @ [d]) ts)"

text \<open>Nothing is lost: the tokens, each followed by the delimiter, are the string again (up to
  one delimiter at the end).\<close>

lemma splitString_join:
  "join_with d (splitString s d False) = (if s = [] \<or> last s = d then s else s @ [d])"
proof (induction s rule: split_induct [where d = d])
  case (token u)
  then show ?case by (cases "u = []") (auto simp: join_with_def splitString_token)
next
  case (step t s)
  then show ?case by (cases "s = []") (auto simp: join_with_def)
qed

lemma splitString_join_with:
  "(\<And>t. t \<in> set ts \<Longrightarrow> d \<notin> set t) \<Longrightarrow> splitString (join_with d ts) d False = ts"
  by (induction ts) (auto simp: join_with_def)

text \<open>A well-formed element of a path, as \<^verbatim>\<open>splitPath\<close> produces them.\<close>

definition path_elem :: "string \<Rightarrow> bool" where
  "path_elem e \<longleftrightarrow> e \<noteq> [] \<and> CHR ''/'' \<notin> set e \<and> CHR ''?'' \<notin> set e"

lemma set_splitString: "t \<in> set (splitString s d ie) \<Longrightarrow> set t \<subseteq> set s"
proof (induction s rule: split_induct [where d = d])
  case (token u)
  then show ?case by (cases "u = []") (auto simp: splitString_token)
qed (auto split: if_splits)

lemma substr_to_find_char: "d \<notin> set (substr_to s (find_char d s))"
proof (cases "find_char d s")
  case None
  then show ?thesis using find_char_None_iff [of d s] by simp
next
  case (Some p)
  then show ?thesis using find_char_Some_split [OF Some] by simp
qed

lemma splitPath_elems: "e \<in> set (splitPath s) \<Longrightarrow> path_elem e"
proof -
  assume e: "e \<in> set (splitPath s)"
  let ?raw = "substr_to s (find_char (CHR ''?'') s)"
  from e have "e \<in> set (splitString ?raw (CHR ''/'') True)" by (simp add: splitPath_def)
  moreover have "CHR ''?'' \<notin> set ?raw" by (rule substr_to_find_char)
  ultimately show ?thesis
    using splitString_no_delim [of e ?raw "CHR ''/''" True] set_splitString [of e ?raw "CHR ''/''" True]
    by (auto simp: path_elem_def splitString_ignoreEmpty)
qed

lemma splitString_merge:
  "(\<And>e. e \<in> set path \<Longrightarrow> e \<noteq> [] \<and> d \<notin> set e) \<Longrightarrow>
     splitString (concat (map (\<lambda>e. d # e) path)) d True = path"
proof (induction path)
  case (Cons e path)
  then show ?case by (cases path) (auto simp: splitString_token)
qed simp

lemma splitPath_mergePath:
  assumes "\<And>e. e \<in> set path \<Longrightarrow> path_elem e"
  shows "splitPath (mergePath path) = path"
proof (cases "path = []")
  case True
  have "find_char (CHR ''?'') ''/'' = None" by simp
  with True show ?thesis by (simp add: mergePath_def splitPath_def)
next
  case False
  have "CHR ''?'' \<notin> set (mergePath path)"
    using assms by (auto simp: mergePath_def path_elem_def)
  then have "find_char (CHR ''?'') (mergePath path) = None" by (simp add: find_char_None_iff)
  with False show ?thesis
    using assms by (simp add: splitPath_def mergePath_def splitString_merge path_elem_def)
qed

end
