(* ===== verification/Replace.thy ===== *)
theory Replace
  imports Utils
begin

text \<open>
  The two overloads of \<^verbatim>\<open>utils::stringReplace\<close> (\<^verbatim>\<open>src/util/utils.cpp\<close>). The string overload
  searches on behind each replacement; with an empty key it finds a match at every position it
  moves to and never returns, so its loop is a \<open>partial_function (option)\<close> in which \<open>None\<close> is
  "does not return". \<open>replace_all\<close> is the reference: all non-overlapping occurrences, from the
  left, the inserted text not searched again. The patterns are given in the iteration order of
  the map.
\<close>

section \<open>Replacing characters\<close>

text \<open>\<^verbatim>\<open>std::replace(begin, end, key, val)\<close>, once for each pattern.\<close>

definition replace_char :: "char \<times> char \<Rightarrow> string \<Rightarrow> string" where
  "replace_char kv s = map (\<lambda>c. if c = fst kv then snd kv else c) s"

definition stringReplaceChars :: "string \<Rightarrow> (char, char) umap \<Rightarrow> string" where
  "stringReplaceChars inp patterns = fold replace_char patterns inp"

lemma length_stringReplaceChars [simp]: "length (stringReplaceChars s ps) = length s"
  unfolding stringReplaceChars_def
  by (induction ps arbitrary: s) (simp_all add: replace_char_def)

lemma stringReplaceChars_single:
  "stringReplaceChars s [(a, b)] = map (\<lambda>c. if c = a then b else c) s"
  by (simp add: stringReplaceChars_def replace_char_def)

section \<open>Replacing strings\<close>

text \<open>\<^verbatim>\<open>input.replace(pos, n, val)\<close>.\<close>

definition splice :: "nat \<Rightarrow> nat \<Rightarrow> string \<Rightarrow> string \<Rightarrow> string" where
  "splice p n val inp = take p inp @ val @ drop (p + n) inp"

partial_function (option) replace_loop ::
    "string \<Rightarrow> string \<Rightarrow> string \<Rightarrow> nat option \<Rightarrow> string option" where
  "replace_loop key val inp pos =
     (if pos = None then Some inp
      else replace_loop key val (splice (the pos) (length key) val inp)
             (find_from key (the pos + length val) (splice (the pos) (length key) val inp)))"

fun stringReplace :: "string \<Rightarrow> (string, string) umap \<Rightarrow> string option" where
  "stringReplace inp [] = Some inp"
| "stringReplace inp ((key, val) # patterns) =
     (case replace_loop key val inp (find_str key inp) of
        None \<Rightarrow> None
      | Some inp' \<Rightarrow> stringReplace inp' patterns)"

function replace_all :: "string \<Rightarrow> string \<Rightarrow> string \<Rightarrow> string" where
  "replace_all key val s =
     (if key = [] then s
      else case find_str key s of
             None \<Rightarrow> s
           | Some p \<Rightarrow> take p s @ val @ replace_all key val (drop (p + length key) s))"
  by pat_completeness auto
termination
  by (relation "measure (\<lambda>(k, v, s). length s)")
    (auto dest!: find_str_Some_bound simp flip: length_greater_0_conv)

declare replace_all.simps [simp del]

lemma find_from_behind [simp]:
  "find_from key (length pre) (pre @ s) = map_option (\<lambda>k. length pre + k) (find_str key s)"
  by (simp add: find_from_def)

text \<open>The loop, started behind a finished part \<open>pre\<close>, finishes the rest like the reference.\<close>

lemma replace_loop_eq:
  "key \<noteq> [] \<Longrightarrow>
     replace_loop key val (pre @ s) (map_option (\<lambda>k. length pre + k) (find_str key s)) =
       Some (pre @ replace_all key val s)"
proof (induction key val s arbitrary: pre rule: replace_all.induct)
  case (1 key val s)
  show ?case
  proof (cases "find_str key s")
    case None
    with 1 show ?thesis by (simp add: replace_loop.simps replace_all.simps [of key val s])
  next
    case (Some p)
    let ?pre = "pre @ take p s @ val" and ?s = "drop (p + length key) s"
    from Some have b: "p + length key \<le> length s" by (rule find_str_Some_bound)
    have "replace_loop key val (pre @ s) (Some (length pre + p)) =
        replace_loop key val (?pre @ ?s) (find_from key (length ?pre) (?pre @ ?s))"
      using b by (subst replace_loop.simps) (simp add: splice_def algebra_simps)
    also have "\<dots> = Some (?pre @ replace_all key val ?s)"
      unfolding find_from_behind using 1 Some by blast
    finally show ?thesis using 1 Some by (simp add: replace_all.simps [of key val s])
  qed
qed

lemma replace_loop_nonempty:
  "key \<noteq> [] \<Longrightarrow> replace_loop key val s (find_str key s) = Some (replace_all key val s)"
  using replace_loop_eq [of key val "[]" s] by (simp add: option.map_ident)

text \<open>With an empty key there is always a next match: the loop never gets to its exit.\<close>

lemma replace_loop_empty_key:
  assumes "replace_loop key val inp pos = Some r"
  shows "key = [] \<longrightarrow> (case pos of None \<Rightarrow> True | Some p \<Rightarrow> length inp < p)"
proof (rule replace_loop.raw_induct [OF _ assms,
      where P = "\<lambda>key val inp pos r. key = [] \<longrightarrow> (case pos of None \<Rightarrow> True | Some p \<Rightarrow> length inp < p)"])
  fix f key val inp pos r
  assume IH: "\<And>key val inp pos r. f key val inp pos = Some r \<Longrightarrow>
        key = [] \<longrightarrow> (case pos of None \<Rightarrow> True | Some p \<Rightarrow> length inp < p)"
    and eq: "(if pos = None then Some inp else f key val (splice (the pos) (length key) val inp)
          (find_from key (the pos + length val) (splice (the pos) (length key) val inp))) = Some r"
  show "key = [] \<longrightarrow> (case pos of None \<Rightarrow> True | Some p \<Rightarrow> length inp < p)"
  proof (intro impI, cases pos)
    case None
    then show "case pos of None \<Rightarrow> True | Some p \<Rightarrow> length inp < p" by simp
  next
    case (Some p)
    assume k: "key = []"
    let ?inp = "take p inp @ val @ drop p inp"
    have "f key val ?inp (find_from key (p + length val) ?inp) = Some r"
      using eq Some k by (simp add: splice_def)
    with IH k have "case find_from [] (p + length val) ?inp of None \<Rightarrow> True | Some q \<Rightarrow> length ?inp < q"
      by blast
    moreover have "find_str [] t = Some 0" for t by (cases t) simp_all
    ultimately have "length inp < p" by (auto simp: find_from_def split: if_splits)
    with Some show "case pos of None \<Rightarrow> True | Some p \<Rightarrow> length inp < p" by simp
  qed
qed

lemma replace_loop_diverges: "replace_loop [] val s (find_str [] s) = None"
proof (cases "replace_loop [] val s (find_str [] s)")
  case (Some r)
  then show ?thesis using replace_loop_empty_key [OF Some] by (cases s) auto
qed simp

lemma stringReplace_fold:
  "(\<And>kv. kv \<in> set ps \<Longrightarrow> fst kv \<noteq> []) \<Longrightarrow>
     stringReplace s ps = Some (fold (\<lambda>(k, v). replace_all k v) ps s)"
proof (induction s ps rule: stringReplace.induct)
  case (2 inp key val patterns)
  then have "key \<noteq> []" by force
  from replace_loop_nonempty [OF this] 2 show ?case by simp
qed simp

lemma stringReplace_None:
  "kv \<in> set ps \<Longrightarrow> fst kv = [] \<Longrightarrow> stringReplace s ps = None"
  by (induction s ps rule: stringReplace.induct)
    (auto simp: replace_loop_diverges split: option.splits)

lemma replace_all_no_occurrence: "find_str key s = None \<Longrightarrow> replace_all key val s = s"
  by (simp add: replace_all.simps)

text \<open>A key of one character: the reference is a map over the characters.\<close>

lemma find_str_single: "find_str [c] s = find_char c s"
  by (induction s) auto

lemma replace_all_single:
  "replace_all [c] val s = concat (map (\<lambda>d. if d = c then val else [d]) s)"
proof (induction s rule: split_induct [where d = c])
  case (token t)
  then have "concat (map (\<lambda>d. if d = c then val else [d]) t) = t" by (induction t) auto
  with token show ?case
    by (simp add: replace_all.simps find_str_single find_char_None_iff [THEN iffD2])
next
  case (step t s)
  then have "concat (map (\<lambda>d. if d = c then val else [d]) t) = t" by (induction t) auto
  with step show ?case
    by (subst replace_all.simps) (simp add: find_str_single)
qed

section \<open>Files\<close>

text \<open>\<open>fs path\<close> is the content of the file at \<open>path\<close>, if it can be opened for reading.\<close>

definition getFileContents :: "(string \<Rightarrow> string option) \<Rightarrow> string \<Rightarrow> string result" where
  "getFileContents fs path =
     (case fs path of
        None \<Rightarrow> Inl (NawaException 1 ''Cannot open file for reading'')
      | Some c \<Rightarrow> Inr c)"

end
