(* ===== verification/Regex_Lang.thy ===== *)
theory Regex_Lang
  imports Regex
begin

text \<open>
  What a pattern means: the set of strings it describes (\<open>rx_lang\<close>), and the proof that the
  backtracking matcher \<open>rx_run\<close> finds exactly the prefixes in that set. So \<^verbatim>\<open>regex_match\<close> is
  membership in the language, whatever the order in which the matcher tries its alternatives.
\<close>

primrec rx_wf :: "rx \<Rightarrow> bool" where
  "rx_wf (RSet neg rs) = True"
| "rx_wf (RSeq a b) = (rx_wf a \<and> rx_wf b)"
| "rx_wf (RAlt a b) = (rx_wf a \<and> rx_wf b)"
| "rx_wf REps = True"
| "rx_wf (RGroup k a) = rx_wf a"
| "rx_wf (RRep lo hi g a) = ((case hi of None \<Rightarrow> True | Some h \<Rightarrow> lo \<le> h) \<and> rx_wf a)"

primrec rx_lang :: "rx \<Rightarrow> string set" where
  "rx_lang (RSet neg rs) = {[c] | c. in_ranges rs c \<noteq> neg}"
| "rx_lang (RSeq a b) = {u @ v | u v. u \<in> rx_lang a \<and> v \<in> rx_lang b}"
| "rx_lang (RAlt a b) = rx_lang a \<union> rx_lang b"
| "rx_lang REps = {[]}"
| "rx_lang (RGroup k a) = rx_lang a"
| "rx_lang (RRep lo hi g a) =
     {concat ps | ps. set ps \<subseteq> rx_lang a \<and> lo \<le> length ps
        \<and> (case hi of None \<Rightarrow> True | Some h \<Rightarrow> length ps \<le> h)}"

text \<open>\<open>f\<close> finds at the start of a string exactly the prefixes in \<open>L\<close>.\<close>

definition finds :: "(mstate \<Rightarrow> mstate list) \<Rightarrow> string set \<Rightarrow> bool" where
  "finds f L \<longleftrightarrow> (\<forall>s cs t. (t \<in> fst ` set (f (s, cs))) = (\<exists>p \<in> L. s = p @ t))"

lemma findsI:
  assumes "\<And>s cs t cs'. (t, cs') \<in> set (f (s, cs)) \<Longrightarrow> \<exists>p \<in> L. s = p @ t"
    and "\<And>p t cs. p \<in> L \<Longrightarrow> \<exists>cs'. (t, cs') \<in> set (f (p @ t, cs))"
  shows "finds f L"
  unfolding finds_def
proof (intro allI iffI)
  fix s cs t assume "t \<in> fst ` set (f (s, cs))"
  then obtain cs' where "(t, cs') \<in> set (f (s, cs))" by auto
  then show "\<exists>p \<in> L. s = p @ t" by (rule assms(1))
next
  fix s cs t assume "\<exists>p \<in> L. s = p @ t"
  then obtain p where "p \<in> L" "s = p @ t" by blast
  with assms(2) [of p t cs] show "t \<in> fst ` set (f (s, cs))" by force
qed

lemma findsD1:
  assumes "finds f L" and "(t, cs') \<in> set (f (s, cs))"
  shows "\<exists>p \<in> L. s = p @ t"
proof -
  from assms(2) have "t \<in> fst ` set (f (s, cs))" by (rule image_eqI [rotated]) simp
  with assms(1) show ?thesis unfolding finds_def by blast
qed

lemma findsD2:
  assumes "finds f L" and "p \<in> L"
  shows "\<exists>cs'. (t, cs') \<in> set (f (p @ t, cs))"
proof -
  from assms have "t \<in> fst ` set (f (p @ t, cs))" unfolding finds_def by blast
  then show ?thesis by auto
qed

lemma finds_bind:
  assumes f: "finds f L" and g: "finds g M"
  shows "finds (\<lambda>st. concat (map g (f st))) {u @ v | u v. u \<in> L \<and> v \<in> M}"
proof (rule findsI)
  fix s cs t cs' assume "(t, cs') \<in> set (concat (map g (f (s, cs))))"
  then obtain s1 cs1 where 1: "(s1, cs1) \<in> set (f (s, cs))" "(t, cs') \<in> set (g (s1, cs1))" by auto
  from findsD1 [OF f 1(1)] findsD1 [OF g 1(2)]
  show "\<exists>p \<in> {u @ v | u v. u \<in> L \<and> v \<in> M}. s = p @ t" by force
next
  fix p t cs assume "p \<in> {u @ v | u v. u \<in> L \<and> v \<in> M}"
  then obtain u v where p: "p = u @ v" "u \<in> L" "v \<in> M" by blast
  obtain cs1 where 1: "(v @ t, cs1) \<in> set (f (u @ v @ t, cs))" using findsD2 [OF f p(2)] by blast
  obtain cs2 where "(t, cs2) \<in> set (g (v @ t, cs1))" using findsD2 [OF g p(3)] by blast
  with 1 p(1) have "(t, cs2) \<in> set (concat (map g (f (p @ t, cs))))" by auto
  then show "\<exists>cs'. (t, cs') \<in> set (concat (map g (f (p @ t, cs))))" ..
qed

lemma finds_rep_min: "finds f L \<Longrightarrow> finds (rep_min f n) {concat ps | ps. set ps \<subseteq> L \<and> length ps = n}"
proof (induction n)
  case 0
  show ?case by (rule findsI) auto
next
  case (Suc n)
  have "{u @ v | u v. u \<in> L \<and> v \<in> {concat ps | ps. set ps \<subseteq> L \<and> length ps = n}} =
      {concat ps | ps. set ps \<subseteq> L \<and> length ps = Suc n}" (is "?A = ?B")
  proof (rule set_eqI, rule iffI)
    fix x assume "x \<in> ?A"
    then obtain u ps where "x = concat (u # ps)" "u \<in> L" "set ps \<subseteq> L" "length ps = n" by auto
    then show "x \<in> ?B" by (intro CollectI exI [of _ "u # ps"]) auto
  next
    fix x assume "x \<in> ?B"
    then obtain ps where ps: "x = concat ps" "set ps \<subseteq> L" "length ps = Suc n" by blast
    then obtain u us where "ps = u # us" by (cases ps) auto
    with ps show "x \<in> ?A" by auto
  qed
  moreover have "rep_min f (Suc n) = (\<lambda>st. concat (map (rep_min f n) (f st)))" by (rule ext) simp
  ultimately show ?case using finds_bind [OF Suc.prems Suc.IH [OF Suc.prems]] by simp
qed

lemma rep_opt_sound:
  assumes f: "finds f L"
  shows "(t, cs') \<in> set (rep_opt f g n (s, cs)) \<Longrightarrow>
    \<exists>ps. set ps \<subseteq> L \<and> length ps \<le> n \<and> s = concat ps @ t"
proof (induction n arbitrary: s cs)
  case 0
  then show ?case by (intro exI [of _ "[]"]) auto
next
  case (Suc n)
  then consider "(t, cs') = (s, cs)"
    | s1 cs1 where "(s1, cs1) \<in> set (f (s, cs))" "(t, cs') \<in> set (rep_opt f g n (s1, cs1))"
    by (auto simp: Let_def split: if_splits)
  then show ?case
  proof cases
    case 1
    then show ?thesis by (intro exI [of _ "[]"]) auto
  next
    case 2
    obtain p where p: "p \<in> L" "s = p @ s1" using findsD1 [OF f 2(1)] by blast
    obtain ps where "set ps \<subseteq> L" "length ps \<le> n" "s1 = concat ps @ t" using Suc.IH [OF 2(2)] by blast
    with p show ?thesis by (intro exI [of _ "p # ps"]) auto
  qed
qed

lemma rep_opt_complete:
  assumes f: "finds f L"
  shows "set ps \<subseteq> L \<Longrightarrow> [] \<notin> set ps \<Longrightarrow> length ps \<le> n \<Longrightarrow>
    \<exists>cs'. (t, cs') \<in> set (rep_opt f g n (concat ps @ t, cs))"
proof (induction n arbitrary: ps cs)
  case 0
  then show ?case by auto
next
  case (Suc n)
  show ?case
  proof (cases ps)
    case Nil
    then show ?thesis by (auto simp: Let_def)
  next
    case (Cons p qs)
    with Suc.prems have p: "p \<in> L" "p \<noteq> []" by auto
    obtain cs1 where 1: "(concat qs @ t, cs1) \<in> set (f (p @ concat qs @ t, cs))"
      using findsD2 [OF f p(1)] by blast
    obtain cs2 where "(t, cs2) \<in> set (rep_opt f g n (concat qs @ t, cs1))"
      using Suc.IH [of qs cs1] Suc.prems Cons by auto
    with 1 p(2) Cons have "(t, cs2) \<in> set (rep_opt f g (Suc n) (concat ps @ t, cs))"
      by (force simp: Let_def)
    then show ?thesis ..
  qed
qed

lemma length_le_concat: "[] \<notin> set ps \<Longrightarrow> length ps \<le> length (concat ps)"
proof (induction ps)
  case (Cons p ps)
  then obtain c q where "p = c # q" by (cases p) auto
  with Cons show ?case by simp
qed simp

lemma concat_filter_nonempty: "concat (filter (\<lambda>p. p \<noteq> []) ps) = concat ps"
  by (induction ps) auto

lemma finds_rep:
  assumes f: "finds f L" and wf: "case hi of None \<Rightarrow> True | Some h \<Rightarrow> lo \<le> h"
  shows "finds (\<lambda>st. concat (map (\<lambda>st'. rep_opt f g (rep_rounds lo hi (fst st')) st') (rep_min f lo st)))
    {concat ps | ps. set ps \<subseteq> L \<and> lo \<le> length ps \<and> (case hi of None \<Rightarrow> True | Some h \<Rightarrow> length ps \<le> h)}"
    (is "finds ?F ?M")
proof (rule findsI)
  fix s cs t cs' assume "(t, cs') \<in> set (?F (s, cs))"
  then obtain s1 cs1 where 1: "(s1, cs1) \<in> set (rep_min f lo (s, cs))"
    "(t, cs') \<in> set (rep_opt f g (rep_rounds lo hi s1) (s1, cs1))" by auto
  obtain ps where ps: "set ps \<subseteq> L" "length ps = lo" "s = concat ps @ s1"
    using findsD1 [OF finds_rep_min [OF f] 1(1)] by blast
  obtain qs where qs: "set qs \<subseteq> L" "length qs \<le> rep_rounds lo hi s1" "s1 = concat qs @ t"
    using rep_opt_sound [OF f 1(2)] by blast
  have "concat (ps @ qs) \<in> ?M"
    using ps qs wf by (intro CollectI exI [of _ "ps @ qs"]) (auto simp: rep_rounds_def split: option.splits)
  with ps qs show "\<exists>p \<in> ?M. s = p @ t" by (intro bexI [of _ "concat (ps @ qs)"]) auto
next
  fix p t cs assume "p \<in> ?M"
  then obtain ps where ps: "p = concat ps" "set ps \<subseteq> L" "lo \<le> length ps"
    "case hi of None \<Rightarrow> True | Some h \<Rightarrow> length ps \<le> h" by blast
  let ?qs = "filter (\<lambda>p. p \<noteq> []) (drop lo ps)"
  have p: "p = concat (take lo ps) @ concat ?qs"
    using ps(1) by (simp add: concat_filter_nonempty flip: concat_append)
  have "set (take lo ps) \<subseteq> L" using ps(2) set_take_subset [of lo ps] by blast
  then have m: "concat (take lo ps) \<in> {concat ps | ps. set ps \<subseteq> L \<and> length ps = lo}" using ps(3) by auto
  obtain cs1 where 1: "(concat ?qs @ t, cs1) \<in> set (rep_min f lo (p @ t, cs))"
    using findsD2 [OF finds_rep_min [OF f, of lo] m, of "concat ?qs @ t" cs] p by auto
  have q: "set ?qs \<subseteq> L" "[] \<notin> set ?qs" using ps(2) set_drop_subset [of lo ps] by auto
  have "length ?qs \<le> length (drop lo ps)" by (rule length_filter_le)
  then have "length ?qs \<le> rep_rounds lo hi (concat ?qs @ t)"
    using length_le_concat [OF q(2)] ps(4) by (auto simp: rep_rounds_def split: option.splits)
  from rep_opt_complete [OF f q this, of t g cs1] obtain cs2 where
    "(t, cs2) \<in> set (rep_opt f g (rep_rounds lo hi (concat ?qs @ t)) (concat ?qs @ t, cs1))" by blast
  with 1 have "(t, cs2) \<in> set (?F (p @ t, cs))" by force
  then show "\<exists>cs'. (t, cs') \<in> set (?F (p @ t, cs))" ..
qed

lemma finds_rx_run: "rx_wf r \<Longrightarrow> finds (rx_run r) (rx_lang r)"
proof (induction r)
  case (RSet neg rs)
  show ?case by (rule findsI) (auto split: list.splits if_splits)
next
  case (RSeq a b)
  have "rx_run (RSeq a b) = (\<lambda>st. concat (map (rx_run b) (rx_run a st)))" by (rule ext) simp
  with finds_bind [OF RSeq.IH(1) RSeq.IH(2)] RSeq.prems show ?case by simp
next
  case (RAlt a b)
  then show ?case by (auto simp: finds_def image_Un)
next
  case REps
  show ?case by (rule findsI) auto
next
  case (RGroup k r)
  then show ?case by (simp add: finds_def image_image)
next
  case (RRep lo hi g r)
  then have w: "case hi of None \<Rightarrow> True | Some h \<Rightarrow> lo \<le> h" and f: "finds (rx_run r) (rx_lang r)"
    by simp_all
  have "rx_run (RRep lo hi g r) = (\<lambda>st. concat (map (\<lambda>st'.
      rep_opt (rx_run r) g (rep_rounds lo hi (fst st')) st') (rep_min (rx_run r) lo st)))"
    by (rule ext) simp
  with finds_rep [OF f w, of g] show ?case by simp
qed

theorem regex_match_iff:
  assumes "rx_wf r"
  shows "regex_match r s \<noteq> None \<longleftrightarrow> s \<in> rx_lang r"
proof -
  have "regex_match r s \<noteq> None \<longleftrightarrow> (\<exists>st \<in> set (rx_run r (s, [])). fst st = [])"
    unfolding regex_match_def by (simp only: map_option_is_None find_None_iff Bex_def not_not)
  also have "\<dots> \<longleftrightarrow> [] \<in> fst ` set (rx_run r (s, []))" by (metis (no_types, lifting) image_iff)
  also have "\<dots> \<longleftrightarrow> (\<exists>p \<in> rx_lang r. s = p @ [])"
    using finds_rx_run [OF assms] unfolding finds_def by blast
  finally show ?thesis by simp
qed

lemma rx_run_Nil:
  assumes "rx_wf r" and "\<And>p t. s = p @ t \<Longrightarrow> p \<notin> rx_lang r"
  shows "rx_run r (s, cs) = []"
proof (cases "rx_run r (s, cs)")
  case (Cons st sts)
  then have "(fst st, snd st) \<in> set (rx_run r (s, cs))" by simp
  from findsD1 [OF finds_rx_run [OF assms(1)] this] assms(2) show ?thesis by blast
qed

section \<open>Languages of the common shapes\<close>

lemma rx_lang_RStr [simp]: "rx_lang (RStr s) = {s}"
  by (induction s) auto

lemma rx_wf_RStr [simp]: "rx_wf (RStr s)"
  by (induction s) auto

lemma concat_singletons: "set ps \<subseteq> {[c] | c. P c} \<Longrightarrow> ps = map (\<lambda>c. [c]) (concat ps) \<and> (\<forall>c \<in> set (concat ps). P c)"
  by (induction ps) auto

lemma concat_map_singleton [simp]: "concat (map (\<lambda>c. [c]) s) = s"
  by (induction s) auto

lemma rx_lang_rep_class:
  "rx_lang (RRep lo hi g (RSet neg rs)) =
     {s. (\<forall>c \<in> set s. in_ranges rs c \<noteq> neg) \<and> lo \<le> length s
        \<and> (case hi of None \<Rightarrow> True | Some h \<Rightarrow> length s \<le> h)}" (is "?A = ?B")
proof (rule set_eqI, rule iffI)
  fix s assume "s \<in> ?A"
  then obtain ps where ps: "s = concat ps" "set ps \<subseteq> {[c] | c. in_ranges rs c \<noteq> neg}" "lo \<le> length ps"
    "case hi of None \<Rightarrow> True | Some h \<Rightarrow> length ps \<le> h" by auto
  from concat_singletons [OF ps(2)] ps(1) have p: "ps = map (\<lambda>c. [c]) s" "\<forall>c \<in> set s. in_ranges rs c \<noteq> neg"
    by simp_all
  then have "length ps = length s" by simp
  with p(2) ps(3,4) show "s \<in> ?B" by (auto split: option.splits)
next
  fix s assume s: "s \<in> ?B"
  have "set (map (\<lambda>c. [c]) s) \<subseteq> {[c] | c. in_ranges rs c \<noteq> neg}" using s by auto
  with s show "s \<in> ?A"
    unfolding rx_lang.simps by (intro CollectI exI [of _ "map (\<lambda>c. [c]) s"]) (auto split: option.splits)
qed

end
