(* ===== verification/Encoding.thy ===== *)
theory Encoding
  imports Replace Regex_Lang
begin

text \<open>
  The byte-wise encodings of \<^verbatim>\<open>src/util/encoding.cpp\<close>: percent-encoding, quoted-printable and
  Q-encoding, with their regex-driven decoders. The contract of an encoder and its decoder is
  the locale \<open>codec\<close>; decoding piece by piece, which both decoders do, is the algebra of
  \<open>decodes\<close>: the text \<open>p\<close> is replaced by \<open>out\<close> whatever follows.
\<close>

section \<open>Encoder and decoder\<close>

locale codec =
  fixes enc :: "'a \<Rightarrow> 'b" and dec :: "'b \<Rightarrow> 'a result"
  assumes dec_enc: "dec (enc x) = Inr x"
begin

lemma enc_inj: "enc x = enc y \<Longrightarrow> x = y"
  by (metis dec_enc sum.inject(2))

lemma enc_eq_iff: "enc x = enc y \<longleftrightarrow> x = y"
  using enc_inj by blast

lemma dec_total_on_range: "b \<in> range enc \<Longrightarrow> \<exists>x. dec b = Inr x \<and> enc x = b"
  using dec_enc by auto

end

definition decodes :: "rx \<Rightarrow> (string list \<Rightarrow> string result) \<Rightarrow> string \<Rightarrow> string \<Rightarrow> bool" where
  "decodes rgx fmt p out \<longleftrightarrow>
     (\<forall>s. regexReplaceCallback (p @ s) rgx fmt =
        bind_result (regexReplaceCallback s rgx fmt) (\<lambda>o1. Inr (out @ o1)))"

lemma decodes_Nil [intro]: "decodes rgx fmt [] []"
proof -
  have "bind_result m (\<lambda>x. Inr x) = m" for m :: "string result" by (cases m) auto
  then show ?thesis by (simp add: decodes_def)
qed

lemma decodes_append [intro]:
  "decodes rgx fmt p out \<Longrightarrow> decodes rgx fmt q out' \<Longrightarrow> decodes rgx fmt (p @ q) (out @ out')"
proof -
  assume d: "decodes rgx fmt p out" "decodes rgx fmt q out'"
  show ?thesis unfolding decodes_def
  proof
    fix s
    show "regexReplaceCallback ((p @ q) @ s) rgx fmt =
        bind_result (regexReplaceCallback s rgx fmt) (\<lambda>o1. Inr ((out @ out') @ o1))"
      using d by (cases "regexReplaceCallback s rgx fmt") (simp_all add: decodes_def)
  qed
qed

lemma decodes_Cons: "decodes rgx fmt [c] [d] \<Longrightarrow> decodes rgx fmt p out \<Longrightarrow> decodes rgx fmt (c # p) (d # out)"
  using decodes_append [of rgx fmt "[c]" "[d]" p out] by simp

lemma decodes_skip: "(\<And>s. rx_run rgx (c # s, []) = []) \<Longrightarrow> decodes rgx fmt [c] [c]"
  by (simp add: decodes_def rrc_skip)

lemma decodes_match:
  assumes "\<And>s. rx_run rgx (m @ s, []) = [(s, cs)]" and "m \<noteq> []"
    and "fmt (m # map (cap cs) [1..<Suc (rx_marks rgx)]) = Inr out"
  shows "decodes rgx fmt m out"
  unfolding decodes_def using rrc_match [OF assms(1,2)] assms(3) by simp

lemma decodes_result:
  "rx_run rgx ([], []) = [] \<Longrightarrow> decodes rgx fmt p out \<Longrightarrow> regexReplaceCallback p rgx fmt = Inr out"
  unfolding decodes_def by (drule spec [of _ "[]"]) (simp add: rrc_Nil)

text \<open>\<^verbatim>\<open>v.at(i)\<close>.\<close>

definition vec_at :: "'a list \<Rightarrow> nat \<Rightarrow> 'a result" where
  "vec_at v i = (if i < length v then Inr (v ! i) else Inl OutOfRange)"

section \<open>Two upper-case hexadecimal digits\<close>

definition hex_class :: rx where
  "hex_class = RSet False [(CHR ''0'', CHR ''9''), (CHR ''A'', CHR ''F'')]"

definition is_hex :: "char \<Rightarrow> bool" where
  "is_hex c = in_ranges [(CHR ''0'', CHR ''9''), (CHR ''A'', CHR ''F'')] c"

definition hex_pair :: rx where
  "hex_pair = RRep 2 (Some 2) True hex_class"

lemma hex_pair_run:
  "rx_run hex_pair (s, cs) =
     (case s of a # b # t \<Rightarrow> (if is_hex a \<and> is_hex b then [(t, cs)] else []) | _ \<Rightarrow> [])"
  by (auto simp: hex_pair_def hex_class_def is_hex_def rep_rounds_def numeral_2_eq_2 split: list.splits)

lemma toupper_digit_char:
  "d < 16 \<Longrightarrow> toupper (digit_char d) = (if d < 10 then char_of (48 + d) else char_of (55 + d))"
  by (auto simp: toupper_def digit_char_def code_ineq_facts)

lemma is_hex_upper_digit: "d < 16 \<Longrightarrow> is_hex (toupper (digit_char d))"
  by (auto simp: toupper_digit_char is_hex_def less_eq_char_def)

lemma base_digit_upper: "d < 16 \<Longrightarrow> base_digit 16 (toupper (digit_char d)) = Some d"
  by (simp add: toupper_digit_char base_digit_def digit_val_def code_ineq_facts)

lemma stoul_hex2:
  assumes "base_digit 16 a = Some x" and "base_digit 16 b = Some y"
  shows "stoul 16 [a, b] = Inr (16 * x + y)"
proof -
  have x: "x < 16" "y < 16" using assms by (auto simp: base_digit_def split: option.splits if_splits)
  have a: "\<not> is_space a" "a \<noteq> CHR ''-''" "a \<noteq> CHR ''+''"
    using assms(1) by (auto simp: base_digit_def digit_val_def code_ineq_facts is_space_def
        split: option.splits if_splits)
  have b: "b \<noteq> CHR ''x''" "b \<noteq> CHR ''X''"
    using assms(2) by (auto simp: base_digit_def digit_val_def code_ineq_facts
        split: option.splits if_splits)
  have "parse_int 16 [a, b] = Some (False, 16 * x + y)"
    using a b assms by (simp add: parse_int_def skip_0x_def starts_digit_def Let_def)
  with x show ?thesis by (simp add: stoul_def)
qed

definition upper_hex :: "char \<Rightarrow> string" where
  "upper_hex c = toUppercase (hexDump [c])"

lemma upper_hex_eq:
  "upper_hex c = [toupper (digit_char (code c div 16)), toupper (digit_char (code c mod 16))]"
  by (simp add: upper_hex_def toUppercase_def hexDump_def hex2_def)

lemma code_div_16: "code c div 16 < 16"
  by (rule less_mult_imp_div_less) simp

lemma upper_hex_pair: "rx_run hex_pair (upper_hex c @ s, cs) = [(s, cs)]"
  by (simp add: hex_pair_run upper_hex_eq is_hex_upper_digit code_div_16)

lemma stoul_upper_hex: "stoul 16 (upper_hex c) = Inr (code c)"
proof -
  have "stoul 16 (upper_hex c) = Inr (16 * (code c div 16) + code c mod 16)"
    unfolding upper_hex_eq by (rule stoul_hex2) (simp_all add: base_digit_upper code_div_16)
  then show ?thesis by simp
qed

lemma length_upper_hex [simp]: "length (upper_hex c) = 2"
  by (simp add: upper_hex_eq)

section \<open>Percent-encoding\<close>

definition urlUnreserved :: "string" where
  "urlUnreserved = ''ABCDEFGHIJKLMNOPQRSTUVWXYZabcdefghijklmnopqrstuvwxyz0123456789-_.~''"

definition urlEncode :: "string \<Rightarrow> string" where
  "urlEncode inp =
     concat (map (\<lambda>c. if c \<in> set urlUnreserved then [c] else CHR ''%'' # upper_hex c) inp)"

definition url_code_rx :: rx where
  "url_code_rx = RSeq (RChr (CHR ''%'')) (RGroup 1 hex_pair)"

definition url_replace_code :: "string list \<Rightarrow> string result" where
  "url_replace_code matches =
     bind_result (vec_at matches 1) (\<lambda>h.
     bind_result (stoul 16 h) (\<lambda>n. Inr [char_of n]))"

definition urlDecode :: "string \<Rightarrow> string result" where
  "urlDecode inp = regexReplaceCallback inp url_code_rx url_replace_code"

lemma url_rx_Nil: "rx_run url_code_rx ([], []) = []"
  by (simp add: url_code_rx_def)

lemma url_rx_other: "c \<noteq> CHR ''%'' \<Longrightarrow> rx_run url_code_rx (c # s, []) = []"
  by (simp add: url_code_rx_def)

lemma url_rx_code: "rx_run url_code_rx ((CHR ''%'' # upper_hex c) @ s, []) = [(s, [(1, upper_hex c)])]"
  by (simp add: url_code_rx_def upper_hex_pair)

lemma url_decodes_code: "decodes url_code_rx url_replace_code (CHR ''%'' # upper_hex c) [c]"
proof (rule decodes_match)
  show "\<And>s. rx_run url_code_rx ((CHR ''%'' # upper_hex c) @ s, []) = [(s, [(1, upper_hex c)])]"
    by (rule url_rx_code)
  have "rx_marks url_code_rx = 1" by (simp add: url_code_rx_def hex_pair_def hex_class_def)
  then show "url_replace_code ((CHR ''%'' # upper_hex c) #
      map (cap [(1, upper_hex c)]) [1..<Suc (rx_marks url_code_rx)]) = Inr [c]"
    by (simp add: url_replace_code_def vec_at_def cap_def stoul_upper_hex)
qed simp

lemma url_decodes_encode: "decodes url_code_rx url_replace_code (urlEncode s) s"
proof (induction s)
  case Nil
  then show ?case by (simp add: urlEncode_def decodes_Nil)
next
  case (Cons c s)
  have "decodes url_code_rx url_replace_code
      (if c \<in> set urlUnreserved then [c] else CHR ''%'' # upper_hex c) [c]"
    by (auto intro!: url_decodes_code decodes_skip url_rx_other simp: urlUnreserved_def)
  from decodes_append [OF this Cons] show ?case by (simp add: urlEncode_def)
qed

lemma urlDecode_urlEncode: "urlDecode (urlEncode s) = Inr s"
  unfolding urlDecode_def by (rule decodes_result [OF url_rx_Nil url_decodes_encode])

interpretation url: codec urlEncode urlDecode
  by unfold_locales (rule urlDecode_urlEncode)

text \<open>
  The reference decoder: one scan, in which a percent sign and two upper-case hexadecimal digits
  are one byte and everything else stands for itself.
\<close>

definition hex_byte :: "char \<Rightarrow> char \<Rightarrow> char" where
  "hex_byte a b = char_of (16 * the (base_digit 16 a) + the (base_digit 16 b))"

fun url_scan :: "string \<Rightarrow> string" where
  "url_scan [] = []"
| "url_scan (c # s) =
     (case s of
        a # b # t \<Rightarrow>
          (if c = CHR ''%'' \<and> is_hex a \<and> is_hex b then hex_byte a b # url_scan t
           else c # url_scan s)
      | _ \<Rightarrow> c # url_scan s)"

lemma is_hex_code: "is_hex a \<longleftrightarrow> (48 \<le> code a \<and> code a \<le> 57) \<or> (65 \<le> code a \<and> code a \<le> 70)"
  by (simp add: is_hex_def less_eq_char_def)

lemma is_hex_digit: "is_hex a \<Longrightarrow> \<exists>x. base_digit 16 a = Some x"
  unfolding is_hex_code by (elim disjE) (auto simp: base_digit_def digit_val_def code_ineq_facts)

lemma stoul_is_hex:
  assumes "is_hex a" and "is_hex b"
  shows "bind_result (stoul 16 [a, b]) (\<lambda>n. Inr [char_of n]) = (Inr [hex_byte a b] :: string result)"
proof -
  obtain x y where "base_digit 16 a = Some x" "base_digit 16 b = Some y"
    using is_hex_digit assms by blast
  then show ?thesis by (simp add: stoul_hex2 hex_byte_def)
qed

lemma url_decodes_hex:
  assumes "is_hex a" and "is_hex b"
  shows "decodes url_code_rx url_replace_code [CHR ''%'', a, b] [hex_byte a b]"
proof (rule decodes_match)
  show "\<And>s. rx_run url_code_rx ([CHR ''%'', a, b] @ s, []) = [(s, [(1, [a, b])])]"
    using assms by (simp add: url_code_rx_def hex_pair_run)
  have "rx_marks url_code_rx = 1" by (simp add: url_code_rx_def hex_pair_def hex_class_def)
  then show "url_replace_code ([CHR ''%'', a, b] #
      map (cap [(1, [a, b])]) [1..<Suc (rx_marks url_code_rx)]) = Inr [hex_byte a b]"
    using stoul_is_hex [OF assms] by (simp add: url_replace_code_def vec_at_def cap_def)
qed simp

declare url_scan.simps(2) [simp del]

lemma url_rx_run:
  "rx_run url_code_rx (c # s, []) =
     (case s of
        a # b # t \<Rightarrow> (if c = CHR ''%'' \<and> is_hex a \<and> is_hex b then [(t, [(1, [a, b])])] else [])
      | _ \<Rightarrow> [])"
  by (simp add: url_code_rx_def hex_pair_run split: list.split)

lemma url_scan_skip:
  "rx_run url_code_rx (c # s, []) = [] \<Longrightarrow> url_scan (c # s) = c # url_scan s"
  by (subst url_scan.simps(2)) (auto simp: url_rx_run split: list.splits if_splits)

lemma urlDecode_scan: "urlDecode s = Inr (url_scan s)"
  unfolding urlDecode_def
proof (induction s rule: url_scan.induct)
  case 1
  show ?case by (simp add: rrc_Nil url_rx_Nil)
next
  case (2 c s)
  show ?case
  proof (cases "rx_run url_code_rx (c # s, [])")
    case Nil
    have "regexReplaceCallback s url_code_rx url_replace_code = Inr (url_scan s)"
      using Nil 2 by (auto simp: url_rx_run split: list.splits if_splits)
    then show ?thesis by (simp add: rrc_skip [OF Nil] url_scan_skip [OF Nil])
  next
    case (Cons st sts)
    then obtain a b t where s: "c = CHR ''%''" "s = a # b # t" "is_hex a" "is_hex b"
      by (auto simp: url_rx_run split: list.splits if_splits)
    from url_decodes_hex [OF s(3,4)]
    have "regexReplaceCallback ([CHR ''%'', a, b] @ t) url_code_rx url_replace_code =
        bind_result (regexReplaceCallback t url_code_rx url_replace_code) (\<lambda>o1. Inr ([hex_byte a b] @ o1))"
      unfolding decodes_def by blast
    with s 2 show ?thesis by (simp add: url_scan.simps(2))
  qed
qed

section \<open>Quoted-printable\<close>

text \<open>
  One round of the loop: the text written for the byte \<open>c\<close> and the new line count. A byte of
  128 or more is a negative \<^verbatim>\<open>char\<close> and fails the test \<^verbatim>\<open>c >= 32\<close>.
\<close>

definition qp_literal :: "bool \<Rightarrow> char \<Rightarrow> bool" where
  "qp_literal qEncoding c =
     (32 \<le> code c \<and> code c \<le> 126 \<and> code c \<noteq> 61
      \<and> \<not> (qEncoding \<and> (code c = 32 \<or> code c = 63 \<or> code c = 95)))"

definition qp_step :: "string \<Rightarrow> bool \<Rightarrow> bool \<Rightarrow> nat \<Rightarrow> char \<Rightarrow> string \<times> nat" where
  "qp_step lineEnding replaceCrlf qEncoding lineCount c =
     (if qp_literal qEncoding c then
        (if \<not> qEncoding \<and> 75 \<le> lineCount then (CHR ''='' # lineEnding @ [c], 1)
         else ([c], lineCount + 1))
      else if \<not> replaceCrlf \<and> (code c = 10 \<or> code c = 13) then ([c], 0)
      else if qEncoding \<and> code c = 32 then (''_'', lineCount + 1)
      else if \<not> qEncoding \<and> 73 \<le> lineCount then
        (CHR ''='' # lineEnding @ CHR ''='' # upper_hex c, 3)
      else (CHR ''='' # upper_hex c, lineCount + 3))"

fun qp_loop :: "string \<Rightarrow> bool \<Rightarrow> bool \<Rightarrow> nat \<Rightarrow> string \<Rightarrow> string" where
  "qp_loop lineEnding replaceCrlf qEncoding lineCount [] = []"
| "qp_loop lineEnding replaceCrlf qEncoding lineCount (c # s) =
     (let (piece, lineCount') = qp_step lineEnding replaceCrlf qEncoding lineCount c
      in piece @ qp_loop lineEnding replaceCrlf qEncoding lineCount' s)"

definition quotedPrintableEncode :: "string \<Rightarrow> string \<Rightarrow> bool \<Rightarrow> bool \<Rightarrow> string" where
  "quotedPrintableEncode inp lineEnding replaceCrlf qEncoding =
     qp_loop lineEnding replaceCrlf qEncoding 0 inp"

definition crlf_rx :: rx where
  "crlf_rx = RSeq (ROpt (RChr CR)) (RChr LF)"

definition qp_code_rx :: rx where
  "qp_code_rx = RSeq (RChr (CHR ''='')) (RGroup 1 (RAlt hex_pair crlf_rx))"

definition qp_replace_code :: "string list \<Rightarrow> string result" where
  "qp_replace_code matches =
     bind_result (vec_at matches 1) (\<lambda>h.
       if h = CRLF \<or> h = [LF] then Inr []
       else bind_result (stoul 16 h) (\<lambda>n. Inr [char_of n]))"

definition quotedPrintableDecode :: "string \<Rightarrow> bool \<Rightarrow> string result" where
  "quotedPrintableDecode inp qEncoding =
     (let inp' = (if qEncoding then stringReplaceChars inp [(CHR ''_'', CHR '' '')] else inp)
      in regexReplaceCallback inp' qp_code_rx qp_replace_code)"

lemma qp_rx_Nil: "rx_run qp_code_rx ([], []) = []"
  by (simp add: qp_code_rx_def)

lemma qp_rx_marks: "rx_marks qp_code_rx = 1"
  by (simp add: qp_code_rx_def hex_pair_def hex_class_def crlf_rx_def)

lemma qp_decodes_literal: "c \<noteq> CHR ''='' \<Longrightarrow> decodes qp_code_rx qp_replace_code [c] [c]"
  by (rule decodes_skip) (simp add: qp_code_rx_def)

lemma upper_hex_not_crlf: "c' \<in> set (upper_hex c) \<Longrightarrow> c' \<noteq> CR \<and> c' \<noteq> LF \<and> c' \<noteq> CHR ''_''"
  using is_hex_upper_digit [OF code_div_16, of c] is_hex_upper_digit [of "code c mod 16"]
  by (auto simp: upper_hex_eq is_hex_code CR_def LF_def)

lemma not_hex_crlf [simp]: "\<not> is_hex CR" "\<not> is_hex LF"
  by (simp_all add: is_hex_code CR_def LF_def)

lemma crlf_run:
  "rx_run crlf_rx (s, cs) =
     (case s of
        [] \<Rightarrow> []
      | c # t \<Rightarrow> (if c = LF then [(t, cs)]
                  else if c = CR then (case t of d # u \<Rightarrow> (if d = LF then [(u, cs)] else []) | [] \<Rightarrow> [])
                  else []))"
  by (auto simp: crlf_rx_def rep_rounds_def Let_def split: list.splits)

lemma qp_decodes_code: "decodes qp_code_rx qp_replace_code (CHR ''='' # upper_hex c) [c]"
proof (rule decodes_match)
  obtain a b where ab: "upper_hex c = [a, b]" by (simp add: upper_hex_eq)
  then have n: "a \<noteq> CR" "a \<noteq> LF" using upper_hex_not_crlf [of a c] by auto
  show "\<And>s. rx_run qp_code_rx ((CHR ''='' # upper_hex c) @ s, []) = [(s, [(1, upper_hex c)])]"
    using n ab upper_hex_pair [of c] by (simp add: qp_code_rx_def crlf_run)
  show "qp_replace_code ((CHR ''='' # upper_hex c) #
      map (cap [(1, upper_hex c)]) [1..<Suc (rx_marks qp_code_rx)]) = Inr [c]"
    using n ab stoul_upper_hex [of c]
    by (simp add: qp_rx_marks qp_replace_code_def vec_at_def cap_def CRLF_def)
qed simp

lemma qp_decodes_break:
  assumes "le = CRLF \<or> le = [LF]"
  shows "decodes qp_code_rx qp_replace_code (CHR ''='' # le) []"
proof (rule decodes_match)
  show "\<And>s. rx_run qp_code_rx ((CHR ''='' # le) @ s, []) = [(s, [(1, le)])]"
    using assms
    by (elim disjE) (simp_all add: qp_code_rx_def crlf_run hex_pair_run CRLF_def split: list.split)
  show "qp_replace_code ((CHR ''='' # le) # map (cap [(1, le)]) [1..<Suc (rx_marks qp_code_rx)]) = Inr []"
    using assms by (auto simp: qp_rx_marks qp_replace_code_def vec_at_def cap_def)
qed simp

text \<open>One round writes a piece that decodes to its byte, whether or not a soft line break precedes.\<close>

lemma qp_step_decodes:
  assumes "le = CRLF \<or> le = [LF]"
  shows "decodes qp_code_rx qp_replace_code (fst (qp_step le rc False n c)) [c]"
proof -
  have lit: "decodes qp_code_rx qp_replace_code [c] [c]" if "code c \<noteq> 61"
    by (rule qp_decodes_literal) (use that in auto)
  note brk = qp_decodes_break [OF assms]
  have "decodes qp_code_rx qp_replace_code ((CHR ''='' # le) @ [c]) ([] @ [c])" if "code c \<noteq> 61"
    by (rule decodes_append [OF brk lit [OF that]])
  moreover have "decodes qp_code_rx qp_replace_code ((CHR ''='' # le) @ CHR ''='' # upper_hex c) ([] @ [c])"
    by (rule decodes_append [OF brk qp_decodes_code])
  ultimately show ?thesis
    using lit qp_decodes_code [of c] by (auto simp: qp_step_def qp_literal_def)
qed

lemma qp_loop_decodes:
  assumes "le = CRLF \<or> le = [LF]"
  shows "decodes qp_code_rx qp_replace_code (qp_loop le rc False n s) s"
proof (induction s arbitrary: n)
  case (Cons c s)
  obtain p n' where st: "qp_step le rc False n c = (p, n')" by (cases "qp_step le rc False n c")
  from qp_step_decodes [OF assms, of rc n c] have "decodes qp_code_rx qp_replace_code p [c]"
    by (simp add: st)
  from decodes_append [OF this Cons.IH [of n']] show ?case by (simp add: st)
qed (simp add: decodes_Nil)

lemma quotedPrintable_roundtrip:
  "le = CRLF \<or> le = [LF] \<Longrightarrow> quotedPrintableDecode (quotedPrintableEncode s le rc False) False = Inr s"
  unfolding quotedPrintableDecode_def quotedPrintableEncode_def
  by (simp add: decodes_result [OF qp_rx_Nil qp_loop_decodes])

text \<open>Q-encoding: no line breaks, and spaces travel as underscores.\<close>

abbreviation q_unscore :: "string \<Rightarrow> string" where
  "q_unscore s \<equiv> map (\<lambda>c. if c = CHR ''_'' then CHR '' '' else c) s"

lemma q_unscore_upper_hex: "q_unscore (upper_hex c) = upper_hex c"
  by (rule map_idI) (auto dest: upper_hex_not_crlf)

lemma q_step_decodes: "decodes qp_code_rx qp_replace_code (q_unscore (fst (qp_step le rc True n c))) [c]"
proof -
  have lit: "decodes qp_code_rx qp_replace_code [c] [c]" if "code c \<noteq> 61"
    by (rule qp_decodes_literal) (use that in auto)
  have "c = CHR '' ''" if "code c = 32" by (rule code_inject) (use that in simp)
  then show ?thesis
    using lit qp_decodes_code [of c] by (auto simp: qp_step_def qp_literal_def q_unscore_upper_hex)
qed

lemma q_loop_decodes: "decodes qp_code_rx qp_replace_code (q_unscore (qp_loop le rc True n s)) s"
proof (induction s arbitrary: n)
  case (Cons c s)
  obtain p n' where st: "qp_step le rc True n c = (p, n')" by (cases "qp_step le rc True n c")
  from q_step_decodes [of le rc n c] have "decodes qp_code_rx qp_replace_code (q_unscore p) [c]"
    by (simp add: st)
  from decodes_append [OF this Cons.IH [of n']] show ?case by (simp add: st)
qed (simp add: decodes_Nil)

lemma qEncoding_roundtrip: "quotedPrintableDecode (quotedPrintableEncode s le rc True) True = Inr s"
  unfolding quotedPrintableDecode_def quotedPrintableEncode_def Let_def
  by (simp add: stringReplaceChars_single decodes_result [OF qp_rx_Nil q_loop_decodes])

interpretation qp: codec "\<lambda>s. quotedPrintableEncode s CRLF rc False" "\<lambda>s. quotedPrintableDecode s False"
  by unfold_locales (simp add: quotedPrintable_roundtrip)

interpretation qenc: codec "\<lambda>s. quotedPrintableEncode s le rc True" "\<lambda>s. quotedPrintableDecode s True"
  by unfold_locales (rule qEncoding_roundtrip)

subsection \<open>Line length\<close>

text \<open>The longest run of characters without a line break, started with \<open>k\<close> characters.\<close>

fun longest_run :: "nat \<Rightarrow> string \<Rightarrow> nat" where
  "longest_run k [] = k"
| "longest_run k (c # s) =
     (if c = CR \<or> c = LF then max k (longest_run 0 s) else longest_run (Suc k) s)"

lemma longest_run_literal: "\<forall>c \<in> set p. c \<noteq> CR \<and> c \<noteq> LF \<Longrightarrow> longest_run k (p @ s) = longest_run (k + length p) s"
  by (induction p arbitrary: k) auto

lemma longest_run_break:
  "le = CRLF \<or> le = [LF] \<Longrightarrow> longest_run k (CHR ''='' # le @ s) = max (Suc k) (longest_run 0 s)"
  by (auto simp: CRLF_def CR_def LF_def)

lemma longest_run_code: "longest_run k (CHR ''='' # upper_hex c @ s) = longest_run (k + 3) s"
  using longest_run_literal [of "CHR ''='' # upper_hex c" k s] upper_hex_not_crlf [of _ c]
  by (auto simp: CR_def LF_def)

lemma qp_step_run:
  assumes "le = CRLF \<or> le = [LF]" and "n \<le> 75"
  shows "snd (qp_step le rc False n c) \<le> 75
    \<and> longest_run n (fst (qp_step le rc False n c) @ s)
        \<le> max 76 (longest_run (snd (qp_step le rc False n c)) s)"
proof -
  have lit: "c \<noteq> CR \<and> c \<noteq> LF" if "qp_literal False c" using that by (auto simp: qp_literal_def CR_def LF_def)
  have crlf: "c = CR \<or> c = LF" if "code c = 10 \<or> code c = 13"
    using that code_inject [of c CR] code_inject [of c LF] by (auto simp: CR_def LF_def)
  show ?thesis
    using assms(2) lit crlf longest_run_break [OF assms(1)] longest_run_code [of _ c s]
    by (auto simp: qp_step_def)
qed

lemma qp_loop_run:
  assumes "le = CRLF \<or> le = [LF]"
  shows "n \<le> 75 \<Longrightarrow> longest_run n (qp_loop le rc False n s) \<le> 76"
proof (induction s arbitrary: n)
  case (Cons c s)
  obtain p n' where st: "qp_step le rc False n c = (p, n')" by (cases "qp_step le rc False n c")
  have "n' \<le> 75" "longest_run n (p @ qp_loop le rc False n' s) \<le> max 76 (longest_run n' (qp_loop le rc False n' s))"
    using qp_step_run [OF assms Cons.prems, of rc c] by (auto simp: st)
  with Cons.IH [of n'] show ?case by (simp add: st)
qed simp

end
