(* ===== verification/Base64.thy ===== *)
theory Base64
  imports Encoding "HOL-Library.Word"
begin

unbundle bit_operations_syntax

text \<open>
  Base64, from \<^verbatim>\<open>src/libs/base64/base64.cpp\<close> (the repository's modified copy) and the wrappers
  in \<^verbatim>\<open>src/util/encoding.cpp\<close>. The bytes are promoted to \<^verbatim>\<open>int\<close> in the C++ expressions and cast
  back to \<^verbatim>\<open>unsigned char\<close>, so they are naturals here, with the bit operations of the source and
  a final \<open>mod 256\<close>. \<open>arr\<close> is the part of \<^verbatim>\<open>char_array_3\<close> (\<^verbatim>\<open>char_array_4\<close>) that is filled.
\<close>

definition base64_chars :: string where
  "base64_chars = ''ABCDEFGHIJKLMNOPQRSTUVWXYZabcdefghijklmnopqrstuvwxyz0123456789+/''"

definition is_base64 :: "char \<Rightarrow> bool" where
  "is_base64 c = (is_upper c \<or> is_lower c \<or> is_digit c \<or> c = CHR ''+'' \<or> c = CHR ''/'')"

definition is_whitespace :: "char \<Rightarrow> bool" where
  "is_whitespace c = (c = CR \<or> c = LF \<or> c = TAB \<or> c = CHR '' '')"

definition b64_find :: "char \<Rightarrow> nat" where
  "b64_find c = (case find_char c base64_chars of Some k \<Rightarrow> k | None \<Rightarrow> 0)"

section \<open>Encoding\<close>

definition quad :: "nat \<Rightarrow> nat \<Rightarrow> nat \<Rightarrow> nat list" where
  "quad a b c =
     [drop_bit 2 (a AND 0xfc) mod 256,
      (push_bit 4 (a AND 0x03) + drop_bit 4 (b AND 0xf0)) mod 256,
      (push_bit 2 (b AND 0x0f) + drop_bit 6 (c AND 0xc0)) mod 256,
      (c AND 0x3f) mod 256]"

text \<open>One character is written, preceded by the break sequence when the line is full.\<close>

definition b64_emit :: "nat \<Rightarrow> string \<Rightarrow> char \<Rightarrow> string \<times> nat \<Rightarrow> string \<times> nat" where
  "b64_emit break_after break_seq c st =
     (let (ret, break_count) = st;
          (ret', break_count') =
            (if 0 < break_after \<and> break_count = break_after then (ret @ break_seq, 0)
             else (ret, break_count))
      in (ret' @ [c], break_count' + 1))"

definition b64_tail :: "nat \<Rightarrow> string \<Rightarrow> nat list \<Rightarrow> string \<times> nat \<Rightarrow> string \<times> nat" where
  "b64_tail break_after break_seq arr st =
     (let i = length arr in
      if i = 0 then st
      else
        let arr3 = arr @ replicate (3 - i) 0;
            arr4 = take 3 (quad (arr3 ! 0) (arr3 ! 1) (arr3 ! 2));
            st1 = fold (\<lambda>k. b64_emit break_after break_seq (base64_chars ! k)) (take (i + 1) arr4) st
        in fold (b64_emit break_after break_seq) (replicate (3 - i) (CHR ''='')) st1)"

fun b64_enc_loop :: "nat \<Rightarrow> string \<Rightarrow> nat list \<Rightarrow> string \<Rightarrow> string \<times> nat \<Rightarrow> string \<times> nat" where
  "b64_enc_loop break_after break_seq arr [] st = b64_tail break_after break_seq arr st"
| "b64_enc_loop break_after break_seq arr (c # s) st =
     (let arr' = arr @ [code c] in
      if length arr' = 3
      then b64_enc_loop break_after break_seq [] s
             (fold (\<lambda>k. b64_emit break_after break_seq (base64_chars ! k))
               (quad (arr' ! 0) (arr' ! 1) (arr' ! 2)) st)
      else b64_enc_loop break_after break_seq arr' s st)"

definition base64_encode :: "string \<Rightarrow> nat \<Rightarrow> string \<Rightarrow> string" where
  "base64_encode bytes break_after break_seq = fst (b64_enc_loop break_after break_seq [] bytes ([], 0))"

section \<open>Decoding\<close>

definition triple :: "nat \<Rightarrow> nat \<Rightarrow> nat \<Rightarrow> nat \<Rightarrow> nat list" where
  "triple a b c d =
     [(push_bit 2 a + drop_bit 4 (b AND 0x30)) mod 256,
      (push_bit 4 (b AND 0xf) + drop_bit 2 (c AND 0x3c)) mod 256,
      (push_bit 6 (c AND 0x3) + d) mod 256]"

text \<open>
  After the loop with \<open>i\<close> characters left, \<open>i - 1\<close> bytes are written. For \<open>i < 3\<close> the second
  byte is computed from a stale \<^verbatim>\<open>char_array_4[2]\<close> but not written; \<open>0\<close> stands for it here.
\<close>

definition b64_dec_tail :: "nat list \<Rightarrow> string" where
  "b64_dec_tail arr =
     (let arr4 = arr @ replicate (4 - length arr) 0
      in map char_of (take (length arr - 1) (triple (arr4 ! 0) (arr4 ! 1) (arr4 ! 2) (arr4 ! 3))))"

fun b64_dec_loop :: "nat list \<Rightarrow> string \<Rightarrow> string" where
  "b64_dec_loop arr [] = b64_dec_tail arr"
| "b64_dec_loop arr (c # s) =
     (if is_base64 c \<or> is_whitespace c then
        (if is_whitespace c then b64_dec_loop arr s
         else
           let arr' = arr @ [b64_find c mod 256] in
           if length arr' = 4
           then map char_of (triple (arr' ! 0) (arr' ! 1) (arr' ! 2) (arr' ! 3)) @ b64_dec_loop [] s
           else b64_dec_loop arr' s)
      else b64_dec_tail arr)"

definition base64_decode :: "string \<Rightarrow> string" where
  "base64_decode encoded = b64_dec_loop [] encoded"

section \<open>The wrappers of encoding.cpp\<close>

definition base64Encode :: "string \<Rightarrow> nat \<Rightarrow> string \<Rightarrow> string" where
  "base64Encode inp breakAfter breakSequence = base64_encode inp breakAfter breakSequence"

definition base64Decode :: "string \<Rightarrow> string" where
  "base64Decode inp = base64_decode inp"

definition b64_ranges :: "(char \<times> char) list" where
  "b64_ranges = [(CHR ''A'', CHR ''Z''), (CHR ''a'', CHR ''z''), (CHR ''0'', CHR ''9''),
     (CHR ''+'', CHR ''+''), (CHR ''/'', CHR ''/'')]"

definition isBase64_rx :: "bool \<Rightarrow> rx" where
  "isBase64_rx allowWhitespaces =
     RSeq (RPlus (RSet False (b64_ranges @ (if allowWhitespaces then chars [CHR '' '', TAB, LF, CR] else []))))
          (RRep 0 (Some 2) True (RChr (CHR ''='')))"

definition isBase64 :: "string \<Rightarrow> bool \<Rightarrow> bool" where
  "isBase64 inp allowWhitespaces = (regex_match (isBase64_rx allowWhitespaces) inp \<noteq> None)"

section \<open>The alphabet\<close>

lemma length_base64_chars: "length base64_chars = 64"
  by (simp add: base64_chars_def)

lemma distinct_base64_chars: "distinct base64_chars"
  unfolding base64_chars_def by code_simp

lemma base64_chars_class: "list_all (\<lambda>c. is_base64 c \<and> \<not> is_whitespace c \<and> c \<noteq> CHR ''='') base64_chars"
  unfolding base64_chars_def is_base64_def is_whitespace_def is_upper_def is_lower_def is_digit_def
    CR_def LF_def TAB_def by code_simp

lemma b64_char_class:
  assumes "k < 64"
  shows "is_base64 (base64_chars ! k)" "\<not> is_whitespace (base64_chars ! k)"
proof -
  have "base64_chars ! k \<in> set base64_chars" using assms length_base64_chars by simp
  then show "is_base64 (base64_chars ! k)" "\<not> is_whitespace (base64_chars ! k)"
    using base64_chars_class by (auto simp: list_all_iff)
qed

lemma find_char_nth: "distinct s \<Longrightarrow> k < length s \<Longrightarrow> find_char (s ! k) s = Some k"
proof (induction s arbitrary: k)
  case (Cons c s)
  then show ?case by (cases k) (auto simp: nth_eq_iff_index_eq)
qed simp

lemma b64_find_nth: "k < 64 \<Longrightarrow> b64_find (base64_chars ! k) = k"
  using find_char_nth [OF distinct_base64_chars] length_base64_chars by (simp add: b64_find_def)

section \<open>The bit arithmetic\<close>

lemma and_mask_mod: "(a::nat) AND mask n = a mod 2 ^ n"
  by (simp flip: take_bit_eq_mask add: take_bit_eq_mod)

lemma and_low_mod:
  "(a::nat) AND 0x03 = a mod 4" "(a::nat) AND 0x0f = a mod 16" "(a::nat) AND 0x3f = a mod 64"
  using and_mask_mod [of a 2] and_mask_mod [of a 4]
    and_mask_mod [of a 6] by (simp_all add: mask_eq_exp_minus_1)

lemma drop_and_div:
  "drop_bit 2 ((a::nat) AND 0xfc) = a div 4 mod 64"
  "drop_bit 4 ((a::nat) AND 0xf0) = a div 16 mod 16"
  "drop_bit 6 ((a::nat) AND 0xc0) = a div 64 mod 4"
  "drop_bit 4 ((a::nat) AND 0x30) = a div 16 mod 4"
  "drop_bit 2 ((a::nat) AND 0x3c) = a div 4 mod 16"
proof -
  have d: "drop_bit 2 (252::nat) = mask 6" "drop_bit 4 (240::nat) = mask 4" "drop_bit 6 (192::nat) = mask 2"
    "drop_bit 4 (48::nat) = mask 2" "drop_bit 2 (60::nat) = mask 4"
    by (simp_all add: drop_bit_eq_div mask_eq_exp_minus_1)
  show "drop_bit 2 (a AND 0xfc) = a div 4 mod 64" "drop_bit 4 (a AND 0xf0) = a div 16 mod 16"
    "drop_bit 6 (a AND 0xc0) = a div 64 mod 4" "drop_bit 4 (a AND 0x30) = a div 16 mod 4"
    "drop_bit 2 (a AND 0x3c) = a div 4 mod 16"
    unfolding drop_bit_and d and_mask_mod by (simp_all add: drop_bit_eq_div)
qed

lemmas bit_div_simps = and_low_mod drop_and_div push_bit_eq_mult

lemma quad_bound: "k \<in> set (quad a b c) \<Longrightarrow> k < 64"
  unfolding quad_def bit_div_simps by auto

lemma triple_quad:
  assumes "a < 256" "b < 256" "c < 256"
  shows "triple (quad a b c ! 0) (quad a b c ! 1) (quad a b c ! 2) (quad a b c ! 3) = [a, b, c]"
  using assms unfolding quad_def triple_def bit_div_simps by simp

section \<open>The reference encoding, three bytes at a time\<close>

definition b64_group :: "nat \<Rightarrow> nat \<Rightarrow> nat \<Rightarrow> string" where
  "b64_group a b c = map (\<lambda>k. base64_chars ! k) (quad a b c)"

fun b64_ref :: "string \<Rightarrow> string" where
  "b64_ref [] = []"
| "b64_ref [a] = take 2 (b64_group (code a) 0 0) @ ''==''"
| "b64_ref [a, b] = take 3 (b64_group (code a) (code b) 0) @ ''=''"
| "b64_ref (a # b # c # s) = b64_group (code a) (code b) (code c) @ b64_ref s"

abbreviation strip :: "string \<Rightarrow> string" where
  "strip s \<equiv> filter (\<lambda>c. \<not> is_whitespace c) s"

text \<open>A break sequence that the decoder skips: no line breaks, or white space only.\<close>

definition blank_break :: "nat \<Rightarrow> string \<Rightarrow> bool" where
  "blank_break break_after break_seq \<longleftrightarrow> break_after = 0 \<or> list_all is_whitespace break_seq"

lemma length_b64_group [simp]: "length (b64_group a b c) = 4"
  by (simp add: b64_group_def quad_def)

lemma b64_group_class: "x \<in> set (b64_group a b c) \<Longrightarrow> is_base64 x \<and> \<not> is_whitespace x"
  by (auto simp: b64_group_def b64_char_class quad_bound)

lemma strip_emit:
  assumes "blank_break ba seq" and "\<not> is_whitespace c"
  shows "strip (fst (b64_emit ba seq c st)) = strip (fst st) @ [c]"
proof -
  have "strip seq = []" if "0 < ba" using assms(1) that
    by (auto simp: blank_break_def list_all_iff filter_empty_conv)
  with assms(2) show ?thesis by (cases st) (simp add: b64_emit_def)
qed

lemma strip_emits:
  assumes "blank_break ba seq"
  shows "list_all (\<lambda>c. \<not> is_whitespace c) cs \<Longrightarrow>
    strip (fst (fold (b64_emit ba seq) cs st)) = strip (fst st) @ cs"
  by (induction cs arbitrary: st) (simp_all add: strip_emit [OF assms])

lemma emit_group:
  "fold (\<lambda>k. b64_emit ba seq (base64_chars ! k)) ks st = fold (b64_emit ba seq) (map (\<lambda>k. base64_chars ! k) ks) st"
  by (simp add: fold_map comp_def)

lemma group_no_ws: "list_all (\<lambda>c. \<not> is_whitespace c) (take n (b64_group a b c))"
  unfolding list_all_iff using b64_group_class by (meson in_set_takeD)

lemma strip_tail:
  assumes "blank_break ba seq" and "\<not> is_whitespace (CHR ''='')"
  shows "strip (fst (b64_tail ba seq [a] st)) = strip (fst st) @ take 2 (b64_group a 0 0) @ ''==''"
    and "strip (fst (b64_tail ba seq [a, b] st)) = strip (fst st) @ take 3 (b64_group a b 0) @ ''=''"
proof -
  note e = strip_emits [OF assms(1)]
  have w: "list_all (\<lambda>c. \<not> is_whitespace c) ''==''" "list_all (\<lambda>c. \<not> is_whitespace c) ''=''"
    using assms(2) by simp_all
  have g: "map (\<lambda>k. base64_chars ! k) (take n (take 3 (quad x y z))) = take (min n 3) (b64_group x y z)" for n x y z
    by (simp add: b64_group_def take_map)
  show "strip (fst (b64_tail ba seq [a] st)) = strip (fst st) @ take 2 (b64_group a 0 0) @ ''==''"
    using e [OF w(1)] e [OF group_no_ws] g [of 2 a 0 0]
    by (simp add: b64_tail_def Let_def emit_group numeral_2_eq_2 numeral_3_eq_3 del: fold_simps)
  show "strip (fst (b64_tail ba seq [a, b] st)) = strip (fst st) @ take 3 (b64_group a b 0) @ ''=''"
    using e [OF w(2)] e [OF group_no_ws] g [of 3 a b 0]
    by (simp add: b64_tail_def Let_def emit_group numeral_2_eq_2 numeral_3_eq_3 del: fold_simps)
qed

lemma ws_not_eq: "\<not> is_whitespace (CHR ''='')"
  by (simp add: is_whitespace_def CR_def LF_def TAB_def)

lemma strip_enc_loop:
  assumes "blank_break ba seq"
  shows "strip (fst (b64_enc_loop ba seq [] s st)) = strip (fst st) @ b64_ref s"
proof (induction s arbitrary: st rule: b64_ref.induct)
  case 1
  show ?case by (simp add: b64_tail_def)
next
  case (2 a)
  show ?case using strip_tail(1) [OF assms ws_not_eq] by simp
next
  case (3 a b)
  show ?case using strip_tail(2) [OF assms ws_not_eq] by simp
next
  case (4 a b c s)
  have "strip (fst (fold (b64_emit ba seq) (b64_group (code a) (code b) (code c)) st)) =
      strip (fst st) @ b64_group (code a) (code b) (code c)"
    using strip_emits [OF assms, of "b64_group (code a) (code b) (code c)"]
      group_no_ws [of 4 "code a" "code b" "code c"] by simp
  with 4 show ?case by (simp add: emit_group flip: b64_group_def)
qed

lemma base64_encode_strip: "blank_break ba seq \<Longrightarrow> strip (base64_encode s ba seq) = b64_ref s"
  by (simp add: base64_encode_def strip_enc_loop)

section \<open>The round trip\<close>

lemma dec_strip: "b64_dec_loop arr (strip s) = b64_dec_loop arr s"
  by (induction arr s rule: b64_dec_loop.induct) (auto simp: Let_def)

lemma b64_find_group:
  assumes "k < 4"
  shows "b64_find (b64_group a b c ! k) mod 256 = quad a b c ! k"
proof -
  have l: "k < length (quad a b c)" using assms by (simp add: quad_def)
  then have q: "quad a b c ! k < 64" using quad_bound nth_mem by blast
  have "b64_group a b c ! k = base64_chars ! (quad a b c ! k)"
    unfolding b64_group_def using l by (rule nth_map)
  with b64_find_nth [OF q] q show ?thesis by simp
qed

text \<open>The decoder on the four characters of a group, with the loop unrolled.\<close>

lemma b64_group_split:
  "\<exists>w x y z. b64_group a b c = [w, x, y, z]"
  by (simp add: b64_group_def quad_def)

lemma dec_group:
  assumes "b64_group a b c = [w, x, y, z]" and "a < 256" "b < 256" "c < 256"
  shows "b64_dec_loop [] (w # x # y # z # s) = [char_of a, char_of b, char_of c] @ b64_dec_loop [] s"
    and "b64_dec_loop [] (w # x # y # CHR ''='' # s) = [char_of a, char_of b]"
    and "b64_dec_loop [] (w # x # CHR ''='' # s) = [char_of a]"
proof -
  have cl: "is_base64 w" "is_base64 x" "is_base64 y" "is_base64 z"
    "\<not> is_whitespace w" "\<not> is_whitespace x" "\<not> is_whitespace y" "\<not> is_whitespace z"
    using b64_group_class [of _ a b c] assms(1) by auto
  have v: "b64_find w mod 256 = quad a b c ! 0" "b64_find x mod 256 = quad a b c ! 1"
    "b64_find y mod 256 = quad a b c ! 2" "b64_find z mod 256 = quad a b c ! 3"
    using b64_find_group [of 0 a b c] b64_find_group [of 1 a b c] b64_find_group [of 2 a b c]
      b64_find_group [of 3 a b c] assms(1) by simp_all
  have e: "\<not> is_base64 (CHR ''='')" by (simp add: is_base64_def code_ineq_facts)
  note t = triple_quad [OF assms(2-4)]
  have "triple p q r 0 ! 0 = triple p q r' d ! 0" "triple p q r 0 ! 1 = triple p q r d ! 1" for p q r r' d
    by (simp_all add: triple_def)
  then have t2: "take 2 (triple p q r 0) = take 2 (triple p q r d)" "take 1 (triple p q 0 0) = take 1 (triple p q r d)"
    for p q r d by (simp_all add: triple_def)
  show "b64_dec_loop [] (w # x # y # z # s) = [char_of a, char_of b, char_of c] @ b64_dec_loop [] s"
    using cl v t by (simp add: Let_def)
  show "b64_dec_loop [] (w # x # y # CHR ''='' # s) = [char_of a, char_of b]"
    using cl v t e ws_not_eq t2(1) [of "quad a b c ! 0" "quad a b c ! 1" "quad a b c ! 2" "quad a b c ! 3"]
    by (simp add: Let_def b64_dec_tail_def numeral_2_eq_2)
  show "b64_dec_loop [] (w # x # CHR ''='' # s) = [char_of a]"
    using cl v t e ws_not_eq t2(2) [of "quad a b c ! 0" "quad a b c ! 1" "quad a b c ! 2" "quad a b c ! 3"]
    by (simp add: Let_def b64_dec_tail_def numeral_2_eq_2)
qed

lemma dec_ref: "b64_dec_loop [] (b64_ref s) = s"
proof (induction s rule: b64_ref.induct)
  case 1
  show ?case by (simp add: b64_dec_tail_def)
next
  case (2 a)
  obtain w x y z where g: "b64_group (code a) 0 0 = [w, x, y, z]" using b64_group_split by blast
  from dec_group(3) [OF g, of "''=''"] show ?case by (simp add: g del: b64_dec_loop.simps)
next
  case (3 a b)
  obtain w x y z where g: "b64_group (code a) (code b) 0 = [w, x, y, z]" using b64_group_split by blast
  from dec_group(2) [OF g, of "[]"] show ?case by (simp add: g del: b64_dec_loop.simps)
next
  case (4 a b c s)
  obtain w x y z where g: "b64_group (code a) (code b) (code c) = [w, x, y, z]"
    using b64_group_split by blast
  from dec_group(1) [OF g] 4 show ?case by (simp add: g del: b64_dec_loop.simps)
qed

lemma base64_roundtrip: "blank_break ba seq \<Longrightarrow> base64Decode (base64Encode s ba seq) = s"
  unfolding base64Decode_def base64Encode_def base64_decode_def
  by (metis dec_strip base64_encode_strip dec_ref)

interpretation b64: codec "\<lambda>s. base64Encode s 0 []" "\<lambda>t. Inr (base64Decode t)"
  by unfold_locales (simp add: base64_roundtrip blank_break_def)

section \<open>Without line breaks\<close>

lemma emit0_single [simp]: "fst (b64_emit 0 seq c st) = fst st @ [c]"
  by (simp add: b64_emit_def split_beta)

lemma emit0: "fst (fold (b64_emit 0 seq) cs st) = fst st @ cs"
  by (induction cs arbitrary: st) simp_all

lemma tail0:
  "fst (b64_tail 0 seq [a] st) = fst st @ take 2 (b64_group a 0 0) @ ''==''"
  "fst (b64_tail 0 seq [a, b] st) = fst st @ take 3 (b64_group a b 0) @ ''=''"
proof -
  have g: "map (\<lambda>k. base64_chars ! k) (take n (take 3 (quad x y z))) = take (min n 3) (b64_group x y z)" for n x y z
    by (simp add: b64_group_def take_map)
  show "fst (b64_tail 0 seq [a] st) = fst st @ take 2 (b64_group a 0 0) @ ''==''"
    using g [of 2 a 0 0]
    by (simp add: b64_tail_def Let_def emit_group emit0 numeral_2_eq_2 numeral_3_eq_3 del: fold_simps)
  show "fst (b64_tail 0 seq [a, b] st) = fst st @ take 3 (b64_group a b 0) @ ''=''"
    using g [of 3 a b 0]
    by (simp add: b64_tail_def Let_def emit_group emit0 numeral_2_eq_2 numeral_3_eq_3 del: fold_simps)
qed

lemma enc_loop0: "fst (b64_enc_loop 0 seq [] s st) = fst st @ b64_ref s"
proof (induction s arbitrary: st rule: b64_ref.induct)
  case (4 a b c s)
  then show ?case by (simp add: emit_group emit0 flip: b64_group_def)
qed (simp_all add: tail0 b64_tail_def [of 0 _ "[]"])

lemma base64Encode_ref: "base64Encode s 0 seq = b64_ref s"
  by (simp add: base64Encode_def base64_encode_def enc_loop0)

lemma b64_ref_shape:
  "\<exists>body k. b64_ref s = body @ replicate k (CHR ''='') \<and> k \<le> 2
     \<and> (\<forall>c \<in> set body. is_base64 c \<and> \<not> is_whitespace c) \<and> (s \<noteq> [] \<longrightarrow> body \<noteq> [])"
proof (induction s rule: b64_ref.induct)
  case 1
  show ?case by (intro exI [of _ "[]"] exI [of _ 0]) simp
next
  case (2 a)
  show ?case
    by (intro exI [of _ "take 2 (b64_group (code a) 0 0)"] exI [of _ 2])
      (auto simp: numeral_2_eq_2 dest!: in_set_takeD dest: b64_group_class
        simp flip: length_greater_0_conv)
next
  case (3 a b)
  show ?case
    by (intro exI [of _ "take 3 (b64_group (code a) (code b) 0)"] exI [of _ 1])
      (auto dest!: in_set_takeD dest: b64_group_class simp flip: length_greater_0_conv)
next
  case (4 a b c s)
  then obtain body k where ih: "b64_ref s = body @ replicate k (CHR ''='')" "k \<le> 2"
    "\<forall>c \<in> set body. is_base64 c \<and> \<not> is_whitespace c" by blast
  then show ?case
    by (intro exI [of _ "b64_group (code a) (code b) (code c) @ body"] exI [of _ k])
      (auto dest: b64_group_class simp flip: length_greater_0_conv)
qed

lemma base64Encode_no_ws: "strip (base64Encode s 0 seq) = base64Encode s 0 seq"
proof -
  obtain body k where "b64_ref s = body @ replicate k (CHR ''='')"
    "\<forall>c \<in> set body. is_base64 c \<and> \<not> is_whitespace c" using b64_ref_shape by blast
  then show ?thesis using ws_not_eq by (simp add: base64Encode_ref filter_id_conv)
qed

lemma b64_ranges_class: "is_base64 c \<Longrightarrow> in_ranges (b64_ranges @ rs) c"
  by (auto simp: is_base64_def b64_ranges_def in_ranges_def is_upper_def is_lower_def is_digit_def)

lemma isBase64_encoded: "isBase64 (base64Encode s 0 seq) ws \<longleftrightarrow> s \<noteq> []"
proof
  show "s \<noteq> []" if "isBase64 (base64Encode s 0 seq) ws"
  proof
    assume "s = []"
    then have "rx_run (isBase64_rx ws) ([], []) \<noteq> []"
      using that by (auto simp: isBase64_def base64Encode_ref regex_match_def)
    then show False by (simp add: isBase64_rx_def rep_rounds_def)
  qed
next
  assume ne: "s \<noteq> []"
  obtain body k where b: "b64_ref s = body @ replicate k (CHR ''='')" "k \<le> 2"
    "\<forall>c \<in> set body. is_base64 c" "body \<noteq> []" using b64_ref_shape [of s] ne by blast
  have wf: "rx_wf (isBase64_rx ws)" by (simp add: isBase64_rx_def)
  have "body \<in> rx_lang (RPlus (RSet False (b64_ranges @ rs)))" for rs
    unfolding rx_lang_rep_class using b(3,4) b64_ranges_class by (auto simp: Suc_le_eq)
  moreover have "replicate k (CHR ''='') \<in> rx_lang (RRep 0 (Some 2) True (RChr (CHR ''='')))"
    unfolding rx_lang_rep_class using b(2) by (auto simp: in_ranges_def)
  ultimately have "b64_ref s \<in> rx_lang (isBase64_rx ws)"
    unfolding b(1) isBase64_rx_def rx_lang.simps(2) by blast
  then show "isBase64 (base64Encode s 0 seq) ws"
    using regex_match_iff [OF wf, of "b64_ref s"] by (simp add: isBase64_def base64Encode_ref)
qed

end
