(* ===== verification/Http_Text.thy ===== *)
theory Http_Text
  imports Base64 Replace
begin

text \<open>
  Text that comes from or goes to the network: the functions of \<^verbatim>\<open>src/util/utils.cpp\<close> and
  \<^verbatim>\<open>src/util/encoding.cpp\<close> that build on Boost's string algorithms. Boost is not part of
  the repository, so its algorithms are a parameter of the model, the record \<open>boost\<close>;
  \<open>boost_ok\<close> states what their documentation promises and \<open>boost_ref\<close> is one
  implementation that keeps the promise. Then \<^verbatim>\<open>htmlEncode\<close> (without \<^verbatim>\<open>encodeAll\<close>),
  \<^verbatim>\<open>makeEncodedWord\<close>, \<^verbatim>\<open>splitQueryString\<close>, \<^verbatim>\<open>parseHeaders\<close> and
  \<^verbatim>\<open>parseCookies\<close>, each with the text that it reads back.
\<close>

section \<open>Boost's string algorithms\<close>

record boost =
  b_replace_all :: "string \<Rightarrow> string \<Rightarrow> string \<Rightarrow> string"
  b_erase_all :: "string \<Rightarrow> string \<Rightarrow> string"
  b_trim_left :: "string \<Rightarrow> string"
  b_trim :: "string \<Rightarrow> string"

abbreviation trim_left_ref :: "string \<Rightarrow> string" where
  "trim_left_ref s \<equiv> dropWhile is_space s"

definition trim_ref :: "string \<Rightarrow> string" where
  "trim_ref s = rev (dropWhile is_space (rev (dropWhile is_space s)))"

definition boost_ok :: "boost \<Rightarrow> bool" where
  "boost_ok B \<longleftrightarrow>
     (\<forall>s key val. key \<noteq> [] \<longrightarrow> b_replace_all B s key val = replace_all key val s)
     \<and> (\<forall>s c. b_erase_all B s [c] = filter (\<lambda>d. d \<noteq> c) s)
     \<and> (\<forall>s. b_trim_left B s = trim_left_ref s)
     \<and> (\<forall>s. b_trim B s = trim_ref s)"

definition boost_ref :: boost where
  "boost_ref = \<lparr>b_replace_all = \<lambda>s key val. replace_all key val s,
     b_erase_all = \<lambda>s cs. filter (\<lambda>d. [d] \<noteq> cs) s,
     b_trim_left = \<lambda>s. trim_left_ref s, b_trim = trim_ref\<rparr>"

lemma boost_ref_ok [simp]: "boost_ok boost_ref"
  by (simp add: boost_ok_def boost_ref_def)

lemma boost_okD:
  assumes "boost_ok B"
  shows "key \<noteq> [] \<Longrightarrow> b_replace_all B s key val = replace_all key val s"
    and "b_erase_all B s [c] = filter (\<lambda>d. d \<noteq> c) s"
    and "b_trim_left B s = trim_left_ref s"
    and "b_trim B s = trim_ref s"
  using assms by (auto simp: boost_ok_def)

lemma trim_ref_id:
  assumes "s = [] \<or> \<not> is_space (hd s) \<and> \<not> is_space (last s)"
  shows "trim_ref s = s"
proof (cases s rule: rev_cases)
  case (snoc t c)
  have "trim_left_ref s = s" using assms snoc by (simp add: dropWhile_eq_self_iff)
  moreover have "\<not> is_space c" using assms snoc by simp
  ultimately show ?thesis using snoc by (simp add: trim_ref_def)
qed (simp add: trim_ref_def)

lemma trim_ref_space: "is_space c \<Longrightarrow> trim_ref (c # s) = trim_ref s"
  by (simp add: trim_ref_def)

section \<open>HTML and MIME words\<close>

definition htmlEncode :: "boost \<Rightarrow> string \<Rightarrow> string" where
  "htmlEncode B inp =
     (let inp = b_replace_all B inp ''&'' ''&amp;'';
          inp = b_replace_all B inp [DQUOTE] ''&quot;'';
          inp = b_replace_all B inp ''<'' ''&lt;'';
          inp = b_replace_all B inp ''>'' ''&gt;''
      in inp)"

definition makeEncodedWord :: "string \<Rightarrow> bool \<Rightarrow> bool \<Rightarrow> string option" where
  "makeEncodedWord inp base64 onlyIfNecessary =
     (let ret = ''=?utf-8?'' in
      if base64 then Some (ret @ ''B?'' @ base64Encode inp 0 [] @ ''?='')
      else
        let qpEncoded = quotedPrintableEncode inp [] True True in
        if onlyIfNecessary
        then (case stringReplace inp [('' '', ''_'')] of
                None \<Rightarrow> None
              | Some r \<Rightarrow> if qpEncoded = r then Some inp
                        else Some (ret @ ''Q?'' @ qpEncoded @ ''?=''))
        else Some (ret @ ''Q?'' @ qpEncoded @ ''?=''))"

text \<open>The reference for \<^verbatim>\<open>htmlEncode\<close>, one character at a time.\<close>

definition html_char :: "char \<Rightarrow> string" where
  "html_char c =
     (if c = CHR ''&'' then ''&amp;'' else if c = DQUOTE then ''&quot;''
      else if c = CHR ''<'' then ''&lt;'' else if c = CHR ''>'' then ''&gt;'' else [c])"

abbreviation subst_char :: "char \<Rightarrow> string \<Rightarrow> string \<Rightarrow> string" where
  "subst_char c v s \<equiv> concat (map (\<lambda>d. if d = c then v else [d]) s)"

lemma subst_char_concat: "subst_char c v (concat (map f s)) = concat (map (\<lambda>d. subst_char c v (f d)) s)"
  by (induction s) auto

lemma htmlEncode_chars: "boost_ok B \<Longrightarrow> htmlEncode B s = concat (map html_char s)"
proof -
  assume B: "boost_ok B"
  have "htmlEncode B s = subst_char (CHR ''>'') ''&gt;'' (subst_char (CHR ''<'') ''&lt;''
          (subst_char DQUOTE ''&quot;'' (subst_char (CHR ''&'') ''&amp;'' s)))"
    by (simp add: htmlEncode_def boost_okD(1) [OF B] replace_all_single)
  also have "\<dots> = concat (map (\<lambda>c. subst_char (CHR ''>'') ''&gt;'' (subst_char (CHR ''<'') ''&lt;''
          (subst_char DQUOTE ''&quot;'' (if c = CHR ''&'' then ''&amp;'' else [c])))) s)"
    by (simp only: subst_char_concat)
  also have "(\<lambda>c. subst_char (CHR ''>'') ''&gt;'' (subst_char (CHR ''<'') ''&lt;''
          (subst_char DQUOTE ''&quot;'' (if c = CHR ''&'' then ''&amp;'' else [c])))) = html_char"
    by (rule ext) (simp add: html_char_def DQUOTE_def)
  finally show ?thesis .
qed

lemma html_char_no_markup: "set (html_char c) \<inter> {CHR ''<'', CHR ''>'', DQUOTE} = {}"
  by (auto simp: html_char_def DQUOTE_def)

text \<open>Every ampersand of the encoded text starts one of the four entities.\<close>

definition html_entities :: "string list" where
  "html_entities = [''&amp;'', ''&quot;'', ''&lt;'', ''&gt;'']"

fun amps_ok :: "string \<Rightarrow> bool" where
  "amps_ok [] \<longleftrightarrow> True"
| "amps_ok (c # s) \<longleftrightarrow> (c = CHR ''&'' \<longrightarrow> list_ex (\<lambda>e. is_prefix e (c # s)) html_entities) \<and> amps_ok s"

lemma amps_ok_no_amp: "CHR ''&'' \<notin> set p \<Longrightarrow> amps_ok (p @ s) = amps_ok s"
  by (induction p) auto

lemma amps_ok_encoded: "amps_ok (concat (map html_char s))"
proof (induction s)
  case (Cons c s)
  have "amps_ok (html_char c @ t) = amps_ok t" for t
    by (simp add: html_char_def html_entities_def)
  with Cons show ?case by simp
qed simp

lemma html_char_inj: "html_char c @ s = html_char d @ t \<Longrightarrow> c = d \<and> s = t"
  by (simp add: html_char_def split: if_splits)

lemma html_chars_inj: "concat (map html_char s) = concat (map html_char t) \<Longrightarrow> s = t"
proof (induction s arbitrary: t)
  case Nil
  then show ?case by (cases t) (simp_all add: html_char_def split: if_splits)
next
  case (Cons c s)
  then show ?case
  proof (cases t)
    case Nil
    with Cons.prems show ?thesis by (simp add: html_char_def split: if_splits)
  next
    case (Cons d t')
    with Cons.prems html_char_inj [of c _ d] Cons.IH [of t'] show ?thesis by simp
  qed
qed

section \<open>The query string, headers and cookies\<close>

definition query_pair :: "string \<Rightarrow> (string \<times> string) result" where
  "query_pair p =
     (let eqPos = find_char (CHR ''='') p;
          k = substr_to p eqPos
      in case eqPos of
           Some e \<Rightarrow>
             if e < length p - 1
             then bind_result (urlDecode (drop (e + 1) p)) (\<lambda>v. Inr (k, v))
             else Inr (k, [])
         | None \<Rightarrow> Inr (k, []))"

fun query_pairs :: "string list \<Rightarrow> (string, string) ummap \<Rightarrow> (string, string) ummap result" where
  "query_pairs [] ret = Inr ret"
| "query_pairs (p # ps) ret =
     bind_result (query_pair p) (\<lambda>(k, v). query_pairs ps (ummap_insert k v ret))"

definition splitQueryString :: "string \<Rightarrow> (string, string) ummap result" where
  "splitQueryString queryString =
     (let qs = (case find_char (CHR ''?'') queryString of
                  Some q \<Rightarrow> (if length queryString > q then drop (q + 1) queryString else [])
                | None \<Rightarrow> queryString)
      in query_pairs (splitString qs (CHR ''&'') True) [])"

definition header_line :: "boost \<Rightarrow> string \<Rightarrow> (string \<times> string) option" where
  "header_line B line =
     (let colonPos = find_char (CHR '':'') line in
      if length line < pos_add colonPos 2 then None
      else Some (toLowercase (substr_to line colonPos), b_trim_left B (drop (pos_add colonPos 1) line)))"

definition parseHeaders :: "boost \<Rightarrow> string \<Rightarrow> (string, string) umap" where
  "parseHeaders B rawHeaders =
     (let rawHeaders = b_erase_all B rawHeaders [CR];
          lines = splitString rawHeaders LF True
      in fold (\<lambda>line ret. case header_line B line of None \<Rightarrow> ret | Some (k, v) \<Rightarrow> umap_set k v ret) lines [])"

definition cookie_pair :: "boost \<Rightarrow> string \<Rightarrow> (string \<times> string) option" where
  "cookie_pair B c =
     (let c = b_trim B c;
          eqPos = find_char (CHR ''='') c
      in if length c < pos_add eqPos 2 then None
         else Some (substr_to c eqPos, drop (pos_add eqPos 1) c))"

definition parseCookies :: "boost \<Rightarrow> string \<Rightarrow> (string, string) ummap" where
  "parseCookies B rawCookies =
     fold (\<lambda>c ret. case cookie_pair B c of None \<Rightarrow> ret | Some (k, v) \<Rightarrow> ummap_insert k v ret)
       (splitString rawCookies (CHR '';'') True) []"

section \<open>What is read is what was written\<close>

fun join_sep :: "char \<Rightarrow> string list \<Rightarrow> string" where
  "join_sep d [] = []"
| "join_sep d [t] = t"
| "join_sep d (t # ts) = t @ d # join_sep d ts"

lemma splitString_join_sep:
  "(\<And>t. t \<in> set ts \<Longrightarrow> t \<noteq> [] \<and> d \<notin> set t) \<Longrightarrow> splitString (join_sep d ts) d True = ts"
  by (induction d ts rule: join_sep.induct) (auto simp: splitString_token)

lemma in_join_sep: "x \<in> set (join_sep d ts) \<Longrightarrow> x \<noteq> d \<Longrightarrow> \<exists>t \<in> set ts. x \<in> set t"
  by (induction d ts rule: join_sep.induct) auto

lemma fold_collect_set:
  "fold (\<lambda>x ret. case f x of None \<Rightarrow> ret | Some (k, v) \<Rightarrow> umap_set k v ret) xs ret =
     fold (\<lambda>(k, v). umap_set k v) (List.map_filter f xs) ret"
  by (induction xs arbitrary: ret) (auto simp: map_filter_simps split: option.splits)

lemma map_filter_Some: "(\<And>x. x \<in> set xs \<Longrightarrow> f (g x) = Some (h x)) \<Longrightarrow> List.map_filter f (map g xs) = map h xs"
  by (induction xs) (auto simp: map_filter_simps)

subsection \<open>Query strings\<close>

definition query_text :: "(string \<times> string) list \<Rightarrow> string" where
  "query_text kvs = join_sep (CHR ''&'') (map (\<lambda>(k, v). k @ CHR ''='' # urlEncode v) kvs)"

lemma upper_hex_is_hex: "x \<in> set (upper_hex c) \<Longrightarrow> is_hex x"
  using is_hex_upper_digit [OF code_div_16, of c] is_hex_upper_digit [of "code c mod 16"]
  by (auto simp: upper_hex_eq)

lemma is_hex_chars: "\<forall>c. is_hex c \<longrightarrow> c \<in> set ''0123456789ABCDEF''"
  by code_simp

lemma urlEncode_chars:
  "set (urlEncode s) \<subseteq> set ''ABCDEFGHIJKLMNOPQRSTUVWXYZabcdefghijklmnopqrstuvwxyz0123456789-_.~%''"
proof -
  define A where "A = set ''ABCDEFGHIJKLMNOPQRSTUVWXYZabcdefghijklmnopqrstuvwxyz0123456789-_.~%''"
  have u: "set urlUnreserved \<subseteq> A" unfolding urlUnreserved_def A_def by auto
  have "set ''0123456789ABCDEF'' \<subseteq> A" unfolding A_def by simp
  then have h: "set (upper_hex c) \<subseteq> A" for c using upper_hex_is_hex [of _ c] is_hex_chars by blast
  have p: "CHR ''%'' \<in> A" unfolding A_def by simp
  have "set (if c \<in> set urlUnreserved then [c] else CHR ''%'' # upper_hex c) \<subseteq> A" for c using u h p by auto
  then have "set (urlEncode s) \<subseteq> A" unfolding urlEncode_def set_concat set_map UN_subset_iff by blast
  then show ?thesis by (simp only: A_def)
qed

lemma urlEncode_clean: "set (urlEncode s) \<inter> {CHR ''&'', CHR ''='', CHR ''?'', CHR '' ''} = {}"
  using urlEncode_chars [of s] by auto

lemma query_pair_text:
  assumes "CHR ''='' \<notin> set k"
  shows "query_pair (k @ CHR ''='' # urlEncode v) = Inr (k, v)"
  using assms urlDecode_urlEncode [of v]
  by (cases "urlEncode v") (auto simp: query_pair_def Let_def urlDecode_def rrc_Nil url_rx_Nil)

lemma query_pairs_all:
  "(\<And>kv. kv \<in> set kvs \<Longrightarrow> query_pair (f kv) = Inr kv) \<Longrightarrow> query_pairs (map f kvs) ret = Inr (fold (\<lambda>(k, v). ummap_insert k v) kvs ret)"
  by (induction kvs arbitrary: ret) auto

lemma splitQueryString_text:
  assumes keys: "\<And>k v. (k, v) \<in> set kvs \<Longrightarrow> set k \<inter> {CHR ''&'', CHR ''='', CHR ''?''} = {}"
    and pre: "pre = [] \<or> (\<exists>path. CHR ''?'' \<notin> set path \<and> pre = path @ ''?'')"
  shows "\<exists>mm. splitQueryString (pre @ query_text kvs) = Inr mm \<and> (\<forall>e. count_list mm e = count_list kvs e)"
proof -
  let ?f = "\<lambda>(k, v). k @ CHR ''='' # urlEncode v"
  have clean: "t \<noteq> [] \<and> CHR ''&'' \<notin> set t \<and> CHR ''?'' \<notin> set t" if "t \<in> set (map ?f kvs)" for t
    using that keys urlEncode_clean by fastforce
  have "CHR ''?'' \<notin> set (query_text kvs)"
  proof
    assume "CHR ''?'' \<in> set (query_text kvs)"
    then have "\<exists>t \<in> set (map ?f kvs). CHR ''?'' \<in> set t"
      unfolding query_text_def by (rule in_join_sep) simp
    with clean show False by blast
  qed
  then have "splitQueryString (pre @ query_text kvs) = query_pairs (splitString (query_text kvs) (CHR ''&'') True) []"
    using pre by (auto simp: splitQueryString_def Let_def find_char_None_iff [THEN iffD2])
  also have "splitString (query_text kvs) (CHR ''&'') True = map ?f kvs"
    unfolding query_text_def by (rule splitString_join_sep) (use clean in blast)
  also have "query_pairs (map ?f kvs) [] = Inr (fold (\<lambda>(k, v). ummap_insert k v) kvs [])"
    by (rule query_pairs_all) (use keys query_pair_text in fastforce)
  finally show ?thesis by (simp add: umm.entries_fold)
qed

lemma query_pairs_total: "\<exists>r. query_pairs ps ret = Inr r"
  by (induction ps arbitrary: ret)
    (auto simp: query_pair_def Let_def urlDecode_scan split: option.splits)

lemma splitQueryString_total: "\<exists>r. splitQueryString s = Inr r"
  unfolding splitQueryString_def Let_def by (rule query_pairs_total)

subsection \<open>Header blocks\<close>

definition header_text :: "(string \<times> string) list \<Rightarrow> string" where
  "header_text hs = concat (map (\<lambda>(k, v). k @ '': '' @ v @ CRLF) hs)"

definition header_ok :: "string \<times> string \<Rightarrow> bool" where
  "header_ok kv \<longleftrightarrow> set (fst kv) \<inter> {CHR '':'', CR, LF} = {} \<and> set (snd kv) \<inter> {CR, LF} = {}
     \<and> (snd kv = [] \<or> \<not> is_space (hd (snd kv)))"

lemma header_line_text:
  assumes "boost_ok B" and "header_ok (k, v)"
  shows "header_line B (k @ '': '' @ v) = Some (toLowercase k, v)"
proof -
  have f: "find_char (CHR '':'') (k @ '': '' @ v) = Some (length k)"
    using assms(2) by (simp add: header_ok_def)
  have "trim_left_ref ('' '' @ v) = v"
    using assms(2) by (cases v) (auto simp: header_ok_def is_space_def)
  then show ?thesis using f boost_okD(3) [OF assms(1)] by (simp add: header_line_def)
qed

lemma header_text_lines:
  assumes "list_all header_ok hs"
  shows "splitString (filter (\<lambda>d. d \<noteq> CR) (header_text hs)) LF True = map (\<lambda>(k, v). k @ '': '' @ v) hs"
  using assms
proof (induction hs)
  case Nil
  show ?case by (simp add: header_text_def)
next
  case (Cons kv hs)
  obtain k v where kv: "kv = (k, v)" by (cases kv)
  from Cons.prems have ok: "header_ok (k, v)" "list_all header_ok hs" by (simp_all add: kv)
  then have n: "LF \<notin> set (k @ '': '' @ v)" "filter (\<lambda>d. d \<noteq> CR) k = k" "filter (\<lambda>d. d \<noteq> CR) v = v"
    by (auto simp: header_ok_def LF_def filter_id_conv)
  have "filter (\<lambda>d. d \<noteq> CR) (header_text (kv # hs)) =
      (k @ '': '' @ v) @ LF # filter (\<lambda>d. d \<noteq> CR) (header_text hs)"
    using n(2,3) by (simp add: header_text_def kv CRLF_def CR_def LF_def)
  with Cons.IH [OF ok(2)] show ?case by (simp only: splitString_step [OF n(1)]) (simp add: kv)
qed

lemma parseHeaders_text:
  assumes "boost_ok B" and "list_all header_ok hs"
  shows "umap_get (parseHeaders B (header_text hs)) n = map_of (rev (map (\<lambda>(k, v). (toLowercase k, v)) hs)) n"
proof -
  have "List.map_filter (header_line B) (map (\<lambda>(k, v). k @ '': '' @ v) hs) = map (\<lambda>(k, v). (toLowercase k, v)) hs"
    by (rule map_filter_Some) (use assms header_line_text in \<open>fastforce simp: list_all_iff\<close>)
  then show ?thesis
    using boost_okD(2) [OF assms(1)] header_text_lines [OF assms(2)]
    by (simp add: parseHeaders_def fold_collect_set um.get_put_list split: option.splits)
qed

lemma fold_set_keys:
  assumes "umap_wf m" and "\<And>k. umap_has m k \<Longrightarrow> P k" and "\<And>kv. kv \<in> set kvs \<Longrightarrow> P (fst kv)"
  shows "umap_wf (fold (\<lambda>(k, v). umap_set k v) kvs m)
    \<and> (\<forall>k. umap_has (fold (\<lambda>(k, v). umap_set k v) kvs m) k \<longrightarrow> P k)"
  using assms
proof (induction kvs arbitrary: m)
  case (Cons kv kvs)
  obtain k v where kv: "kv = (k, v)" by (cases kv)
  from Cons.prems have "umap_wf (umap_set k v m)" "\<And>k'. umap_has (umap_set k v m) k' \<Longrightarrow> P k'"
    by (fastforce simp: kv intro: um.wf_put)+
  from Cons.IH [OF this] Cons.prems(3) show ?case by (simp add: kv)
qed simp

lemma parseHeaders_lowercase:
  "umap_wf (parseHeaders B s) \<and> (\<forall>k. umap_has (parseHeaders B s) k \<longrightarrow> toLowercase k = k)"
  unfolding parseHeaders_def Let_def fold_collect_set
  by (rule fold_set_keys) (auto simp: map_filter_def header_line_def Let_def split: if_splits)

text \<open>A line without a colon is not skipped: \<^verbatim>\<open>npos + 2\<close> wraps around to 1.\<close>

lemma header_line_no_colon:
  assumes "boost_ok B" and "CHR '':'' \<notin> set line" and "line \<noteq> []"
  shows "header_line B line = Some (toLowercase line, trim_left_ref line)"
  using assms boost_okD(3) [OF assms(1)]
  by (auto simp: header_line_def Let_def find_char_None_iff [THEN iffD2] Suc_le_eq)

subsection \<open>Cookies\<close>

definition cookie_text :: "(string \<times> string) list \<Rightarrow> string" where
  "cookie_text kvs = join_sep (CHR '';'') (map (\<lambda>(k, v). CHR '' '' # k @ CHR ''='' # v) kvs)"

definition cookie_text_ok :: "string \<times> string \<Rightarrow> bool" where
  "cookie_text_ok kv \<longleftrightarrow> fst kv \<noteq> [] \<and> snd kv \<noteq> [] \<and> \<not> is_space (hd (fst kv)) \<and> \<not> is_space (last (snd kv))
     \<and> set (fst kv) \<inter> {CHR ''='', CHR '';''} = {} \<and> CHR '';'' \<notin> set (snd kv)"

lemma cookie_pair_text:
  assumes "boost_ok B" and "cookie_text_ok (k, v)"
  shows "cookie_pair B (CHR '' '' # k @ CHR ''='' # v) = Some (k, v)"
proof -
  have "trim_ref (CHR '' '' # k @ CHR ''='' # v) = k @ CHR ''='' # v"
    using assms(2) by (subst trim_ref_space) (simp_all add: trim_ref_id cookie_text_ok_def is_space_def)
  then show ?thesis using assms(2) boost_okD(4) [OF assms(1)]
    by (cases v) (auto simp: cookie_pair_def cookie_text_ok_def Let_def)
qed

lemma parseCookies_text:
  assumes "boost_ok B" and "list_all cookie_text_ok kvs"
  shows "count_list (parseCookies B (cookie_text kvs)) e = count_list kvs e"
proof -
  let ?f = "\<lambda>(k, v). CHR '' '' # k @ CHR ''='' # v"
  have "splitString (cookie_text kvs) (CHR '';'') True = map ?f kvs"
    unfolding cookie_text_def
    by (rule splitString_join_sep) (use assms(2) in \<open>fastforce simp: list_all_iff cookie_text_ok_def\<close>)
  moreover have "List.map_filter (cookie_pair B) (map ?f kvs) = map (\<lambda>kv. kv) kvs"
    by (rule map_filter_Some) (use assms cookie_pair_text in \<open>fastforce simp: list_all_iff\<close>)
  ultimately show ?thesis by (simp add: parseCookies_def umm.entries_collect)
qed

end
