(* ===== verification/Utf8.thy ===== *)
theory Utf8
  imports Encoding
begin

text \<open>
  \<^verbatim>\<open>wstring_convert<codecvt_utf8<char32_t>, char32_t>\<close> of the C++ standard library, with which
  the encoding functions go from UTF-8 bytes to code points and back. A \<^verbatim>\<open>char32_t\<close> is its
  value. Bytes that are not UTF-8 and values that are not Unicode scalar values make the
  conversion throw \<^verbatim>\<open>range_error\<close>.
\<close>

definition scalar :: "nat \<Rightarrow> bool" where
  "scalar c \<longleftrightarrow> c < 0xD800 \<or> 0xE000 \<le> c \<and> c \<le> 0x10FFFF"

text \<open>A continuation byte with the six bits \<open>n\<close>.\<close>

definition cont_byte :: "nat \<Rightarrow> char" where
  "cont_byte n = char_of (0x80 + n mod 64)"

definition is_cont :: "char \<Rightarrow> bool" where
  "is_cont c \<longleftrightarrow> 0x80 \<le> code c \<and> code c < 0xC0"

definition cont_bits :: "char \<Rightarrow> nat" where
  "cont_bits c = code c - 0x80"

definition utf8_char :: "nat \<Rightarrow> string" where
  "utf8_char c =
     (if c < 0x80 then [char_of c]
      else if c < 0x800 then [char_of (0xC0 + c div 64), cont_byte c]
      else if c < 0x10000 then [char_of (0xE0 + c div 4096), cont_byte (c div 64), cont_byte c]
      else [char_of (0xF0 + c div 262144), cont_byte (c div 4096), cont_byte (c div 64), cont_byte c])"

fun to_bytes :: "nat list \<Rightarrow> string result" where
  "to_bytes [] = Inr []"
| "to_bytes (c # cs) =
     (if scalar c then bind_result (to_bytes cs) (\<lambda>s. Inr (utf8_char c @ s)) else Inl RangeError)"

text \<open>The code point at the start of the bytes: the value and the rest.\<close>

fun utf8_next :: "string \<Rightarrow> (nat \<times> string) option" where
  "utf8_next [] = None"
| "utf8_next (a # s) =
     (let x = code a in
      if x < 0x80 then Some (x, s)
      else case s of
        [] \<Rightarrow> None
      | b # s2 \<Rightarrow>
          if \<not> is_cont b then None
          else if 0xC2 \<le> x \<and> x < 0xE0 then Some ((x - 0xC0) * 64 + cont_bits b, s2)
          else (case s2 of
            [] \<Rightarrow> None
          | c # s3 \<Rightarrow>
              if \<not> is_cont c then None
              else if 0xE0 \<le> x \<and> x < 0xF0 then
                (let v = (x - 0xE0) * 4096 + cont_bits b * 64 + cont_bits c in
                 if 0x800 \<le> v \<and> scalar v then Some (v, s3) else None)
              else (case s3 of
                [] \<Rightarrow> None
              | d # s4 \<Rightarrow>
                  if is_cont d \<and> 0xF0 \<le> x \<and> x < 0xF5 then
                    (let v = (x - 0xF0) * 262144 + cont_bits b * 4096 + cont_bits c * 64 + cont_bits d in
                     if 0x10000 \<le> v \<and> v \<le> 0x10FFFF then Some (v, s4) else None)
                  else None)))"

lemma utf8_next_length: "utf8_next s = Some (c, t) \<Longrightarrow> length t < length s"
  by (cases s) (auto simp: Let_def split: if_splits list.splits)

function from_bytes :: "string \<Rightarrow> nat list result" where
  "from_bytes s =
     (if s = [] then Inr []
      else case utf8_next s of
        None \<Rightarrow> Inl RangeError
      | Some (c, t) \<Rightarrow> bind_result (from_bytes t) (\<lambda>cs. Inr (c # cs)))"
  by pat_completeness auto
termination by (relation "measure length") (auto dest: utf8_next_length)

declare from_bytes.simps [simp del]

lemma from_bytes_Nil [simp]: "from_bytes [] = Inr []"
  by (simp add: from_bytes.simps)

section \<open>Back and forth\<close>

lemma cont_byte [simp]: "is_cont (cont_byte n)" "cont_bits (cont_byte n) = n mod 64"
proof -
  have "0x80 + n mod 64 < 256" by (rule less_le_trans [of _ "0x80 + 64"]) simp_all
  then show "is_cont (cont_byte n)" "cont_bits (cont_byte n) = n mod 64"
    by (simp_all add: is_cont_def cont_bits_def cont_byte_def)
qed

lemma div64: "r < 64 \<Longrightarrow> (q * 64 + r) div 64 = (q :: nat)"
  and mod64: "r < 64 \<Longrightarrow> (q * 64 + r) mod 64 = (r :: nat)"
  by simp_all

lemma scalar_bound: "scalar c \<Longrightarrow> c < 1114112"
  by (auto simp: scalar_def)

lemma utf8_next_char:
  assumes "scalar c"
  shows "utf8_next (utf8_char c @ s) = Some (c, s)"
proof -
  have "c < 0x80 \<or> 0x80 \<le> c \<and> c < 0x800 \<or> 0x800 \<le> c \<and> c < 0x10000 \<or> 0x10000 \<le> c" by linarith
  then show ?thesis
  proof (elim disjE conjE)
    assume "c < 0x80" then show ?thesis by (simp add: utf8_char_def)
  next
    assume c: "0x80 \<le> c" "c < 0x800"
    define q r where qr: "q = c div 64" "r = c mod 64"
    have e: "c = q * 64 + r" "r < 64" by (simp_all add: qr)
    with c have q: "2 \<le> q" "q < 32" by linarith+
    then have "c div 64 = q" "c mod 64 = r" using e by simp_all
    with c q e show ?thesis by (simp add: utf8_char_def Let_def)
  next
    assume c: "0x800 \<le> c" "c < 0x10000"
    define p q r where pqr: "p = c div 64 div 64" "q = c div 64 mod 64" "r = c mod 64"
    have e: "c = (p * 64 + q) * 64 + r" "q < 64" "r < 64" by (simp_all add: pqr)
    have "c = p * 4096 + q * 64 + r" using e(1) by (simp add: algebra_simps)
    with c have p: "p < 16" by linarith
    have d: "c div 64 = p * 64 + q" "c mod 64 = r" unfolding e(1) using e(3) by (rule div64, rule mod64)
    have "c div 4096 = c div 64 div 64" by (simp flip: div_mult2_eq)
    then have "c div 4096 = p" unfolding d(1) div64 [OF e(2)] .
    moreover have "p * 4096 + q * 64 + r = c" using e(1) by (simp add: algebra_simps)
    ultimately show ?thesis using c p d e(2,3) assms by (simp add: utf8_char_def Let_def)
  next
    assume c: "0x10000 \<le> c"
    define u p q r where upqr: "u = c div 64 div 64 div 64" "p = c div 64 div 64 mod 64"
      "q = c div 64 mod 64" "r = c mod 64"
    have e: "c = ((u * 64 + p) * 64 + q) * 64 + r" "p < 64" "q < 64" "r < 64" by (simp_all add: upqr)
    have "c = u * 262144 + p * 4096 + q * 64 + r" using e(1) by (simp add: algebra_simps)
    with scalar_bound [OF assms] have u: "u < 5" by linarith
    have d: "c div 64 = (u * 64 + p) * 64 + q" "c mod 64 = r" unfolding e(1) using e(4) by (rule div64, rule mod64)
    have "c div 4096 = c div 64 div 64" "c div 262144 = c div 64 div 64 div 64" by (simp_all flip: div_mult2_eq)
    then have "c div 4096 = u * 64 + p" "c div 262144 = u" unfolding d(1) div64 [OF e(3)] div64 [OF e(2)] .
    then have "c div 262144 = u" "c div 4096 mod 64 = p" "c div 64 mod 64 = q"
      unfolding d(1) by (simp_all only: mod64 [OF e(2)] mod64 [OF e(3)])
    moreover have "u * 262144 + p * 4096 + q * 64 + r = c" using e(1) by (simp add: algebra_simps)
    ultimately show ?thesis using c u d(2) scalar_bound [OF assms] by (simp add: utf8_char_def Let_def)
  qed
qed

lemma utf8_char_not_Nil [simp]: "utf8_char c \<noteq> []"
  by (simp add: utf8_char_def)

lemma from_bytes_char: "scalar c \<Longrightarrow> from_bytes (utf8_char c @ s) = bind_result (from_bytes s) (\<lambda>cs. Inr (c # cs))"
  by (subst from_bytes.simps) (simp add: utf8_next_char)

lemma from_bytes_to_bytes: "to_bytes cs = Inr s \<Longrightarrow> from_bytes s = Inr cs"
  by (induction cs arbitrary: s) (auto simp: from_bytes_char split: if_splits)

lemma to_bytes_total: "list_all scalar cs \<Longrightarrow> to_bytes cs = Inr (concat (map utf8_char cs))"
  by (induction cs) auto

lemma cont_byte_bits: "is_cont b \<Longrightarrow> cont_byte (k * 64 + cont_bits b) = b"
proof -
  assume "is_cont b"
  then obtain v where "code b = 128 + v" "v < 64" by (auto simp: is_cont_def dest!: le_Suc_ex)
  then have "cont_byte (k * 64 + cont_bits b) = char_of (code b)" by (simp add: cont_byte_def cont_bits_def)
  then show ?thesis by simp
qed

lemma cont_bits_bound: "is_cont b \<Longrightarrow> cont_bits b < 64"
  by (auto simp: cont_bits_def is_cont_def)

lemma utf8_next_inv:
  assumes "utf8_next s = Some (c, t)"
  shows "scalar c \<and> s = utf8_char c @ t"
proof -
  obtain a r where s: "s = a # r" using assms by (cases s) auto
  show ?thesis
  proof (cases "code a < 0x80")
    case True
    with assms s show ?thesis by (auto simp: scalar_def utf8_char_def)
  next
    case lead: False
    with assms s obtain b r2 where r: "r = b # r2" "is_cont b"
      by (auto simp: Let_def split: list.splits if_splits)
    note b = cont_bits_bound [OF r(2)]
    show ?thesis
    proof (cases "0xC2 \<le> code a \<and> code a < 0xE0")
      case True
      with assms s r lead have c: "c = (code a - 0xC0) * 64 + cont_bits b" "t = r2" by auto
      have "c div 64 = code a - 0xC0" using b by (simp add: c)
      with True b r c(2) cont_byte_bits [OF r(2), of "code a - 0xC0"] show ?thesis
        unfolding s r by (auto simp: utf8_char_def scalar_def c(1))
    next
      case not2: False
      with assms s r lead obtain d r3 where r2: "r2 = d # r3" "is_cont d"
        by (auto simp: Let_def split: list.splits if_splits)
      note d = cont_bits_bound [OF r2(2)]
      show ?thesis
      proof (cases "0xE0 \<le> code a \<and> code a < 0xF0")
        case True
        with assms s r r2 lead have c: "c = ((code a - 0xE0) * 64 + cont_bits b) * 64 + cont_bits d" "t = r3"
          "0x800 \<le> c" "scalar c" by (auto simp: Let_def split: if_splits)
        have q: "c div 64 = (code a - 0xE0) * 64 + cont_bits b" using d by (simp add: c)
        have "c div 4096 = c div 64 div 64" by (simp flip: div_mult2_eq)
        with q b have "c div 4096 = code a - 0xE0" by simp
        moreover have "c < 0x10000"
        proof -
          define x where "x = code a - 0xE0"
          have "x < 16" using True unfolding x_def by linarith
          moreover have "c = x * 4096 + cont_bits b * 64 + cont_bits d"
            unfolding c(1) x_def [symmetric] by (simp add: algebra_simps)
          ultimately show ?thesis using b d by linarith
        qed
        ultimately show ?thesis
          using True q c cont_byte_bits [OF r(2), of "code a - 0xE0"]
            cont_byte_bits [OF r2(2), of "(code a - 0xE0) * 64 + cont_bits b"]
          unfolding s r r2 by (auto simp: utf8_char_def)
      next
        case not3: False
        with assms s r r2 lead not2 obtain e r4 where r3: "r3 = e # r4" "is_cont e" "0xF0 \<le> code a" "code a < 0xF5"
          by (auto simp: Let_def split: list.splits if_splits)
        note e = cont_bits_bound [OF r3(2)]
        from assms s r r2 r3 lead not2 not3
        have c: "c = (((code a - 0xF0) * 64 + cont_bits b) * 64 + cont_bits d) * 64 + cont_bits e" "t = r4"
          "0x10000 \<le> c" "c \<le> 0x10FFFF" by (auto simp: Let_def split: if_splits)
        have q: "c div 64 = ((code a - 0xF0) * 64 + cont_bits b) * 64 + cont_bits d" using e by (simp add: c)
        have "c div 4096 = c div 64 div 64" "c div 262144 = c div 64 div 64 div 64" by (simp_all flip: div_mult2_eq)
        then have "c div 4096 = (code a - 0xF0) * 64 + cont_bits b" "c div 262144 = code a - 0xF0"
          unfolding q div64 [OF d] div64 [OF b] .
        then show ?thesis
          using r3 q c cont_byte_bits [OF r(2), of "code a - 0xF0"]
            cont_byte_bits [OF r2(2), of "(code a - 0xF0) * 64 + cont_bits b"]
            cont_byte_bits [OF r3(2), of "((code a - 0xF0) * 64 + cont_bits b) * 64 + cont_bits d"]
          unfolding s r r2 by (auto simp: utf8_char_def scalar_def)
      qed
    qed
  qed
qed

lemma to_bytes_from_bytes: "from_bytes s = Inr cs \<Longrightarrow> to_bytes cs = Inr s"
proof (induction s arbitrary: cs rule: from_bytes.induct)
  case (1 s)
  show ?case
  proof (cases "s = []")
    case False
    with 1(2) obtain c t cs' where n: "utf8_next s = Some (c, t)" "from_bytes t = Inr cs'" "cs = c # cs'"
      by (subst (asm) from_bytes.simps) (auto split: option.splits)
    with 1(1) [OF False n(1) refl] utf8_next_inv [OF n(1)] show ?thesis by simp
  qed (use 1 in simp)
qed

text \<open>Bytes below 128 stand for themselves.\<close>

definition ascii :: "string \<Rightarrow> bool" where
  "ascii s \<longleftrightarrow> list_all (\<lambda>c. code c < 128) s"

lemma from_bytes_ascii: "ascii s \<Longrightarrow> from_bytes s = Inr (map code s)"
proof (induction s)
  case (Cons c s)
  then show ?case by (subst from_bytes.simps) (simp add: ascii_def)
qed simp

lemma from_bytes_scalar: "from_bytes s = Inr cs \<Longrightarrow> list_all scalar cs"
proof -
  have "to_bytes cs = Inr s \<Longrightarrow> list_all scalar cs" for cs s
    by (induction cs arbitrary: s) (auto split: if_splits)
  then show "from_bytes s = Inr cs \<Longrightarrow> list_all scalar cs" using to_bytes_from_bytes by blast
qed

end
