(* ===== verification/Entities.thy ===== *)
theory Entities
  imports Main
begin

text \<open>
  The two tables of HTML entities of \<^verbatim>\<open>src/util/encoding.cpp\<close>, entry by entry in the order of the
  initializer lists. \<open>entities_1\<close> to \<open>entities_16\<close> make up the initializer of
  \<^verbatim>\<open>htmlEntities\<close>: a code point and the entity that stands for it. The initializer gives 60 code
  points more than once. \<open>lookaheads\<close> is the initializer of \<^verbatim>\<open>htmlLookaheads\<close>: a first code point, a
  second one, and the entity that stands for the two.
\<close>

definition entities_1 :: "(nat \<times> string) list" where
  "entities_1 = [
    (0xC1, ''&Aacute;''), (0xE1, ''&aacute;''), (0x102, ''&Abreve;''), (0x103, ''&abreve;''),
    (0x223E, ''&ac;''), (0x223F, ''&acd;''), (0x223E, []), (0xC2, ''&Acirc;''), (0xE2, ''&acirc;''),
    (0xB4, ''&acute;''), (0x410, ''&Acy;''), (0x430, ''&acy;''), (0xC6, ''&AElig;''),
    (0xE6, ''&aelig;''), (0x2061, ''&af;''), (0x1D504, ''&Afr;''), (0x1D51E, ''&afr;''),
    (0xC0, ''&Agrave;''), (0xE0, ''&agrave;''), (0x2135, ''&alefsym;''), (0x391, ''&Alpha;''),
    (0x3B1, ''&alpha;''), (0x100, ''&Amacr;''), (0x101, ''&amacr;''), (0x2A3F, ''&amalg;''),
    (0x26, ''&amp;''), (0x2A55, ''&andand;''), (0x2A53, ''&And;''), (0x2227, ''&and;''),
    (0x2A5C, ''&andd;''), (0x2A58, ''&andslope;''), (0x2A5A, ''&andv;''), (0x2220, ''&ang;''),
    (0x29A4, ''&ange;''), (0x29A8, ''&angmsdaa;''), (0x29A9, ''&angmsdab;''),
    (0x29AA, ''&angmsdac;''), (0x29AB, ''&angmsdad;''), (0x29AC, ''&angmsdae;''),
    (0x29AD, ''&angmsdaf;''), (0x29AE, ''&angmsdag;''), (0x29AF, ''&angmsdah;''),
    (0x2221, ''&angmsd;''), (0x221F, ''&angrt;''), (0x22BE, ''&angrtvb;''),
    (0x299D, ''&angrtvbd;''), (0x2222, ''&angsph;''), (0xC5, ''&angst;''), (0x237C, ''&angzarr;''),
    (0x104, ''&Aogon;''), (0x105, ''&aogon;''), (0x1D538, ''&Aopf;''), (0x1D552, ''&aopf;''),
    (0x2A6F, ''&apacir;''), (0x2248, ''&ap;''), (0x2A70, ''&apE;''), (0x224A, ''&ape;''),
    (0x224B, ''&apid;''), (0x27, ''&apos;''), (0xE5, ''&aring;''), (0x1D49C, ''&Ascr;''),
    (0x1D4B6, ''&ascr;''), (0x2254, ''&Assign;''), (0x2A, ''&ast;''), (0x224D, ''&asympeq;''),
    (0xC3, ''&Atilde;''), (0xE3, ''&atilde;''), (0xC4, ''&Auml;''), (0xE4, ''&auml;''),
    (0x2233, ''&awconint;''), (0x2A11, ''&awint;''), (0x224C, ''&backcong;''),
    (0x3F6, ''&backepsilon;''), (0x2035, ''&backprime;''), (0x223D, ''&backsim;''),
    (0x22CD, ''&backsimeq;''), (0x2216, ''&Backslash;''), (0x2AE7, ''&Barv;''),
    (0x22BD, ''&barvee;''), (0x2305, ''&barwed;''), (0x2306, ''&Barwed;''), (0x23B5, ''&bbrk;''),
    (0x23B6, ''&bbrktbrk;''), (0x411, ''&Bcy;''), (0x431, ''&bcy;''), (0x201E, ''&bdquo;''),
    (0x2235, ''&becaus;''), (0x29B0, ''&bemptyv;''), (0x212C, ''&bernou;''), (0x392, ''&Beta;''),
    (0x3B2, ''&beta;''), (0x2136, ''&beth;''), (0x226C, ''&between;''), (0x1D505, ''&Bfr;''),
    (0x1D51F, ''&bfr;'')]"

definition entities_2 :: "(nat \<times> string) list" where
  "entities_2 = [
    (0x22C2, ''&bigcap;''), (0x25EF, ''&bigcirc;''), (0x22C3, ''&bigcup;''),
    (0x2A00, ''&bigodot;''), (0x2A01, ''&bigoplus;''), (0x2A02, ''&bigotimes;''),
    (0x2A06, ''&bigsqcup;''), (0x2605, ''&bigstar;''), (0x25BD, ''&bigtriangledown;''),
    (0x25B3, ''&bigtriangleup;''), (0x2A04, ''&biguplus;''), (0x22C1, ''&bigvee;''),
    (0x22C0, ''&bigwedge;''), (0x290D, ''&bkarow;''), (0x29EB, ''&blacklozenge;''),
    (0x25AA, ''&blacksquare;''), (0x25B4, ''&blacktriangle;''), (0x25BE, ''&blacktriangledown;''),
    (0x25C2, ''&blacktriangleleft;''), (0x25B8, ''&blacktriangleright;''), (0x2423, ''&blank;''),
    (0x2592, ''&blk12;''), (0x2591, ''&blk14;''), (0x2593, ''&blk34;''), (0x2588, ''&block;''),
    (0x3D, []), (0x2261, []), (0x2AED, ''&bNot;''), (0x2310, ''&bnot;''), (0x1D539, ''&Bopf;''),
    (0x1D553, ''&bopf;''), (0x22A5, ''&bot;''), (0x22C8, ''&bowtie;''), (0x29C9, ''&boxbox;''),
    (0x2510, ''&boxdl;''), (0x2555, ''&boxdL;''), (0x2556, ''&boxDl;''), (0x2557, ''&boxDL;''),
    (0x250C, ''&boxdr;''), (0x2552, ''&boxdR;''), (0x2553, ''&boxDr;''), (0x2554, ''&boxDR;''),
    (0x2500, ''&boxh;''), (0x2550, ''&boxH;''), (0x252C, ''&boxhd;''), (0x2564, ''&boxHd;''),
    (0x2565, ''&boxhD;''), (0x2566, ''&boxHD;''), (0x2534, ''&boxhu;''), (0x2567, ''&boxHu;''),
    (0x2568, ''&boxhU;''), (0x2569, ''&boxHU;''), (0x229F, ''&boxminus;''), (0x229E, ''&boxplus;''),
    (0x22A0, ''&boxtimes;''), (0x2518, ''&boxul;''), (0x255B, ''&boxuL;''), (0x255C, ''&boxUl;''),
    (0x255D, ''&boxUL;''), (0x2514, ''&boxur;''), (0x2558, ''&boxuR;''), (0x2559, ''&boxUr;''),
    (0x255A, ''&boxUR;''), (0x2502, ''&boxv;''), (0x2551, ''&boxV;''), (0x253C, ''&boxvh;''),
    (0x256A, ''&boxvH;''), (0x256B, ''&boxVh;''), (0x256C, ''&boxVH;''), (0x2524, ''&boxvl;''),
    (0x2561, ''&boxvL;''), (0x2562, ''&boxVl;''), (0x2563, ''&boxVL;''), (0x251C, ''&boxvr;''),
    (0x255E, ''&boxvR;''), (0x255F, ''&boxVr;''), (0x2560, ''&boxVR;''), (0x2D8, ''&breve;''),
    (0xA6, ''&brvbar;''), (0x1D4B7, ''&bscr;''), (0x204F, ''&bsemi;''), (0x29C5, ''&bsolb;''),
    (0x5C, ''&bsol;''), (0x27C8, ''&bsolhsub;''), (0x2022, ''&bull;''), (0x224E, ''&bump;''),
    (0x2AAE, ''&bumpE;''), (0x224F, ''&bumpe;''), (0x106, ''&Cacute;''), (0x107, ''&cacute;''),
    (0x2A44, ''&capand;''), (0x2A49, ''&capbrcup;''), (0x2A4B, ''&capcap;''), (0x2229, ''&cap;''),
    (0x22D2, ''&Cap;'')]"

definition entities_3 :: "(nat \<times> string) list" where
  "entities_3 = [
    (0x2A47, ''&capcup;''), (0x2A40, ''&capdot;''), (0x2145, ''&CapitalDifferentialD;''),
    (0x2229, []), (0x2041, ''&caret;''), (0x2C7, ''&caron;''), (0x212D, ''&Cayleys;''),
    (0x2A4D, ''&ccaps;''), (0x10C, ''&Ccaron;''), (0x10D, ''&ccaron;''), (0xC7, ''&Ccedil;''),
    (0xE7, ''&ccedil;''), (0x108, ''&Ccirc;''), (0x109, ''&ccirc;''), (0x2230, ''&Cconint;''),
    (0x2A4C, ''&ccups;''), (0x2A50, ''&ccupssm;''), (0x10A, ''&Cdot;''), (0x10B, ''&cdot;''),
    (0xB8, ''&cedil;''), (0x29B2, ''&cemptyv;''), (0xA2, ''&cent;''), (0xB7, ''&centerdot;''),
    (0x1D520, ''&cfr;''), (0x427, ''&CHcy;''), (0x447, ''&chcy;''), (0x2713, ''&check;''),
    (0x3A7, ''&Chi;''), (0x3C7, ''&chi;''), (0x2C6, ''&circ;''), (0x2257, ''&circeq;''),
    (0x21BA, ''&circlearrowleft;''), (0x21BB, ''&circlearrowright;''), (0x229B, ''&circledast;''),
    (0x229A, ''&circledcirc;''), (0x229D, ''&circleddash;''), (0x2299, ''&CircleDot;''),
    (0xAE, ''&circledR;''), (0x24C8, ''&circledS;''), (0x2296, ''&CircleMinus;''),
    (0x2295, ''&CirclePlus;''), (0x2297, ''&CircleTimes;''), (0x25CB, ''&cir;''),
    (0x29C3, ''&cirE;''), (0x2A10, ''&cirfnint;''), (0x2AEF, ''&cirmid;''), (0x29C2, ''&cirscir;''),
    (0x2232, ''&ClockwiseContourIntegral;''), (0x201D, ''&CloseCurlyDoubleQuote;''),
    (0x2019, ''&CloseCurlyQuote;''), (0x2663, ''&clubs;''), (0x3A, ''&colon;''),
    (0x2237, ''&Colon;''), (0x2A74, ''&Colone;''), (0x2C, ''&comma;''), (0x40, ''&commat;''),
    (0x2201, ''&comp;''), (0x2218, ''&compfn;''), (0x2102, ''&complexes;''), (0x2245, ''&cong;''),
    (0x2A6D, ''&congdot;''), (0x2261, ''&Congruent;''), (0x222E, ''&conint;''),
    (0x222F, ''&Conint;''), (0x1D554, ''&copf;''), (0x2210, ''&coprod;''), (0xA9, ''&copy;''),
    (0x2117, ''&copysr;''), (0x21B5, ''&crarr;''), (0x2717, ''&cross;''), (0x2A2F, ''&Cross;''),
    (0x1D49E, ''&Cscr;''), (0x1D4B8, ''&cscr;''), (0x2ACF, ''&csub;''), (0x2AD1, ''&csube;''),
    (0x2AD0, ''&csup;''), (0x2AD2, ''&csupe;''), (0x22EF, ''&ctdot;''), (0x2938, ''&cudarrl;''),
    (0x2935, ''&cudarrr;''), (0x22DE, ''&cuepr;''), (0x22DF, ''&cuesc;''), (0x21B6, ''&cularr;''),
    (0x293D, ''&cularrp;''), (0x2A48, ''&cupbrcap;''), (0x2A46, ''&cupcap;''), (0x222A, ''&cup;''),
    (0x22D3, ''&Cup;''), (0x2A4A, ''&cupcup;''), (0x228D, ''&cupdot;''), (0x2A45, ''&cupor;''),
    (0x222A, []), (0x21B7, ''&curarr;''), (0x293C, ''&curarrm;''), (0x22CE, ''&curlyvee;'')]"

definition entities_4 :: "(nat \<times> string) list" where
  "entities_4 = [
    (0x22CF, ''&curlywedge;''), (0xA4, ''&curren;''), (0x2231, ''&cwint;''), (0x232D, ''&cylcty;''),
    (0x2020, ''&dagger;''), (0x2021, ''&Dagger;''), (0x2138, ''&daleth;''), (0x2193, ''&darr;''),
    (0x21A1, ''&Darr;''), (0x21D3, ''&dArr;''), (0x2010, ''&dash;''), (0x2AE4, ''&Dashv;''),
    (0x22A3, ''&dashv;''), (0x290F, ''&dbkarow;''), (0x2DD, ''&dblac;''), (0x10E, ''&Dcaron;''),
    (0x10F, ''&dcaron;''), (0x414, ''&Dcy;''), (0x434, ''&dcy;''), (0x21CA, ''&ddarr;''),
    (0x2146, ''&dd;''), (0x2911, ''&DDotrahd;''), (0x2A77, ''&ddotseq;''), (0xB0, ''&deg;''),
    (0x2207, ''&Del;''), (0x394, ''&Delta;''), (0x3B4, ''&delta;''), (0x29B1, ''&demptyv;''),
    (0x297F, ''&dfisht;''), (0x1D507, ''&Dfr;''), (0x1D521, ''&dfr;''), (0x2965, ''&dHar;''),
    (0x21C3, ''&dharl;''), (0x21C2, ''&dharr;''), (0x2D9, ''&DiacriticalDot;''),
    (0x60, ''&DiacriticalGrave;''), (0x2DC, ''&DiacriticalTilde;''), (0x22C4, ''&diam;''),
    (0x2666, ''&diamondsuit;''), (0xA8, ''&die;''), (0x3DD, ''&digamma;''), (0x22F2, ''&disin;''),
    (0xF7, ''&div;''), (0x22C7, ''&divideontimes;''), (0x402, ''&DJcy;''), (0x452, ''&djcy;''),
    (0x231E, ''&dlcorn;''), (0x230D, ''&dlcrop;''), (0x24, ''&dollar;''), (0x1D53B, ''&Dopf;''),
    (0x1D555, ''&dopf;''), (0x20DC, ''&DotDot;''), (0x2250, ''&doteq;''), (0x2251, ''&doteqdot;''),
    (0x2238, ''&dotminus;''), (0x2214, ''&dotplus;''), (0x22A1, ''&dotsquare;''),
    (0x21D0, ''&DoubleLeftArrow;''), (0x21D4, ''&DoubleLeftRightArrow;''),
    (0x27F8, ''&DoubleLongLeftArrow;''), (0x27FA, ''&DoubleLongLeftRightArrow;''),
    (0x27F9, ''&DoubleLongRightArrow;''), (0x21D2, ''&DoubleRightArrow;''),
    (0x22A8, ''&DoubleRightTee;''), (0x21D1, ''&DoubleUpArrow;''),
    (0x21D5, ''&DoubleUpDownArrow;''), (0x2225, ''&DoubleVerticalBar;''),
    (0x2913, ''&DownArrowBar;''), (0x21F5, ''&DownArrowUpArrow;''), (0x311, ''&DownBreve;''),
    (0x2950, ''&DownLeftRightVector;''), (0x295E, ''&DownLeftTeeVector;''),
    (0x2956, ''&DownLeftVectorBar;''), (0x21BD, ''&DownLeftVector;''),
    (0x295F, ''&DownRightTeeVector;''), (0x2957, ''&DownRightVectorBar;''),
    (0x21C1, ''&DownRightVector;''), (0x21A7, ''&DownTeeArrow;''), (0x22A4, ''&DownTee;''),
    (0x2910, ''&drbkarow;''), (0x231F, ''&drcorn;''), (0x230C, ''&drcrop;''), (0x1D49F, ''&Dscr;''),
    (0x1D4B9, ''&dscr;''), (0x405, ''&DScy;''), (0x455, ''&dscy;''), (0x29F6, ''&dsol;''),
    (0x110, ''&Dstrok;''), (0x111, ''&dstrok;''), (0x22F1, ''&dtdot;''), (0x25BF, ''&dtri;''),
    (0x296F, ''&duhar;''), (0x29A6, ''&dwangle;''), (0x40F, ''&DZcy;''), (0x45F, ''&dzcy;'')]"

definition entities_5 :: "(nat \<times> string) list" where
  "entities_5 = [
    (0x27FF, ''&dzigrarr;''), (0xC9, ''&Eacute;''), (0xE9, ''&eacute;''), (0x2A6E, ''&easter;''),
    (0x11A, ''&Ecaron;''), (0x11B, ''&ecaron;''), (0xCA, ''&Ecirc;''), (0xEA, ''&ecirc;''),
    (0x2256, ''&ecir;''), (0x2255, ''&ecolon;''), (0x42D, ''&Ecy;''), (0x44D, ''&ecy;''),
    (0x116, ''&Edot;''), (0x117, ''&edot;''), (0x2147, ''&ee;''), (0x2252, ''&efDot;''),
    (0x1D508, ''&Efr;''), (0x1D522, ''&efr;''), (0x2A9A, ''&eg;''), (0xC8, ''&Egrave;''),
    (0xE8, ''&egrave;''), (0x2A96, ''&egs;''), (0x2A98, ''&egsdot;''), (0x2A99, ''&el;''),
    (0x2208, ''&Element;''), (0x23E7, ''&elinters;''), (0x2113, ''&ell;''), (0x2A95, ''&els;''),
    (0x2A97, ''&elsdot;''), (0x112, ''&Emacr;''), (0x113, ''&emacr;''), (0x2205, ''&empty;''),
    (0x25FB, ''&EmptySmallSquare;''), (0x25AB, ''&EmptyVerySmallSquare;''), (0x2004, ''&emsp13;''),
    (0x2005, ''&emsp14;''), (0x2003, ''&emsp;''), (0x14A, ''&ENG;''), (0x14B, ''&eng;''),
    (0x2002, ''&ensp;''), (0x118, ''&Eogon;''), (0x119, ''&eogon;''), (0x1D53C, ''&Eopf;''),
    (0x1D556, ''&eopf;''), (0x22D5, ''&epar;''), (0x29E3, ''&eparsl;''), (0x2A71, ''&eplus;''),
    (0x3B5, ''&epsi;''), (0x395, ''&Epsilon;''), (0x3F5, ''&epsiv;''), (0x2242, ''&eqsim;''),
    (0x2A75, ''&Equal;''), (0x3D, ''&equals;''), (0x225F, ''&equest;''),
    (0x21CC, ''&Equilibrium;''), (0x2A78, ''&equivDD;''), (0x29E5, ''&eqvparsl;''),
    (0x2971, ''&erarr;''), (0x2253, ''&erDot;''), (0x212F, ''&escr;''), (0x2130, ''&Escr;''),
    (0x2A73, ''&Esim;''), (0x397, ''&Eta;''), (0x3B7, ''&eta;''), (0xD0, ''&ETH;''),
    (0xF0, ''&eth;''), (0xCB, ''&Euml;''), (0xEB, ''&euml;''), (0x20AC, ''&euro;''),
    (0x21, ''&excl;''), (0x2203, ''&exist;''), (0x424, ''&Fcy;''), (0x444, ''&fcy;''),
    (0x2640, ''&female;''), (0xFB03, ''&ffilig;''), (0xFB00, ''&fflig;''), (0xFB04, ''&ffllig;''),
    (0x1D509, ''&Ffr;''), (0x1D523, ''&ffr;''), (0xFB01, ''&filig;''),
    (0x25FC, ''&FilledSmallSquare;''), (0x266D, ''&flat;''), (0xFB02, ''&fllig;''),
    (0x25B1, ''&fltns;''), (0x192, ''&fnof;''), (0x1D53D, ''&Fopf;''), (0x1D557, ''&fopf;''),
    (0x2200, ''&forall;''), (0x22D4, ''&fork;''), (0x2AD9, ''&forkv;''), (0x2131, ''&Fouriertrf;''),
    (0x2A0D, ''&fpartint;''), (0xBD, ''&frac12;''), (0x2153, ''&frac13;''), (0xBC, ''&frac14;'')]"

definition entities_6 :: "(nat \<times> string) list" where
  "entities_6 = [
    (0x2155, ''&frac15;''), (0x2159, ''&frac16;''), (0x215B, ''&frac18;''), (0x2154, ''&frac23;''),
    (0x2156, ''&frac25;''), (0xBE, ''&frac34;''), (0x2157, ''&frac35;''), (0x215C, ''&frac38;''),
    (0x2158, ''&frac45;''), (0x215A, ''&frac56;''), (0x215D, ''&frac58;''), (0x215E, ''&frac78;''),
    (0x2044, ''&frasl;''), (0x2322, ''&frown;''), (0x1D4BB, ''&fscr;''), (0x1F5, ''&gacute;''),
    (0x393, ''&Gamma;''), (0x3B3, ''&gamma;''), (0x3DC, ''&Gammad;''), (0x2A86, ''&gap;''),
    (0x11E, ''&Gbreve;''), (0x11F, ''&gbreve;''), (0x122, ''&Gcedil;''), (0x11C, ''&Gcirc;''),
    (0x11D, ''&gcirc;''), (0x413, ''&Gcy;''), (0x433, ''&gcy;''), (0x120, ''&Gdot;''),
    (0x121, ''&gdot;''), (0x2265, ''&ge;''), (0x2267, ''&gE;''), (0x2A8C, ''&gEl;''),
    (0x22DB, ''&gel;''), (0x2A7E, ''&geqslant;''), (0x2AA9, ''&gescc;''), (0x2A80, ''&gesdot;''),
    (0x2A82, ''&gesdoto;''), (0x2A84, ''&gesdotol;''), (0x22DB, []), (0x2A94, ''&gesles;''),
    (0x1D50A, ''&Gfr;''), (0x1D524, ''&gfr;''), (0x226B, ''&gg;''), (0x22D9, ''&Gg;''),
    (0x2137, ''&gimel;''), (0x403, ''&GJcy;''), (0x453, ''&gjcy;''), (0x2AA5, ''&gla;''),
    (0x2277, ''&gl;''), (0x2A92, ''&glE;''), (0x2AA4, ''&glj;''), (0x2A8A, ''&gnap;''),
    (0x2A88, ''&gne;''), (0x2269, ''&gnE;''), (0x22E7, ''&gnsim;''), (0x1D53E, ''&Gopf;''),
    (0x1D558, ''&gopf;''), (0x2AA2, ''&GreaterGreater;''), (0x2273, ''&GreaterTilde;''),
    (0x1D4A2, ''&Gscr;''), (0x210A, ''&gscr;''), (0x2A8E, ''&gsime;''), (0x2A90, ''&gsiml;''),
    (0x2AA7, ''&gtcc;''), (0x2A7A, ''&gtcir;''), (0x3E, ''&gt;''), (0x22D7, ''&gtdot;''),
    (0x2995, ''&gtlPar;''), (0x2A7C, ''&gtquest;''), (0x2978, ''&gtrarr;''), (0x2269, []),
    (0x200A, ''&hairsp;''), (0x210B, ''&hamilt;''), (0x42A, ''&HARDcy;''), (0x44A, ''&hardcy;''),
    (0x2948, ''&harrcir;''), (0x2194, ''&harr;''), (0x21AD, ''&harrw;''), (0x5E, ''&Hat;''),
    (0x210F, ''&hbar;''), (0x124, ''&Hcirc;''), (0x125, ''&hcirc;''), (0x2665, ''&hearts;''),
    (0x2026, ''&hellip;''), (0x22B9, ''&hercon;''), (0x1D525, ''&hfr;''), (0x210C, ''&Hfr;''),
    (0x2925, ''&hksearow;''), (0x2926, ''&hkswarow;''), (0x21FF, ''&hoarr;''),
    (0x223B, ''&homtht;''), (0x21A9, ''&hookleftarrow;''), (0x21AA, ''&hookrightarrow;''),
    (0x1D559, ''&hopf;''), (0x210D, ''&Hopf;'')]"

definition entities_7 :: "(nat \<times> string) list" where
  "entities_7 = [
    (0x2015, ''&horbar;''), (0x1D4BD, ''&hscr;''), (0x126, ''&Hstrok;''), (0x127, ''&hstrok;''),
    (0x2043, ''&hybull;''), (0xCD, ''&Iacute;''), (0xED, ''&iacute;''), (0x2063, ''&ic;''),
    (0xCE, ''&Icirc;''), (0xEE, ''&icirc;''), (0x418, ''&Icy;''), (0x438, ''&icy;''),
    (0x130, ''&Idot;''), (0x415, ''&IEcy;''), (0x435, ''&iecy;''), (0xA1, ''&iexcl;''),
    (0x1D526, ''&ifr;''), (0x2111, ''&Ifr;''), (0xCC, ''&Igrave;''), (0xEC, ''&igrave;''),
    (0x2148, ''&ii;''), (0x2A0C, ''&iiiint;''), (0x222D, ''&iiint;''), (0x29DC, ''&iinfin;''),
    (0x2129, ''&iiota;''), (0x132, ''&IJlig;''), (0x133, ''&ijlig;''), (0x12A, ''&Imacr;''),
    (0x12B, ''&imacr;''), (0x2110, ''&imagline;''), (0x131, ''&imath;''), (0x22B7, ''&imof;''),
    (0x1B5, ''&imped;''), (0x2105, ''&incare;''), (0x221E, ''&infin;''), (0x29DD, ''&infintie;''),
    (0x22BA, ''&intcal;''), (0x222B, ''&int;''), (0x222C, ''&Int;''), (0x2124, ''&integers;''),
    (0x2A17, ''&intlarhk;''), (0x2A3C, ''&intprod;''), (0x2062, ''&InvisibleTimes;''),
    (0x401, ''&IOcy;''), (0x451, ''&iocy;''), (0x12E, ''&Iogon;''), (0x12F, ''&iogon;''),
    (0x1D540, ''&Iopf;''), (0x1D55A, ''&iopf;''), (0x399, ''&Iota;''), (0x3B9, ''&iota;''),
    (0xBF, ''&iquest;''), (0x1D4BE, ''&iscr;''), (0x22F5, ''&isindot;''), (0x22F9, ''&isinE;''),
    (0x22F4, ''&isins;''), (0x22F3, ''&isinsv;''), (0x128, ''&Itilde;''), (0x129, ''&itilde;''),
    (0x406, ''&Iukcy;''), (0x456, ''&iukcy;''), (0xCF, ''&Iuml;''), (0xEF, ''&iuml;''),
    (0x134, ''&Jcirc;''), (0x135, ''&jcirc;''), (0x419, ''&Jcy;''), (0x439, ''&jcy;''),
    (0x1D50D, ''&Jfr;''), (0x1D527, ''&jfr;''), (0x237, ''&jmath;''), (0x1D541, ''&Jopf;''),
    (0x1D55B, ''&jopf;''), (0x1D4A5, ''&Jscr;''), (0x1D4BF, ''&jscr;''), (0x408, ''&Jsercy;''),
    (0x458, ''&jsercy;''), (0x404, ''&Jukcy;''), (0x454, ''&jukcy;''), (0x39A, ''&Kappa;''),
    (0x3BA, ''&kappa;''), (0x3F0, ''&kappav;''), (0x136, ''&Kcedil;''), (0x137, ''&kcedil;''),
    (0x41A, ''&Kcy;''), (0x43A, ''&kcy;''), (0x1D50E, ''&Kfr;''), (0x1D528, ''&kfr;''),
    (0x138, ''&kgreen;''), (0x425, ''&KHcy;''), (0x445, ''&khcy;''), (0x40C, ''&KJcy;''),
    (0x45C, ''&kjcy;''), (0x1D542, ''&Kopf;''), (0x1D55C, ''&kopf;''), (0x1D4A6, ''&Kscr;'')]"

definition entities_8 :: "(nat \<times> string) list" where
  "entities_8 = [
    (0x1D4C0, ''&kscr;''), (0x21DA, ''&lAarr;''), (0x139, ''&Lacute;''), (0x13A, ''&lacute;''),
    (0x29B4, ''&laemptyv;''), (0x2112, ''&lagran;''), (0x39B, ''&Lambda;''), (0x3BB, ''&lambda;''),
    (0x27E8, ''&lang;''), (0x27EA, ''&Lang;''), (0x2991, ''&langd;''), (0x2A85, ''&lap;''),
    (0xAB, ''&laquo;''), (0x21E4, ''&larrb;''), (0x291F, ''&larrbfs;''), (0x2190, ''&larr;''),
    (0x219E, ''&Larr;''), (0x291D, ''&larrfs;''), (0x21AB, ''&larrlp;''), (0x2939, ''&larrpl;''),
    (0x2973, ''&larrsim;''), (0x21A2, ''&larrtl;''), (0x2919, ''&latail;''), (0x291B, ''&lAtail;''),
    (0x2AAB, ''&lat;''), (0x2AAD, ''&late;''), (0x2AAD, []), (0x290C, ''&lbarr;''),
    (0x290E, ''&lBarr;''), (0x2772, ''&lbbrk;''), (0x7B, ''&lbrace;''), (0x5B, ''&lbrack;''),
    (0x298B, ''&lbrke;''), (0x298F, ''&lbrksld;''), (0x298D, ''&lbrkslu;''), (0x13D, ''&Lcaron;''),
    (0x13E, ''&lcaron;''), (0x13B, ''&Lcedil;''), (0x13C, ''&lcedil;''), (0x2308, ''&lceil;''),
    (0x41B, ''&Lcy;''), (0x43B, ''&lcy;''), (0x2936, ''&ldca;''), (0x201C, ''&ldquo;''),
    (0x2967, ''&ldrdhar;''), (0x294B, ''&ldrushar;''), (0x21B2, ''&ldsh;''), (0x2264, ''&le;''),
    (0x2266, ''&lE;''), (0x21C6, ''&LeftArrowRightArrow;''), (0x27E6, ''&LeftDoubleBracket;''),
    (0x2961, ''&LeftDownTeeVector;''), (0x2959, ''&LeftDownVectorBar;''), (0x230A, ''&LeftFloor;''),
    (0x21BC, ''&leftharpoonup;''), (0x21C7, ''&leftleftarrows;''),
    (0x21CB, ''&leftrightharpoons;''), (0x294E, ''&LeftRightVector;''),
    (0x21A4, ''&LeftTeeArrow;''), (0x295A, ''&LeftTeeVector;''), (0x22CB, ''&leftthreetimes;''),
    (0x29CF, ''&LeftTriangleBar;''), (0x22B2, ''&LeftTriangle;''),
    (0x22B4, ''&LeftTriangleEqual;''), (0x2951, ''&LeftUpDownVector;''),
    (0x2960, ''&LeftUpTeeVector;''), (0x2958, ''&LeftUpVectorBar;''), (0x21BF, ''&LeftUpVector;''),
    (0x2952, ''&LeftVectorBar;''), (0x2A8B, ''&lEg;''), (0x22DA, ''&leg;''),
    (0x2A7D, ''&leqslant;''), (0x2AA8, ''&lescc;''), (0x2A7F, ''&lesdot;''),
    (0x2A81, ''&lesdoto;''), (0x2A83, ''&lesdotor;''), (0x22DA, []), (0x2A93, ''&lesges;''),
    (0x22D6, ''&lessdot;''), (0x2276, ''&LessGreater;''), (0x2AA1, ''&LessLess;''),
    (0x2272, ''&lesssim;''), (0x297C, ''&lfisht;''), (0x1D50F, ''&Lfr;''), (0x1D529, ''&lfr;''),
    (0x2A91, ''&lgE;''), (0x2962, ''&lHar;''), (0x296A, ''&lharul;''), (0x2584, ''&lhblk;''),
    (0x409, ''&LJcy;''), (0x459, ''&ljcy;''), (0x226A, ''&ll;''), (0x22D8, ''&Ll;''),
    (0x296B, ''&llhard;''), (0x25FA, ''&lltri;'')]"

definition entities_9 :: "(nat \<times> string) list" where
  "entities_9 = [
    (0x13F, ''&Lmidot;''), (0x140, ''&lmidot;''), (0x23B0, ''&lmoustache;''), (0x2A89, ''&lnap;''),
    (0x2A87, ''&lne;''), (0x2268, ''&lnE;''), (0x22E6, ''&lnsim;''), (0x27EC, ''&loang;''),
    (0x21FD, ''&loarr;''), (0x27F5, ''&longleftarrow;''), (0x27F7, ''&longleftrightarrow;''),
    (0x27FC, ''&longmapsto;''), (0x27F6, ''&longrightarrow;''), (0x21AC, ''&looparrowright;''),
    (0x2985, ''&lopar;''), (0x1D543, ''&Lopf;''), (0x1D55D, ''&lopf;''), (0x2A2D, ''&loplus;''),
    (0x2A34, ''&lotimes;''), (0x2217, ''&lowast;''), (0x5F, ''&lowbar;''),
    (0x2199, ''&LowerLeftArrow;''), (0x2198, ''&LowerRightArrow;''), (0x25CA, ''&loz;''),
    (0x28, ''&lpar;''), (0x2993, ''&lparlt;''), (0x296D, ''&lrhard;''), (0x200E, ''&lrm;''),
    (0x22BF, ''&lrtri;''), (0x2039, ''&lsaquo;''), (0x1D4C1, ''&lscr;''), (0x21B0, ''&lsh;''),
    (0x2A8D, ''&lsime;''), (0x2A8F, ''&lsimg;''), (0x2018, ''&lsquo;''), (0x201A, ''&lsquor;''),
    (0x141, ''&Lstrok;''), (0x142, ''&lstrok;''), (0x2AA6, ''&ltcc;''), (0x2A79, ''&ltcir;''),
    (0x3C, ''&lt;''), (0x22C9, ''&ltimes;''), (0x2976, ''&ltlarr;''), (0x2A7B, ''&ltquest;''),
    (0x25C3, ''&ltri;''), (0x2996, ''&ltrPar;''), (0x294A, ''&lurdshar;''), (0x2966, ''&luruhar;''),
    (0x2268, []), (0xAF, ''&macr;''), (0x2642, ''&male;''), (0x2720, ''&malt;''),
    (0x2905, ''&Map;''), (0x21A6, ''&map;''), (0x21A5, ''&mapstoup;''), (0x25AE, ''&marker;''),
    (0x2A29, ''&mcomma;''), (0x41C, ''&Mcy;''), (0x43C, ''&mcy;''), (0x2014, ''&mdash;''),
    (0x223A, ''&mDDot;''), (0x205F, ''&MediumSpace;''), (0x2133, ''&Mellintrf;''),
    (0x1D510, ''&Mfr;''), (0x1D52A, ''&mfr;''), (0x2127, ''&mho;''), (0xB5, ''&micro;''),
    (0x2AF0, ''&midcir;''), (0x2223, ''&mid;''), (0x2212, ''&minus;''), (0x2A2A, ''&minusdu;''),
    (0x2213, ''&MinusPlus;''), (0x2ADB, ''&mlcp;''), (0x22A7, ''&models;''), (0x1D544, ''&Mopf;''),
    (0x1D55E, ''&mopf;''), (0x1D4C2, ''&mscr;''), (0x39C, ''&Mu;''), (0x3BC, ''&mu;''),
    (0x22B8, ''&multimap;''), (0x143, ''&Nacute;''), (0x144, ''&nacute;''), (0x2220, []),
    (0x2249, ''&nap;''), (0x2A70, []), (0x224B, []), (0x149, ''&napos;''), (0x266E, ''&natural;''),
    (0x2115, ''&naturals;''), (0xA0, ''&nbsp;''), (0x224E, []), (0x224F, []), (0x2A43, ''&ncap;''),
    (0x147, ''&Ncaron;''), (0x148, ''&ncaron;'')]"

definition entities_10 :: "(nat \<times> string) list" where
  "entities_10 = [
    (0x145, ''&Ncedil;''), (0x146, ''&ncedil;''), (0x2247, ''&ncong;''), (0x2A6D, []),
    (0x2A42, ''&ncup;''), (0x41D, ''&Ncy;''), (0x43D, ''&ncy;''), (0x2013, ''&ndash;''),
    (0x2924, ''&nearhk;''), (0x2197, ''&nearr;''), (0x21D7, ''&neArr;''), (0x2260, ''&ne;''),
    (0x2250, []), (0x200B, ''&NegativeMediumSpace;''), (0x2262, ''&nequiv;''),
    (0x2928, ''&nesear;''), (0x2242, []), (0xA, ''&NewLine;''), (0x2204, ''&nexist;''),
    (0x1D511, ''&Nfr;''), (0x1D52B, ''&nfr;''), (0x2267, []), (0x2271, ''&nge;''), (0x2A7E, []),
    (0x22D9, []), (0x2275, ''&ngsim;''), (0x226B, []), (0x226F, ''&ngt;''), (0x226B, []),
    (0x21AE, ''&nharr;''), (0x21CE, ''&nhArr;''), (0x2AF2, ''&nhpar;''), (0x220B, ''&ni;''),
    (0x22FC, ''&nis;''), (0x22FA, ''&nisd;''), (0x40A, ''&NJcy;''), (0x45A, ''&njcy;''),
    (0x219A, ''&nlarr;''), (0x21CD, ''&nlArr;''), (0x2025, ''&nldr;''), (0x2266, []),
    (0x2270, ''&nle;''), (0x2A7D, []), (0x226E, ''&nless;''), (0x22D8, []), (0x2274, ''&nlsim;''),
    (0x226A, []), (0x22EA, ''&nltri;''), (0x22EC, ''&nltrie;''), (0x226A, []), (0x2224, ''&nmid;''),
    (0x2060, ''&NoBreak;''), (0x1D55F, ''&nopf;''), (0x2AEC, ''&Not;''), (0xAC, ''&not;''),
    (0x226D, ''&NotCupCap;''), (0x2226, ''&NotDoubleVerticalBar;''), (0x2209, ''&NotElement;''),
    (0x2279, ''&NotGreaterLess;''), (0x22F5, []), (0x22F9, []), (0x22F7, ''&notinvb;''),
    (0x22F6, ''&notinvc;''), (0x29CF, []), (0x2278, ''&NotLessGreater;''), (0x2AA2, []),
    (0x2AA1, []), (0x220C, ''&notni;''), (0x22FE, ''&notnivb;''), (0x22FD, ''&notnivc;''),
    (0x2280, ''&NotPrecedes;''), (0x2AAF, []), (0x22E0, ''&NotPrecedesSlantEqual;''), (0x29D0, []),
    (0x22EB, ''&NotRightTriangle;''), (0x22ED, ''&NotRightTriangleEqual;''), (0x228F, []),
    (0x22E2, ''&NotSquareSubsetEqual;''), (0x2290, []), (0x22E3, ''&NotSquareSupersetEqual;''),
    (0x2282, []), (0x2288, ''&NotSubsetEqual;''), (0x2281, ''&NotSucceeds;''), (0x2AB0, []),
    (0x22E1, ''&NotSucceedsSlantEqual;''), (0x227F, []), (0x2283, []),
    (0x2289, ''&NotSupersetEqual;''), (0x2241, ''&NotTilde;''), (0x2244, ''&NotTildeEqual;''),
    (0x2AFD, []), (0x2202, []), (0x2A14, ''&npolint;''), (0x2933, []), (0x219B, ''&nrarr;'')]"

definition entities_11 :: "(nat \<times> string) list" where
  "entities_11 = [
    (0x21CF, ''&nrArr;''), (0x219D, []), (0x1D4A9, ''&Nscr;''), (0x1D4C3, ''&nscr;''),
    (0x2284, ''&nsub;''), (0x2AC5, []), (0x2285, ''&nsup;''), (0x2AC6, []), (0xD1, ''&Ntilde;''),
    (0xF1, ''&ntilde;''), (0x39D, ''&Nu;''), (0x3BD, ''&nu;''), (0x23, ''&num;''),
    (0x2116, ''&numero;''), (0x2007, ''&numsp;''), (0x224D, []), (0x22AC, ''&nvdash;''),
    (0x22AD, ''&nvDash;''), (0x22AE, ''&nVdash;''), (0x22AF, ''&nVDash;''), (0x2265, []),
    (0x3E, []), (0x2904, ''&nvHarr;''), (0x29DE, ''&nvinfin;''), (0x2902, ''&nvlArr;''),
    (0x2264, []), (0x3C, []), (0x22B4, []), (0x2903, ''&nvrArr;''), (0x22B5, []), (0x223C, []),
    (0x2923, ''&nwarhk;''), (0x2196, ''&nwarr;''), (0x21D6, ''&nwArr;''), (0x2927, ''&nwnear;''),
    (0xD3, ''&Oacute;''), (0xF3, ''&oacute;''), (0xD4, ''&Ocirc;''), (0xF4, ''&ocirc;''),
    (0x41E, ''&Ocy;''), (0x43E, ''&ocy;''), (0x150, ''&Odblac;''), (0x151, ''&odblac;''),
    (0x2A38, ''&odiv;''), (0x29BC, ''&odsold;''), (0x152, ''&OElig;''), (0x153, ''&oelig;''),
    (0x29BF, ''&ofcir;''), (0x1D512, ''&Ofr;''), (0x1D52C, ''&ofr;''), (0x2DB, ''&ogon;''),
    (0xD2, ''&Ograve;''), (0xF2, ''&ograve;''), (0x29C1, ''&ogt;''), (0x29B5, ''&ohbar;''),
    (0x3A9, ''&ohm;''), (0x29BE, ''&olcir;''), (0x29BB, ''&olcross;''), (0x203E, ''&oline;''),
    (0x29C0, ''&olt;''), (0x14C, ''&Omacr;''), (0x14D, ''&omacr;''), (0x3C9, ''&omega;''),
    (0x39F, ''&Omicron;''), (0x3BF, ''&omicron;''), (0x29B6, ''&omid;''), (0x1D546, ''&Oopf;''),
    (0x1D560, ''&oopf;''), (0x29B7, ''&opar;''), (0x29B9, ''&operp;''), (0x2A54, ''&Or;''),
    (0x2228, ''&or;''), (0x2A5D, ''&ord;''), (0x2134, ''&order;''), (0xAA, ''&ordf;''),
    (0xBA, ''&ordm;''), (0x22B6, ''&origof;''), (0x2A56, ''&oror;''), (0x2A57, ''&orslope;''),
    (0x2A5B, ''&orv;''), (0x1D4AA, ''&Oscr;''), (0xD8, ''&Oslash;''), (0xF8, ''&oslash;''),
    (0x2298, ''&osol;''), (0xD5, ''&Otilde;''), (0xF5, ''&otilde;''), (0x2A36, ''&otimesas;''),
    (0x2A37, ''&Otimes;''), (0xD6, ''&Ouml;''), (0xF6, ''&ouml;''), (0x233D, ''&ovbar;''),
    (0x23DE, ''&OverBrace;''), (0x23B4, ''&OverBracket;''), (0x23DC, ''&OverParenthesis;''),
    (0xB6, ''&para;'')]"

definition entities_12 :: "(nat \<times> string) list" where
  "entities_12 = [
    (0x2AF3, ''&parsim;''), (0x2AFD, ''&parsl;''), (0x2202, ''&part;''), (0x41F, ''&Pcy;''),
    (0x43F, ''&pcy;''), (0x25, ''&percnt;''), (0x2E, ''&period;''), (0x2030, ''&permil;''),
    (0x2031, ''&pertenk;''), (0x1D513, ''&Pfr;''), (0x1D52D, ''&pfr;''), (0x3A6, ''&Phi;''),
    (0x3C6, ''&phi;''), (0x3D5, ''&phiv;''), (0x260E, ''&phone;''), (0x3A0, ''&Pi;''),
    (0x3C0, ''&pi;''), (0x3D6, ''&piv;''), (0x210E, ''&planckh;''), (0x2A23, ''&plusacir;''),
    (0x2A22, ''&pluscir;''), (0x2B, ''&plus;''), (0x2A25, ''&plusdu;''), (0x2A72, ''&pluse;''),
    (0xB1, ''&PlusMinus;''), (0x2A26, ''&plussim;''), (0x2A27, ''&plustwo;''),
    (0x2A15, ''&pointint;''), (0x1D561, ''&popf;''), (0x2119, ''&Popf;''), (0xA3, ''&pound;''),
    (0x2AB7, ''&prap;''), (0x2ABB, ''&Pr;''), (0x227A, ''&pr;''), (0x227C, ''&prcue;''),
    (0x2AAF, ''&PrecedesEqual;''), (0x227E, ''&PrecedesTilde;''), (0x2AB9, ''&precnapprox;''),
    (0x2AB5, ''&precneqq;''), (0x22E8, ''&precnsim;''), (0x2AB3, ''&prE;''), (0x2032, ''&prime;''),
    (0x2033, ''&Prime;''), (0x220F, ''&prod;''), (0x232E, ''&profalar;''), (0x2312, ''&profline;''),
    (0x2313, ''&profsurf;''), (0x221D, ''&prop;''), (0x22B0, ''&prurel;''), (0x1D4AB, ''&Pscr;''),
    (0x1D4C5, ''&pscr;''), (0x3A8, ''&Psi;''), (0x3C8, ''&psi;''), (0x2008, ''&puncsp;''),
    (0x1D514, ''&Qfr;''), (0x1D52E, ''&qfr;''), (0x1D562, ''&qopf;''), (0x211A, ''&Qopf;''),
    (0x2057, ''&qprime;''), (0x1D4AC, ''&Qscr;''), (0x1D4C6, ''&qscr;''), (0x2A16, ''&quatint;''),
    (0x3F, ''&quest;''), (0x22, ''&quot;''), (0x21DB, ''&rAarr;''), (0x223D, []),
    (0x154, ''&Racute;''), (0x155, ''&racute;''), (0x221A, ''&radic;''), (0x29B3, ''&raemptyv;''),
    (0x27E9, ''&rang;''), (0x27EB, ''&Rang;''), (0x2992, ''&rangd;''), (0x29A5, ''&range;''),
    (0xBB, ''&raquo;''), (0x2975, ''&rarrap;''), (0x21E5, ''&rarrb;''), (0x2920, ''&rarrbfs;''),
    (0x2933, ''&rarrc;''), (0x2192, ''&rarr;''), (0x21A0, ''&Rarr;''), (0x291E, ''&rarrfs;''),
    (0x2945, ''&rarrpl;''), (0x2974, ''&rarrsim;''), (0x2916, ''&Rarrtl;''), (0x21A3, ''&rarrtl;''),
    (0x219D, ''&rarrw;''), (0x291A, ''&ratail;''), (0x291C, ''&rAtail;''), (0x2236, ''&ratio;''),
    (0x2773, ''&rbbrk;''), (0x7D, ''&rbrace;''), (0x5D, ''&rbrack;''), (0x298C, ''&rbrke;''),
    (0x298E, ''&rbrksld;'')]"

definition entities_13 :: "(nat \<times> string) list" where
  "entities_13 = [
    (0x2990, ''&rbrkslu;''), (0x158, ''&Rcaron;''), (0x159, ''&rcaron;''), (0x156, ''&Rcedil;''),
    (0x157, ''&rcedil;''), (0x2309, ''&rceil;''), (0x420, ''&Rcy;''), (0x440, ''&rcy;''),
    (0x2937, ''&rdca;''), (0x2969, ''&rdldhar;''), (0x21B3, ''&rdsh;''), (0x211C, ''&real;''),
    (0x211B, ''&realine;''), (0x211D, ''&reals;''), (0x25AD, ''&rect;''), (0x297D, ''&rfisht;''),
    (0x230B, ''&rfloor;''), (0x1D52F, ''&rfr;''), (0x2964, ''&rHar;''), (0x21C0, ''&rharu;''),
    (0x296C, ''&rharul;''), (0x3A1, ''&Rho;''), (0x3C1, ''&rho;''), (0x3F1, ''&rhov;''),
    (0x21C4, ''&RightArrowLeftArrow;''), (0x27E7, ''&RightDoubleBracket;''),
    (0x295D, ''&RightDownTeeVector;''), (0x2955, ''&RightDownVectorBar;''),
    (0x21C9, ''&rightrightarrows;''), (0x22A2, ''&RightTee;''), (0x295B, ''&RightTeeVector;''),
    (0x22CC, ''&rightthreetimes;''), (0x29D0, ''&RightTriangleBar;''),
    (0x22B3, ''&RightTriangle;''), (0x22B5, ''&RightTriangleEqual;''),
    (0x294F, ''&RightUpDownVector;''), (0x295C, ''&RightUpTeeVector;''),
    (0x2954, ''&RightUpVectorBar;''), (0x21BE, ''&RightUpVector;''), (0x2953, ''&RightVectorBar;''),
    (0x2DA, ''&ring;''), (0x200F, ''&rlm;''), (0x23B1, ''&rmoustache;''), (0x2AEE, ''&rnmid;''),
    (0x27ED, ''&roang;''), (0x21FE, ''&roarr;''), (0x2986, ''&ropar;''), (0x1D563, ''&ropf;''),
    (0x2A2E, ''&roplus;''), (0x2A35, ''&rotimes;''), (0x2970, ''&RoundImplies;''),
    (0x29, ''&rpar;''), (0x2994, ''&rpargt;''), (0x2A12, ''&rppolint;''), (0x203A, ''&rsaquo;''),
    (0x1D4C7, ''&rscr;''), (0x21B1, ''&rsh;''), (0x22CA, ''&rtimes;''), (0x25B9, ''&rtri;''),
    (0x29CE, ''&rtriltri;''), (0x29F4, ''&RuleDelayed;''), (0x2968, ''&ruluhar;''),
    (0x211E, ''&rx;''), (0x15A, ''&Sacute;''), (0x15B, ''&sacute;''), (0x2AB8, ''&scap;''),
    (0x160, ''&Scaron;''), (0x161, ''&scaron;''), (0x2ABC, ''&Sc;''), (0x227B, ''&sc;''),
    (0x227D, ''&sccue;''), (0x2AB0, ''&sce;''), (0x2AB4, ''&scE;''), (0x15E, ''&Scedil;''),
    (0x15F, ''&scedil;''), (0x15C, ''&Scirc;''), (0x15D, ''&scirc;''), (0x2ABA, ''&scnap;''),
    (0x2AB6, ''&scnE;''), (0x22E9, ''&scnsim;''), (0x2A13, ''&scpolint;''), (0x227F, ''&scsim;''),
    (0x421, ''&Scy;''), (0x441, ''&scy;''), (0x22C5, ''&sdot;''), (0x2A66, ''&sdote;''),
    (0x21D8, ''&seArr;''), (0xA7, ''&sect;''), (0x3B, ''&semi;''), (0x2929, ''&seswar;''),
    (0x2736, ''&sext;''), (0x1D516, ''&Sfr;''), (0x1D530, ''&sfr;''), (0x266F, ''&sharp;''),
    (0x429, ''&SHCHcy;'')]"

definition entities_14 :: "(nat \<times> string) list" where
  "entities_14 = [
    (0x449, ''&shchcy;''), (0x428, ''&SHcy;''), (0x448, ''&shcy;''), (0x2191, ''&ShortUpArrow;''),
    (0xAD, ''&shy;''), (0x3A3, ''&Sigma;''), (0x3C3, ''&sigma;''), (0x3C2, ''&sigmaf;''),
    (0x223C, ''&sim;''), (0x2A6A, ''&simdot;''), (0x2243, ''&sime;''), (0x2A9E, ''&simg;''),
    (0x2AA0, ''&simgE;''), (0x2A9D, ''&siml;''), (0x2A9F, ''&simlE;''), (0x2246, ''&simne;''),
    (0x2A24, ''&simplus;''), (0x2972, ''&simrarr;''), (0x2A33, ''&smashp;''),
    (0x29E4, ''&smeparsl;''), (0x2323, ''&smile;''), (0x2AAA, ''&smt;''), (0x2AAC, ''&smte;''),
    (0x2AAC, []), (0x42C, ''&SOFTcy;''), (0x44C, ''&softcy;''), (0x233F, ''&solbar;''),
    (0x29C4, ''&solb;''), (0x2F, ''&sol;''), (0x1D54A, ''&Sopf;''), (0x1D564, ''&sopf;''),
    (0x2660, ''&spades;''), (0x2293, ''&sqcap;''), (0x2293, []), (0x2294, ''&sqcup;''),
    (0x2294, []), (0x228F, ''&sqsub;''), (0x2291, ''&sqsube;''), (0x2290, ''&sqsup;''),
    (0x2292, ''&sqsupe;''), (0x25A1, ''&square;''), (0x1D4AE, ''&Sscr;''), (0x1D4C8, ''&sscr;''),
    (0x22C6, ''&sstarf;''), (0x2606, ''&star;''), (0x2282, ''&sub;''), (0x22D0, ''&Sub;''),
    (0x2ABD, ''&subdot;''), (0x2AC5, ''&subE;''), (0x2286, ''&sube;''), (0x2AC3, ''&subedot;''),
    (0x2AC1, ''&submult;''), (0x2ACB, ''&subnE;''), (0x228A, ''&subne;''), (0x2ABF, ''&subplus;''),
    (0x2979, ''&subrarr;''), (0x2AC7, ''&subsim;''), (0x2AD5, ''&subsub;''), (0x2AD3, ''&subsup;''),
    (0x2211, ''&sum;''), (0x266A, ''&sung;''), (0xB9, ''&sup1;''), (0xB2, ''&sup2;''),
    (0xB3, ''&sup3;''), (0x2283, ''&sup;''), (0x22D1, ''&Sup;''), (0x2ABE, ''&supdot;''),
    (0x2AD8, ''&supdsub;''), (0x2AC6, ''&supE;''), (0x2287, ''&supe;''), (0x2AC4, ''&supedot;''),
    (0x27C9, ''&suphsol;''), (0x2AD7, ''&suphsub;''), (0x297B, ''&suplarr;''),
    (0x2AC2, ''&supmult;''), (0x2ACC, ''&supnE;''), (0x228B, ''&supne;''), (0x2AC0, ''&supplus;''),
    (0x2AC8, ''&supsim;''), (0x2AD4, ''&supsub;''), (0x2AD6, ''&supsup;''), (0x21D9, ''&swArr;''),
    (0x292A, ''&swnwar;''), (0xDF, ''&szlig;''), (0x9, ''&Tab;''), (0x2316, ''&target;''),
    (0x3A4, ''&Tau;''), (0x3C4, ''&tau;''), (0x164, ''&Tcaron;''), (0x165, ''&tcaron;''),
    (0x162, ''&Tcedil;''), (0x163, ''&tcedil;''), (0x422, ''&Tcy;''), (0x442, ''&tcy;''),
    (0x20DB, ''&tdot;'')]"

definition entities_15 :: "(nat \<times> string) list" where
  "entities_15 = [
    (0x2315, ''&telrec;''), (0x1D517, ''&Tfr;''), (0x1D531, ''&tfr;''), (0x2234, ''&there4;''),
    (0x398, ''&Theta;''), (0x3B8, ''&theta;''), (0x3D1, ''&thetasym;''), (0x205F, []),
    (0x2009, ''&ThinSpace;''), (0xDE, ''&THORN;''), (0xFE, ''&thorn;''), (0x2A31, ''&timesbar;''),
    (0xD7, ''&times;''), (0x2A30, ''&timesd;''), (0x2336, ''&topbot;''), (0x2AF1, ''&topcir;''),
    (0x1D54B, ''&Topf;''), (0x1D565, ''&topf;''), (0x2ADA, ''&topfork;''), (0x2034, ''&tprime;''),
    (0x2122, ''&trade;''), (0x25B5, ''&triangle;''), (0x225C, ''&triangleq;''),
    (0x25EC, ''&tridot;''), (0x2A3A, ''&triminus;''), (0x2A39, ''&triplus;''),
    (0x29CD, ''&trisb;''), (0x2A3B, ''&tritime;''), (0x23E2, ''&trpezium;''), (0x1D4AF, ''&Tscr;''),
    (0x1D4C9, ''&tscr;''), (0x426, ''&TScy;''), (0x446, ''&tscy;''), (0x40B, ''&TSHcy;''),
    (0x45B, ''&tshcy;''), (0x166, ''&Tstrok;''), (0x167, ''&tstrok;''), (0xDA, ''&Uacute;''),
    (0xFA, ''&uacute;''), (0x219F, ''&Uarr;''), (0x2949, ''&Uarrocir;''), (0x40E, ''&Ubrcy;''),
    (0x45E, ''&ubrcy;''), (0x16C, ''&Ubreve;''), (0x16D, ''&ubreve;''), (0xDB, ''&Ucirc;''),
    (0xFB, ''&ucirc;''), (0x423, ''&Ucy;''), (0x443, ''&ucy;''), (0x21C5, ''&udarr;''),
    (0x170, ''&Udblac;''), (0x171, ''&udblac;''), (0x296E, ''&udhar;''), (0x297E, ''&ufisht;''),
    (0x1D518, ''&Ufr;''), (0x1D532, ''&ufr;''), (0xD9, ''&Ugrave;''), (0xF9, ''&ugrave;''),
    (0x2963, ''&uHar;''), (0x2580, ''&uhblk;''), (0x231C, ''&ulcorn;''), (0x230F, ''&ulcrop;''),
    (0x25F8, ''&ultri;''), (0x16A, ''&Umacr;''), (0x16B, ''&umacr;''), (0x23DF, ''&UnderBrace;''),
    (0x23DD, ''&UnderParenthesis;''), (0x228E, ''&UnionPlus;''), (0x172, ''&Uogon;''),
    (0x173, ''&uogon;''), (0x1D54C, ''&Uopf;''), (0x1D566, ''&uopf;''), (0x2912, ''&UpArrowBar;''),
    (0x2195, ''&updownarrow;''), (0x3C5, ''&upsi;''), (0x3D2, ''&Upsi;''), (0x3A5, ''&Upsilon;''),
    (0x21C8, ''&upuparrows;''), (0x231D, ''&urcorn;''), (0x230E, ''&urcrop;''),
    (0x16E, ''&Uring;''), (0x16F, ''&uring;''), (0x25F9, ''&urtri;''), (0x1D4B0, ''&Uscr;''),
    (0x1D4CA, ''&uscr;''), (0x22F0, ''&utdot;''), (0x168, ''&Utilde;''), (0x169, ''&utilde;''),
    (0xDC, ''&Uuml;''), (0xFC, ''&uuml;''), (0x29A7, ''&uwangle;''), (0x299C, ''&vangrt;''),
    (0x228A, []), (0x2ACB, []), (0x228B, [])]"

definition entities_16 :: "(nat \<times> string) list" where
  "entities_16 = [
    (0x2ACC, []), (0x2AE8, ''&vBar;''), (0x2AEB, ''&Vbar;''), (0x2AE9, ''&vBarv;''),
    (0x412, ''&Vcy;''), (0x432, ''&vcy;''), (0x22A9, ''&Vdash;''), (0x22AB, ''&VDash;''),
    (0x2AE6, ''&Vdashl;''), (0x22BB, ''&veebar;''), (0x225A, ''&veeeq;''), (0x22EE, ''&vellip;''),
    (0x7C, ''&verbar;''), (0x2016, ''&Verbar;''), (0x2758, ''&VerticalSeparator;''),
    (0x2240, ''&VerticalTilde;''), (0x1D519, ''&Vfr;''), (0x1D533, ''&vfr;''),
    (0x1D54D, ''&Vopf;''), (0x1D567, ''&vopf;''), (0x1D4B1, ''&Vscr;''), (0x1D4CB, ''&vscr;''),
    (0x22AA, ''&Vvdash;''), (0x299A, ''&vzigzag;''), (0x174, ''&Wcirc;''), (0x175, ''&wcirc;''),
    (0x2A5F, ''&wedbar;''), (0x2259, ''&wedgeq;''), (0x2118, ''&weierp;''), (0x1D51A, ''&Wfr;''),
    (0x1D534, ''&wfr;''), (0x1D54E, ''&Wopf;''), (0x1D568, ''&wopf;''), (0x1D4B2, ''&Wscr;''),
    (0x1D4CC, ''&wscr;''), (0x1D51B, ''&Xfr;''), (0x1D535, ''&xfr;''), (0x39E, ''&Xi;''),
    (0x3BE, ''&xi;''), (0x22FB, ''&xnis;''), (0x1D54F, ''&Xopf;''), (0x1D569, ''&xopf;''),
    (0x1D4B3, ''&Xscr;''), (0x1D4CD, ''&xscr;''), (0xDD, ''&Yacute;''), (0xFD, ''&yacute;''),
    (0x42F, ''&YAcy;''), (0x44F, ''&yacy;''), (0x176, ''&Ycirc;''), (0x177, ''&ycirc;''),
    (0x42B, ''&Ycy;''), (0x44B, ''&ycy;''), (0xA5, ''&yen;''), (0x1D51C, ''&Yfr;''),
    (0x1D536, ''&yfr;''), (0x407, ''&YIcy;''), (0x457, ''&yicy;''), (0x1D550, ''&Yopf;''),
    (0x1D56A, ''&yopf;''), (0x1D4B4, ''&Yscr;''), (0x1D4CE, ''&yscr;''), (0x42E, ''&YUcy;''),
    (0x44E, ''&yucy;''), (0xFF, ''&yuml;''), (0x178, ''&Yuml;''), (0x179, ''&Zacute;''),
    (0x17A, ''&zacute;''), (0x17D, ''&Zcaron;''), (0x17E, ''&zcaron;''), (0x417, ''&Zcy;''),
    (0x437, ''&zcy;''), (0x17B, ''&Zdot;''), (0x17C, ''&zdot;''), (0x2128, ''&zeetrf;''),
    (0x396, ''&Zeta;''), (0x3B6, ''&zeta;''), (0x1D537, ''&zfr;''), (0x416, ''&ZHcy;''),
    (0x436, ''&zhcy;''), (0x21DD, ''&zigrarr;''), (0x1D56B, ''&zopf;''), (0x1D4B5, ''&Zscr;''),
    (0x1D4CF, ''&zscr;''), (0x200D, ''&zwj;''), (0x200C, ''&zwnj;'')]"

lemmas entity_chunk_defs = entities_1_def entities_2_def entities_3_def entities_4_def entities_5_def entities_6_def entities_7_def entities_8_def entities_9_def entities_10_def entities_11_def entities_12_def entities_13_def entities_14_def entities_15_def entities_16_def

definition entities_init :: "(nat \<times> string) list" where
  "entities_init = entities_1 @ entities_2 @ entities_3 @ entities_4 @ entities_5 @ entities_6 @ entities_7 @ entities_8 @ entities_9 @ entities_10 @ entities_11 @ entities_12 @ entities_13 @ entities_14 @ entities_15 @ entities_16"

definition lookaheads_init :: "(nat \<times> nat \<times> string) list" where
  "lookaheads_init = [
    (0x223E, 0x333, ''&acE;''), (0x3D, 0x20E5, ''&bne;''), (0x2261, 0x20E5, ''&bnequiv;''),
    (0x2229, 0xFE00, ''&caps;''), (0x222A, 0xFE00, ''&cups;''), (0x22DB, 0xFE00, ''&gesl;''),
    (0x2269, 0xFE00, ''&gvertneqq;''), (0x2AAD, 0xFE00, ''&lates;''), (0x22DA, 0xFE00, ''&lesg;''),
    (0x2268, 0xFE00, ''&lvertneqq;''), (0x2220, 0x20D2, ''&nang;''), (0x2A70, 0x338, ''&napE;''),
    (0x224B, 0x338, ''&napid;''), (0x224E, 0x338, ''&nbump;''), (0x224F, 0x338, ''&nbumpe;''),
    (0x2A6D, 0x338, ''&ncongdot;''), (0x2250, 0x338, ''&nedot;''), (0x2242, 0x338, ''&nesim;''),
    (0x2267, 0x338, ''&ngE;''), (0x2A7E, 0x338, ''&ngeqslant;''), (0x22D9, 0x338, ''&nGg;''),
    (0x226B, 0x20D2, ''&nGt;''), (0x226B, 0x338, ''&nGtv;''), (0x2266, 0x338, ''&nlE;''),
    (0x2A7D, 0x338, ''&nleqslant;''), (0x22D8, 0x338, ''&nLl;''), (0x226A, 0x20D2, ''&nLt;''),
    (0x226A, 0x338, ''&nLtv;''), (0x22F5, 0x338, ''&notindot;''), (0x22F9, 0x338, ''&notinE;''),
    (0x29CF, 0x338, ''&NotLeftTriangleBar;''), (0x2AA2, 0x338, ''&NotNestedGreaterGreater;''),
    (0x2AA1, 0x338, ''&NotNestedLessLess;''), (0x2AAF, 0x338, ''&NotPrecedesEqual;''),
    (0x29D0, 0x338, ''&NotRightTriangleBar;''), (0x228F, 0x338, ''&NotSquareSubset;''),
    (0x2290, 0x338, ''&NotSquareSuperset;''), (0x2282, 0x20D2, ''&NotSubset;''),
    (0x2AB0, 0x338, ''&NotSucceedsEqual;''), (0x227F, 0x338, ''&NotSucceedsTilde;''),
    (0x2283, 0x20D2, ''&NotSuperset;''), (0x2AFD, 0x20E5, ''&nparsl;''),
    (0x2202, 0x338, ''&npart;''), (0x2933, 0x338, ''&nrarrc;''), (0x219D, 0x338, ''&nrarrw;''),
    (0x2AC5, 0x338, ''&nsubE;''), (0x2AC6, 0x338, ''&nsupE;''), (0x224D, 0x20D2, ''&nvap;''),
    (0x2265, 0x20D2, ''&nvge;''), (0x3E, 0x20D2, ''&nvgt;''), (0x2264, 0x20D2, ''&nvle;''),
    (0x3C, 0x20D2, ''&nvlt;''), (0x22B4, 0x20D2, ''&nvltrie;''), (0x22B5, 0x20D2, ''&nvrtrie;''),
    (0x223C, 0x20D2, ''&nvsim;''), (0x223D, 0x331, ''&race;''), (0x2AAC, 0xFE00, ''&smtes;''),
    (0x2293, 0xFE00, ''&sqcaps;''), (0x2294, 0xFE00, ''&sqcups;''),
    (0x205F, 0x200A, ''&ThickSpace;''), (0x228A, 0xFE00, ''&varsubsetneq;''),
    (0x2ACB, 0xFE00, ''&varsubsetneqq;''), (0x228B, 0xFE00, ''&varsupsetneq;''),
    (0x2ACC, 0xFE00, ''&varsupsetneqq;'')]"

section \<open>What the tables hold\<close>

text \<open>The checks run over the tables once, entry by entry.\<close>

lemmas entities_unfold = entities_init_def entity_chunk_defs

lemma entities_no_zero: "list_all (\<lambda>(k, s). k \<noteq> 0) entities_init"
  unfolding entities_unfold by simp

lemma lookaheads_names:
  "list_all (\<lambda>(k, d, s). s \<noteq> ''&amp;'' \<and> s \<noteq> ''&quot;'' \<and> s \<noteq> ''&lt;'' \<and> s \<noteq> ''&gt;'' \<and> s \<noteq> ''&part;'')
     lookaheads_init"
  unfolding lookaheads_init_def by simp

lemma entities_names:
  "list_all (\<lambda>(k, s). (s = ''&amp;'' \<longrightarrow> k = 0x26) \<and> (s = ''&quot;'' \<longrightarrow> k = 0x22) \<and> (s = ''&lt;'' \<longrightarrow> k = 0x3C)
     \<and> (s = ''&gt;'' \<longrightarrow> k = 0x3E) \<and> (s = ''&part;'' \<longrightarrow> k = 0x2202)) entities_init"
  unfolding entities_unfold by simp

lemma map_of_first: "list_all (\<lambda>(k', s). k' \<noteq> k) xs \<Longrightarrow> map_of (xs @ ys) k = map_of ys k"
  by (induction xs) auto

lemma entities_values:
  "map_of entities_init 0x26 = Some ''&amp;''" "map_of entities_init 0x22 = Some ''&quot;''"
  "map_of entities_init 0x3C = Some ''&lt;''" "map_of entities_init 0x3E = Some ''&gt;''"
  "map_of entities_init 0x2202 = Some []"
proof -
  have a: "map_of (e # xs) k = (if fst e = k then Some (snd e) else map_of xs k)" for e :: "nat \<times> string" and xs k
    by (cases e) simp
  show "map_of entities_init 0x26 = Some ''&amp;''"
    unfolding entities_init_def entities_1_def append_Cons a by simp
  show "map_of entities_init 0x22 = Some ''&quot;''"
    unfolding entities_unfold append_Cons append_Nil a by simp
  show "map_of entities_init 0x3C = Some ''&lt;''"
    unfolding entities_unfold append_Cons append_Nil a by simp
  show "map_of entities_init 0x3E = Some ''&gt;''"
    unfolding entities_unfold append_Cons append_Nil a by simp
  show "map_of entities_init 0x2202 = Some []"
    unfolding entities_unfold append_Cons append_Nil a by simp
qed


end
