(* ===== verification/Html.thy ===== *)
theory Html
  imports Http_Text Utf8 Entities
begin

text \<open>
  The HTML part of \<^verbatim>\<open>src/util/encoding.cpp\<close>: the encoding of every character that has an
  entity, with its one-character lookahead for the entities of two characters, the table for
  decoding, and the decoder with its two passes (named and numeric entities). The map a C++
  initializer list with duplicates builds keeps the first entry of a key (\<open>umap_of_list\<close>).
\<close>

definition umap_of_list :: "('k \<times> 'v) list \<Rightarrow> ('k, 'v) umap" where
  "umap_of_list kvs = fold (\<lambda>(k, v). umap_insert k v) kvs []"

lemma umap_get_of_list: "umap_get (umap_of_list kvs) = map_of kvs"
  by (rule ext) (simp add: umap_of_list_def um.get_add_list)

lemma umap_wf_of_list: "umap_wf (umap_of_list kvs)"
  unfolding umap_of_list_def by (rule um.wf_add_list) simp

lemma set_umap_of_list: "(k, v) \<in> set (umap_of_list kvs) \<longleftrightarrow> map_of kvs k = Some v"
  using umap_get_in_set [OF umap_wf_of_list] by (metis umap_get_of_list)

definition htmlEntities :: "(nat, string) umap" where
  "htmlEntities = umap_of_list entities_init"

definition htmlLookaheads :: "(nat, nat \<times> string) umap" where
  "htmlLookaheads = umap_of_list lookaheads_init"

text \<open>The code points of a \<^verbatim>\<open>U"..."\<close> literal.\<close>

definition u32 :: "string \<Rightarrow> nat list" where
  "u32 s = map code s"

section \<open>Encoding\<close>

text \<open>\<^verbatim>\<open>output << cv.to_bytes(x)\<close>, followed by the rest of the loop.\<close>

definition put :: "nat list \<Rightarrow> string result \<Rightarrow> string result" where
  "put x rest = bind_result (to_bytes x) (\<lambda>a. bind_result rest (\<lambda>b. Inr (a @ b)))"

fun html_loop :: "(nat, string) umap \<Rightarrow> (nat, nat \<times> string) umap \<Rightarrow> nat \<Rightarrow> nat list \<Rightarrow> string result" where
  "html_loop E L lookahead [] = (if lookahead \<noteq> 0 then to_bytes [lookahead] else Inr [])"
| "html_loop E L lookahead (c # cs) =
     (let here = (case umap_get E c of
                    Some e \<Rightarrow> if e = [] then html_loop E L c cs else put (u32 e) (html_loop E L 0 cs)
                  | None \<Rightarrow> put [c] (html_loop E L 0 cs))
      in if lookahead \<noteq> 0 then
           (case umap_get L lookahead of
              None \<Rightarrow> put [lookahead] here
            | Some (second, entity) \<Rightarrow>
                if second = c then put (u32 entity) (html_loop E L 0 cs) else put [lookahead] here)
         else here)"

definition htmlEncode_all :: "string \<Rightarrow> string result" where
  "htmlEncode_all inp = bind_result (from_bytes inp) (\<lambda>uinput. html_loop htmlEntities htmlLookaheads 0 uinput)"

definition encoding_htmlEncode :: "boost \<Rightarrow> string \<Rightarrow> bool \<Rightarrow> string result" where
  "encoding_htmlEncode B inp encodeAll = (if \<not> encodeAll then Inr (htmlEncode B inp) else htmlEncode_all inp)"

section \<open>Decoding\<close>

definition decode_entry :: "(nat, nat \<times> string) umap \<Rightarrow> nat \<times> string \<Rightarrow> (nat list \<times> nat \<times> nat) option" where
  "decode_entry L e =
     (if snd e \<noteq> [] then Some (u32 (snd e), (fst e, 0))
      else case umap_get L (fst e) of
        Some (secondChar, entity) \<Rightarrow> Some (u32 entity, (fst e, secondChar))
      | None \<Rightarrow> None)"

definition initializeHtmlDecodeTable ::
    "(nat, string) umap \<Rightarrow> (nat, nat \<times> string) umap \<Rightarrow> (nat list, nat \<times> nat) umap" where
  "initializeHtmlDecodeTable E L =
     umap_insert (u32 ''&fjlig;'') (0x66, 0x6A)
       (fold (\<lambda>e t. case decode_entry L e of None \<Rightarrow> t | Some (k, v) \<Rightarrow> umap_insert k v t) E [])"

definition htmlDecodeTable :: "(nat list, nat \<times> nat) umap" where
  "htmlDecodeTable = initializeHtmlDecodeTable htmlEntities htmlLookaheads"

definition alnum_ranges :: "(char \<times> char) list" where
  "alnum_ranges = [(CHR ''A'', CHR ''Z''), (CHR ''a'', CHR ''z''), (CHR ''0'', CHR ''9'')]"

definition matchEntity :: rx where
  "matchEntity = RSeq (RChr (CHR ''&'')) (RSeq (RRep 1 (Some 25) False (RSet False alnum_ranges)) (RChr (CHR '';'')))"

definition replaceEntity :: "string list \<Rightarrow> string result" where
  "replaceEntity matches =
     bind_result (vec_at matches 0) (\<lambda>m.
     bind_result (from_bytes m) (\<lambda>entity32.
       case umap_get htmlDecodeTable entity32 of
         None \<Rightarrow> Inr m
       | Some (firstChar, secondChar) \<Rightarrow>
           bind_result (to_bytes [firstChar]) (\<lambda>a.
             if secondChar \<noteq> 0 then bind_result (to_bytes [secondChar]) (\<lambda>b. Inr (a @ b)) else Inr a)))"

definition matchUnicode :: rx where
  "matchUnicode =
     RSeq (RStr ''&#'') (RSeq
       (RGroup 1 (RAlt
          (RSeq (RChr (CHR ''x'')) (RGroup 2 (RRep 1 (Some 5) True
             (RSet False [(CHR ''A'', CHR ''F''), (CHR ''a'', CHR ''f''), (CHR ''0'', CHR ''9'')]))))
          (RGroup 3 (RRep 1 (Some 6) True (RSet False [(CHR ''0'', CHR ''9'')])))))
       (RChr (CHR '';'')))"

definition replaceUnicode :: "string list \<Rightarrow> string result" where
  "replaceUnicode matches =
     (if length matches < 3 then Inr []
      else if length matches > 3 \<and> matches ! 3 \<noteq> []
      then bind_result (stoul 10 (matches ! 3)) (\<lambda>c. to_bytes [c])
      else if matches ! 2 \<noteq> [] then bind_result (stoul 16 (matches ! 2)) (\<lambda>c. to_bytes [c])
      else Inr [])"

definition htmlDecode :: "string \<Rightarrow> string result" where
  "htmlDecode inp =
     bind_result (regexReplaceCallback inp matchEntity replaceEntity) (\<lambda>s.
       regexReplaceCallback s matchUnicode replaceUnicode)"

section \<open>The reference for the encoder\<close>

text \<open>On code points: the longest entity at the front, or the code point itself.\<close>

definition html_single :: "(nat, string) umap \<Rightarrow> nat \<Rightarrow> nat list" where
  "html_single E c = (case umap_get E c of Some e \<Rightarrow> if e = [] then [c] else u32 e | None \<Rightarrow> [c])"

definition html_pair :: "(nat, string) umap \<Rightarrow> (nat, nat \<times> string) umap \<Rightarrow> nat \<Rightarrow> nat \<Rightarrow> string option" where
  "html_pair E L c d =
     (if umap_get E c = Some [] then
        (case umap_get L c of Some (second, entity) \<Rightarrow> if second = d then Some entity else None | None \<Rightarrow> None)
      else None)"

fun html_ref :: "(nat, string) umap \<Rightarrow> (nat, nat \<times> string) umap \<Rightarrow> nat list \<Rightarrow> nat list" where
  "html_ref E L [] = []"
| "html_ref E L [c] = html_single E c"
| "html_ref E L (c # d # cs) =
     (case html_pair E L c d of
        Some e \<Rightarrow> u32 e @ html_ref E L cs
      | None \<Rightarrow> html_single E c @ html_ref E L (d # cs))"

lemma to_bytes_append: "to_bytes (xs @ ys) = put xs (to_bytes ys)"
proof (induction xs)
  case Nil
  show ?case by (cases "to_bytes ys") (simp_all add: put_def)
next
  case (Cons x xs)
  then show ?case by (cases "to_bytes xs"; cases "to_bytes ys") (simp_all add: put_def)
qed

lemma to_bytes_put: "to_bytes (c # cs) = put [c] (to_bytes cs)"
  using to_bytes_append [of "[c]" cs] by simp

text \<open>The two cases of the loop: without a pending code point, and with one.\<close>

lemma html_loop_ref:
  assumes zero: "umap_get E 0 \<noteq> Some []"
  shows "html_loop E L 0 cs = to_bytes (html_ref E L cs)
    \<and> (\<forall>c. c \<noteq> 0 \<and> umap_get E c = Some [] \<longrightarrow> html_loop E L c cs = to_bytes (html_ref E L (c # cs)))"
proof (induction cs)
  case Nil
  show ?case by (auto simp: html_single_def)
next
  case (Cons d cs)
  have here: "html_loop E L 0 (d # cs) = to_bytes (html_ref E L (d # cs))"
  proof (cases "umap_get E d = Some []")
    case True
    with zero have "d \<noteq> 0" by metis
    with True Cons show ?thesis by simp
  next
    case False
    then have "html_ref E L (d # cs) = html_single E d @ html_ref E L cs"
      by (cases cs) (simp_all add: html_pair_def)
    with False Cons show ?thesis
      by (simp add: to_bytes_append html_single_def split: option.split)
  qed
  moreover have "html_loop E L c (d # cs) = to_bytes (html_ref E L (c # d # cs))"
    if "c \<noteq> 0" "umap_get E c = Some []" for c
    using that here Cons
    by (auto simp: to_bytes_append to_bytes_put html_pair_def html_single_def Let_def
        simp del: to_bytes.simps(2) split: option.split)
  ultimately show ?case by blast
qed

section \<open>What the decoding table holds\<close>

lemma u32_inj [simp]: "u32 s = u32 t \<longleftrightarrow> s = t"
  by (simp add: u32_def inj_map_eq_map inj_def)

lemma map_of_unique: "(\<And>v. (k, v) \<in> set xs \<Longrightarrow> v = w) \<Longrightarrow> (k, w) \<in> set xs \<Longrightarrow> map_of xs k = Some w"
  by (metis weak_map_of_SomeI map_of_SomeD)

lemma decode_table_get:
  "umap_get (initializeHtmlDecodeTable E L) k =
     (case map_of (List.map_filter (decode_entry L) E) k of
        Some v \<Rightarrow> Some v | None \<Rightarrow> if k = u32 ''&fjlig;'' then Some (0x66, 0x6A) else None)"
proof -
  have "fold (\<lambda>e t. case decode_entry L e of None \<Rightarrow> t | Some (k, v) \<Rightarrow> umap_insert k v t) E t =
      fold (\<lambda>(k, v). umap_insert k v) (List.map_filter (decode_entry L) E) t" for t
    by (induction E arbitrary: t) (auto simp: map_filter_simps split: option.split)
  then show ?thesis
    by (auto simp: initializeHtmlDecodeTable_def um.get_add um.get_add_list split: option.split)
qed

lemma in_decode_entries:
  "(k, v) \<in> set (List.map_filter (decode_entry L) E) \<longleftrightarrow> (\<exists>e \<in> set E. decode_entry L e = Some (k, v))"
  by (force simp: map_filter_def)

text \<open>An entity that only one code point has in the initializer, and no pair of code points: it is
  in the table if it is the first entry of its code point.\<close>

lemma htmlDecodeTable_single:
  assumes only: "list_all (\<lambda>(k, s). s = e \<longrightarrow> k = c) entities_init"
    and no_pair: "list_all (\<lambda>(k, d, s). s \<noteq> e) lookaheads_init" and e: "e \<noteq> []" "e \<noteq> ''&fjlig;''"
  shows "umap_get htmlDecodeTable (u32 e) = (if map_of entities_init c = Some e then Some (c, 0) else None)"
proof -
  let ?es = "List.map_filter (decode_entry htmlLookaheads) htmlEntities"
  have entry: "decode_entry htmlLookaheads (k, s) = Some (u32 e, v) \<Longrightarrow>
      map_of entities_init k = Some s \<Longrightarrow> k = c \<and> s = e \<and> v = (c, 0)" for k s v
    using only no_pair e(1)
    by (fastforce simp: decode_entry_def htmlLookaheads_def umap_get_of_list list_all_iff
        dest!: map_of_SomeD split: if_splits option.splits)
  have uniq: "map_of entities_init c = Some e \<and> v = (c, 0)" if "(u32 e, v) \<in> set ?es" for v
  proof -
    from that obtain k s where ks: "decode_entry htmlLookaheads (k, s) = Some (u32 e, v)"
      "map_of entities_init k = Some s"
      by (auto simp: in_decode_entries htmlEntities_def set_umap_of_list)
    from entry [OF this] ks(2) show ?thesis by simp
  qed
  show ?thesis
  proof (cases "map_of entities_init c = Some e")
    case True
    then have "(u32 e, (c, 0)) \<in> set ?es"
      unfolding in_decode_entries htmlEntities_def using e(1)
      by (intro bexI [of _ "(c, e)"]) (simp_all add: set_umap_of_list decode_entry_def)
    then have "map_of ?es (u32 e) = Some (c, 0)" using uniq by (intro map_of_unique) blast+
    with True show ?thesis by (simp add: htmlDecodeTable_def decode_table_get)
  next
    case False
    then have "\<And>v. (u32 e, v) \<notin> set ?es" using uniq by blast
    then have "map_of ?es (u32 e) = None" by (cases "map_of ?es (u32 e)") (auto dest: map_of_SomeD)
    with False e(2) show ?thesis by (simp add: htmlDecodeTable_def decode_table_get)
  qed
qed

lemma htmlDecodeTable_entities:
  "umap_get htmlDecodeTable (u32 ''&amp;'') = Some (0x26, 0)"
  "umap_get htmlDecodeTable (u32 ''&quot;'') = Some (0x22, 0)"
  "umap_get htmlDecodeTable (u32 ''&lt;'') = Some (0x3C, 0)"
  "umap_get htmlDecodeTable (u32 ''&gt;'') = Some (0x3E, 0)"
  "umap_get htmlDecodeTable (u32 ''&part;'') = None"
proof -
  note entry = list.pred_mono_strong [OF entities_names] and pair = list.pred_mono_strong [OF lookaheads_names]
  have "umap_get htmlDecodeTable (u32 ''&amp;'') = (if map_of entities_init 0x26 = Some ''&amp;'' then Some (0x26, 0) else None)"
    by (intro htmlDecodeTable_single entry pair) auto
  then show "umap_get htmlDecodeTable (u32 ''&amp;'') = Some (0x26, 0)" by (simp add: entities_values)
  have "umap_get htmlDecodeTable (u32 ''&quot;'') = (if map_of entities_init 0x22 = Some ''&quot;'' then Some (0x22, 0) else None)"
    by (intro htmlDecodeTable_single entry pair) auto
  then show "umap_get htmlDecodeTable (u32 ''&quot;'') = Some (0x22, 0)" by (simp add: entities_values)
  have "umap_get htmlDecodeTable (u32 ''&lt;'') = (if map_of entities_init 0x3C = Some ''&lt;'' then Some (0x3C, 0) else None)"
    by (intro htmlDecodeTable_single entry pair) auto
  then show "umap_get htmlDecodeTable (u32 ''&lt;'') = Some (0x3C, 0)" by (simp add: entities_values)
  have "umap_get htmlDecodeTable (u32 ''&gt;'') = (if map_of entities_init 0x3E = Some ''&gt;'' then Some (0x3E, 0) else None)"
    by (intro htmlDecodeTable_single entry pair) auto
  then show "umap_get htmlDecodeTable (u32 ''&gt;'') = Some (0x3E, 0)" by (simp add: entities_values)
  have "umap_get htmlDecodeTable (u32 ''&part;'') = (if map_of entities_init 0x2202 = Some ''&part;'' then Some (0x2202, 0) else None)"
    by (intro htmlDecodeTable_single entry pair) auto
  then show "umap_get htmlDecodeTable (u32 ''&part;'') = None" by (simp add: entities_values)
qed

section \<open>Decoding what was encoded\<close>

definition is_alnum :: "char \<Rightarrow> bool" where
  "is_alnum c = in_ranges alnum_ranges c"

text \<open>The lazy repetition stops at the first semicolon.\<close>

lemma lazy_run:
  "list_all is_alnum w \<Longrightarrow>
     concat (map (rx_run (RChr (CHR '';''))) (rep_opt (rx_run (RSet False alnum_ranges)) False n (w @ CHR '';'' # s, cs)))
       = (if length w \<le> n then [(s, cs)] else [])"
proof (induction w arbitrary: n)
  case Nil
  then show ?case by (cases n) (simp_all add: alnum_ranges_def less_eq_char_def)
next
  case (Cons c w)
  then have c: "in_ranges alnum_ranges c" "c \<noteq> CHR '';''"
    by (auto simp: is_alnum_def alnum_ranges_def less_eq_char_def)
  show ?case
  proof (cases n)
    case (Suc m)
    then show ?thesis using Cons c by (simp add: Let_def)
  qed (use c in simp)
qed

lemma matchEntity_run:
  assumes "list_all is_alnum w" and "w \<noteq> []" and "length w \<le> 25"
  shows "rx_run matchEntity ((CHR ''&'' # w @ '';'') @ s, []) = [(s, [])]"
proof -
  obtain c v where w: "w = c # v" using assms(2) by (cases w) auto
  with assms have c: "in_ranges alnum_ranges c" "list_all is_alnum v" "length v \<le> 24"
    by (simp_all add: is_alnum_def)
  show ?thesis
    using lazy_run [OF c(2), of "min 24 (length (v @ CHR '';'' # s))" s "[]"] c
    by (simp add: matchEntity_def w rep_rounds_def)
qed

lemma matchEntity_Nil: "rx_run matchEntity ([], []) = []"
  by (simp add: matchEntity_def)

lemma matchEntity_other: "c \<noteq> CHR ''&'' \<Longrightarrow> rx_run matchEntity (c # s, []) = []"
  by (simp add: matchEntity_def)

lemma rx_marks_matchEntity: "rx_marks matchEntity = 0"
  by (simp add: matchEntity_def)

lemma from_bytes_u32: "ascii s \<Longrightarrow> from_bytes s = Inr (u32 s)"
  by (simp add: from_bytes_ascii u32_def)

text \<open>An entity of one code point, and an entity that is not in the table.\<close>

lemma decodes_entity:
  assumes "list_all is_alnum w" and "w \<noteq> []" and "length w \<le> 25" and "ascii w"
    and "umap_get htmlDecodeTable (u32 (CHR ''&'' # w @ '';'')) = Some (c, 0)" and "scalar c"
  shows "decodes matchEntity replaceEntity (CHR ''&'' # w @ '';'') (utf8_char c)"
proof (rule decodes_match [OF matchEntity_run [OF assms(1-3)]])
  have "ascii (CHR ''&'' # w @ '';'')" using assms(4) by (simp add: ascii_def)
  from from_bytes_u32 [OF this] assms(5,6)
  show "replaceEntity ((CHR ''&'' # w @ '';'') # map (cap []) [1..<Suc (rx_marks matchEntity)]) = Inr (utf8_char c)"
    by (simp add: replaceEntity_def vec_at_def rx_marks_matchEntity)
qed simp

lemma decodes_unknown:
  assumes "list_all is_alnum w" and "w \<noteq> []" and "length w \<le> 25" and "ascii w"
    and "umap_get htmlDecodeTable (u32 (CHR ''&'' # w @ '';'')) = None"
  shows "decodes matchEntity replaceEntity (CHR ''&'' # w @ '';'') (CHR ''&'' # w @ '';'')"
proof (rule decodes_match [OF matchEntity_run [OF assms(1-3)]])
  have "ascii (CHR ''&'' # w @ '';'')" using assms(4) by (simp add: ascii_def)
  from from_bytes_u32 [OF this] assms(5)
  show "replaceEntity ((CHR ''&'' # w @ '';'') # map (cap []) [1..<Suc (rx_marks matchEntity)])
      = Inr (CHR ''&'' # w @ '';'')"
    by (simp add: replaceEntity_def vec_at_def rx_marks_matchEntity)
qed simp

lemma is_alnum_iff: "is_alnum c \<longleftrightarrow> is_upper c \<or> is_lower c \<or> is_digit c"
  by (auto simp: is_alnum_def alnum_ranges_def is_upper_def is_lower_def is_digit_def less_eq_char_def)

lemma markup_codes:
  "char_of (0x26 :: nat) = CHR ''&''" "char_of (0x22 :: nat) = DQUOTE" "char_of (0x3C :: nat) = CHR ''<''"
  "char_of (0x3E :: nat) = CHR ''>''"
  unfolding DQUOTE_def by code_simp+

lemma decodes_html_char: "decodes matchEntity replaceEntity (html_char c) [c]"
proof -
  have 1: "decodes matchEntity replaceEntity ''&amp;'' ''&''" "decodes matchEntity replaceEntity ''&quot;'' [DQUOTE]"
    "decodes matchEntity replaceEntity ''&lt;'' ''<''" "decodes matchEntity replaceEntity ''&gt;'' ''>''"
    using decodes_entity [where w = "''amp''" and c = "0x26"]
      decodes_entity [where w = "''quot''" and c = "0x22"]
      decodes_entity [where w = "''lt''" and c = "0x3C"]
      decodes_entity [where w = "''gt''" and c = "0x3E"] htmlDecodeTable_entities
    by (simp_all add: ascii_def scalar_def utf8_char_def is_alnum_iff is_lower_def markup_codes)
  have "c \<noteq> CHR ''&'' \<Longrightarrow> decodes matchEntity replaceEntity [c] [c]"
    by (rule decodes_skip) (rule matchEntity_other)
  with 1 show ?thesis by (simp add: html_char_def)
qed

lemma htmlDecode_encoded:
  assumes "boost_ok B"
  shows "htmlDecode (htmlEncode B s) = regexReplaceCallback s matchUnicode replaceUnicode"
proof -
  have "decodes matchEntity replaceEntity (concat (map html_char s)) s"
  proof (induction s)
    case (Cons c s)
    from decodes_append [OF decodes_html_char this] show ?case by simp
  qed (simp add: decodes_Nil)
  from decodes_result [OF matchEntity_Nil this] show ?thesis
    by (simp add: htmlDecode_def htmlEncode_chars [OF assms])
qed

text \<open>The second pass leaves a text alone that has no \<^verbatim>\<open>&#\<close>.\<close>

lemma matchUnicode_none: "\<not> is_prefix ''&#'' (c # s) \<Longrightarrow> rx_run matchUnicode (c # s, []) = []"
  by (cases s) (auto simp: matchUnicode_def)

lemma matchUnicode_Nil: "rx_run matchUnicode ([], []) = []"
  by (simp add: matchUnicode_def)

lemma no_numeric: "find_str ''&#'' s = None \<Longrightarrow> regexReplaceCallback s matchUnicode replaceUnicode = Inr s"
proof (induction s)
  case Nil
  show ?case by (rule rrc_Nil [OF matchUnicode_Nil])
next
  case (Cons c s)
  then have "\<not> is_prefix ''&#'' (c # s)" "find_str ''&#'' s = None" by (auto split: if_splits)
  with Cons.IH show ?case by (simp add: rrc_skip [OF matchUnicode_none])
qed

text \<open>A decimal entity whose ampersand was itself written as an entity is decoded twice.\<close>

lemma numeric_60: "regexReplaceCallback ''&#60;'' matchUnicode replaceUnicode = Inr ''<''"
proof -
  have "dec 60 = ''60''" by code_simp
  then have n: "stoul 10 ''60'' = Inr 60" using stoul_dec [of 60] by simp
  have "rx_run matchUnicode (''&#60;'' @ s, []) = [(s, [(1, ''60''), (3, ''60'')])]" for s
    by (simp add: matchUnicode_def rep_rounds_def numeral_eq_Suc less_eq_char_def)
  moreover have "rx_marks matchUnicode = 3" by (simp add: matchUnicode_def)
  ultimately have "decodes matchUnicode replaceUnicode ''&#60;'' ''<''"
    by (intro decodes_match [where cs = "[(1, ''60''), (3, ''60'')]"])
      (simp_all add: replaceUnicode_def upt_rec cap_def n scalar_def utf8_char_def markup_codes)
  from decodes_result [OF matchUnicode_Nil this] show ?thesis .
qed

lemma htmlDecode_part: "htmlDecode ''&part;'' = Inr ''&part;''"
proof -
  have "decodes matchEntity replaceEntity ''&part;'' ''&part;''"
    using decodes_unknown [of "''part''"] htmlDecodeTable_entities
    by (simp add: ascii_def is_alnum_iff is_lower_def)
  from decodes_result [OF matchEntity_Nil this] show ?thesis
    by (simp add: htmlDecode_def no_numeric)
qed

lemma htmlEncode_all_ref:
  "htmlEncode_all s = bind_result (from_bytes s) (\<lambda>cs. to_bytes (html_ref htmlEntities htmlLookaheads cs))"
proof -
  have "umap_get htmlEntities 0 \<noteq> Some []"
    using entities_no_zero by (auto simp: htmlEntities_def umap_get_of_list list_all_iff dest: map_of_SomeD)
  from html_loop_ref [OF this] show ?thesis by (simp add: htmlEncode_all_def)
qed

end
