(* ===== verification/Punycode.thy ===== *)
theory Punycode
  imports Utf8
begin

text \<open>
  The vendored Punycode library (\<^verbatim>\<open>libs/punycode/punycode.c\<close>). A code point is its value, the
  \<^verbatim>\<open>size_t\<close> variables are natural numbers whose overflow checks are those of the code, and the
  argument of \<^verbatim>\<open>adapt_bias\<close>, a \<^verbatim>\<open>uint32_t\<close>, is truncated. The buffers are given by their
  sizes; the functions return what is in the buffer at the end (\<^verbatim>\<open>fail\<close> included), and not the
  number of characters read, which no caller uses. An overflow jumps to \<^verbatim>\<open>fail\<close>, as in a build
  without assertions.
\<close>

definition size_max :: nat where
  "size_max = 2 ^ 64 - 1"

text \<open>\<^verbatim>\<open>BASE\<close> is 36, \<^verbatim>\<open>TMIN\<close> 1, \<^verbatim>\<open>TMAX\<close> 26, \<^verbatim>\<open>SKEW\<close> 38, \<^verbatim>\<open>DAMP\<close> 700.\<close>

function adapt_loop :: "nat \<Rightarrow> nat \<Rightarrow> nat" where
  "adapt_loop k delta = (if delta > 455 then adapt_loop (k + 36) (delta div 35) else k + 36 * delta div (delta + 38))"
  by pat_completeness auto
termination by (relation "measure snd") auto

declare adapt_loop.simps [simp del]

definition adapt_bias :: "nat \<Rightarrow> nat \<Rightarrow> bool \<Rightarrow> nat" where
  "adapt_bias delta n_points is_first =
     (let delta = delta mod 2 ^ 32 div (if is_first then 700 else 2);
          delta = (delta + delta div (n_points mod 2 ^ 32)) mod 2 ^ 32
      in adapt_loop 0 delta)"

definition encode_digit :: "nat \<Rightarrow> char" where
  "encode_digit c = (if c > 25 then char_of (c + 22) else char_of (c + 97))"

definition threshold :: "nat \<Rightarrow> nat \<Rightarrow> nat" where
  "threshold k bias = (if k \<le> bias then 1 else if bias + 26 \<le> k then 26 else k - bias)"

text \<open>The loop of \<^verbatim>\<open>encode_var_int\<close>; \<open>room\<close> is \<^verbatim>\<open>dstlen - i\<close>.\<close>

fun var_loop :: "nat \<Rightarrow> nat \<Rightarrow> nat \<Rightarrow> nat \<Rightarrow> string" where
  "var_loop bias k q 0 = []"
| "var_loop bias k q (Suc room) =
     (let t = threshold k bias in
      if q < t then [encode_digit q]
      else encode_digit (t + (q - t) mod (36 - t)) # var_loop bias (k + 36) ((q - t) div (36 - t)) room)"

definition encode_var_int :: "nat \<Rightarrow> nat \<Rightarrow> nat \<Rightarrow> string" where
  "encode_var_int bias delta dstlen = var_loop bias 36 delta dstlen"

definition decode_digit :: "char \<Rightarrow> nat option" where
  "decode_digit v =
     (if is_digit v then Some (26 + (code v - 48))
      else if is_lower v then Some (code v - 97)
      else if is_upper v then Some (code v - 65)
      else None)"

section \<open>Encoding\<close>

fun copy_basic :: "nat list \<Rightarrow> nat \<Rightarrow> string" where
  "copy_basic [] room = []"
| "copy_basic (c # cs) room =
     (if room = 0 then []
      else if c < 128 then char_of c # copy_basic cs (room - 1) else copy_basic cs room)"

definition next_point :: "nat \<Rightarrow> nat list \<Rightarrow> nat" where
  "next_point n src = fold (\<lambda>c m. if n \<le> c \<and> c < m then c else m) src size_max"

text \<open>One scan of the source for the code point \<open>n\<close>: \<^verbatim>\<open>delta\<close>, \<^verbatim>\<open>bias\<close>, \<^verbatim>\<open>h\<close> and the buffer,
  and whether the scan came to its end.\<close>

fun enc_scan :: "nat \<Rightarrow> nat \<Rightarrow> nat \<Rightarrow> nat list \<Rightarrow> nat \<times> nat \<times> nat \<times> string
    \<Rightarrow> (nat \<times> nat \<times> nat \<times> string) \<times> bool" where
  "enc_scan n b dstlen [] st = (st, True)"
| "enc_scan n b dstlen (c # cs) (delta, bias, h, dst) =
     (if c < n then
        (if delta + 1 = 2 ^ 64 then ((0, bias, h, dst), False)
         else enc_scan n b dstlen cs (delta + 1, bias, h, dst))
      else if c = n then
        enc_scan n b dstlen cs
          (0, adapt_bias delta (h + 1) (h = b), h + 1, dst @ encode_var_int bias delta (dstlen - length dst))
      else enc_scan n b dstlen cs (delta, bias, h, dst))"

text \<open>The loop over the code points. Every round writes at least one of them, so as many rounds as
  there are code points are enough (proved below).\<close>

fun enc_rounds :: "nat \<Rightarrow> nat list \<Rightarrow> nat \<Rightarrow> nat \<Rightarrow> nat \<Rightarrow> nat \<times> nat \<times> nat \<times> string \<Rightarrow> string" where
  "enc_rounds 0 src b dstlen n (delta, bias, h, dst) = dst"
| "enc_rounds (Suc fuel) src b dstlen n (delta, bias, h, dst) =
     (if h < length src \<and> length dst < dstlen then
        (let m = next_point n src in
         if m - n > (size_max - delta) div (h + 1) then dst
         else (case enc_scan m b dstlen src (delta + (m - n) * (h + 1), bias, h, dst) of
            ((delta', bias', h', dst'), ok) \<Rightarrow>
              if ok then enc_rounds fuel src b dstlen ((m + 1) mod 2 ^ 64) ((delta' + 1) mod 2 ^ 64, bias', h', dst')
              else dst'))
      else dst)"

definition punycode_encode :: "nat list \<Rightarrow> nat \<Rightarrow> string" where
  "punycode_encode src dstlen =
     (let basics = copy_basic src dstlen; b = length basics in
      if 0 < b \<and> b < dstlen then
        (if b = length src then basics
         else enc_rounds (length src) src b dstlen 128 (0, 72, b, basics @ ''-''))
      else enc_rounds (length src) src b dstlen 128 (0, 72, b, basics))"

section \<open>Decoding\<close>

text \<open>A generalised variable-length integer: \<^verbatim>\<open>i\<close> and the rest of the input. At the end of the
  input the code reads the terminating NUL, which is no digit.\<close>

fun dec_var_int :: "nat \<Rightarrow> nat \<Rightarrow> nat \<Rightarrow> nat \<Rightarrow> string \<Rightarrow> (nat \<times> string) option" where
  "dec_var_int bias k w i [] = None"
| "dec_var_int bias k w i (c # s) =
     (case decode_digit c of
        None \<Rightarrow> None
      | Some digit \<Rightarrow>
          if digit > (size_max - i) div w then None
          else
            (let i' = i + digit * w; t = threshold k bias in
             if digit < t then Some (i', s)
             else if w > size_max div (36 - t) then None
             else dec_var_int bias (k + 36) (w * (36 - t)) i' s))"

lemma dec_int_length: "dec_var_int bias k w i s = Some (j, t) \<Longrightarrow> length t < length s"
  by (induction bias k w i s rule: dec_var_int.induct)
    (auto simp: Let_def split: option.splits if_splits, force)

function dec_loop :: "nat \<Rightarrow> nat \<Rightarrow> nat \<Rightarrow> nat \<Rightarrow> nat list \<Rightarrow> string \<Rightarrow> nat list" where
  "dec_loop dstlen i n bias dst s =
     (if s = [] \<or> dstlen \<le> length dst then dst
      else case dec_var_int bias 36 1 i s of
        None \<Rightarrow> dst
      | Some (i', s') \<Rightarrow>
          (let d = length dst + 1 in
           if i' div d > size_max - n then dst
           else
             (let n' = n + i' div d; j = i' mod d in
              dec_loop dstlen (j + 1) n' (adapt_bias (i' - i) d (i = 0))
                (take j dst @ [n' mod 2 ^ 32] @ drop j dst) s')))"
  by pat_completeness auto
termination by (relation "measure (\<lambda>(L, i, n, bias, dst, s). length s)") (auto dest: dec_int_length)

declare dec_loop.simps [simp del]

definition punycode_decode :: "string \<Rightarrow> nat \<Rightarrow> nat list" where
  "punycode_decode src dstlen =
     (if \<not> list_all (\<lambda>c. code c < 128) src then []
      else
        (let b = (case find_last_char (CHR ''-'') src of Some p \<Rightarrow> p | None \<Rightarrow> 0);
             dst = map code (take (min b dstlen) src)
         in dec_loop dstlen 0 128 72 dst (drop (b + (if b > 0 then 1 else 0)) src)))"

section \<open>Variable-length integers\<close>

lemma digit_round_trip: "d < 36 \<Longrightarrow> decode_digit (encode_digit d) = Some d \<and> code (encode_digit d) < 128
    \<and> encode_digit d \<noteq> CHR ''-''"
proof -
  assume d: "d < 36"
  then have c: "code (encode_digit d) = (if d > 25 then d + 22 else d + 97)" by (simp add: encode_digit_def)
  moreover from this d have "encode_digit d \<noteq> CHR ''-''" by (auto split: if_splits)
  ultimately show ?thesis using d
    by (auto simp: decode_digit_def is_digit_def is_lower_def is_upper_def less_eq_char_def)
qed

lemma threshold_bounds: "1 \<le> threshold k bias" "threshold k bias \<le> 26"
  by (auto simp: threshold_def)

lemma var_loop_digits: "c \<in> set (var_loop bias k q room) \<Longrightarrow> \<exists>d < 36. c = encode_digit d"
proof (induction bias k q room rule: var_loop.induct)
  case (2 bias k q room)
  note t = threshold_bounds [of k bias]
  have "threshold k bias + (q - threshold k bias) mod (36 - threshold k bias) < 36"
    using mod_less_divisor [of "36 - threshold k bias" "q - threshold k bias"] t by linarith
  with 2 t show ?case by (force simp: Let_def split: if_splits)
qed simp

lemma dec_int_var_loop:
  assumes "length (var_loop bias k q room) < room" and "0 < w"
    and "i + w * q \<le> size_max" and "35 * (w * q) \<le> size_max"
  shows "dec_var_int bias k w i (var_loop bias k q room @ rest) = Some (i + w * q, rest)"
  using assms
proof (induction bias k q room arbitrary: w i rule: var_loop.induct)
  case (2 bias k q room)
  let ?t = "threshold k bias"
  note t = threshold_bounds [of k bias]
  have room: "x \<le> (size_max - i) div w" if "w * x \<le> w * q" for x
    unfolding less_eq_div_iff_mult_less_eq [OF 2(3)] using that 2(4) by (simp only: mult.commute [of x])
  show ?case
  proof (cases "q < ?t")
    case True
    then have "decode_digit (encode_digit q) = Some q" using t digit_round_trip [of q] by simp
    with True room [of q] show ?thesis by (simp add: Let_def not_less mult.commute)
  next
    case False
    define d q' where d: "d = ?t + (q - ?t) mod (36 - ?t)" and q': "q' = (q - ?t) div (36 - ?t)"
    have "d < 36" using mod_less_divisor [of "36 - ?t" "q - ?t"] t unfolding d by linarith
    then have dd: "decode_digit (encode_digit d) = Some d" using digit_round_trip by blast
    have q: "q = d + (36 - ?t) * q'" using False unfolding d q' by simp
    have wq: "w * q = d * w + w * (36 - ?t) * q'" by (subst q) (simp add: distrib_left mult.assoc mult.commute [of d])
    then have sum: "i + d * w + w * (36 - ?t) * q' = i + w * q" by simp
    have "d \<le> q" using q by simp
    then have ok1: "d \<le> (size_max - i) div w" by (intro room) simp
    have "w * (36 - ?t) \<le> w * 35" by (rule mult_le_mono2) (use t in linarith)
    also have "\<dots> \<le> 35 * (w * q)" using False t by (cases q) auto
    also have "\<dots> \<le> size_max" by (rule 2(5))
    finally have ok2: "w \<le> size_max div (36 - ?t)" using t by (simp add: less_eq_div_iff_mult_less_eq)
    have "w * (36 - ?t) * q' \<le> w * q" unfolding wq by simp
    with 2(5) have le: "35 * (w * (36 - ?t) * q') \<le> size_max" by (meson le_trans mult_le_mono2)
    have "dec_var_int bias (k + 36) (w * (36 - ?t)) (i + d * w) (var_loop bias (k + 36) q' room @ rest)
        = Some (i + w * q, rest)"
      using 2(1) [OF refl False, folded q', of "w * (36 - ?t)" "i + d * w"] 2(2,3,4) False t sum le
      by (simp add: Let_def q' [symmetric])
    with False dd ok1 ok2 show ?thesis
      by (simp add: Let_def d [symmetric] q' [symmetric] not_less) (simp add: d)
  qed
qed simp

section \<open>The decoder follows the encoder\<close>

text \<open>
  The encoder has handled the code points below \<open>n\<close>, and those equal to \<open>n\<close> in \<open>pre\<close>; the decoder
  holds exactly these, in their order. The two counters differ by what the decoder still has to
  count: \<open>i + delta\<close> is the number of steps from the decoder's last insertion to here.
\<close>

definition follows :: "nat \<Rightarrow> nat \<Rightarrow> nat list \<Rightarrow> nat list \<Rightarrow> nat \<Rightarrow> nat \<Rightarrow> nat \<Rightarrow> nat \<Rightarrow> bool" where
  "follows n b pre post delta h i nd \<longleftrightarrow>
     h = length (filter (\<lambda>c. c \<le> n) pre @ filter (\<lambda>c. c < n) post)
     \<and> i + delta = (n - nd) * (h + 1) + length (filter (\<lambda>c. c \<le> n) pre)
     \<and> nd \<le> n \<and> (i = 0 \<longleftrightarrow> h = b)"

abbreviation present :: "nat \<Rightarrow> nat list \<Rightarrow> nat list \<Rightarrow> nat list" where
  "present n pre post \<equiv> filter (\<lambda>c. c \<le> n) pre @ filter (\<lambda>c. c < n) post"

text \<open>Source lengths below \<open>2 ^ 31\<close> and code points below \<open>2 ^ 21\<close> keep every counter small.\<close>

lemma count_bound:
  fixes h n p :: nat
  assumes "h < 2 ^ 31" and "n < 2 ^ 21" and "p \<le> h"
  shows "(n - nd) * (h + 1) + p \<le> 2 ^ 53"
proof -
  have "(n - nd) * (h + 1) \<le> 2 ^ 21 * 2 ^ 31" using assms by (intro mult_mono) auto
  moreover have "p \<le> 2 ^ 31" using assms by simp
  ultimately show ?thesis by simp
qed

lemma divmod_step: "p < k \<Longrightarrow> (m * k + p) div k = (m :: nat) \<and> (m * k + p) mod k = p"
  by simp

lemma dec_loop_step:
  assumes "dec_var_int bias 36 1 i s = Some (i', s')" and "s \<noteq> []" and "length dst < L"
    and "i' div (length dst + 1) = q" and "i' mod (length dst + 1) = j" and "q \<le> size_max - n"
  shows "dec_loop L i n bias dst s =
    dec_loop L (j + 1) (n + q) (adapt_bias (i' - i) (length dst + 1) (i = 0))
      (take j dst @ [(n + q) mod 2 ^ 32] @ drop j dst) s'"
  using assms by (subst dec_loop.simps) (simp add: Let_def)

lemma dec_step:
  assumes f: "follows n b pre (n # post) delta h i nd"
    and small: "length pre + length post < 2 ^ 31 - 1" "n < 2 ^ 21"
    and room: "length (encode_var_int bias delta r) < r" and L: "length pre + length post < L"
  shows "dec_loop L i nd bias (present n pre (n # post)) (encode_var_int bias delta r @ rest)
    = dec_loop L (length (filter (\<lambda>c. c \<le> n) pre) + 1) n (adapt_bias delta (h + 1) (h = b))
        (present n (pre @ [n]) post) rest"
proof -
  let ?p = "length (filter (\<lambda>c. c \<le> n) pre)" and ?dst = "present n pre (n # post)"
  from f have h: "h = length ?dst" and sum: "i + delta = (n - nd) * (h + 1) + ?p" and nd: "nd \<le> n"
    and first: "(i = 0) = (h = b)" unfolding follows_def by blast+
  have hl: "h \<le> length pre + length post" unfolding h
    using length_filter_le [of _ pre] length_filter_le [of _ post] by (simp add: add_mono)
  have p: "?p \<le> h" unfolding h by simp
  have "i + delta \<le> 2 ^ 53" unfolding sum by (rule count_bound) (use hl small p in simp_all)
  then have ints: "i + 1 * delta \<le> size_max" "35 * (1 * delta) \<le> size_max" "i + delta \<le> size_max"
    by (simp_all add: size_max_def)
  have dec: "dec_var_int bias 36 1 i (encode_var_int bias delta r @ rest) = Some (i + delta, rest)"
    unfolding encode_var_int_def
    by (subst dec_int_var_loop [OF room [unfolded encode_var_int_def] _ ints(1,2)]) simp_all
  have ne: "encode_var_int bias delta r @ rest \<noteq> []" using room by (cases r) (simp_all add: encode_var_int_def Let_def)
  have quot: "(i + delta) div (h + 1) = n - nd" "(i + delta) mod (h + 1) = ?p"
    unfolding sum using divmod_step [of ?p "h + 1" "n - nd"] p by simp_all
  have n: "n mod 2 ^ 32 = n" "nd + (n - nd) = n" "n - nd \<le> size_max - nd"
    using small nd by (simp_all add: size_max_def)
  have ins: "take ?p ?dst @ [n] @ drop ?p ?dst = present n (pre @ [n]) post" by simp
  have "length ?dst < L" using hl L unfolding h by linarith
  from dec_loop_step [OF dec ne this quot [unfolded h] n(3)] show ?thesis
    unfolding n(2) n(1) ins h [symmetric] first by simp
qed

lemma follows_count: "follows n b pre post delta h i nd \<Longrightarrow> length pre + length post < 2 ^ 31 - 1 \<Longrightarrow> n < 2 ^ 21 \<Longrightarrow>
    i + delta \<le> 2 ^ 53"
proof -
  assume f: "follows n b pre post delta h i nd" and s: "length pre + length post < 2 ^ 31 - 1" "n < 2 ^ 21"
  from f have sum: "i + delta = (n - nd) * (h + 1) + length (filter (\<lambda>c. c \<le> n) pre)"
    and h: "h = length (filter (\<lambda>c. c \<le> n) pre) + length (filter (\<lambda>c. c < n) post)"
    by (simp_all add: follows_def)
  have "h \<le> length pre + length post" unfolding h by (intro add_mono length_filter_le)
  with s have "h < 2 ^ 31" by simp
  then show ?thesis unfolding sum by (rule count_bound [OF _ s(2)]) (simp add: h)
qed

lemma follows_below: "follows n b pre (c # post) delta h i nd \<Longrightarrow> c < n \<Longrightarrow> follows n b (pre @ [c]) post (delta + 1) h i nd"
  by (simp add: follows_def)

lemma follows_above: "follows n b pre (c # post) delta h i nd \<Longrightarrow> n < c \<Longrightarrow> follows n b (pre @ [c]) post delta h i nd"
  by (simp add: follows_def)

lemma follows_here:
  "follows n b pre (n # post) delta h i nd \<Longrightarrow> b \<le> h \<Longrightarrow>
     follows n b (pre @ [n]) post 0 (h + 1) (length (filter (\<lambda>c. c \<le> n) pre) + 1) n"
  by (auto simp: follows_def)

lemma enc_scan_follows:
  assumes "enc_scan n b L post (delta, bias, h, dst) = ((delta', bias', h', dst'), ok)"
    and "follows n b pre post delta h i nd" and "length pre + length post < 2 ^ 31 - 1" and "n < 2 ^ 21"
    and "length dst' < L" and "length pre + length post \<le> L2" and "b \<le> h"
  shows "ok \<and> b \<le> h' \<and> (\<exists>e i' nd'. dst' = dst @ e \<and> (\<forall>c \<in> set e. \<exists>d < 36. c = encode_digit d) \<and> h' \<le> h + length e
    \<and> follows n b (pre @ post) [] delta' h' i' nd'
    \<and> (\<forall>rest. dec_loop L2 i nd bias (present n pre post) (e @ rest)
         = dec_loop L2 i' nd' bias' (present n (pre @ post) []) rest))"
  using assms
proof (induction post arbitrary: pre delta bias h dst i nd)
  case Nil
  then show ?case by (intro conjI exI [of _ "[]"] exI [of _ i] exI [of _ nd]) auto
next
  case (Cons c post)
  from Cons.prems(3,6) have len: "length (pre @ [c]) + length post < 2 ^ 31 - 1" "length (pre @ [c]) + length post \<le> L2"
    by simp_all
  consider "c < n" | "c = n" | "n < c" by linarith
  then show ?case
  proof cases
    case 1
    have "delta + 1 \<noteq> 2 ^ 64" using follows_count [OF Cons.prems(2,3,4)] by simp
    with Cons.prems(1) 1 have "enc_scan n b L post (delta + 1, bias, h, dst) = ((delta', bias', h', dst'), ok)" by simp
    from Cons.IH [OF this follows_below [OF Cons.prems(2) 1] len(1) Cons.prems(4,5) len(2) Cons.prems(7)] 1
    show ?thesis by simp
  next
    case 2
    let ?e = "encode_var_int bias delta (L - length dst)" and ?p = "length (filter (\<lambda>c. c \<le> n) pre)"
    from Cons.prems(1) 2
    have run: "enc_scan n b L post (0, adapt_bias delta (h + 1) (h = b), h + 1, dst @ ?e)
        = ((delta', bias', h', dst'), ok)" by simp
    have "b \<le> h + 1" using Cons.prems(7) by simp
    from Cons.IH [OF run follows_here [OF Cons.prems(2) [unfolded 2] Cons.prems(7)] _ Cons.prems(4,5) _ this] len 2
    obtain e i' nd' where IH: "ok" "b \<le> h'" "dst' = (dst @ ?e) @ e" "\<forall>c \<in> set e. \<exists>d < 36. c = encode_digit d"
      "h' \<le> h + 1 + length e" "follows n b ((pre @ [n]) @ post) [] delta' h' i' nd'"
      "\<And>rest. dec_loop L2 (?p + 1) n (adapt_bias delta (h + 1) (h = b)) (present n (pre @ [n]) post) (e @ rest)
         = dec_loop L2 i' nd' bias' (present n ((pre @ [n]) @ post) []) rest" by auto
    have room: "length ?e < L - length dst" using Cons.prems(5) IH(3) by simp
    then have ne: "1 \<le> length ?e" by (cases "L - length dst") (simp_all add: encode_var_int_def Let_def)
    have len': "length pre + length post < 2 ^ 31 - 1" "length pre + length post < L2" using Cons.prems(3,6) by simp_all
    have "dec_loop L2 i nd bias (present n pre (c # post)) ((?e @ e) @ rest)
        = dec_loop L2 i' nd' bias' (present n (pre @ c # post) []) rest" for rest
      using dec_step [OF Cons.prems(2) [unfolded 2] len'(1) Cons.prems(4) room len'(2), of "e @ rest"] IH(7) [of rest] 2
      by simp
    moreover have "\<forall>c \<in> set (?e @ e). \<exists>d < 36. c = encode_digit d"
      using IH(4) var_loop_digits by (auto simp: encode_var_int_def)
    ultimately show ?thesis using IH ne 2
      by (intro conjI exI [of _ "?e @ e"] exI [of _ i'] exI [of _ nd']) (simp_all del: dec_loop.simps)
  next
    case 3
    with Cons.prems(1) have "enc_scan n b L post (delta, bias, h, dst) = ((delta', bias', h', dst'), ok)" by simp
    from Cons.IH [OF this follows_above [OF Cons.prems(2) 3] len(1) Cons.prems(4,5) len(2) Cons.prems(7)] 3
    show ?thesis by simp
  qed
qed

section \<open>The rounds\<close>

lemma enc_scan_prefix: "enc_scan n b L cs st = (st', ok) \<Longrightarrow> \<exists>e. snd (snd (snd st')) = snd (snd (snd st)) @ e"
  by (induction n b L cs st rule: enc_scan.induct) (force split: if_splits)+

lemma enc_rounds_prefix: "\<exists>e. enc_rounds fuel src b L n (delta, bias, h, dst) = dst @ e"
proof (induction fuel arbitrary: n delta bias h dst)
  case (Suc fuel)
  let ?m = "next_point n src"
  obtain delta' bias' h' dst' ok where
    s: "enc_scan ?m b L src (delta + (?m - n) * (h + 1), bias, h, dst) = ((delta', bias', h', dst'), ok)"
    by (metis prod_cases4 surj_pair)
  from enc_scan_prefix [OF s] obtain e where "dst' = dst @ e" by auto
  with s Suc.IH [of "(?m + 1) mod 2 ^ 64" "(delta' + 1) mod 2 ^ 64" bias' h' dst'] show ?case by (auto simp: Let_def)
qed simp

lemma next_point_fold:
  fixes n m :: nat
  shows "let r = fold (\<lambda>c m. if n \<le> c \<and> c < m then c else m) src m in
     r \<le> m \<and> (\<forall>c \<in> set src. n \<le> c \<longrightarrow> r \<le> c) \<and> (r = m \<or> r \<in> set src \<and> n \<le> r)"
proof (induction src arbitrary: m)
  case (Cons c src)
  from Cons [of "if n \<le> c \<and> c < m then c else m"] show ?case
    by (cases "n \<le> c \<and> c < m") (auto simp: Let_def)
qed simp

lemma next_point:
  assumes "c \<in> set src" and "n \<le> c" and "\<forall>c \<in> set src. c < size_max"
  shows "next_point n src \<in> set src" and "n \<le> next_point n src"
    and "filter (\<lambda>c. c < next_point n src) src = filter (\<lambda>c. c < n) src"
proof -
  have r: "(\<forall>c \<in> set src. n \<le> c \<longrightarrow> next_point n src \<le> c)"
    "next_point n src = size_max \<or> next_point n src \<in> set src \<and> n \<le> next_point n src"
    using next_point_fold [of n src size_max] unfolding next_point_def by (simp_all add: Let_def)
  from r(1) assms have "next_point n src < size_max" by (meson le_less_trans)
  with r(2) show *: "next_point n src \<in> set src" "n \<le> next_point n src" by auto
  show "filter (\<lambda>c. c < next_point n src) src = filter (\<lambda>c. c < n) src"
    by (rule filter_cong [OF refl]) (use r(1) * in \<open>auto simp: not_less [symmetric]\<close>)
qed

lemma length_filter_strict:
  "(m :: nat) \<in> set xs \<Longrightarrow> length (filter (\<lambda>c. c < m) xs) < length (filter (\<lambda>c. c \<le> m) xs)"
proof (induction xs)
  case (Cons x xs)
  have "length (filter (\<lambda>c. c < m) xs) \<le> length (filter (\<lambda>c. c \<le> m) xs)"
    by (induction xs) auto
  with Cons show ?case by auto
qed simp

lemma filter_all: "length (filter P xs) = length xs \<Longrightarrow> filter P xs = xs"
  by (metis filter_True length_filter_less less_irrefl)

lemma enc_rounds_follows:
  assumes "enc_rounds fuel src b L n (delta, bias, h, dst) = out" and "length out < L"
    and "h = length (filter (\<lambda>c. c < n) src)" and "i + delta = (n - nd) * (h + 1)" and "nd \<le> n"
    and "i = 0 \<longleftrightarrow> h = b" and "b \<le> h" and "length src \<le> fuel + h"
    and "length src < 2 ^ 31 - 1" and "\<forall>c \<in> set src. c < 2 ^ 21" and "length src \<le> L2"
  shows "\<exists>e. out = dst @ e \<and> (\<forall>c \<in> set e. \<exists>d < 36. c = encode_digit d) \<and> length src \<le> h + length e
    \<and> dec_loop L2 i nd bias (filter (\<lambda>c. c < n) src) e = src"
  using assms
proof (induction fuel arbitrary: n delta bias h dst i nd)
  case 0
  then have "length src = h" using length_filter_le [of "\<lambda>c. c < n" src] by simp
  with 0 have "filter (\<lambda>c. c < n) src = src" by (intro filter_all) simp
  with 0 show ?case by (simp add: dec_loop.simps)
next
  case (Suc fuel)
  show ?case
  proof (cases "h < length src")
    case False
    with Suc.prems(3) have "filter (\<lambda>c. c < n) src = src"
      using length_filter_le [of "\<lambda>c. c < n" src] by (intro filter_all) simp
    with Suc.prems False show ?thesis by (simp add: dec_loop.simps)
  next
    case True
    let ?m = "next_point n src"
    from True Suc.prems(3) obtain c where c: "c \<in> set src" "n \<le> c"
      by (metis filter_True less_irrefl linorder_not_less)
    have "\<forall>c \<in> set src. c < size_max" using Suc.prems(10) by (auto simp: size_max_def)
    note m = next_point [OF c this]
    have m21: "?m < 2 ^ 21" using m(1) Suc.prems(10) by blast
    let ?delta = "delta + (?m - n) * (h + 1)"
    have f: "follows ?m b [] src ?delta h i nd"
    proof -
      have "i + ?delta = (n - nd) * (h + 1) + (?m - n) * (h + 1)" using Suc.prems(4) by simp
      also have "\<dots> = (n - nd + (?m - n)) * (h + 1)" by (rule distrib_right [symmetric])
      also have "n - nd + (?m - n) = ?m - nd" using m(2) Suc.prems(5) by simp
      finally show ?thesis using Suc.prems(3,5,6) m(2,3) by (simp add: follows_def)
    qed
    have "i + ?delta \<le> 2 ^ 53" using follows_count [OF f] Suc.prems(9) m21 by simp
    then have fits: "(?m - n) * (h + 1) + delta \<le> size_max" by (simp add: size_max_def)
    then have noovf: "?m - n \<le> (size_max - delta) div (h + 1)"
      by (subst less_eq_div_iff_mult_less_eq) simp_all
    obtain delta' bias' h' dst' ok where
      s: "enc_scan ?m b L src (?delta, bias, h, dst) = ((delta', bias', h', dst'), ok)"
      by (metis prod_cases4 surj_pair)
    obtain e0 where e0: "dst' = dst @ e0" using enc_scan_prefix [OF s] by auto
    have dl: "length dst < L" using enc_rounds_prefix [of "Suc fuel" src b L n delta bias h dst] Suc.prems(1,2) by auto
    have out: "out = (if ok then enc_rounds fuel src b L ((?m + 1) mod 2 ^ 64) ((delta' + 1) mod 2 ^ 64, bias', h', dst')
        else dst')"
      using Suc.prems(1) True dl noovf s by (simp add: Let_def not_less [symmetric])
    then have "length dst' \<le> length out"
      using enc_rounds_prefix [of fuel src b L "(?m + 1) mod 2 ^ 64" "(delta' + 1) mod 2 ^ 64" bias' h' dst'] by auto
    with Suc.prems(2) have dl': "length dst' < L" by simp
    have "length ([] :: nat list) + length src < 2 ^ 31 - 1" "length ([] :: nat list) + length src \<le> L2"
      using Suc.prems(9,11) by simp_all
    from enc_scan_follows [OF s f this(1) m21 dl' this(2) Suc.prems(7)]
    obtain e i' nd' where sc: "ok" "b \<le> h'" "dst' = dst @ e" "\<forall>c \<in> set e. \<exists>d < 36. c = encode_digit d"
      "h' \<le> h + length e" "follows ?m b src [] delta' h' i' nd'"
      "\<And>rest. dec_loop L2 i nd bias (filter (\<lambda>c. c < ?m) src) (e @ rest)
         = dec_loop L2 i' nd' bias' (filter (\<lambda>c. c \<le> ?m) src) rest"
      unfolding append_Nil append_Nil2 filter.simps by blast
    have "i' + delta' \<le> 2 ^ 53" using follows_count [OF sc(6)] Suc.prems(9) m21 by simp
    then have mods: "(?m + 1) mod 2 ^ 64 = ?m + 1" "(delta' + 1) mod 2 ^ 64 = delta' + 1" using m21 by simp_all
    have next_level: "filter (\<lambda>c. c < ?m + 1) src = filter (\<lambda>c. c \<le> ?m) src"
      by (rule filter_cong) auto
    have h': "h' = length (filter (\<lambda>c. c < ?m + 1) src)" "i' + (delta' + 1) = (?m + 1 - nd') * (h' + 1)"
      "nd' \<le> ?m + 1" "i' = 0 \<longleftrightarrow> h' = b"
      using sc(6) unfolding next_level follows_def by (simp_all add: Suc_diff_le)
    have "h < h'" unfolding h'(1) next_level Suc.prems(3) m(3) [symmetric] by (rule length_filter_strict [OF m(1)])
    with Suc.prems(8) have "length src \<le> fuel + h'" by simp
    moreover have "enc_rounds fuel src b L (?m + 1) (delta' + 1, bias', h', dst') = out"
      using out sc(1) unfolding mods by simp
    ultimately have "\<exists>e. out = dst' @ e \<and> (\<forall>c \<in> set e. \<exists>d < 36. c = encode_digit d) \<and> length src \<le> h' + length e
        \<and> dec_loop L2 i' nd' bias' (filter (\<lambda>c. c < ?m + 1) src) e = src"
      by (intro Suc.IH [OF _ Suc.prems(2) h' sc(2) _ Suc.prems(9-11)])
    then obtain e' where e': "out = dst' @ e'" "\<forall>c \<in> set e'. \<exists>d < 36. c = encode_digit d" "length src \<le> h' + length e'"
      "dec_loop L2 i' nd' bias' (filter (\<lambda>c. c < ?m + 1) src) e' = src" by blast
    from sc(7) [of e'] have "dec_loop L2 i nd bias (filter (\<lambda>c. c < n) src) (e @ e') = src"
      unfolding m(3) [symmetric] using e'(4) unfolding next_level by simp
    with e' sc show ?thesis by (intro exI [of _ "e @ e'"]) auto
  qed
qed

section \<open>The round trip\<close>

lemma copy_basic_full:
  "length (copy_basic xs room) < room \<Longrightarrow> copy_basic xs room = map char_of (filter (\<lambda>c. c < 128) xs)"
proof (induction xs room rule: copy_basic.induct)
  case (2 c cs room)
  then show ?case by (cases room) (auto split: if_splits)
qed simp

lemma filter_small: "map code (map char_of (filter (\<lambda>c. c < 128) xs)) = filter (\<lambda>c. c < 128) xs"
  by (induction xs) auto

lemma last_char_split: "d \<notin> set e \<Longrightarrow> find_last_char d (p @ d # e) = Some (length p)"
  by (simp add: find_last_char_def)

lemma find_last_char_none: "d \<notin> set e \<Longrightarrow> find_last_char d e = None"
  by (simp add: find_last_char_def find_char_None_iff)

text \<open>What the encoder writes for a label that is not all ASCII.\<close>

lemma punycode_encode_shape:
  assumes nonascii: "\<exists>c \<in> set xs. 128 \<le> c" and points: "\<forall>c \<in> set xs. c < 2 ^ 21"
    and len: "length xs < 2 ^ 31 - 1" and room: "length (punycode_encode xs L) < L" and L2: "length xs \<le> L2"
  shows "\<exists>e. punycode_encode xs L =
        (let basics = map char_of (filter (\<lambda>c. c < 128) xs) in basics @ (if basics = [] then [] else ''-'') @ e)
    \<and> (\<forall>c \<in> set e. \<exists>d < 36. c = encode_digit d) \<and> length xs \<le> length (filter (\<lambda>c. c < 128) xs) + length e
    \<and> dec_loop L2 0 128 72 (filter (\<lambda>c. c < 128) xs) e = xs"
proof -
  let ?basics = "copy_basic xs L" and ?low = "filter (\<lambda>c. c < 128) xs"
  have enc: "punycode_encode xs L = enc_rounds (length xs) xs (length ?basics) L 128
      (0, 72, length ?basics, ?basics @ (if ?basics = [] then [] else ''-''))"
    and b: "?basics = map char_of ?low"
  proof -
    obtain e1 where "enc_rounds (length xs) xs (length ?basics) L 128 (0, 72, length ?basics, ?basics) = ?basics @ e1"
      using enc_rounds_prefix by blast
    moreover obtain e2 where
      "enc_rounds (length xs) xs (length ?basics) L 128 (0, 72, length ?basics, ?basics @ ''-'') = (?basics @ ''-'') @ e2"
      using enc_rounds_prefix by blast
    ultimately have le: "length ?basics \<le> length (punycode_encode xs L)"
      unfolding punycode_encode_def Let_def by (simp only: split: if_split) simp
    with room show b: "?basics = map char_of ?low" by (intro copy_basic_full) simp
    have "length ?low < length xs" using nonascii by (auto intro: length_filter_less)
    then have "length ?basics \<noteq> length xs" unfolding b by simp
    with le room show "punycode_encode xs L = enc_rounds (length xs) xs (length ?basics) L 128
      (0, 72, length ?basics, ?basics @ (if ?basics = [] then [] else ''-''))"
      by (simp add: punycode_encode_def Let_def)
  qed
  have bl: "length ?basics = length ?low" unfolding b by simp
  have "\<exists>e. punycode_encode xs L = (?basics @ (if ?basics = [] then [] else ''-'')) @ e
    \<and> (\<forall>c \<in> set e. \<exists>d < 36. c = encode_digit d) \<and> length xs \<le> length ?basics + length e
    \<and> dec_loop L2 0 128 72 ?low e = xs"
    by (rule enc_rounds_follows [OF enc [symmetric] room bl _ order_refl _ order_refl _ len points L2]) simp_all
  then show ?thesis unfolding bl unfolding b Let_def by simp
qed

lemma punycode_decode_shape:
  assumes e: "\<forall>c \<in> set e. \<exists>d < 36. c = encode_digit d" and L: "length xs \<le> L"
  shows "punycode_decode (let basics = map char_of (filter (\<lambda>c. c < 128) xs) in
      basics @ (if basics = [] then [] else ''-'') @ e) L = dec_loop L 0 128 72 (filter (\<lambda>c. c < 128) xs) e"
proof -
  let ?low = "filter (\<lambda>c. c < 128) xs"
  have min: "min (length ?low) L = length ?low" by (rule min_absorb1 [OF le_trans [OF length_filter_le L]])
  have dash: "CHR ''-'' \<notin> set e" and ascii: "list_all (\<lambda>c. code c < 128) e"
    using e digit_round_trip by (fastforce simp: list_all_iff)+
  have low: "list_all (\<lambda>c. code c < 128) (map char_of ?low)"
    by (auto simp: list_all_iff)
  show ?thesis
  proof (cases "?low = []")
    case True
    then show ?thesis using ascii by (simp add: punycode_decode_def find_last_char_none [OF dash] Let_def)
  next
    case False
    have "find_last_char (CHR ''-'') (map char_of ?low @ CHR ''-'' # e) = Some (length ?low)"
      using last_char_split [OF dash, of "map char_of ?low"] by simp
    with False show ?thesis using ascii low filter_small [of xs]
      by (simp add: punycode_decode_def Let_def min)
  qed
qed

lemma punycode_round_trip:
  assumes "\<exists>c \<in> set xs. 128 \<le> c" and "\<forall>c \<in> set xs. c < 2 ^ 21" and "length xs < 2 ^ 31 - 1"
    and "length (punycode_encode xs L) < L" and "length xs \<le> L2"
  shows "punycode_decode (punycode_encode xs L) L2 = xs"
  using punycode_encode_shape [OF assms] punycode_decode_shape [OF _ assms(5)] by metis

end
