(* ===== verification/Idn.thy ===== *)
theory Idn
  imports Punycode Http_Text
begin

text \<open>
  \<^verbatim>\<open>punycodeEncode\<close> and \<^verbatim>\<open>punycodeDecode\<close> of \<^verbatim>\<open>src/util/encoding.cpp\<close>: a domain name is cut at the
  dots, every label is converted on its own, and the labels are written with dots between them.
\<close>

fun join_labels :: "(string \<Rightarrow> string result) \<Rightarrow> bool \<Rightarrow> string list \<Rightarrow> string result" where
  "join_labels f firstPart [] = Inr []"
| "join_labels f firstPart (part # parts) =
     bind_result (f part) (\<lambda>label.
     bind_result (join_labels f False parts) (\<lambda>rest.
       Inr ((if firstPart then [] else ''.'') @ label @ rest)))"

definition encode_label :: "string \<Rightarrow> string result" where
  "encode_label part =
     bind_result (from_bytes part) (\<lambda>wstr.
       let pret = punycode_encode wstr (length part * 4)
       in Inr ((if pret \<noteq> part then ''xn--'' else []) @ pret))"

definition punycodeEncode :: "string \<Rightarrow> string result" where
  "punycodeEncode inp = join_labels encode_label True (splitString inp (CHR ''.'') True)"

definition decode_label :: "string \<Rightarrow> string result" where
  "decode_label part =
     (if take 4 part = ''xn--'' then
        (let part = drop 4 part in to_bytes (punycode_decode part (length part)))
      else Inr part)"

definition punycodeDecode :: "string \<Rightarrow> string result" where
  "punycodeDecode inp = join_labels decode_label True (splitString inp (CHR ''.'') True)"

section \<open>The round trip\<close>

lemma join_labels_map:
  "(\<And>l. l \<in> set ls \<Longrightarrow> f l = Inr (g l)) \<Longrightarrow>
     join_labels f True ls = Inr (join_sep (CHR ''.'') (map g ls))
     \<and> (ls \<noteq> [] \<longrightarrow> join_labels f False ls = Inr (CHR ''.'' # join_sep (CHR ''.'') (map g ls)))"
proof (induction ls)
  case (Cons l ls)
  then show ?case by (cases ls) auto
qed simp

text \<open>A label that can be sent through: not empty, UTF-8, and either ASCII and not marked as
  encoded, or such that its encoding is shorter than the buffer of four bytes per byte.\<close>

definition label_ok :: "string \<Rightarrow> bool" where
  "label_ok l \<longleftrightarrow> l \<noteq> [] \<and> CHR ''.'' \<notin> set l
     \<and> (case from_bytes l of
          Inl e \<Rightarrow> False
        | Inr cs \<Rightarrow> length cs < 2 ^ 31 - 1
            \<and> (if ascii l then take 4 l \<noteq> ''xn--'' else length (punycode_encode cs (length l * 4)) < length l * 4))"

lemma copy_basic_ascii: "ascii l \<Longrightarrow> length l \<le> room \<Longrightarrow> copy_basic (map code l) room = l"
proof (induction l arbitrary: room)
  case (Cons c l)
  then show ?case by (cases room) (simp_all add: ascii_def)
qed simp

lemma encode_label_ascii: "ascii l \<Longrightarrow> l \<noteq> [] \<Longrightarrow> encode_label l = Inr l"
  by (simp add: encode_label_def from_bytes_ascii punycode_encode_def copy_basic_ascii Let_def)

lemma utf8_small: "c < 128 \<Longrightarrow> utf8_char c = [char_of c]"
  by (simp add: utf8_char_def)

lemma small_points_ascii:
  assumes "from_bytes l = Inr cs" and "\<forall>c \<in> set cs. c < 128"
  shows "ascii l"
proof -
  have "to_bytes cs = Inr l" by (rule to_bytes_from_bytes [OF assms(1)])
  with from_bytes_scalar [OF assms(1)] have "l = concat (map utf8_char cs)" by (simp add: to_bytes_total)
  with assms(2) show ?thesis by (auto simp: ascii_def list_all_iff utf8_small)
qed

text \<open>The label of a name that is not ASCII: what is written and that it is read back.\<close>

lemma encode_label_other:
  assumes ok: "label_ok l" and na: "\<not> ascii l"
  shows "\<exists>p. encode_label l = Inr (''xn--'' @ p) \<and> CHR ''.'' \<notin> set p \<and> decode_label (''xn--'' @ p) = Inr l"
proof -
  from ok na obtain cs where cs: "from_bytes l = Inr cs" "length cs < 2 ^ 31 - 1"
    "length (punycode_encode cs (length l * 4)) < length l * 4" and dot: "CHR ''.'' \<notin> set l"
    by (auto simp: label_ok_def split: sum.splits)
  let ?p = "punycode_encode cs (length l * 4)"
  have tb: "to_bytes cs = Inr l" by (rule to_bytes_from_bytes [OF cs(1)])
  have sc: "list_all scalar cs" by (rule from_bytes_scalar [OF cs(1)])
  then have l: "l = concat (map utf8_char cs)" using tb by (simp add: to_bytes_total)
  have big: "\<exists>c \<in> set cs. 128 \<le> c" using small_points_ascii [OF cs(1)] na by (auto simp: not_less [symmetric])
  have points: "\<forall>c \<in> set cs. c < 2 ^ 21" using sc scalar_bound by (fastforce simp: list_all_iff)
  from punycode_encode_shape [OF big points cs(2,3) order_refl]
  obtain e where e: "?p = (let basics = map char_of (filter (\<lambda>c. c < 128) cs) in
      basics @ (if basics = [] then [] else ''-'') @ e)"
    "\<forall>c \<in> set e. \<exists>d < 36. c = encode_digit d" "length cs \<le> length (filter (\<lambda>c. c < 128) cs) + length e" by blast
  have basic: "char_of c \<in> set l" if "c \<in> set cs" "c < 128" for c
    using that l by (auto intro!: bexI [of _ c] simp: utf8_small)
  have digit: "code (encode_digit d) < 128 \<and> encode_digit d \<noteq> CHR ''.''" if "d < 36" for d
    using digit_round_trip [OF that] by (auto simp: decode_digit_def is_digit_def is_lower_def is_upper_def less_eq_char_def)
  have nodot: "CHR ''.'' \<notin> set ?p"
    using e(1,2) basic dot digit by (fastforce simp: Let_def split: if_splits)
  have "ascii ?p" using e(1,2) digit by (fastforce simp: Let_def ascii_def list_all_iff split: if_splits)
  with na have ne: "?p \<noteq> l" by metis
  have "length cs \<le> length ?p" using e(1,3) by (simp add: Let_def)
  from punycode_round_trip [OF big points cs(2,3) this] have "punycode_decode ?p (length ?p) = cs" .
  then have "decode_label (''xn--'' @ ?p) = Inr l" by (simp add: decode_label_def Let_def tb)
  with nodot ne cs(1) show ?thesis by (intro exI [of _ ?p]) (simp add: encode_label_def Let_def)
qed

lemma encode_decode_label:
  assumes "label_ok l"
  shows "\<exists>p. encode_label l = Inr p \<and> p \<noteq> [] \<and> CHR ''.'' \<notin> set p \<and> decode_label p = Inr l"
proof (cases "ascii l")
  case True
  with assms show ?thesis
    by (auto simp: encode_label_ascii label_ok_def decode_label_def split: sum.splits)
next
  case False
  from encode_label_other [OF assms this] show ?thesis by fastforce
qed

lemma punycodeDecode_punycodeEncode:
  assumes "list_all label_ok ls"
  shows "bind_result (punycodeEncode (join_sep (CHR ''.'') ls)) punycodeDecode = Inr (join_sep (CHR ''.'') ls)"
proof -
  define g where "g l = (case encode_label l of Inr p \<Rightarrow> p | Inl e \<Rightarrow> [])" for l
  define h where "h p = (case decode_label p of Inr l \<Rightarrow> l | Inl e \<Rightarrow> [])" for p
  have g: "encode_label l = Inr (g l)" "g l \<noteq> [] \<and> CHR ''.'' \<notin> set (g l)" "decode_label (g l) = Inr (h (g l))" "h (g l) = l"
    if "l \<in> set ls" for l
    using encode_decode_label [of l] that assms by (auto simp: list_all_iff g_def h_def)
  have "splitString (join_sep (CHR ''.'') ls) (CHR ''.'') True = ls"
    by (rule splitString_join_sep) (use assms in \<open>auto simp: list_all_iff label_ok_def\<close>)
  then have enc: "punycodeEncode (join_sep (CHR ''.'') ls) = Inr (join_sep (CHR ''.'') (map g ls))"
    using join_labels_map [of ls encode_label g] g(1) by (simp add: punycodeEncode_def)
  have split: "splitString (join_sep (CHR ''.'') (map g ls)) (CHR ''.'') True = map g ls"
    by (rule splitString_join_sep) (use g(2) in auto)
  have "map h (map g ls) = ls" using g(4) by (simp add: map_idI)
  then have "punycodeDecode (join_sep (CHR ''.'') (map g ls)) = Inr (join_sep (CHR ''.'') ls)"
    using join_labels_map [of "map g ls" decode_label h] g(3) by (auto simp: punycodeDecode_def split)
  then show ?thesis by (simp add: enc)
qed

end
