(* ===== verification/Ini.thy ===== *)
theory Ini
  imports Http_Text
begin

text \<open>
  The INI parser of \<^verbatim>\<open>libs/inih/ini.c\<close>, with the configuration of \<^verbatim>\<open>ini.h\<close> that the
  build uses: multi-line entries, byte order mark, inline comments, a line buffer of 200
  bytes on the stack, no reallocation, no stop at the first error. The handler is a parameter;
  it gets the user state, the section, the name and the value, and returns its verdict (0 for
  an error) with the new user state. A file system is a function from names to contents.
\<close>

section \<open>Scanning\<close>

definition rstrip :: "string \<Rightarrow> string" where
  "rstrip s = rev (dropWhile is_space (rev s))"

definition lskip :: "string \<Rightarrow> string" where
  "lskip s = dropWhile is_space s"

text \<open>The text in front of the position found, and the text from it on.\<close>

fun find_chars :: "bool \<Rightarrow> string \<Rightarrow> string option \<Rightarrow> string \<times> string" where
  "find_chars was_space [] chs = ([], [])"
| "find_chars was_space (c # s) chs =
     (if (case chs of None \<Rightarrow> True | Some cs \<Rightarrow> c \<notin> set cs) \<and> \<not> (was_space \<and> c = CHR '';'')
      then (let (pre, suf) = find_chars (is_space c) s chs in (c # pre, suf))
      else ([], c # s))"

definition find_chars_or_comment :: "string \<Rightarrow> string option \<Rightarrow> string \<times> string" where
  "find_chars_or_comment s chs = find_chars False s chs"

text \<open>\<^verbatim>\<open>strncpy0(dest, src, 50)\<close>.\<close>

definition strncpy0 :: "string \<Rightarrow> string" where
  "strncpy0 src = take 49 src"

text \<open>\<^verbatim>\<open>fgets(line, 200, file)\<close>: up to 199 bytes, no further than a line feed.\<close>

fun fgets :: "nat \<Rightarrow> string \<Rightarrow> string \<times> string" where
  "fgets 0 s = ([], s)"
| "fgets (Suc n) [] = ([], [])"
| "fgets (Suc n) (c # s) = (if c = LF then ([c], s) else (let (l, r) = fgets n s in (c # l, r)))"

lemma length_fgets: "length (snd (fgets n s)) \<le> length s"
  by (induction n s rule: fgets.induct) (auto simp: Let_def split: prod.splits)

lemma fgets_shorter: "s \<noteq> [] \<Longrightarrow> length (snd (fgets (Suc n) s)) < length s"
proof (cases s)
  case (Cons c t)
  then show ?thesis using length_fgets [of n t]
    by (cases "fgets n t") (auto simp: less_Suc_eq_le)
qed simp

function ini_lines :: "string \<Rightarrow> string list" where
  "ini_lines s = (if s = [] then [] else (let (l, r) = fgets 199 s in l # ini_lines r))"
  by pat_completeness auto
termination
proof (relation "measure length")
  fix s p l r
  assume "s \<noteq> []" "p = fgets 199 s" "(l, r) = p"
  then show "(r, s) \<in> measure length"
    using fgets_shorter [of s 198] by (cases "fgets 199 s") (simp add: numeral_eq_Suc)
qed simp

declare ini_lines.simps [simp del]

section \<open>The parser\<close>

record 'u ini_state =
  ini_section :: string
  ini_prev_name :: string
  ini_lineno :: nat
  ini_error :: nat
  ini_user :: 'u

type_synonym 'u ini_handler = "'u \<Rightarrow> string \<Rightarrow> string \<Rightarrow> string \<Rightarrow> nat \<times> 'u"

definition ini_fail :: "'u ini_state \<Rightarrow> 'u ini_state" where
  "ini_fail st = (if ini_error st = 0 then st\<lparr>ini_error := ini_lineno st\<rparr> else st)"

definition ini_handle :: "'u ini_handler \<Rightarrow> string \<Rightarrow> string \<Rightarrow> 'u ini_state \<Rightarrow> 'u ini_state" where
  "ini_handle h name val st =
     (let (ok, u) = h (ini_user st) (ini_section st) name val;
          st = st\<lparr>ini_user := u\<rparr>
      in if ok = 0 then ini_fail st else st)"

definition BOM :: string where
  "BOM = [CHR 0xEF, CHR 0xBB, CHR 0xBF]"

text \<open>What a line does, given its text without surrounding white space and whether that text
  starts behind the start of the line.\<close>

definition ini_content :: "'u ini_handler \<Rightarrow> string \<Rightarrow> bool \<Rightarrow> 'u ini_state \<Rightarrow> 'u ini_state" where
  "ini_content h start moved st =
     (case start of
        [] \<Rightarrow> st
      | c # rest \<Rightarrow>
          (if c = CHR '';'' \<or> c = CHR ''#'' then st
           else if ini_prev_name st \<noteq> [] \<and> moved then ini_handle h (ini_prev_name st) start st
           else if c = CHR ''['' then
             (let (pre, suf) = find_chars_or_comment rest (Some '']'') in
              if suf \<noteq> [] \<and> hd suf = CHR '']''
              then st\<lparr>ini_section := strncpy0 pre, ini_prev_name := []\<rparr>
              else ini_fail st)
           else
             (let (pre, suf) = find_chars_or_comment start (Some ''=:'') in
              if suf \<noteq> [] \<and> (hd suf = CHR ''='' \<or> hd suf = CHR '':'') then
                (let name = rstrip pre;
                     val = fst (find_chars_or_comment (tl suf) None);
                     val = rstrip (lskip val)
                 in ini_handle h name val (st\<lparr>ini_prev_name := strncpy0 name\<rparr>))
              else ini_fail st)))"

definition ini_line :: "'u ini_handler \<Rightarrow> string \<Rightarrow> 'u ini_state \<Rightarrow> 'u ini_state" where
  "ini_line h line st0 =
     (let st = st0\<lparr>ini_lineno := ini_lineno st0 + 1\<rparr>;
          line = takeWhile (\<lambda>c. c \<noteq> CHR 0x00) line;
          bom = (ini_lineno st = 1 \<and> is_prefix BOM line);
          stripped = rstrip (if bom then drop 3 line else line);
          start = lskip stripped;
          moved = (bom \<or> length start < length stripped)
      in ini_content h start moved st)"

definition ini_parse_stream :: "'u ini_handler \<Rightarrow> string list \<Rightarrow> 'u \<Rightarrow> nat \<times> 'u" where
  "ini_parse_stream h lines u =
     (let st = fold (ini_line h) lines
                 \<lparr>ini_section = [], ini_prev_name = [], ini_lineno = 0, ini_error = 0, ini_user = u\<rparr>
      in (ini_error st, ini_user st))"

definition ini_parse_file :: "'u ini_handler \<Rightarrow> string \<Rightarrow> 'u \<Rightarrow> nat \<times> 'u" where
  "ini_parse_file h content u = ini_parse_stream h (ini_lines content) u"

definition ini_parse :: "(string \<Rightarrow> string option) \<Rightarrow> 'u ini_handler \<Rightarrow> string \<Rightarrow> 'u \<Rightarrow> int \<times> 'u" where
  "ini_parse fs h filename u =
     (case fs filename of
        None \<Rightarrow> (- 1, u)
      | Some content \<Rightarrow> (let (e, u') = ini_parse_file h content u in (int e, u')))"

section \<open>Parsing a string\<close>

text \<open>
  \<^verbatim>\<open>ini_reader_string\<close> is \<^verbatim>\<open>fgets\<close> on a string: the context is what is left of the string, \<open>None\<close> the
  null pointer it returns at the end or when the buffer has room for less than one character.
\<close>

fun ini_copy :: "nat \<Rightarrow> string \<Rightarrow> string \<times> string" where
  "ini_copy num [] = ([], [])"
| "ini_copy num (c # s) =
     (if 1 < num
      then (if c = LF then ([c], s) else (let (l, r) = ini_copy (num - 1) s in (c # l, r)))
      else ([], c # s))"

definition ini_reader_string :: "nat \<Rightarrow> string \<Rightarrow> (string \<times> string) option" where
  "ini_reader_string num ctx = (if ctx = [] \<or> num < 2 then None else Some (ini_copy num ctx))"

lemma ini_copy_fgets: "ini_copy (Suc n) s = fgets n s"
proof (induction n s rule: fgets.induct)
  case (1 s)
  then show ?case by (cases s) auto
qed simp_all

function ini_string_lines :: "string \<Rightarrow> string list" where
  "ini_string_lines ctx =
     (case ini_reader_string 200 ctx of None \<Rightarrow> [] | Some (l, r) \<Rightarrow> l # ini_string_lines r)"
  by pat_completeness auto
termination
proof (relation "measure length")
  fix ctx p l r
  assume "ini_reader_string 200 ctx = Some p" "(l, r) = p"
  then have "ctx \<noteq> []" "(l, r) = fgets 199 ctx"
    using ini_copy_fgets [of 199 ctx] by (auto simp: ini_reader_string_def split: if_splits)
  then show "(r, ctx) \<in> measure length"
    using fgets_shorter [of ctx 198] by (cases "fgets 199 ctx") (simp add: numeral_eq_Suc)
qed simp

declare ini_string_lines.simps [simp del]

definition ini_parse_string :: "'u ini_handler \<Rightarrow> string \<Rightarrow> 'u \<Rightarrow> nat \<times> 'u" where
  "ini_parse_string h s u = ini_parse_stream h (ini_string_lines (c_string s)) u"

text \<open>A string is read like a file that holds its characters.\<close>

lemma ini_string_lines_file: "ini_string_lines s = ini_lines s"
proof (induction s rule: ini_lines.induct)
  case (1 s)
  obtain l r where f: "fgets 199 s = (l, r)" by fastforce
  have "ini_copy 200 s = fgets 199 s" using ini_copy_fgets [of 199 s] by simp
  with f show ?case using "1.IH" [OF _ f [symmetric] refl]
    by (subst ini_string_lines.simps, subst ini_lines.simps) (simp add: ini_reader_string_def)
qed

lemma ini_parse_string_file: "ini_parse_string h s u = ini_parse_file h (c_string s) u"
  by (simp add: ini_parse_string_def ini_parse_file_def ini_string_lines_file)

section \<open>What is read is what was written\<close>

definition ini_entry :: "(string \<times> string) \<times> string \<Rightarrow> string" where
  "ini_entry kv = ''['' @ fst (fst kv) @ '']'' @ [LF] @ snd (fst kv) @ ''='' @ snd kv @ [LF]"

definition ini_text :: "((string \<times> string) \<times> string) list \<Rightarrow> string" where
  "ini_text kvs = concat (map ini_entry kvs)"

definition ini_plain :: "string \<Rightarrow> bool" where
  "ini_plain s \<longleftrightarrow> set s \<inter> {LF, CHR 0x00, CHR '';''} = {}"

definition ini_trimmed :: "string \<Rightarrow> bool" where
  "ini_trimmed s \<longleftrightarrow> s = [] \<or> \<not> is_space (hd s) \<and> \<not> is_space (last s)"

definition ini_entry_ok :: "(string \<times> string) \<times> string \<Rightarrow> bool" where
  "ini_entry_ok kv \<longleftrightarrow>
     (let s = fst (fst kv); k = snd (fst kv); v = snd kv in
      ini_plain s \<and> ini_plain k \<and> ini_plain v
      \<and> CHR '']'' \<notin> set s \<and> length s \<le> 49
      \<and> k \<noteq> [] \<and> set k \<inter> {CHR ''='', CHR '':''} = {} \<and> hd k \<noteq> CHR ''['' \<and> hd k \<noteq> CHR ''#''
      \<and> hd k \<noteq> CHR 0xEF
      \<and> ini_trimmed k \<and> ini_trimmed v \<and> length k + length v \<le> 197)"

lemma fgets_line: "LF \<notin> set l \<Longrightarrow> length l < n \<Longrightarrow> fgets n (l @ LF # r) = (l @ [LF], r)"
  by (induction l arbitrary: n) (case_tac n; auto)+

lemma ini_lines_step: "LF \<notin> set l \<Longrightarrow> length l < 199 \<Longrightarrow> ini_lines (l @ LF # r) = (l @ [LF]) # ini_lines r"
  by (subst ini_lines.simps) (simp add: fgets_line)

lemma rstrip_space: "is_space c \<Longrightarrow> rstrip (s @ [c]) = rstrip s"
  by (simp add: rstrip_def)

lemma rstrip_last: "\<not> is_space c \<Longrightarrow> rstrip (s @ [c]) = s @ [c]"
  by (simp add: rstrip_def)

lemma rstrip_trimmed: "s = [] \<or> \<not> is_space (last s) \<Longrightarrow> rstrip s = s"
  by (cases s rule: rev_cases) (auto simp: rstrip_def)

lemma find_chars_plain:
  "\<forall>c \<in> set s. c \<notin> set cs \<and> c \<noteq> CHR '';'' \<Longrightarrow> d \<in> set cs \<Longrightarrow> find_chars w (s @ d # r) (Some cs) = (s, d # r)"
  by (induction s arbitrary: w) auto

lemma find_chars_value: "\<forall>c \<in> set s. c \<noteq> CHR '';'' \<Longrightarrow> find_chars w s None = (s, [])"
  by (induction s arbitrary: w) auto

lemma is_space_LF [simp]: "is_space LF"
  by (simp add: is_space_def LF_def)

lemma LF_not_nul [simp]: "LF \<noteq> CHR 0x00" "CHR 0x00 \<noteq> LF"
  by (simp_all add: LF_def)

lemma takeWhile_no_nul: "CHR 0x00 \<notin> set s \<Longrightarrow> takeWhile (\<lambda>c. c \<noteq> CHR 0x00) (s @ [LF]) = s @ [LF]"
  by (subst takeWhile_eq_all_conv) auto

lemma ini_section_line:
  assumes "ini_plain s" and "CHR '']'' \<notin> set s" and "length s \<le> 49"
  shows "ini_line h ((''['' @ s @ '']'') @ [LF]) st =
    st\<lparr>ini_lineno := ini_lineno st + 1, ini_section := s, ini_prev_name := []\<rparr>"
proof -
  have nul: "CHR 0x00 \<notin> set (''['' @ s @ '']'')" using assms(1) by (auto simp: ini_plain_def)
  have bom: "\<not> is_prefix BOM ((''['' @ s @ '']'') @ [LF])" by (simp add: BOM_def)
  have r: "rstrip ((''['' @ s @ '']'') @ [LF]) = ''['' @ s @ '']''"
  proof (rule trans [OF rstrip_space rstrip_trimmed])
    show "''['' @ s @ '']'' = [] \<or> \<not> is_space (last (''['' @ s @ '']''))" by (simp add: is_space_def)
  qed simp
  have l: "lskip (''['' @ s @ '']'') = ''['' @ s @ '']''" by (simp add: lskip_def is_space_def)
  have f: "find_chars_or_comment (s @ '']'') (Some '']'') = (s, '']'')"
    unfolding find_chars_or_comment_def
    by (rule find_chars_plain) (use assms in \<open>auto simp: ini_plain_def\<close>)
  show ?thesis
    unfolding ini_line_def takeWhile_no_nul [OF nul] Let_def
    using bom r l f assms(3) by (simp add: ini_content_def strncpy0_def)
qed

lemma ini_value_line:
  assumes ok: "ini_entry_ok ((s, k), v)"
  shows "ini_line h ((k @ ''='' @ v) @ [LF]) st =
    ini_handle h k v (st\<lparr>ini_lineno := ini_lineno st + 1, ini_prev_name := strncpy0 k\<rparr>)"
proof -
  from ok have ok': "ini_plain k" "ini_plain v" "k \<noteq> []" "set k \<inter> {CHR ''='', CHR '':''} = {}"
    "hd k \<noteq> CHR ''[''" "hd k \<noteq> CHR ''#''" "hd k \<noteq> CHR 0xEF" "ini_trimmed k" "ini_trimmed v"
    by (simp_all add: ini_entry_ok_def)
  obtain c k' where k: "k = c # k'" using ok'(3) by (cases k) auto
  have nul: "CHR 0x00 \<notin> set (k @ ''='' @ v)" using ok'(1,2) by (auto simp: ini_plain_def)
  have bom: "\<not> is_prefix BOM ((k @ ''='' @ v) @ [LF])" using ok'(7) by (simp add: k BOM_def)
  have r: "rstrip ((k @ ''='' @ v) @ [LF]) = k @ ''='' @ v"
  proof (rule trans [OF rstrip_space rstrip_trimmed])
    show "k @ ''='' @ v = [] \<or> \<not> is_space (last (k @ ''='' @ v))"
      using ok'(9) by (auto simp: ini_trimmed_def is_space_def)
  qed simp
  have l: "lskip (k @ ''='' @ v) = k @ ''='' @ v" using ok'(8) by (simp add: k lskip_def ini_trimmed_def)
  have f: "find_chars_or_comment (k @ ''='' @ v) (Some ''=:'') = (k, ''='' @ v)"
    unfolding find_chars_or_comment_def append.simps
    by (rule find_chars_plain) (use ok' in \<open>auto simp: ini_plain_def\<close>)
  have g: "find_chars_or_comment v None = (v, [])"
    unfolding find_chars_or_comment_def
    by (rule find_chars_value) (use ok' in \<open>auto simp: ini_plain_def\<close>)
  have "lskip v = v" using ok'(9) by (cases v) (auto simp: lskip_def ini_trimmed_def)
  then have t: "rstrip k = k" "rstrip (lskip v) = v"
    using ok'(8,9) by (auto simp: ini_trimmed_def intro!: rstrip_trimmed)
  have c: "c \<noteq> CHR '';''" "c \<noteq> CHR ''#''" "c \<noteq> CHR ''[''" using ok'(1,5,6) by (auto simp: k ini_plain_def)
  show ?thesis
    unfolding ini_line_def takeWhile_no_nul [OF nul] Let_def
    using bom r l f g t c by (simp add: k ini_content_def Let_def)
qed

end
