(* ===== verification/Config.thy ===== *)
theory Config
  imports Ini
begin

text \<open>
  The configuration container (\<^verbatim>\<open>src/config/Config.cpp\<close>): values under pairs of a section and
  a key. Reading a file and inserting keep a value that is already set; \<^verbatim>\<open>override\<close> and
  \<^verbatim>\<open>set\<close> replace it. A missing key reads as the empty string.
\<close>

type_synonym config = "(string \<times> string, string) umap"

definition Config_insert :: "((string \<times> string) \<times> string) list \<Rightarrow> config \<Rightarrow> config" where
  "Config_insert init cfg = fold (\<lambda>(k, v). umap_insert k v) init cfg"

definition Config_new :: config where
  "Config_new = []"

definition Config_init :: "((string \<times> string) \<times> string) list \<Rightarrow> config" where
  "Config_init init = Config_insert init Config_new"

text \<open>The handler given to \<^verbatim>\<open>ini_parse\<close>; it always returns 1.\<close>

definition valueHandler :: "config ini_handler" where
  "valueHandler cfg section name val = (1, umap_insert (section, name) val cfg)"

definition Config_read :: "(string \<Rightarrow> string option) \<Rightarrow> string \<Rightarrow> config \<Rightarrow> config result" where
  "Config_read fs iniFile cfg =
     (let (rc, cfg') = ini_parse fs valueHandler iniFile cfg in
      if rc < 0 then Inl (NawaException 1 ''Could not read config file.'') else Inr cfg')"

definition Config_file :: "(string \<Rightarrow> string option) \<Rightarrow> string \<Rightarrow> config result" where
  "Config_file fs iniFile = Config_read fs iniFile Config_new"

definition Config_override :: "((string \<times> string) \<times> string) list \<Rightarrow> config \<Rightarrow> config" where
  "Config_override overrides cfg = fold (\<lambda>(k, v). umap_set k v) overrides cfg"

definition Config_isSet :: "config \<Rightarrow> string \<times> string \<Rightarrow> bool" where
  "Config_isSet cfg key = umap_has cfg key"

definition Config_get :: "config \<Rightarrow> string \<times> string \<Rightarrow> string" where
  "Config_get cfg key = (case umap_get cfg key of Some v \<Rightarrow> v | None \<Rightarrow> [])"

definition Config_set :: "string \<times> string \<Rightarrow> string \<Rightarrow> config \<Rightarrow> config" where
  "Config_set key val cfg = umap_set key val cfg"

definition Config_set3 :: "string \<Rightarrow> string \<Rightarrow> string \<Rightarrow> config \<Rightarrow> config" where
  "Config_set3 section key val cfg = Config_set (section, key) val cfg"

section \<open>Lookup\<close>

lemma Config_get_set [simp]:
  "Config_get (Config_set k v cfg) k' = (if k' = k then v else Config_get cfg k')"
  by (simp add: Config_get_def Config_set_def um.get_put)

lemma Config_get_insert:
  "umap_get (Config_insert init cfg) k = (case umap_get cfg k of Some v \<Rightarrow> Some v | None \<Rightarrow> map_of init k)"
  unfolding Config_insert_def by (rule um.get_add_list)

lemma Config_get_override:
  "umap_get (Config_override ovs cfg) k =
     (case map_of (rev ovs) k of Some v \<Rightarrow> Some v | None \<Rightarrow> umap_get cfg k)"
  unfolding Config_override_def by (rule um.get_put_list)

lemma Config_wf [inv_intros]:
  "umap_wf Config_new"
  "umap_wf cfg \<Longrightarrow> umap_wf (Config_insert init cfg)"
  "umap_wf cfg \<Longrightarrow> umap_wf (Config_override ovs cfg)"
  "umap_wf cfg \<Longrightarrow> umap_wf (Config_set k v cfg)"
  by (simp_all add: Config_new_def Config_insert_def Config_override_def Config_set_def
      um.wf_add_list um.wf_put_list um.wf_put)

section \<open>Reading a file\<close>

lemma ini_config_entry:
  assumes "ini_entry_ok ((s, k), v)"
  shows "fold (ini_line valueHandler) [(''['' @ s @ '']'') @ [LF], (k @ ''='' @ v) @ [LF]] st =
    st\<lparr>ini_lineno := ini_lineno st + 2, ini_section := s, ini_prev_name := strncpy0 k,
       ini_user := umap_insert (s, k) v (ini_user st)\<rparr>"
proof -
  have sec: "ini_plain s" "CHR '']'' \<notin> set s" "length s \<le> 49"
    using assms by (simp_all add: ini_entry_ok_def Let_def)
  show ?thesis
    unfolding fold_simps comp_apply ini_section_line [OF sec] ini_value_line [OF assms]
    by (simp add: ini_handle_def valueHandler_def)
qed

lemma ini_text_lines:
  assumes "list_all ini_entry_ok kvs"
  shows "ini_lines (ini_text kvs) =
    concat (map (\<lambda>((s, k), v). [(''['' @ s @ '']'') @ [LF], (k @ ''='' @ v) @ [LF]]) kvs)"
  using assms
proof (induction kvs)
  case Nil
  show ?case by (subst ini_lines.simps) (simp add: ini_text_def)
next
  case (Cons kv kvs)
  obtain s k v where kv: "kv = ((s, k), v)" by (cases kv) auto
  from Cons.prems have ok: "ini_entry_ok ((s, k), v)" "list_all ini_entry_ok kvs" by (simp_all add: kv)
  then have s: "LF \<notin> set (''['' @ s @ '']'')" "length (''['' @ s @ '']'') < 199"
    by (auto simp: ini_entry_ok_def Let_def ini_plain_def LF_def)
  from ok have k: "LF \<notin> set (k @ ''='' @ v)" "length (k @ ''='' @ v) < 199"
    by (auto simp: ini_entry_ok_def Let_def ini_plain_def LF_def)
  have "ini_text (kv # kvs) = (''['' @ s @ '']'') @ LF # (k @ ''='' @ v) @ LF # ini_text kvs"
    by (simp add: ini_text_def ini_entry_def kv)
  then show ?case
    by (simp only: ini_lines_step [OF s] ini_lines_step [OF k] Cons.IH [OF ok(2)])
      (simp add: kv)
qed

lemma ini_text_fold:
  "list_all ini_entry_ok kvs \<Longrightarrow>
     let st' = fold (ini_line valueHandler)
        (concat (map (\<lambda>((s, k), v). [(''['' @ s @ '']'') @ [LF], (k @ ''='' @ v) @ [LF]]) kvs)) st
     in ini_user st' = Config_insert kvs (ini_user st) \<and> ini_error st' = ini_error st"
proof (induction kvs arbitrary: st)
  case (Cons kv kvs)
  obtain s k v where kv: "kv = ((s, k), v)" by (cases kv) auto
  from Cons.prems have ok: "ini_entry_ok ((s, k), v)" "list_all ini_entry_ok kvs" by (simp_all add: kv)
  show ?case
    using Cons.IH [OF ok(2)] ini_config_entry [OF ok(1), of st]
    by (simp add: kv Let_def Config_insert_def)
qed (simp add: Config_insert_def)

lemma Config_read_text:
  assumes "fs iniFile = Some (ini_text kvs)" and "list_all ini_entry_ok kvs"
  shows "Config_read fs iniFile cfg = Inr (Config_insert kvs cfg)"
  using assms ini_text_fold [OF assms(2)]
  by (simp add: Config_read_def ini_parse_def ini_parse_file_def ini_parse_stream_def
      ini_text_lines Let_def)

text \<open>Whatever the file holds: a value that is set stays as it is.\<close>

lemma ini_handle_keeps:
  "umap_get (ini_user st) k = Some v \<Longrightarrow> umap_get (ini_user (ini_handle valueHandler n x st)) k = Some v"
  by (auto simp: ini_handle_def valueHandler_def um.get_add)

lemma ini_fail_user [simp]: "ini_user (ini_fail st) = ini_user st"
  by (simp add: ini_fail_def)

lemma ini_content_keeps:
  "umap_get (ini_user st) k = Some v \<Longrightarrow>
     umap_get (ini_user (ini_content valueHandler l mv st)) k = Some v"
  by (simp add: ini_content_def Let_def ini_handle_keeps split: list.split prod.split)

lemma ini_line_keeps:
  "umap_get (ini_user st) k = Some v \<Longrightarrow> umap_get (ini_user (ini_line valueHandler l st)) k = Some v"
  unfolding ini_line_def Let_def by (rule ini_content_keeps) simp

lemma ini_fold_keeps:
  "umap_get (ini_user st) k = Some v \<Longrightarrow> umap_get (ini_user (fold (ini_line valueHandler) ls st)) k = Some v"
  by (induction ls arbitrary: st) (simp_all add: ini_line_keeps)

lemma Config_read_keeps:
  "umap_get cfg k = Some v \<Longrightarrow> Config_read fs f cfg = Inr cfg' \<Longrightarrow> umap_get cfg' k = Some v"
  by (auto simp: Config_read_def ini_parse_def ini_parse_file_def ini_parse_stream_def Let_def
      ini_fold_keeps split: option.splits prod.splits if_splits)

lemma Config_read_error:
  "(\<exists>e. Config_read fs f cfg = Inl e) \<longleftrightarrow> fs f = None"
  by (simp add: Config_read_def ini_parse_def Let_def split: option.split prod.split)

end
