(* ===== verification/Request.thy ===== *)
theory Request
  imports Config
begin

text \<open>
  Requests as the application sees them: cookies (\<^verbatim>\<open>src/connection/Cookie.cpp\<close>), uploaded
  files (\<^verbatim>\<open>src/request/File.cpp\<close>), the environment, the GET, POST and COOKIE variables
  (\<^verbatim>\<open>src/request/Env.cpp\<close>, \<^verbatim>\<open>GPC.cpp\<close>, \<^verbatim>\<open>Post.cpp\<close>, \<^verbatim>\<open>Request.cpp\<close>) and the
  container the request handlers fill (\<^verbatim>\<open>RequestInitContainer.h\<close>). A
  \<^verbatim>\<open>shared_ptr<char[]>\<close> with its size is the string of its bytes; nothing writes to it after
  construction.
\<close>

section \<open>Cookies\<close>

datatype SameSite = SameSite_OFF | SameSite_LAX | SameSite_STRICT

record cookie =
  ck_content :: string
  ck_expires :: "int option"
  ck_maxAge :: "nat option"
  ck_domain :: "string option"
  ck_path :: "string option"
  ck_secure :: bool
  ck_httpOnly :: bool
  ck_sameSite :: SameSite

definition Cookie_default :: cookie where
  "Cookie_default = \<lparr>ck_content = [], ck_expires = None, ck_maxAge = None, ck_domain = None,
     ck_path = None, ck_secure = False, ck_httpOnly = False, ck_sameSite = SameSite_OFF\<rparr>"

definition Cookie_new :: "string \<Rightarrow> cookie" where
  "Cookie_new c = Cookie_default\<lparr>ck_content := c\<rparr>"

section \<open>Files\<close>

record upload =
  file_filename :: string
  file_contentType :: string
  file_data :: string

definition File_new :: "string \<Rightarrow> upload" where
  "File_new bytes = \<lparr>file_filename = [], file_contentType = [], file_data = bytes\<rparr>"

definition File_size :: "upload \<Rightarrow> nat" where
  "File_size f = length (file_data f)"

definition File_toString :: "upload \<Rightarrow> string" where
  "File_toString f = file_data f"

text \<open>A file system is a function from paths to contents; \<open>writable\<close> says whether opening and
  writing the path succeeds.\<close>

type_synonym filesys = "string \<Rightarrow> string option"

definition File_writeToDisk :: "(string \<Rightarrow> bool) \<Rightarrow> string \<Rightarrow> upload \<Rightarrow> filesys \<Rightarrow> unit result \<times> filesys" where
  "File_writeToDisk writable path f fs =
     (if writable path then (Inr (), fs(path := Some (file_data f)))
      else (Inl (NawaException 1 ''Could not write file to disk.''), fs))"

section \<open>Requests\<close>

record request_init =
  ri_environment :: "(string, string) umap"
  ri_getVars :: "(string, string) ummap"
  ri_postVars :: "(string, string) ummap"
  ri_cookieVars :: "(string, string) ummap"
  ri_postContentType :: string
  ri_postFiles :: "(string, upload) ummap"
  ri_rawPost :: "string option"

definition request_init_empty :: request_init where
  "request_init_empty = \<lparr>ri_environment = [], ri_getVars = [], ri_postVars = [], ri_cookieVars = [],
     ri_postContentType = [], ri_postFiles = [], ri_rawPost = None\<rparr>"

type_synonym env = "(string, string) umap"

definition Env_new :: "request_init \<Rightarrow> env" where
  "Env_new init = ri_environment init"

definition Env_get :: "env \<Rightarrow> string \<Rightarrow> string" where
  "Env_get e var = (case umap_get e var of Some v \<Rightarrow> v | None \<Rightarrow> [])"

definition getRequestPath :: "env \<Rightarrow> string list" where
  "getRequestPath e = splitPath (Env_get e ''REQUEST_URI'')"

datatype Source = Source_GET | Source_POST | Source_COOKIE

record gpc =
  gpc_source :: Source
  gpc_dataMap :: "(string, string) ummap"

definition GPC_new :: "request_init \<Rightarrow> Source \<Rightarrow> gpc" where
  "GPC_new requestInit source =
     \<lparr>gpc_source = source,
      gpc_dataMap = (case source of
                       Source_COOKIE \<Rightarrow> ri_cookieVars requestInit
                     | Source_POST \<Rightarrow> ri_postVars requestInit
                     | _ \<Rightarrow> ri_getVars requestInit)\<rparr>"

text \<open>\<^verbatim>\<open>find\<close> yields an entry with the key, if there is one; here the first of the list.\<close>

definition GPC_get :: "gpc \<Rightarrow> string \<Rightarrow> string" where
  "GPC_get g var = (case map_of (gpc_dataMap g) var of Some v \<Rightarrow> v | None \<Rightarrow> [])"

definition GPC_getVector :: "gpc \<Rightarrow> string \<Rightarrow> string list" where
  "GPC_getVector g var = ummap_range (gpc_dataMap g) var"

definition GPC_count :: "gpc \<Rightarrow> string \<Rightarrow> nat" where
  "GPC_count g var = length (ummap_range (gpc_dataMap g) var)"

definition GPC_getMultimap :: "gpc \<Rightarrow> (string, string) ummap" where
  "GPC_getMultimap g = gpc_dataMap g"

definition GPC_bool :: "gpc \<Rightarrow> bool" where
  "GPC_bool g \<longleftrightarrow> gpc_dataMap g \<noteq> []"

record post = gpc +
  post_contentType :: string
  post_rawPost :: "string option"
  post_fileMap :: "(string, upload) ummap"

definition Post_new :: "request_init \<Rightarrow> post" where
  "Post_new requestInit =
     (let g = GPC_new requestInit Source_POST in
      \<lparr>gpc_source = gpc_source g, gpc_dataMap = gpc_dataMap g,
       post_contentType = ri_postContentType requestInit,
       post_rawPost = ri_rawPost requestInit, post_fileMap = ri_postFiles requestInit\<rparr>)"

definition Post_bool :: "post \<Rightarrow> bool" where
  "Post_bool p \<longleftrightarrow> \<not> (gpc_dataMap p = [] \<and> post_fileMap p = [])"

definition Post_getContentType :: "post \<Rightarrow> string" where
  "Post_getContentType p = post_contentType p"

definition Post_getFileMultimap :: "post \<Rightarrow> (string, upload) ummap" where
  "Post_getFileMultimap p = post_fileMap p"

definition Post_getRaw :: "post \<Rightarrow> string option" where
  "Post_getRaw p = post_rawPost p"

definition Post_hasFiles :: "post \<Rightarrow> bool" where
  "Post_hasFiles p \<longleftrightarrow> post_fileMap p \<noteq> []"

definition Post_getFile :: "post \<Rightarrow> string \<Rightarrow> upload option" where
  "Post_getFile p key = map_of (post_fileMap p) key"

definition Post_getFileVector :: "post \<Rightarrow> string \<Rightarrow> upload list" where
  "Post_getFileVector p key = ummap_range (post_fileMap p) key"

definition Post_countFiles :: "post \<Rightarrow> string \<Rightarrow> nat" where
  "Post_countFiles p key = length (ummap_range (post_fileMap p) key)"

record request =
  rq_env :: env
  rq_get :: gpc
  rq_post :: post
  rq_cookie :: gpc

definition Request_new :: "request_init \<Rightarrow> request" where
  "Request_new init = \<lparr>rq_env = Env_new init, rq_get = GPC_new init Source_GET,
     rq_post = Post_new init, rq_cookie = GPC_new init Source_COOKIE\<rparr>"

lemma GPC_get_vector:
  "GPC_get (g::gpc) k = (case GPC_getVector g k of [] \<Rightarrow> [] | v # _ \<Rightarrow> v)"
  by (simp add: GPC_get_def GPC_getVector_def map_of_ummap_range split: list.split)

lemma GPC_count_vector [simp]: "GPC_count g k = length (GPC_getVector g k)"
  by (simp add: GPC_count_def GPC_getVector_def)

lemma Post_getFile_vector: "Post_getFile p k = (case Post_getFileVector p k of [] \<Rightarrow> None | f # _ \<Rightarrow> Some f)"
  by (simp add: Post_getFile_def Post_getFileVector_def map_of_ummap_range split: list.split)

end
