(* ===== verification/Crypto.thy ===== *)
theory Crypto
  imports Request
begin

text \<open>
  The digest functions of \<^verbatim>\<open>src/util/crypto.cpp\<close>. OpenSSL computes the digests; it is not
  part of the repository, so a raw digest is a function parameter from bytes to bytes.
\<close>

definition digest :: "(string \<Rightarrow> string) \<Rightarrow> string \<Rightarrow> bool \<Rightarrow> string" where
  "digest H inp hex = (let ret = H inp in if hex then hexDump ret else ret)"

definition sha1 :: "(string \<Rightarrow> string) \<Rightarrow> string \<Rightarrow> bool \<Rightarrow> string" where
  "sha1 SHA1 inp hex = digest SHA1 inp hex"

definition sha224 :: "(string \<Rightarrow> string) \<Rightarrow> string \<Rightarrow> bool \<Rightarrow> string" where
  "sha224 SHA224 inp hex = digest SHA224 inp hex"

definition sha256 :: "(string \<Rightarrow> string) \<Rightarrow> string \<Rightarrow> bool \<Rightarrow> string" where
  "sha256 SHA256 inp hex = digest SHA256 inp hex"

definition sha384 :: "(string \<Rightarrow> string) \<Rightarrow> string \<Rightarrow> bool \<Rightarrow> string" where
  "sha384 SHA384 inp hex = digest SHA384 inp hex"

definition sha512 :: "(string \<Rightarrow> string) \<Rightarrow> string \<Rightarrow> bool \<Rightarrow> string" where
  "sha512 SHA512 inp hex = digest SHA512 inp hex"

definition md5 :: "(string \<Rightarrow> string) \<Rightarrow> string \<Rightarrow> bool \<Rightarrow> string" where
  "md5 MD5 inp hex = digest MD5 inp hex"

lemma length_sha1_hex: "length (H s) = 20 \<Longrightarrow> length (sha1 H s True) = 40"
  by (simp add: sha1_def digest_def length_hexDump)

end
