(* ===== verification/Mail.thy ===== *)
theory Mail
  imports Idn Replace Base64 Crypto
begin

text \<open>
  Emails (\<^verbatim>\<open>src/mail/EmailAddress.cpp\<close>, \<^verbatim>\<open>src/mail/Email\<close>): addresses with the conversion of their
  domain, simple emails, and MIME emails with their tree of parts. The raw source of an email is
  \<open>None\<close> when a replacement rule has an empty key, with which \<^verbatim>\<open>stringReplace\<close> does not return.
  \<^verbatim>\<open>random_device\<close> is the sequence \<open>rd\<close> of its values; the next one to draw is counted along.
  \<^verbatim>\<open>std::unordered_map\<close> headers are written in their iteration order.
\<close>

section \<open>Addresses\<close>

record EmailAddress =
  ea_name :: string
  ea_address :: string

definition EmailAddress_new :: "string \<Rightarrow> string \<Rightarrow> EmailAddress" where
  "EmailAddress_new name address = \<lparr>ea_name = name, ea_address = address\<rparr>"

definition applyPunycodeToDomain :: "string \<Rightarrow> string result" where
  "applyPunycodeToDomain address =
     (let partsOfAddr = splitString address (CHR ''@'') False in
      if length partsOfAddr \<noteq> 2 then Inr address
      else bind_result (punycodeEncode (partsOfAddr ! 1)) (\<lambda>domain. Inr (partsOfAddr ! 0 @ ''@'' @ domain)))"

definition EmailAddress_get :: "EmailAddress \<Rightarrow> bool \<Rightarrow> bool \<Rightarrow> string result" where
  "EmailAddress_get a includeName applyPunycode =
     (let pre = (if includeName \<and> ea_name a \<noteq> [] then ea_name a @ '' '' else []) in
      bind_result (if applyPunycode then applyPunycodeToDomain (ea_address a) else Inr (ea_address a)) (\<lambda>address.
        Inr (pre @ ''<'' @ address @ ''>'')))"

text \<open>\<^verbatim>\<open>emCheck\<close>, with \<^verbatim>\<open>regex::icase\<close> written as ranges of both cases.\<close>

definition icase_alnum :: "(char \<times> char) list" where
  "icase_alnum = [(CHR ''a'', CHR ''z''), (CHR ''A'', CHR ''Z''), (CHR ''0'', CHR ''9'')]"

definition local_ranges :: "(char \<times> char) list" where
  "local_ranges = icase_alnum @ chars (''_!#$%&'' @ [CHR 0x27] @ ''*+/=?'' @ [CHR 0x60] @ ''{|}~^.-'')"

definition domain_ranges :: "(char \<times> char) list" where
  "domain_ranges = icase_alnum @ chars ''.-''"

definition emCheck :: rx where
  "emCheck = RSeq (RPlus (RSet False local_ranges)) (RSeq (RChr (CHR ''@'')) (RPlus (RSet False domain_ranges)))"

definition EmailAddress_isValid :: "EmailAddress \<Rightarrow> bool result" where
  "EmailAddress_isValid a =
     bind_result (applyPunycodeToDomain (ea_address a)) (\<lambda>address.
       Inr (if address = [] then False else regex_match emCheck address \<noteq> None))"

section \<open>Emails\<close>

type_synonym rules = "(string, string) umap"

datatype ApplyEncoding = BASE64 | QUOTED_PRINTABLE | NONE

record MimePart =
  mp_contentType :: string
  mp_contentDisposition :: string
  mp_applyEncoding :: ApplyEncoding
  mp_partHeaders :: "(string, string) umap"
  mp_allowReplacements :: bool
  mp_partData :: string

definition MimePart_default :: MimePart where
  "MimePart_default = \<lparr>mp_contentType = [], mp_contentDisposition = [], mp_applyEncoding = QUOTED_PRINTABLE,
     mp_partHeaders = [], mp_allowReplacements = False, mp_partData = []\<rparr>"

datatype MultipartType = MIXED | DIGEST | ALTERNATIVE | RELATED | REPORT | SIGNED | ENCRYPTED

datatype MimePartList = MimePartList (ml_multipartType: MultipartType) (ml_mimeParts: "MimePartOrList list")
  and MimePartOrList = MimePartOrList (po_mimePart: "MimePart option") (po_mimePartList: "MimePartList option")

text \<open>The assignments keep at most one of the two pointers; copying an empty object changes nothing.\<close>

definition assign_part :: "MimePart \<Rightarrow> MimePartOrList \<Rightarrow> MimePartOrList" where
  "assign_part p this = MimePartOrList (Some p) None"

definition assign_list :: "MimePartList \<Rightarrow> MimePartOrList \<Rightarrow> MimePartOrList" where
  "assign_list l this = MimePartOrList None (Some l)"

definition assign_part_or_list :: "MimePartOrList \<Rightarrow> MimePartOrList \<Rightarrow> MimePartOrList" where
  "assign_part_or_list other this =
     (case po_mimePart other of
        Some p \<Rightarrow> MimePartOrList (Some p) None
      | None \<Rightarrow> (case po_mimePartList other of
          Some l \<Rightarrow> MimePartOrList None (Some l)
        | None \<Rightarrow> this))"

definition PartOrList_default :: MimePartOrList where
  "PartOrList_default = MimePartOrList None None"

definition PartOrList_of_part :: "MimePart \<Rightarrow> MimePartOrList" where
  "PartOrList_of_part otherMimePart = assign_part otherMimePart PartOrList_default"

definition PartOrList_of_list :: "MimePartList \<Rightarrow> MimePartOrList" where
  "PartOrList_of_list otherMimePartList = assign_list otherMimePartList PartOrList_default"

definition PartOrList_assign_part :: "MimePart \<Rightarrow> MimePartOrList \<Rightarrow> MimePartOrList" where
  "PartOrList_assign_part otherMimePart this = assign_part otherMimePart this"

definition PartOrList_assign_list :: "MimePartList \<Rightarrow> MimePartOrList \<Rightarrow> MimePartOrList" where
  "PartOrList_assign_list otherMimePartList this = assign_list otherMimePartList this"

text \<open>Built and assigned in these ways, it is a part or a list, never both, unless its accessors make it so.\<close>

lemma part_or_list_exclusive:
  "po_mimePart x = None \<or> po_mimePartList x = None"
  if "x \<in> {PartOrList_default, PartOrList_of_part p, PartOrList_of_list l, PartOrList_assign_part p y,
    PartOrList_assign_list l y} \<or> x = assign_part_or_list z y \<and> (po_mimePart y = None \<or> po_mimePartList y = None)"
  using that by (auto simp: PartOrList_default_def PartOrList_of_part_def PartOrList_of_list_def PartOrList_assign_part_def
      PartOrList_assign_list_def assign_part_def assign_list_def assign_part_or_list_def split: option.splits)

datatype email_body = Simple string bool | Mime MimePartList

record email =
  em_headers :: "(string, string) umap"
  em_body :: email_body

definition multipartTypeToString :: "MultipartType \<Rightarrow> string" where
  "multipartTypeToString t =
     (case t of MIXED \<Rightarrow> ''mixed'' | DIGEST \<Rightarrow> ''digest'' | ALTERNATIVE \<Rightarrow> ''alternative'' | RELATED \<Rightarrow> ''related''
      | REPORT \<Rightarrow> ''report'' | SIGNED \<Rightarrow> ''signed'' | ENCRYPTED \<Rightarrow> ''encrypted'')"

definition genBoundary :: "(string \<Rightarrow> string) \<Rightarrow> (nat \<Rightarrow> nat) \<Rightarrow> nat \<Rightarrow> string" where
  "genBoundary MD5 rd k = ''----=_'' @ md5 MD5 (dec (rd k)) True"

text \<open>\<^verbatim>\<open>replacementRules ? utils::stringReplace(text, *replacementRules) : text\<close>.\<close>

definition replaced :: "rules option \<Rightarrow> string \<Rightarrow> string option" where
  "replaced replacementRules text =
     (case replacementRules of None \<Rightarrow> Some text | Some r \<Rightarrow> stringReplace text r)"

definition header_lines :: "(string, string) umap \<Rightarrow> string" where
  "header_lines hs = concat (map (\<lambda>(k, v). k @ '': '' @ v @ CRLF) hs)"

definition part_headers :: "MimePart \<Rightarrow> string" where
  "part_headers p =
     ''Content-Type: '' @ mp_contentType p @ CRLF
     @ (if mp_contentDisposition p \<noteq> [] then ''Content-Disposition: '' @ mp_contentDisposition p @ CRLF else [])
     @ header_lines (mp_partHeaders p)"

definition encode_part :: "ApplyEncoding \<Rightarrow> string \<Rightarrow> string" where
  "encode_part e d =
     (case e of
        BASE64 \<Rightarrow> ''Content-Transfer-Encoding: base64'' @ CRLF @ CRLF @ base64Encode d 76 CRLF
      | QUOTED_PRINTABLE \<Rightarrow>
          ''Content-Transfer-Encoding: quoted-printable'' @ CRLF @ CRLF @ quotedPrintableEncode d CRLF False False
      | NONE \<Rightarrow> CRLF @ d)"

definition part_text :: "rules option \<Rightarrow> MimePart \<Rightarrow> string option" where
  "part_text replacementRules p =
     map_option (\<lambda>d. part_headers p @ encode_part (mp_applyEncoding p) d @ CRLF @ CRLF)
       (if mp_allowReplacements p then replaced replacementRules (mp_partData p) else Some (mp_partData p))"

text \<open>The recursion over the tree; \<open>k\<close> counts the boundaries drawn so far.\<close>

fun mergeMimePartList :: "(string \<Rightarrow> string) \<Rightarrow> (nat \<Rightarrow> nat) \<Rightarrow> rules option \<Rightarrow> MimePartList \<Rightarrow> string \<Rightarrow> nat
    \<Rightarrow> (string \<times> nat) option"
  and merge_parts :: "(string \<Rightarrow> string) \<Rightarrow> (nat \<Rightarrow> nat) \<Rightarrow> rules option \<Rightarrow> MimePartOrList list \<Rightarrow> string \<Rightarrow> nat
    \<Rightarrow> (string \<times> nat) option"
  and merge_part :: "(string \<Rightarrow> string) \<Rightarrow> (nat \<Rightarrow> nat) \<Rightarrow> rules option \<Rightarrow> MimePartOrList \<Rightarrow> nat
    \<Rightarrow> (string \<times> nat) option" where
  "mergeMimePartList MD5 rd rules (MimePartList t parts) boundary k =
     map_option (\<lambda>(s, k). (s @ ''--'' @ boundary @ ''--'', k)) (merge_parts MD5 rd rules parts boundary k)"
| "merge_parts MD5 rd rules [] boundary k = Some ([], k)"
| "merge_parts MD5 rd rules (p # ps) boundary k =
     Option.bind (merge_part MD5 rd rules p k) (\<lambda>(s, k).
     Option.bind (merge_parts MD5 rd rules ps boundary k) (\<lambda>(s', k).
       Some (''--'' @ boundary @ CRLF @ s @ s', k)))"
| "merge_part MD5 rd rules (MimePartOrList (Some p) l) k = map_option (\<lambda>s. (s, k)) (part_text rules p)"
| "merge_part MD5 rd rules (MimePartOrList None (Some l)) k =
     (let partBoundary = genBoundary MD5 rd k in
      map_option (\<lambda>(s, k). (''Content-Type: multipart/'' @ multipartTypeToString (ml_multipartType l)
          @ ''; boundary='' @ [DQUOTE] @ partBoundary @ [DQUOTE] @ CRLF @ CRLF @ s @ CRLF @ CRLF, k))
        (mergeMimePartList MD5 rd rules l partBoundary (Suc k)))"
| "merge_part MD5 rd rules (MimePartOrList None None) k = Some ([], k)"

definition MimeEmail_getRaw :: "(string \<Rightarrow> string) \<Rightarrow> (nat \<Rightarrow> nat) \<Rightarrow> rules option \<Rightarrow> (string, string) umap
    \<Rightarrow> MimePartList \<Rightarrow> nat \<Rightarrow> (string \<times> nat) option" where
  "MimeEmail_getRaw MD5 rd replacementRules headers mimePartList k =
     (let boundary = genBoundary MD5 rd k in
      map_option (\<lambda>(s, k).
          (header_lines (filter (\<lambda>e. fst e \<noteq> ''MIME-Version'' \<and> fst e \<noteq> ''Content-Type'') headers)
           @ ''MIME-Version: 1.0'' @ CRLF @ ''Content-Type: multipart/''
           @ multipartTypeToString (ml_multipartType mimePartList) @ ''; boundary='' @ [DQUOTE] @ boundary @ [DQUOTE]
           @ CRLF @ CRLF @ ''This is a multi-part message in MIME format'' @ CRLF @ CRLF @ s, k))
        (mergeMimePartList MD5 rd replacementRules mimePartList boundary (Suc k)))"

definition SimpleEmail_getRaw :: "rules option \<Rightarrow> (string, string) umap \<Rightarrow> string \<Rightarrow> bool \<Rightarrow> string option" where
  "SimpleEmail_getRaw replacementRules headers text qp =
     map_option (\<lambda>d.
         header_lines (filter (\<lambda>e. \<not> (fst e = ''MIME-Version'' \<or> qp \<and> fst e = ''Content-Transfer-Encoding'')) headers)
         @ ''MIME-Version: 1.0'' @ CRLF
         @ (if qp then ''Content-Transfer-Encoding: quoted-printable'' @ CRLF @ CRLF
                       @ quotedPrintableEncode d CRLF False False
            else CRLF @ d))
       (replaced replacementRules text)"

definition getRaw :: "(string \<Rightarrow> string) \<Rightarrow> (nat \<Rightarrow> nat) \<Rightarrow> rules option \<Rightarrow> email \<Rightarrow> nat \<Rightarrow> (string \<times> nat) option" where
  "getRaw MD5 rd replacementRules e k =
     (case em_body e of
        Simple text qp \<Rightarrow> map_option (\<lambda>s. (s, k)) (SimpleEmail_getRaw replacementRules (em_headers e) text qp)
      | Mime l \<Rightarrow> MimeEmail_getRaw MD5 rd replacementRules (em_headers e) l k)"

section \<open>Valid addresses\<close>

definition in_local :: "char \<Rightarrow> bool" where
  "in_local c \<longleftrightarrow> in_ranges local_ranges c"

definition in_domain :: "char \<Rightarrow> bool" where
  "in_domain c \<longleftrightarrow> in_ranges domain_ranges c"

lemma emCheck_iff:
  "regex_match emCheck s \<noteq> None \<longleftrightarrow>
     (\<exists>l d. s = l @ CHR ''@'' # d \<and> l \<noteq> [] \<and> d \<noteq> [] \<and> list_all in_local l \<and> list_all in_domain d)"
proof -
  have wf: "rx_wf emCheck" by (simp add: emCheck_def)
  have at: "rx_lang (RChr (CHR ''@'')) = {''@''}" by auto
  have "s \<in> rx_lang emCheck \<longleftrightarrow> (\<exists>l d. s = l @ CHR ''@'' # d \<and> (\<forall>c \<in> set l. in_ranges local_ranges c)
      \<and> 1 \<le> length l \<and> (\<forall>c \<in> set d. in_ranges domain_ranges c) \<and> 1 \<le> length d)"
    unfolding emCheck_def rx_lang.simps(2) at rx_lang_rep_class by (auto 0 3)
  then show ?thesis using regex_match_iff [OF wf, of s]
    by (auto simp: list_all_iff in_local_def in_domain_def Suc_le_eq)
qed

text \<open>No character of a valid address can end a header line, the angle brackets or the command.\<close>

lemma address_chars_safe:
  "\<not> in_local d \<and> \<not> in_domain d" if "d \<in> {CR, LF, CHR '' '', CHR ''<'', CHR ''>'', CHR '','', CHR '';'', DQUOTE}"
  using that unfolding in_local_def in_domain_def local_ranges_def domain_ranges_def icase_alnum_def
  by (auto simp: CR_def LF_def DQUOTE_def less_eq_char_def)

lemma at_not_permitted: "\<not> in_local (CHR ''@'')" "\<not> in_domain (CHR ''@'')"
  unfolding in_local_def in_domain_def local_ranges_def domain_ranges_def icase_alnum_def
  by (auto simp: less_eq_char_def)

lemma isValid_iff:
  "EmailAddress_isValid a = Inr True \<longleftrightarrow>
     (\<exists>l d. applyPunycodeToDomain (ea_address a) = Inr (l @ CHR ''@'' # d) \<and> l \<noteq> [] \<and> d \<noteq> []
        \<and> list_all in_local l \<and> list_all in_domain d)"
  using emCheck_iff by (cases "applyPunycodeToDomain (ea_address a)") (auto simp: EmailAddress_isValid_def)

lemma valid_get:
  assumes "EmailAddress_isValid a = Inr True"
  shows "\<exists>l d. EmailAddress_get a False True = Inr (''<'' @ (l @ ''@'' @ d) @ ''>'') \<and> l \<noteq> [] \<and> d \<noteq> []
    \<and> list_all in_local l \<and> list_all in_domain d
    \<and> set (l @ ''@'' @ d) \<inter> {CR, LF, CHR '' '', CHR ''<'', CHR ''>'', CHR '','', CHR '';'', DQUOTE} = {}"
proof -
  from assms obtain l d where ld: "applyPunycodeToDomain (ea_address a) = Inr (l @ CHR ''@'' # d)"
    "l \<noteq> []" "d \<noteq> []" "list_all in_local l" "list_all in_domain d" unfolding isValid_iff by blast
  have "set (l @ ''@'' @ d) \<inter> {CR, LF, CHR '' '', CHR ''<'', CHR ''>'', CHR '','', CHR '';'', DQUOTE} = {}"
    using ld(4,5) address_chars_safe by (fastforce simp: list_all_iff CR_def LF_def DQUOTE_def)
  with ld show ?thesis by (intro exI [of _ l] exI [of _ d]) (simp add: EmailAddress_get_def)
qed

section \<open>Encoded parts\<close>

text \<open>Every boundary holds \<^verbatim>\<open>=_\<close>, which neither encoding writes.\<close>

fun mark_free :: "string \<Rightarrow> bool" where
  "mark_free [] \<longleftrightarrow> True"
| "mark_free (c # s) \<longleftrightarrow> \<not> is_prefix ''=_'' (c # s) \<and> mark_free s"

lemma mark_free_find: "mark_free s \<longleftrightarrow> find_str ''=_'' s = None"
  by (induction s) auto

lemma mark_free_no_underscore: "CHR ''_'' \<notin> set s \<Longrightarrow> mark_free s"
proof (induction s)
  case (Cons c s)
  then show ?case by (cases s) auto
qed simp

lemma mark_free_single: "c \<noteq> CHR ''='' \<Longrightarrow> mark_free s \<Longrightarrow> mark_free (c # s)"
  by simp

lemma hex_not_underscore: "is_hex c \<Longrightarrow> c \<noteq> CHR ''_'' \<and> c \<noteq> CHR ''=''"
  by (auto simp: is_hex_code)

lemma mark_free_hex: "mark_free s \<Longrightarrow> mark_free (CHR ''='' # upper_hex c @ s)"
proof -
  assume s: "mark_free s"
  have "is_hex (toupper (digit_char (code c div 16)))" "is_hex (toupper (digit_char (code c mod 16)))"
    using is_hex_upper_digit [OF code_div_16] is_hex_upper_digit by simp_all
  from this [THEN hex_not_underscore] s show ?thesis by (auto simp: upper_hex_eq)
qed

lemma mark_free_break: "mark_free s \<Longrightarrow> mark_free (CHR ''='' # CRLF @ s)"
  by (simp add: CRLF_def CR_def LF_def)

lemma mark_free_qp: "mark_free (qp_loop CRLF rc False n s)"
proof (induction s arbitrary: n)
  case (Cons c s)
  have lit: "c \<noteq> CHR ''=''" if "qp_literal False c" using that by (auto simp: qp_literal_def)
  have nl: "c \<noteq> CHR ''=''" if "code c = 10 \<or> code c = 13" using that by auto
  have "mark_free (fst (qp_step CRLF rc False n c) @ t)" if t: "mark_free t" for t
    using mark_free_single [OF lit t] mark_free_single [OF nl t] mark_free_hex [OF t, of c]
      mark_free_break [OF mark_free_single [OF lit t]] mark_free_break [OF mark_free_hex [OF t, of c]]
    unfolding qp_step_def by (simp del: mark_free.simps split: if_split)
  with Cons show ?case by (simp add: split_beta)
qed simp

lemma mark_free_base64: "blank_break n brk \<Longrightarrow> mark_free (base64Encode d n brk)"
proof (rule mark_free_no_underscore)
  assume b: "blank_break n brk"
  obtain body k where sh: "b64_ref d = body @ replicate k (CHR ''='')" "\<forall>c \<in> set body. is_base64 c"
    using b64_ref_shape [of d] by blast
  show "CHR ''_'' \<notin> set (base64Encode d n brk)"
  proof
    assume "CHR ''_'' \<in> set (base64Encode d n brk)"
    then have "CHR ''_'' \<in> set (strip (base64Encode d n brk))"
      by (simp add: is_whitespace_def CR_def LF_def TAB_def)
    then have "CHR ''_'' \<in> set (b64_ref d)" using base64_encode_strip [OF b] by (simp add: base64Encode_def)
    with sh show False by (auto simp: is_base64_def code_ineq_facts)
  qed
qed

fun decode_part :: "ApplyEncoding \<Rightarrow> string \<Rightarrow> string result" where
  "decode_part BASE64 s = Inr (base64Decode s)"
| "decode_part QUOTED_PRINTABLE s = quotedPrintableDecode s False"
| "decode_part NONE s = Inr s"

lemma crlf_blank: "blank_break 76 CRLF"
  by (simp add: blank_break_def CRLF_def is_whitespace_def)

lemma encode_part_decodes:
  "\<exists>hdr body. encode_part e d = hdr @ CRLF @ body
    \<and> (e = BASE64 \<longrightarrow> hdr = ''Content-Transfer-Encoding: base64'' @ CRLF)
    \<and> (e = QUOTED_PRINTABLE \<longrightarrow> hdr = ''Content-Transfer-Encoding: quoted-printable'' @ CRLF)
    \<and> decode_part e body = Inr d \<and> (e \<noteq> NONE \<longrightarrow> find_str ''=_'' body = None)"
proof (cases e)
  case BASE64
  then show ?thesis
    using base64_roundtrip [OF crlf_blank, of d] mark_free_base64 [OF crlf_blank, of d]
    by (intro exI [of _ "''Content-Transfer-Encoding: base64'' @ CRLF"] exI [of _ "base64Encode d 76 CRLF"])
      (simp add: encode_part_def mark_free_find)
next
  case QUOTED_PRINTABLE
  then show ?thesis
    using quotedPrintable_roundtrip [of CRLF d False] mark_free_qp [of False 0 d]
    by (intro exI [of _ "''Content-Transfer-Encoding: quoted-printable'' @ CRLF"]
        exI [of _ "quotedPrintableEncode d CRLF False False"])
      (simp add: encode_part_def mark_free_find quotedPrintableEncode_def)
next
  case NONE
  then show ?thesis by (intro exI [of _ "[]"] exI [of _ d]) (simp add: encode_part_def)
qed

section \<open>The source of an email is produced\<close>

definition rules_ok :: "rules option \<Rightarrow> bool" where
  "rules_ok r \<longleftrightarrow> (case r of None \<Rightarrow> True | Some ps \<Rightarrow> list_all (\<lambda>kv. fst kv \<noteq> []) ps)"

lemma replaced_total: "rules_ok r \<Longrightarrow> \<exists>t. replaced r s = Some t"
  by (cases r) (auto simp: replaced_def rules_ok_def list_all_iff stringReplace_fold)

lemma part_text_total: "rules_ok r \<Longrightarrow> \<exists>s. part_text r p = Some s"
  using replaced_total [of r "mp_partData p"] by (auto simp: part_text_def)

lemma merge_total:
  assumes "rules_ok r"
  shows "\<exists>x. mergeMimePartList MD5 rd r l b k = Some x"
    and "\<exists>x. merge_parts MD5 rd r ps b k = Some x"
    and "\<exists>x. merge_part MD5 rd r p k = Some x"
  using assms
proof (induction MD5 rd r l b k and MD5 rd r ps b k and MD5 rd r p k
    rule: mergeMimePartList_merge_parts_merge_part.induct)
  case (1 MD5 rd r t parts b k)
  from "1.IH" [OF "1.prems"] show ?case by auto
next
  case (2 MD5 rd r b k)
  then show ?case by simp
next
  case (3 MD5 rd r p ps b k)
  from "3.IH"(1) [OF "3.prems"] obtain s k' where p: "merge_part MD5 rd r p k = Some (s, k')" by force
  from "3.IH"(2) [OF p refl "3.prems"] obtain s' k'' where "merge_parts MD5 rd r ps b k' = Some (s', k'')"
    by force
  with p show ?case by simp
next
  case (4 MD5 rd r p l k)
  from part_text_total [OF "4.prems"] show ?case by auto
next
  case (5 MD5 rd r l k)
  from "5.IH" [OF refl "5.prems"] obtain x where
    "mergeMimePartList MD5 rd r l (genBoundary MD5 rd k) (Suc k) = Some x" by blast
  then show ?case by (simp add: Let_def)
next
  case (6 MD5 rd r k)
  then show ?case by simp
qed

end
