(* ===== verification/Http_Time.thy ===== *)
theory Http_Time
  imports Request
begin

text \<open>
  Time stamps of HTTP headers (\<^verbatim>\<open>makeHttpTime\<close> and \<^verbatim>\<open>readHttpTime\<close> of
  \<^verbatim>\<open>src/util/utils.cpp\<close>). The C library's \<^verbatim>\<open>gmtime_r\<close> and \<^verbatim>\<open>timegm\<close> are the proleptic
  Gregorian calendar: days are counted from 0000-01-01 in eras of 400 years (146097 days), so
  the loops over years and months are short. \<^verbatim>\<open>get_time\<close> reads its format field by field, as
  the C++ standard describes it: numbers with leading zeros optional, names and literals
  without regard to case, a space of the format for any white space.
\<close>

section \<open>The calendar\<close>

definition leap :: "nat \<Rightarrow> bool" where
  "leap y \<longleftrightarrow> y mod 4 = 0 \<and> (y mod 100 \<noteq> 0 \<or> y mod 400 = 0)"

definition ylen :: "nat \<Rightarrow> nat" where
  "ylen y = (if leap y then 366 else 365)"

definition mlen :: "bool \<Rightarrow> nat \<Rightarrow> nat" where
  "mlen lp m = (if m = 1 then (if lp then 29 else 28) else if m \<in> {3, 5, 8, 10} then 30 else 31)"

fun days_before_year :: "nat \<Rightarrow> nat" where
  "days_before_year 0 = 0"
| "days_before_year (Suc y) = days_before_year y + ylen y"

fun days_before_month :: "bool \<Rightarrow> nat \<Rightarrow> nat" where
  "days_before_month lp 0 = 0"
| "days_before_month lp (Suc m) = days_before_month lp m + mlen lp m"

function year_of :: "nat \<Rightarrow> nat \<Rightarrow> nat \<times> nat" where
  "year_of d y = (if d < ylen y then (y, d) else year_of (d - ylen y) (Suc y))"
  by pat_completeness auto
termination by (relation "measure fst") (auto simp: ylen_def)

function month_of :: "bool \<Rightarrow> nat \<Rightarrow> nat \<Rightarrow> nat \<times> nat" where
  "month_of lp d m = (if d < mlen lp m \<or> 11 \<le> m then (m, d) else month_of lp (d - mlen lp m) (Suc m))"
  by pat_completeness auto
termination by (relation "measure (\<lambda>(lp, d, m). 11 - m)") auto

declare year_of.simps [simp del] month_of.simps [simp del]

record tm =
  tm_sec :: nat
  tm_min :: nat
  tm_hour :: nat
  tm_mday :: nat
  tm_mon :: nat
  tm_year :: int
  tm_wday :: nat

text \<open>The year is the full year; \<^verbatim>\<open>gmtime_r\<close> fails when \<^verbatim>\<open>tm_year\<close>, the year minus 1900, does
  not fit an \<^verbatim>\<open>int\<close>.\<close>

definition gmtime :: "int \<Rightarrow> tm option" where
  "gmtime t =
     (let days = t div 86400; secs = nat (t mod 86400);
          z = days + 719528; era = z div 146097;
          (yoe, doy) = year_of (nat (z mod 146097)) 0;
          (mon, d) = month_of (leap yoe) doy 0;
          year = 400 * era + int yoe
      in if - (2 ^ 31) \<le> year - 1900 \<and> year - 1900 < 2 ^ 31
         then Some \<lparr>tm_sec = secs mod 60, tm_min = secs div 60 mod 60, tm_hour = secs div 3600,
                tm_mday = d + 1, tm_mon = mon, tm_year = year, tm_wday = nat ((days + 4) mod 7)\<rparr>
         else None)"

definition timegm :: "tm \<Rightarrow> int" where
  "timegm x =
     (let yoe = nat (tm_year x mod 400);
          days = 146097 * (tm_year x div 400) + int (days_before_year yoe)
                 + int (days_before_month (leap yoe) (tm_mon x)) + int (tm_mday x) - 1 - 719528
      in days * 86400 + int (tm_hour x * 3600 + tm_min x * 60 + tm_sec x))"

lemma year_of_sum: "year_of d y = (y', r) \<Longrightarrow> days_before_year y' + r = days_before_year y + d \<and> r < ylen y' \<and> y \<le> y'"
proof (induction d y rule: year_of.induct)
  case (1 d y)
  show ?case
  proof (cases "d < ylen y")
    case True
    with "1.prems" show ?thesis by (simp add: year_of.simps [of d y])
  next
    case False
    with "1.prems" "1.IH" [OF False] show ?thesis by (simp add: year_of.simps [of d y])
  qed
qed

lemma month_of_sum:
  "month_of lp d m = (m', r) \<Longrightarrow> m \<le> 11 \<Longrightarrow>
     days_before_month lp m' + r = days_before_month lp m + d \<and> m' \<le> 11 \<and> (m' < 11 \<longrightarrow> r < mlen lp m')"
proof (induction lp d m rule: month_of.induct)
  case (1 lp d m)
  show ?case
  proof (cases "d < mlen lp m \<or> 11 \<le> m")
    case True
    with "1.prems" show ?thesis by (auto simp: month_of.simps [of lp d m])
  next
    case False
    with "1.prems" "1.IH" [OF False] show ?thesis by (simp add: month_of.simps [of lp d m])
  qed
qed

lemma days_before_year_mono: "y \<le> y' \<Longrightarrow> days_before_year y \<le> days_before_year y'"
  by (rule lift_Suc_mono_le [of days_before_year]) simp_all

lemma div_ceiling_Suc:
  assumes "0 < (k::nat)"
  shows "(y + k) div k = (y + k - 1) div k + (if y mod k = 0 then 1 else 0)"
proof -
  define q r where "q = y div k" and "r = y mod k"
  have y: "y = r + q * k" "r < k" using assms by (simp_all add: q_def r_def)
  have "y + k = r + Suc q * k" using y(1) by simp
  then have "(y + k) div k = Suc q" using assms y(2) by (simp only: div_mult_self1) simp
  moreover have "(y + k - 1) div k = (if r = 0 then q else Suc q)"
  proof (cases r)
    case 0
    then have "y + k - 1 = (k - 1) + q * k" using y assms by simp
    then show ?thesis using assms 0 by (simp only: div_mult_self1) simp
  next
    case (Suc r')
    then have "y + k - 1 = r' + Suc q * k" using y by simp
    then show ?thesis using assms y(2) Suc by (simp only: div_mult_self1) simp
  qed
  ultimately show ?thesis by (simp add: r_def)
qed

lemma leap_count:
  "ylen y + (if y mod 100 = 0 then 1 else 0) =
     365 + (if y mod 4 = 0 then 1 else 0) + (if y mod 400 = 0 then 1 else 0)"
proof -
  have "y mod 400 mod 100 = y mod 100" "y mod 100 mod 4 = y mod 4" by (simp_all add: mod_mod_cancel)
  then show ?thesis by (auto simp: ylen_def leap_def)
qed

lemma days_before_year_closed:
  "days_before_year y + (y + 99) div 100 = 365 * y + (y + 3) div 4 + (y + 399) div 400"
proof (induction y)
  case (Suc y)
  have s: "Suc y + 99 = y + 100" "Suc y + 3 = y + 4" "Suc y + 399 = y + 400"
    "y + 100 - 1 = y + 99" "y + 4 - 1 = y + 3" "y + 400 - 1 = y + 399" by simp_all
  have "(Suc y + 99) div 100 = (y + 99) div 100 + (if y mod 100 = 0 then 1 else 0)"
    unfolding s using div_ceiling_Suc [of 100 y] by (simp only: s)
  moreover have "(Suc y + 3) div 4 = (y + 3) div 4 + (if y mod 4 = 0 then 1 else 0)"
    unfolding s using div_ceiling_Suc [of 4 y] by (simp only: s)
  moreover have "(Suc y + 399) div 400 = (y + 399) div 400 + (if y mod 400 = 0 then 1 else 0)"
    unfolding s using div_ceiling_Suc [of 400 y] by (simp only: s)
  moreover note leap_count [of y]
  ultimately show ?case using Suc unfolding days_before_year.simps by (simp only: mult_Suc_right)
qed simp

lemma days_400: "days_before_year 400 = 146097"
  using days_before_year_closed [of 400] by simp

lemma year_of_era:
  assumes "d < 146097" and "year_of d 0 = (y, r)"
  shows "y < 400"
proof (rule ccontr)
  assume "\<not> y < 400"
  then have "days_before_year 400 \<le> days_before_year y" by (intro days_before_year_mono) simp
  with year_of_sum [OF assms(2)] assms(1) show False by (simp only: days_400) simp
qed

lemma days_before_month_12: "days_before_month lp 12 = (if lp then 366 else 365)"
  by (simp add: numeral_eq_Suc mlen_def)

lemma gmtime_fields:
  assumes "gmtime t = Some x"
  shows "timegm x = t" and "tm_sec x < 60" and "tm_min x < 60" and "tm_hour x < 24"
    and "tm_mon x < 12" and "1 \<le> tm_mday x" and "tm_mday x \<le> 31" and "tm_wday x < 7"
proof -
  define z where "z = t div 86400 + 719528"
  define secs where "secs = nat (t mod 86400)"
  obtain y r where yr: "year_of (nat (z mod 146097)) 0 = (y, r)" by fastforce
  obtain m d where md: "month_of (leap y) r 0 = (m, d)" by fastforce
  have x: "x = \<lparr>tm_sec = secs mod 60, tm_min = secs div 60 mod 60, tm_hour = secs div 3600,
      tm_mday = d + 1, tm_mon = m, tm_year = 400 * (z div 146097) + int y,
      tm_wday = nat ((t div 86400 + 4) mod 7)\<rparr>"
    using assms yr md by (auto simp: gmtime_def Let_def z_def secs_def split: if_splits)
  have y: "y < 400" by (rule year_of_era [OF _ yr]) simp
  note ys = year_of_sum [OF yr] and ms = month_of_sum [OF md]
  have ydiv: "(400 * (z div 146097) + int y) div 400 = z div 146097"
    "(400 * (z div 146097) + int y) mod 400 = int y" using y by simp_all
  have s: "int secs = t mod 86400" by (simp add: secs_def)
  have "int (days_before_year y) + int r = z mod 146097"
    using ys by (simp add: flip: of_nat_add) 
  moreover have "int (days_before_month (leap y) m) + int d = int r"
    using ms by (simp flip: of_nat_add)
  moreover have "z = 146097 * (z div 146097) + z mod 146097" by simp
  ultimately have days: "146097 * (z div 146097) + int (days_before_year y)
      + int (days_before_month (leap y) m) + int d - 719528 = t div 86400"
    unfolding z_def by linarith
  have "secs div 3600 * 3600 + secs div 60 mod 60 * 60 + secs mod 60 = secs"
  proof -
    have "secs div 3600 = secs div 60 div 60" using div_mult2_eq [of secs 60 60] by simp
    moreover have "secs div 60 * 60 + secs mod 60 = secs" by (rule div_mult_mod_eq)
    moreover have "secs div 60 div 60 * 60 + secs div 60 mod 60 = secs div 60" by (rule div_mult_mod_eq)
    ultimately show ?thesis by linarith
  qed
  moreover have "146097 * (z div 146097) + int (days_before_year y)
      + int (days_before_month (leap y) m) + int (d + 1) - 1 - 719528 = t div 86400"
    using days by simp
  ultimately have "timegm x = t div 86400 * 86400 + int secs"
    unfolding x timegm_def Let_def tm.select_convs ydiv nat_int by (simp only:)
  then show "timegm x = t" by (simp only: s) (rule div_mult_mod_eq)
  have "secs < 86400" by (simp add: secs_def nat_less_iff)
  then show "tm_hour x < 24" by (simp add: x)
  show "tm_sec x < 60" "tm_min x < 60" by (simp_all add: x)
  show "tm_mon x < 12" "1 \<le> tm_mday x" using ms by (simp_all add: x)
  show "tm_wday x < 7" by (simp add: x nat_less_iff)
  have "d \<le> 30"
  proof (cases "m < 11")
    case True
    with ms show ?thesis by (auto simp: mlen_def split: if_splits)
  next
    case False
    then have "m = 11" using ms by simp
    moreover have "days_before_month lp 11 = days_before_month lp 12 - 31" for lp
      by (simp add: numeral_eq_Suc mlen_def)
    ultimately show ?thesis using ms ys days_before_month_12 [of "leap y"]
      by (auto simp: ylen_def split: if_splits)
  qed
  then show "tm_mday x \<le> 31" by (simp add: x)
qed

section \<open>Writing\<close>

definition getDayOfWeek :: "nat \<Rightarrow> string" where
  "getDayOfWeek dow =
     (let names = [''Sun'', ''Mon'', ''Tue'', ''Wed'', ''Thu'', ''Fri'', ''Sat''] in
      if dow < length names then names ! dow else [])"

definition getMonth :: "nat \<Rightarrow> string" where
  "getMonth mon =
     (let names = [''Jan'', ''Feb'', ''Mar'', ''Apr'', ''May'', ''Jun'', ''Jul'', ''Aug'', ''Sep'',
                   ''Oct'', ''Nov'', ''Dec''] in
      if mon < length names then names ! mon else [])"

text \<open>\<^verbatim>\<open>%d\<close>, \<^verbatim>\<open>%H\<close>, \<^verbatim>\<open>%M\<close>, \<^verbatim>\<open>%S\<close>: two digits.\<close>

definition pad2 :: "nat \<Rightarrow> string" where
  "pad2 n = [digit_char (n div 10), digit_char (n mod 10)]"

definition makeHttpTime :: "int \<Rightarrow> string result" where
  "makeHttpTime t =
     (case gmtime t of
        None \<Rightarrow> Inl (NawaException 1 ''Interpretation of UNIX timestamp failed.'')
      | Some gmt \<Rightarrow>
          Inr (getDayOfWeek (tm_wday gmt) @ '', '' @ pad2 (tm_mday gmt) @ '' '' @ getMonth (tm_mon gmt)
               @ '' '' @ dec_int (tm_year gmt) @ '' '' @ pad2 (tm_hour gmt) @ '':'' @ pad2 (tm_min gmt)
               @ '':'' @ pad2 (tm_sec gmt) @ '' GMT''))"

section \<open>Reading\<close>

definition get_num :: "nat \<Rightarrow> nat \<Rightarrow> nat \<Rightarrow> string \<Rightarrow> (nat \<times> string) option" where
  "get_num width lo hi s =
     (let ds = takeWhile is_digit (take width s); v = read_digits 10 0 ds in
      if ds = [] \<or> v < lo \<or> hi < v then None else Some (v, drop (length ds) s))"

fun get_name :: "(string \<times> nat) list \<Rightarrow> string \<Rightarrow> (nat \<times> string) option" where
  "get_name [] s = None"
| "get_name ((n, k) # ns) s =
     (if is_prefix (toLowercase n) (toLowercase s) then Some (k, drop (length n) s) else get_name ns s)"

definition get_lit :: "string \<Rightarrow> string \<Rightarrow> string option" where
  "get_lit l s = (if is_prefix (toLowercase l) (toLowercase s) then Some (drop (length l) s) else None)"

definition skip_ws :: "string \<Rightarrow> string" where
  "skip_ws s = dropWhile is_space s"

definition day_names :: "(string \<times> nat) list" where
  "day_names = [(''Sunday'', 0), (''Monday'', 1), (''Tuesday'', 2), (''Wednesday'', 3), (''Thursday'', 4),
     (''Friday'', 5), (''Saturday'', 6), (''Sun'', 0), (''Mon'', 1), (''Tue'', 2), (''Wed'', 3),
     (''Thu'', 4), (''Fri'', 5), (''Sat'', 6)]"

definition month_names :: "(string \<times> nat) list" where
  "month_names = [(''January'', 0), (''February'', 1), (''March'', 2), (''April'', 3), (''May'', 4),
     (''June'', 5), (''July'', 6), (''August'', 7), (''September'', 8), (''October'', 9),
     (''November'', 10), (''December'', 11), (''Jan'', 0), (''Feb'', 1), (''Mar'', 2), (''Apr'', 3),
     (''Jun'', 5), (''Jul'', 6), (''Aug'', 7), (''Sep'', 8), (''Oct'', 9), (''Nov'', 10), (''Dec'', 11)]"

text \<open>\<^verbatim>\<open>get_time\<close> with the date \<^verbatim>\<open>%a, %d %b %Y %H:%M:%S\<close>; what follows is returned.\<close>

definition get_date :: "string \<Rightarrow> (tm \<times> string) option" where
  "get_date s =
     Option.bind (get_name day_names (skip_ws s)) (\<lambda>(wday, s).
     Option.bind (get_lit '','' s) (\<lambda>s.
     Option.bind (get_num 2 1 31 (skip_ws s)) (\<lambda>(mday, s).
     Option.bind (get_name month_names (skip_ws s)) (\<lambda>(mon, s).
     Option.bind (get_num 4 0 9999 (skip_ws s)) (\<lambda>(year, s).
     Option.bind (get_num 2 0 23 (skip_ws s)) (\<lambda>(hour, s).
     Option.bind (get_lit '':'' s) (\<lambda>s.
     Option.bind (get_num 2 0 59 s) (\<lambda>(minute, s).
     Option.bind (get_lit '':'' s) (\<lambda>s.
     Option.bind (get_num 2 0 60 s) (\<lambda>(sec, s).
     Some (\<lparr>tm_sec = sec, tm_min = minute, tm_hour = hour, tm_mday = mday, tm_mon = mon,
            tm_year = int year, tm_wday = wday\<rparr>, s)))))))))))"

definition readHttpTime :: "string \<Rightarrow> int result" where
  "readHttpTime httpTime =
     (case Option.bind (get_date httpTime) (\<lambda>(x, s). Option.bind (get_lit ''GMT'' (skip_ws s)) (\<lambda>_. Some x)) of
        None \<Rightarrow> Inl (NawaException 1 ''Parsing of HTTP timestamp failed.'')
      | Some timeStruct \<Rightarrow>
          (let unixTime = timegm timeStruct in
           if unixTime = - 1
           then Inl (NawaException 1 ''Conversion of parsed HTTP timestamp to a UNIX timestamp failed.'')
           else Inr unixTime))"

section \<open>Reading back what was written\<close>

lemma less7_cases: "(n::nat) < 7 \<Longrightarrow> n \<in> {0, 1, 2, 3, 4, 5, 6}" by auto

lemma less12_cases: "(n::nat) < 12 \<Longrightarrow> n \<in> {0, 1, 2, 3, 4, 5, 6, 7, 8, 9, 10, 11}"
  by (auto simp: less_Suc_eq numeral_eq_Suc)

lemma toLowercase_Cons: "toLowercase (c # s) = tolower c # toLowercase s"
  by (simp add: toLowercase_def)

lemma toLowercase_Nil: "toLowercase [] = []"
  by (simp add: toLowercase_def)

lemma skip_ws_simps:
  "skip_ws [] = []" "skip_ws (CHR '' '' # s) = skip_ws s" "\<not> is_space c \<Longrightarrow> skip_ws (c # s) = c # s"
  by (simp_all add: skip_ws_def) (simp add: is_space_def)

lemma tolower_letters:
  "tolower (CHR ''A'') = CHR ''a''"
  "tolower (CHR ''D'') = CHR ''d''"
  "tolower (CHR ''F'') = CHR ''f''"
  "tolower (CHR ''J'') = CHR ''j''"
  "tolower (CHR ''M'') = CHR ''m''"
  "tolower (CHR ''N'') = CHR ''n''"
  "tolower (CHR ''O'') = CHR ''o''"
  "tolower (CHR ''S'') = CHR ''s''"
  "tolower (CHR ''T'') = CHR ''t''"
  "tolower (CHR ''W'') = CHR ''w''"
  "tolower (CHR ''a'') = CHR ''a''"
  "tolower (CHR ''b'') = CHR ''b''"
  "tolower (CHR ''c'') = CHR ''c''"
  "tolower (CHR ''d'') = CHR ''d''"
  "tolower (CHR ''e'') = CHR ''e''"
  "tolower (CHR ''g'') = CHR ''g''"
  "tolower (CHR ''h'') = CHR ''h''"
  "tolower (CHR ''i'') = CHR ''i''"
  "tolower (CHR ''l'') = CHR ''l''"
  "tolower (CHR ''m'') = CHR ''m''"
  "tolower (CHR ''n'') = CHR ''n''"
  "tolower (CHR ''o'') = CHR ''o''"
  "tolower (CHR ''p'') = CHR ''p''"
  "tolower (CHR ''r'') = CHR ''r''"
  "tolower (CHR ''s'') = CHR ''s''"
  "tolower (CHR ''t'') = CHR ''t''"
  "tolower (CHR ''u'') = CHR ''u''"
  "tolower (CHR ''v'') = CHR ''v''"
  "tolower (CHR ''y'') = CHR ''y''"
  "tolower (CHR '','') = CHR '',''" "tolower (CHR '' '') = CHR '' ''"
  by code_simp+

lemmas name_simps = tolower_letters toLowercase_Cons toLowercase_Nil skip_ws_simps is_space_def

lemma get_day:
  "n < 7 \<Longrightarrow> get_name day_names (skip_ws (getDayOfWeek n @ CHR '','' # s)) = Some (n, CHR '','' # s)"
  by (drule less7_cases, elim insertE emptyE; simp add: getDayOfWeek_def day_names_def name_simps)

lemma get_month:
  "n < 12 \<Longrightarrow> get_name month_names (skip_ws (CHR '' '' # getMonth n @ CHR '' '' # s)) = Some (n, CHR '' '' # s)"
  by (drule less12_cases, elim insertE emptyE; simp add: getMonth_def month_names_def name_simps)

lemma is_space_code: "is_space c \<longleftrightarrow> code c = 32 \<or> 9 \<le> code c \<and> code c \<le> 13"
  using code_inject [of c "CHR '' ''"] by (auto simp: is_space_def)

lemma digit_char_digit: "n < 10 \<Longrightarrow> is_digit (digit_char n) \<and> \<not> is_space (digit_char n)"
  by (auto simp: digit_char_def code_ineq_facts is_space_code)

lemma get_num_pad2:
  assumes "lo \<le> n" and "n \<le> hi" and "hi < 100"
  shows "get_num 2 lo hi (pad2 n @ s) = Some (n, s)"
proof -
  have d: "n div 10 < 10" "n mod 10 < 10" using assms by simp_all
  have t: "takeWhile is_digit (take 2 (pad2 n @ s)) = pad2 n"
    using d by (simp add: pad2_def digit_char_digit numeral_2_eq_2)
  have r: "read_digits 10 0 (pad2 n) = n"
    using d by (simp add: pad2_def base_digit_digit_char)
  have "pad2 n \<noteq> []" "length (pad2 n) = 2" by (simp_all add: pad2_def)
  with r assms show ?thesis unfolding get_num_def t Let_def by simp
qed

lemma skip_ws_pad2: "n < 100 \<Longrightarrow> skip_ws (CHR '' '' # pad2 n @ s) = pad2 n @ s"
  by (simp add: pad2_def skip_ws_simps digit_char_digit)

lemma length_dec_step: "10 \<le> n \<Longrightarrow> length (dec n) = Suc (length (dec (n div 10)))"
  by (subst dec.simps) simp

lemma length_dec_year: "1000 \<le> n \<Longrightarrow> n \<le> 9999 \<Longrightarrow> length (dec n) = 4"
proof -
  assume n: "1000 \<le> n" "n \<le> 9999"
  then have "10 \<le> n" "10 \<le> n div 10" "10 \<le> n div 10 div 10" "n div 10 div 10 div 10 < 10" by linarith+
  then show ?thesis by (simp add: length_dec_step dec.simps [of "n div 10 div 10 div 10"]
    del: div_mult2_eq [symmetric])
qed

lemma dec_digits: "\<forall>c \<in> set (dec n). is_digit c"
  by (induction n rule: dec.induct) (subst dec.simps, auto simp: digit_char_digit)

lemma get_num_year:
  assumes "1000 \<le> n" and "n \<le> 9999"
  shows "get_num 4 0 9999 (skip_ws (CHR '' '' # dec n @ s)) = Some (n, s)"
proof -
  obtain c ds where c: "dec n = c # ds" by (cases "dec n") auto
  then have "\<not> is_space c" using dec_digits [of n] by (auto simp: is_space_code code_ineq_facts)
  then have w: "skip_ws (CHR '' '' # dec n @ s) = dec n @ s" by (simp add: c skip_ws_simps)
  have t: "takeWhile is_digit (take 4 (dec n @ s)) = dec n"
    using length_dec_year [OF assms] dec_digits [of n] by simp
  show ?thesis using assms length_dec_year [OF assms] unfolding w get_num_def t Let_def
    by (simp add: read_digits_dec)
qed

lemma get_lit_append: "get_lit l (l @ s) = Some s"
  by (simp add: get_lit_def)

lemma get_date_written:
  assumes "gmtime t = Some x" and "1000 \<le> tm_year x" and "tm_year x \<le> 9999"
  shows "get_date (getDayOfWeek (tm_wday x) @ '', '' @ pad2 (tm_mday x) @ '' '' @ getMonth (tm_mon x)
      @ '' '' @ dec_int (tm_year x) @ '' '' @ pad2 (tm_hour x) @ '':'' @ pad2 (tm_min x)
      @ '':'' @ pad2 (tm_sec x) @ s) = Some (x, s)"
proof -
  note f = gmtime_fields [OF assms(1)]
  have y: "dec_int (tm_year x) = dec (nat (tm_year x))" using assms(2) by (simp add: dec_int_def)
  have n: "1000 \<le> nat (tm_year x)" "nat (tm_year x) \<le> 9999" using assms(2,3) by linarith+
  have lit: "get_lit '','' (CHR '','' # r) = Some r" "get_lit '':'' (CHR '':'' # r) = Some r" for r
    using get_lit_append [of "'',''" r] get_lit_append [of "'':''" r] by simp_all
  have "tm_mday x < 100" "tm_hour x < 100" using f by simp_all
  then show ?thesis
    unfolding get_date_def y
    using f n assms(2) by (simp add: get_day get_month get_num_year get_num_pad2 skip_ws_pad2 lit)
qed

lemma readHttpTime_makeHttpTime:
  assumes "gmtime t = Some x" and "1000 \<le> tm_year x" and "tm_year x \<le> 9999" and "t \<noteq> - 1"
  shows "\<exists>s. makeHttpTime t = Inr s \<and> readHttpTime s = Inr t"
proof -
  have "get_lit ''GMT'' (skip_ws '' GMT'') = Some []"
    by (simp add: skip_ws_def is_space_def get_lit_append [of "''GMT''" "[]", simplified])
  then show ?thesis
    using assms gmtime_fields(1) [OF assms(1)] get_date_written [OF assms(1-3), of "'' GMT''"]
    by (simp add: makeHttpTime_def readHttpTime_def)
qed

text \<open>The years 1000 to 9999 are the time stamps from -30610224000 to 253402300799.\<close>

lemma year_bounds:
  assumes "- 30610224000 \<le> t" and "t \<le> 253402300799"
  shows "\<exists>x. gmtime t = Some x \<and> 1000 \<le> tm_year x \<and> tm_year x \<le> 9999"
proof -
  define z where "z = t div 86400 + 719528"
  obtain y r where yr: "year_of (nat (z mod 146097)) 0 = (y, r)" by fastforce
  obtain m d where md: "month_of (leap y) r 0 = (m, d)" by fastforce
  have z: "365243 \<le> z" "z \<le> 3652424" using assms unfolding z_def by linarith+
  note ys = year_of_sum [OF yr]
  have y400: "y < 400" by (rule year_of_era [OF _ yr]) simp
  have days: "146097 * (z div 146097) + int (days_before_year y) + int r = z"
  proof -
    have "int (days_before_year y) + int r = z mod 146097" using ys by (simp flip: of_nat_add)
    moreover have "146097 * (z div 146097) + z mod 146097 = z" by simp
    ultimately show ?thesis by linarith
  qed
  have "1000 \<le> 400 * (z div 146097) + int y \<and> 400 * (z div 146097) + int y \<le> 9999"
  proof -
    have dby: "days_before_year 200 = 73049"
      using days_before_year_closed [of 200] by simp
    have e: "2 \<le> z div 146097" "z div 146097 \<le> 24" using z by linarith+
    have "200 \<le> y" if "z div 146097 = 2"
    proof (rule ccontr)
      assume "\<not> 200 \<le> y"
      then have "days_before_year (Suc y) \<le> days_before_year 200" by (intro days_before_year_mono) simp
      with ys have "days_before_year y + r < 73049" by (simp add: dby)
      with days that z(1) show False by simp
    qed
    then show ?thesis using e y400 by (cases "z div 146097 = 2") auto
  qed
  then show ?thesis using yr md by (auto simp: gmtime_def Let_def z_def)
qed

end
