(* ===== verification/Smtp_Time.thy ===== *)
theory Smtp_Time
  imports Http_Time
begin

text \<open>
  \<^verbatim>\<open>makeSmtpTime\<close> and \<^verbatim>\<open>readSmtpTime\<close> of \<^verbatim>\<open>src/util/utils.cpp\<close>. \<^verbatim>\<open>localtime_r\<close>, whose answer depends
  on the time zone of the process, is the parameter \<open>LT\<close>: the broken-down local time and the
  seconds east of UTC that \<^verbatim>\<open>%z\<close> prints. \<open>local_time_ok\<close> states what it promises.
\<close>

type_synonym localtime = "int \<Rightarrow> (tm \<times> int) option"

definition local_time_ok :: "localtime \<Rightarrow> int \<Rightarrow> bool" where
  "local_time_ok LT t \<longleftrightarrow>
     (case LT t of
        None \<Rightarrow> gmtime t = None
      | Some (x, off) \<Rightarrow> gmtime (t + off) = Some x \<and> off mod 60 = 0 \<and> \<bar>off\<bar> < 360000)"

text \<open>\<^verbatim>\<open>%e\<close> pads with a space; \<^verbatim>\<open>%z\<close> is the sign, the hours and the minutes of the offset.\<close>

definition pad_e :: "nat \<Rightarrow> string" where
  "pad_e n = (if n < 10 then [CHR '' '', digit_char n] else pad2 n)"

definition zone_text :: "int \<Rightarrow> string" where
  "zone_text off =
     (let a = nat \<bar>off\<bar> in (if off < 0 then CHR ''-'' else CHR ''+'') # pad2 (a div 3600) @ pad2 (a div 60 mod 60))"

definition makeSmtpTime :: "localtime \<Rightarrow> int \<Rightarrow> string result" where
  "makeSmtpTime LT time =
     (case LT time of
        None \<Rightarrow> Inl (NawaException 1 ''Interpretation of UNIX timestamp failed.'')
      | Some (ltime, off) \<Rightarrow>
          Inr (getDayOfWeek (tm_wday ltime) @ '', '' @ pad_e (tm_mday ltime) @ '' '' @ getMonth (tm_mon ltime)
               @ '' '' @ dec_int (tm_year ltime) @ '' '' @ pad2 (tm_hour ltime) @ '':'' @ pad2 (tm_min ltime)
               @ '':'' @ pad2 (tm_sec ltime) @ '' '' @ zone_text off))"

definition substr2 :: "string \<Rightarrow> nat \<Rightarrow> string" where
  "substr2 s pos = take 2 (drop pos s)"

definition smtp_zone :: "string \<Rightarrow> int \<Rightarrow> int result" where
  "smtp_zone smtpTimeM unixTime =
     (if length smtpTimeM > 30 then
        (let tzAdjust = (if smtpTimeM ! 26 = CHR ''-'' then 1 else - 1) in
         case bind_result (stol 10 (substr2 smtpTimeM 27)) (\<lambda>tzH.
              bind_result (stol 10 (substr2 smtpTimeM 29)) (\<lambda>tzM.
                Inr (unixTime + tzAdjust * (tzH * 3600 + tzM * 60)))) of
           Inl InvalidArgument \<Rightarrow>
             Inl (NawaException 1 ''Timezone adjustment in parsing of SMTP timestamp failed.'')
         | r \<Rightarrow> r)
      else Inr unixTime)"

definition readSmtpTime :: "string \<Rightarrow> int result" where
  "readSmtpTime smtpTime =
     (let smtpTimeM = (if length smtpTime > 5 \<and> smtpTime ! 5 = CHR '' '' then smtpTime[5 := CHR ''0''] else smtpTime) in
      case get_date smtpTimeM of
        None \<Rightarrow> Inl (NawaException 1 ''Parsing of SMTP timestamp failed.'')
      | Some (timeStruct, _) \<Rightarrow>
          (let unixTime = timegm timeStruct in
           if unixTime = - 1
           then Inl (NawaException 1 ''Conversion of parsed SMTP timestamp to a UNIX timestamp failed.'')
           else smtp_zone smtpTimeM unixTime))"

section \<open>The round trip\<close>

lemma length_day: "w < 7 \<Longrightarrow> length (getDayOfWeek w) = 3"
  by (auto simp: getDayOfWeek_def less_Suc_eq numeral_eq_Suc)

lemma length_month: "m < 12 \<Longrightarrow> length (getMonth m) = 3"
  by (auto simp: getMonth_def less_Suc_eq numeral_eq_Suc)

lemma length_pad2 [simp]: "length (pad2 n) = 2"
  by (simp add: pad2_def)

lemma length_dec: "10 ^ k \<le> n \<Longrightarrow> n < 10 ^ Suc k \<Longrightarrow> length (dec n) = Suc k"
proof (induction k arbitrary: n)
  case 0
  then show ?case by (subst dec.simps) simp
next
  case (Suc k)
  then have "10 ^ k \<le> n div 10" "n div 10 < 10 ^ Suc k"
    by (simp_all add: less_eq_div_iff_mult_less_eq div_less_iff_less_mult mult.commute)
  moreover have "10 \<le> n"
  proof -
    have "1 \<le> (10 :: nat) ^ k" "10 * 10 ^ k \<le> n" using Suc.prems(1) by simp_all
    then show ?thesis by linarith
  qed
  ultimately show ?case using Suc.IH [of "n div 10"] by (subst dec.simps) simp
qed

text \<open>The space of \<^verbatim>\<open>%e\<close> is at position 5, and the repair puts a zero there.\<close>

lemma pad_e_repair:
  assumes "length D = 3" and "1 \<le> n" and "n \<le> 31"
  shows "(let s = D @ '', '' @ pad_e n @ r in if length s > 5 \<and> s ! 5 = CHR '' '' then s[5 := CHR ''0''] else s)
    = D @ '', '' @ pad2 n @ r"
proof -
  let ?P = "D @ '', ''"
  have P: "length ?P = 5" using assms(1) by simp
  have at: "(?P @ c # t) ! 5 = c" "(?P @ c # t)[5 := z] = ?P @ z # t" "5 < length (?P @ c # t)" for c t z
    unfolding nth_append list_update_append P using assms(1) by simp_all
  have "n div 10 < 10" using assms(3) by simp
  then have "code (digit_char (n div 10)) = 48 + n div 10" by (simp add: digit_char_def)
  then have ns: "digit_char (n div 10) \<noteq> CHR '' ''" by auto
  have zero: "digit_char 0 = CHR ''0''" by code_simp
  show ?thesis
  proof (cases "n < 10")
    case True
    then have t: "D @ '', '' @ pad_e n @ r = ?P @ CHR '' '' # digit_char n # r"
      "D @ '', '' @ pad2 n @ r = ?P @ CHR ''0'' # digit_char n # r" by (simp_all add: pad_e_def pad2_def zero)
    show ?thesis unfolding Let_def t at using assms(1) by simp
  next
    case False
    then have t: "D @ '', '' @ pad_e n @ r = ?P @ digit_char (n div 10) # digit_char (n mod 10) # r"
      "D @ '', '' @ pad2 n @ r = ?P @ digit_char (n div 10) # digit_char (n mod 10) # r"
      by (simp_all add: pad_e_def pad2_def)
    show ?thesis unfolding Let_def t at using ns by simp
  qed
qed

lemma stol_pad2: "n < 100 \<Longrightarrow> stol 10 (pad2 n) = Inr (int n)"
proof -
  assume n: "n < 100"
  then have d: "n div 10 < 10" "n mod 10 < 10" by simp_all
  have b: "base_digit 10 (digit_char (n div 10)) = Some (n div 10)" "base_digit 10 (digit_char (n mod 10)) = Some (n mod 10)"
    using d by (simp_all add: base_digit_digit_char)
  from base_digit_not_sign [of "digit_char (n div 10)"] b(1)
  have "parse_int 10 (pad2 n) = Some (False, n)"
    by (simp add: pad2_def parse_int_def skip_0x_def starts_digit_def Let_def b)
  with n show ?thesis by (simp add: stol_def)
qed

lemma smtp_zone_text:
  assumes P: "length P = 26" and off: "off mod 60 = 0" "\<bar>off\<bar> < 360000"
  shows "smtp_zone (P @ zone_text off) (t + off) = Inr t"
proof -
  let ?a = "nat \<bar>off\<bar>"
  have b: "?a div 3600 < 100" "?a div 60 mod 60 < 100" using off(2) by linarith+
  have d: "drop 27 (P @ c # r) = r" "drop 29 (P @ c # pad2 n @ r) = r" "(P @ c # r) ! 26 = c" for c r n
    using P by (simp_all add: nth_append)
  have "int (?a div 3600) * 3600 + int (?a div 60 mod 60) * 60 = \<bar>off\<bar>"
  proof -
    have "\<bar>off\<bar> mod 60 = 0" using off(1) by (auto simp: abs_if zmod_zminus1_eq_if)
    then obtain k where k: "\<bar>off\<bar> = 60 * k" by (metis mod_0_imp_dvd dvdE)
    then have "0 \<le> k" by linarith
    then have "?a = 60 * nat k" using k by (simp add: nat_mult_distrib)
    then have "?a div 3600 = nat k div 60" "?a div 60 mod 60 = nat k mod 60" by simp_all
    moreover have "int (nat k div 60) * 60 + int (nat k mod 60) = k" using \<open>0 \<le> k\<close>
      by (metis int_nat_eq of_nat_add of_nat_mult of_nat_numeral div_mult_mod_eq)
    ultimately show ?thesis using k by simp
  qed
  moreover have "take 2 (pad2 n @ r) = pad2 n" "take 2 (pad2 n) = pad2 n" for n r by simp_all
  ultimately show ?thesis using P b
    by (simp add: smtp_zone_def zone_text_def substr2_def d stol_pad2 Let_def split: if_splits)
qed

lemma readSmtpTime_makeSmtpTime:
  assumes LT: "local_time_ok LT t" "LT t = Some (x, off)" and year: "1000 \<le> tm_year x" "tm_year x \<le> 9999"
    and ne: "t + off \<noteq> - 1"
  shows "\<exists>s. makeSmtpTime LT t = Inr s \<and> length s = 31 \<and> readSmtpTime s = Inr t"
proof -
  have g: "gmtime (t + off) = Some x" and off: "off mod 60 = 0" "\<bar>off\<bar> < 360000"
    using LT by (simp_all add: local_time_ok_def)
  note f = gmtime_fields [OF g]
  let ?D = "getDayOfWeek (tm_wday x)" and ?z = "'' '' @ zone_text off"
  let ?r = "'' '' @ getMonth (tm_mon x) @ '' '' @ dec_int (tm_year x) @ '' '' @ pad2 (tm_hour x) @ '':''
    @ pad2 (tm_min x) @ '':'' @ pad2 (tm_sec x)"
  have "length (dec (nat (tm_year x))) = 4" using length_dec [of 3 "nat (tm_year x)"] year by simp
  then have len: "length ?D = 3" "length ?r = 18" using f year by (simp_all add: length_day length_month dec_int_def)
  let ?s = "?D @ '', '' @ pad_e (tm_mday x) @ ?r @ ?z" and ?s' = "?D @ '', '' @ pad2 (tm_mday x) @ ?r @ ?z"
  have "length (pad_e (tm_mday x)) = 2" "length (zone_text off) = 5"
    by (simp_all add: pad_e_def zone_text_def Let_def)
  then have l: "length ?s = 31" using len by simp
  have repaired: "(if length ?s > 5 \<and> ?s ! 5 = CHR '' '' then ?s[5 := CHR ''0''] else ?s) = ?s'"
    using pad_e_repair [OF len(1), of "tm_mday x" "?r @ ?z"] f by (simp only: Let_def)
  have date: "get_date ?s' = Some (x, ?z)"
    using get_date_written [OF g year, of ?z] by simp
  have "smtp_zone ?s' (t + off) = Inr t"
    using smtp_zone_text [OF _ off, of "?D @ '', '' @ pad2 (tm_mday x) @ ?r @ '' ''" t] len by simp
  then have "readSmtpTime ?s = Inr t"
    unfolding readSmtpTime_def repaired Let_def date using ne f(1) by simp
  moreover have "makeSmtpTime LT t = Inr ?s" using LT(2) by (simp add: makeSmtpTime_def)
  ultimately show ?thesis using l by blast
qed

end
