(* ===== verification/Smtp.thy ===== *)
theory Smtp
  imports Mail Smtp_Time
begin

text \<open>
  The mailer of \<^verbatim>\<open>src/mail/SmtpMailer.cpp\<close>. Emails, senders and replacement rules are shared objects:
  a pointer is a number, and \<open>objects\<close> maps the pointers to what they point to (a null pointer to
  nothing). libcurl is not part of the repository: the model keeps the calls the mailer makes on its
  handle, in order, and what \<^verbatim>\<open>curl_easy_perform\<close> answers to the calls made so far is the parameter
  \<open>perform\<close> (\<open>None\<close> for \<^verbatim>\<open>CURLE_OK\<close>, otherwise the text of \<^verbatim>\<open>curl_easy_strerror\<close>).
\<close>

section \<open>Shared objects and the system\<close>

type_synonym ref = nat

record objects =
  ob_emails :: "ref \<Rightarrow> email option"
  ob_addresses :: "ref \<Rightarrow> EmailAddress option"
  ob_rules :: "ref \<Rightarrow> rules option"

record smtp_os =
  so_time :: int
  so_clock :: "int \<times> int"
  so_localtime :: localtime
  so_md5 :: "string \<Rightarrow> string"
  so_random :: "nat \<Rightarrow> nat"

definition set_email :: "ref \<Rightarrow> email \<Rightarrow> objects \<Rightarrow> objects" where
  "set_email e em h = h\<lparr>ob_emails := (ob_emails h)(e \<mapsto> em)\<rparr>"

definition set_header :: "string \<Rightarrow> string \<Rightarrow> email \<Rightarrow> email" where
  "set_header k v em = em\<lparr>em_headers := umap_set k v (em_headers em)\<rparr>"

section \<open>Missing headers\<close>

definition add_date :: "smtp_os \<Rightarrow> email \<Rightarrow> email result" where
  "add_date os em =
     (if umap_has (em_headers em) ''Date'' then Inr em
      else bind_result (makeSmtpTime (so_localtime os) (so_time os)) (\<lambda>d. Inr (set_header ''Date'' d em)))"

definition add_from :: "EmailAddress option \<Rightarrow> email \<Rightarrow> email result" where
  "add_from from em =
     (if umap_has (em_headers em) ''From'' then Inr em
      else case from of
        None \<Rightarrow> Inl Undefined
      | Some a \<Rightarrow> if ea_address a = [] then Inr em
          else bind_result (EmailAddress_get a True True) (\<lambda>f. Inr (set_header ''From'' f em)))"

definition message_id :: "smtp_os \<Rightarrow> nat \<Rightarrow> string \<Rightarrow> nat \<Rightarrow> string" where
  "message_id os k address atPos =
     ''<'' @ md5 (so_md5 os) (dec_int (fst (so_clock os)) @ dec_int (snd (so_clock os)) @ address @ dec (so_random os k)) True
     @ ''@'' @ drop (atPos + 1) address @ ''>''"

definition add_message_id :: "smtp_os \<Rightarrow> nat \<Rightarrow> EmailAddress option \<Rightarrow> email \<Rightarrow> (email \<times> nat) result" where
  "add_message_id os k from em =
     (if umap_has (em_headers em) ''Message-ID'' then Inr (em, k)
      else case from of
        None \<Rightarrow> Inl Undefined
      | Some a \<Rightarrow>
          (case find_last_char (CHR ''@'') (ea_address a) of
             None \<Rightarrow> Inr (em, k)
           | Some atPos \<Rightarrow>
               Inr (set_header ''Message-ID'' (message_id os k (ea_address a) atPos) em, Suc k)))"

definition addMissingHeaders :: "smtp_os \<Rightarrow> ref \<Rightarrow> ref \<Rightarrow> objects \<Rightarrow> nat \<Rightarrow> unit result \<times> objects \<times> nat" where
  "addMissingHeaders os e from h k =
     (case ob_emails h e of
        None \<Rightarrow> (Inl Undefined, h, k)
      | Some em \<Rightarrow>
          (case add_date os em of
             Inl x \<Rightarrow> (Inl x, h, k)
           | Inr em1 \<Rightarrow>
               (case add_from (ob_addresses h from) em1 of
                  Inl x \<Rightarrow> (Inl x, set_email e em1 h, k)
                | Inr em2 \<Rightarrow>
                    (case add_message_id os k (ob_addresses h from) em2 of
                       Inl x \<Rightarrow> (Inl x, set_email e em2 h, k)
                     | Inr (em3, k') \<Rightarrow> (Inr (), set_email e em3 h, k')))))"

section \<open>The mailer and its queue\<close>

record QueueElem =
  qe_email :: ref
  qe_from :: ref
  qe_recipients :: "EmailAddress list"
  qe_replacementRules :: "ref option"

datatype TlsMode = TLS_NONE | SMTPS | TRY_STARTTLS | REQUIRE_STARTTLS

record SmtpMailer =
  sm_serverDomain :: string
  sm_serverPort :: nat
  sm_serverTlsMode :: TlsMode
  sm_verifyServerTlsCert :: bool
  sm_authUsername :: string
  sm_authPassword :: string
  sm_connectionTimeout :: int
  sm_queue :: "QueueElem list"

definition SmtpMailer_new :: "string \<Rightarrow> nat \<Rightarrow> TlsMode \<Rightarrow> bool \<Rightarrow> string \<Rightarrow> string \<Rightarrow> int \<Rightarrow> SmtpMailer" where
  "SmtpMailer_new domain port tls verify user password timeout =
     \<lparr>sm_serverDomain = domain, sm_serverPort = port, sm_serverTlsMode = tls, sm_verifyServerTlsCert = verify,
      sm_authUsername = user, sm_authPassword = password, sm_connectionTimeout = timeout, sm_queue = []\<rparr>"

definition setServer :: "string \<Rightarrow> nat \<Rightarrow> TlsMode \<Rightarrow> bool \<Rightarrow> SmtpMailer \<Rightarrow> SmtpMailer" where
  "setServer domain port tls verify m =
     m\<lparr>sm_serverDomain := domain, sm_serverPort := port, sm_serverTlsMode := tls, sm_verifyServerTlsCert := verify\<rparr>"

definition setAuth :: "string \<Rightarrow> string \<Rightarrow> SmtpMailer \<Rightarrow> SmtpMailer" where
  "setAuth user password m = m\<lparr>sm_authUsername := user, sm_authPassword := password\<rparr>"

definition setConnectionTimeout :: "int \<Rightarrow> SmtpMailer \<Rightarrow> SmtpMailer" where
  "setConnectionTimeout timeout m = m\<lparr>sm_connectionTimeout := timeout\<rparr>"

definition bulkEnqueue :: "smtp_os \<Rightarrow> ref \<Rightarrow> EmailAddress list \<Rightarrow> ref \<Rightarrow> ref option \<Rightarrow> SmtpMailer \<times> objects \<times> nat
    \<Rightarrow> unit result \<times> SmtpMailer \<times> objects \<times> nat" where
  "bulkEnqueue os e recipients from rules = (\<lambda>(m, h, k).
     case addMissingHeaders os e from h k of
       (Inl x, h', k') \<Rightarrow> (Inl x, m, h', k')
     | (Inr _, h', k') \<Rightarrow>
         (Inr (), m\<lparr>sm_queue := sm_queue m @ [\<lparr>qe_email = e, qe_from = from, qe_recipients = recipients,
            qe_replacementRules = rules\<rparr>]\<rparr>, h', k'))"

definition enqueue :: "smtp_os \<Rightarrow> ref \<Rightarrow> EmailAddress \<Rightarrow> ref \<Rightarrow> ref option \<Rightarrow> SmtpMailer \<times> objects \<times> nat
    \<Rightarrow> unit result \<times> SmtpMailer \<times> objects \<times> nat" where
  "enqueue os e to from rules = bulkEnqueue os e [to] from rules"

definition clearQueue :: "SmtpMailer \<Rightarrow> SmtpMailer" where
  "clearQueue m = m\<lparr>sm_queue := []\<rparr>"

section \<open>Sending\<close>

datatype usessl = USESSL_TRY | USESSL_ALL

datatype curl_call =
    USERNAME string | PASSWORD string | URL string | USE_SSL usessl | SSL_VERIFYPEER nat | SSL_VERIFYHOST nat
  | STDERR string | CONNECTTIMEOUT_MS int | MAIL_FROM string | MAIL_RCPT "string list" | READDATA string
  | UPLOAD nat | Perform | Cleanup

definition curl_setup :: "SmtpMailer \<Rightarrow> curl_call list" where
  "curl_setup m =
     (if sm_authUsername m \<noteq> [] then
        USERNAME (c_string (sm_authUsername m)) # (if sm_authPassword m \<noteq> [] then [PASSWORD (c_string (sm_authPassword m))] else [])
      else [])
     @ [URL (c_string ((if sm_serverTlsMode m = SMTPS then ''smtps://'' else ''smtp://'') @ sm_serverDomain m @ '':''
             @ dec (sm_serverPort m)))]
     @ (if sm_serverTlsMode m = REQUIRE_STARTTLS then [USE_SSL USESSL_ALL]
        else if sm_serverTlsMode m = TRY_STARTTLS then [USE_SSL USESSL_TRY] else [])
     @ (if sm_serverTlsMode m \<noteq> TLS_NONE \<and> \<not> sm_verifyServerTlsCert m
        then [SSL_VERIFYPEER 0, SSL_VERIFYHOST 0] else [])
     @ [STDERR ''/dev/null'', CONNECTTIMEOUT_MS (sm_connectionTimeout m)]"

fun get_all :: "EmailAddress list \<Rightarrow> string list result" where
  "get_all [] = Inr []"
| "get_all (a # as) =
     bind_result (EmailAddress_get a False True) (\<lambda>s. bind_result (get_all as) (\<lambda>ss. Inr (c_string s # ss)))"

text \<open>
  What one element of the queue sends: sender, recipients and source. The outcome \<open>None\<close> is a
  \<^verbatim>\<open>getRaw\<close> that does not return.
\<close>

definition from_calls :: "objects \<Rightarrow> QueueElem \<Rightarrow> string result" where
  "from_calls h q =
     (case ob_addresses h (qe_from q) of None \<Rightarrow> Inl Undefined
      | Some a \<Rightarrow> bind_result (EmailAddress_get a False True) (\<lambda>s. Inr (c_string s)))"

definition elem_raw :: "smtp_os \<Rightarrow> objects \<Rightarrow> QueueElem \<Rightarrow> nat \<Rightarrow> (string \<times> nat) option result" where
  "elem_raw os h q k =
     (case ob_emails h (qe_email q) of
        None \<Rightarrow> Inl Undefined
      | Some em \<Rightarrow> Inr (getRaw (so_md5 os) (so_random os) (Option.bind (qe_replacementRules q) (ob_rules h)) em k))"

text \<open>The loop over the queue: the calls made so far, the random numbers drawn, and the outcome.\<close>

fun send_queue :: "(curl_call list \<Rightarrow> string option) \<Rightarrow> smtp_os \<Rightarrow> objects \<Rightarrow> QueueElem list \<Rightarrow> curl_call list \<Rightarrow> nat
    \<Rightarrow> curl_call list \<times> nat \<times> unit result option" where
  "send_queue perform os h [] calls k = (calls @ [Cleanup], k, Some (Inr ()))"
| "send_queue perform os h (q # qs) calls k =
     (case from_calls h q of
        Inl x \<Rightarrow> (calls, k, Some (Inl x))
      | Inr from \<Rightarrow>
          (let calls = calls @ [MAIL_FROM from] in
           case get_all (qe_recipients q) of
             Inl x \<Rightarrow> (calls, k, Some (Inl x))
           | Inr rcpt \<Rightarrow>
               (let calls = calls @ [MAIL_RCPT rcpt] in
                case elem_raw os h q k of
                  Inl x \<Rightarrow> (calls, k, Some (Inl x))
                | Inr None \<Rightarrow> (calls, k, None)
                | Inr (Some (payload, k)) \<Rightarrow>
                    (let calls = calls @ [READDATA payload, UPLOAD 1, Perform] in
                     case perform calls of
                       None \<Rightarrow> send_queue perform os h qs calls k
                     | Some e \<Rightarrow> (calls @ [Cleanup], k, Some (Inl (NawaException 1 (''CURL error: '' @ e))))))))"

text \<open>\<open>init\<close> tells whether \<^verbatim>\<open>curl_easy_init\<close> returned a handle.\<close>

definition processQueue :: "bool \<Rightarrow> (curl_call list \<Rightarrow> string option) \<Rightarrow> smtp_os \<Rightarrow> objects \<Rightarrow> SmtpMailer \<Rightarrow> nat
    \<Rightarrow> curl_call list \<times> nat \<times> unit result option" where
  "processQueue init perform os h m k =
     (if init then send_queue perform os h (sm_queue m) (curl_setup m) k else ([], k, Some (Inr ())))"

section \<open>What the server sees\<close>

text \<open>
  The specification. An envelope is sender, recipients and source; \<open>envelopes\<close> are those of the whole
  queue. \<open>curl_handle\<close> holds the options of a libcurl handle, which stay set from one transfer to the
  next, and \<open>transfers\<close> lists the options in force at each transfer of a sequence of calls. \<open>server_options\<close>
  says which options the configuration of the mailer asks for.
\<close>

type_synonym envelope = "string \<times> string list \<times> string"

fun envelopes :: "smtp_os \<Rightarrow> objects \<Rightarrow> QueueElem list \<Rightarrow> nat \<Rightarrow> envelope list option" where
  "envelopes os h [] k = Some []"
| "envelopes os h (q # qs) k =
     (case (from_calls h q, get_all (qe_recipients q), elem_raw os h q k) of
        (Inr from, Inr rcpt, Inr (Some (payload, k'))) \<Rightarrow>
          map_option (\<lambda>es. (from, rcpt, payload) # es) (envelopes os h qs k')
      | _ \<Rightarrow> None)"

record curl_handle =
  ch_user :: "string option"
  ch_password :: "string option"
  ch_url :: "string option"
  ch_ssl :: "usessl option"
  ch_verify_peer :: bool
  ch_verify_host :: bool
  ch_timeout :: "int option"
  ch_envelope :: envelope
  ch_upload :: bool

definition fresh_handle :: curl_handle where
  "fresh_handle = \<lparr>ch_user = None, ch_password = None, ch_url = None, ch_ssl = None, ch_verify_peer = True,
     ch_verify_host = True, ch_timeout = None, ch_envelope = ([], [], []), ch_upload = False\<rparr>"

fun setopt :: "curl_call \<Rightarrow> curl_handle \<Rightarrow> curl_handle" where
  "setopt (USERNAME s) c = c\<lparr>ch_user := Some s\<rparr>"
| "setopt (PASSWORD s) c = c\<lparr>ch_password := Some s\<rparr>"
| "setopt (URL s) c = c\<lparr>ch_url := Some s\<rparr>"
| "setopt (USE_SSL s) c = c\<lparr>ch_ssl := Some s\<rparr>"
| "setopt (SSL_VERIFYPEER n) c = c\<lparr>ch_verify_peer := n \<noteq> 0\<rparr>"
| "setopt (SSL_VERIFYHOST n) c = c\<lparr>ch_verify_host := n \<noteq> 0\<rparr>"
| "setopt (CONNECTTIMEOUT_MS t) c = c\<lparr>ch_timeout := Some t\<rparr>"
| "setopt (MAIL_FROM f) c = c\<lparr>ch_envelope := (f, snd (ch_envelope c))\<rparr>"
| "setopt (MAIL_RCPT r) c = c\<lparr>ch_envelope := (fst (ch_envelope c), r, snd (snd (ch_envelope c)))\<rparr>"
| "setopt (READDATA d) c = c\<lparr>ch_envelope := (fst (ch_envelope c), fst (snd (ch_envelope c)), d)\<rparr>"
| "setopt (UPLOAD n) c = c\<lparr>ch_upload := n \<noteq> 0\<rparr>"
| "setopt (STDERR f) c = c"
| "setopt Perform c = c"
| "setopt Cleanup c = c"

fun transfers :: "curl_handle \<Rightarrow> curl_call list \<Rightarrow> curl_handle list" where
  "transfers c [] = []"
| "transfers c (x # xs) = (if x = Perform then [c] else []) @ transfers (setopt x c) xs"

text \<open>What \<open>perform\<close> answered to each transfer of the calls that follow the calls \<open>pre\<close>.\<close>

fun answers :: "(curl_call list \<Rightarrow> string option) \<Rightarrow> curl_call list \<Rightarrow> curl_call list \<Rightarrow> string option list" where
  "answers perform pre [] = []"
| "answers perform pre (x # xs) =
     (if x = Perform then [perform (pre @ [x])] else []) @ answers perform (pre @ [x]) xs"

definition server_options :: "SmtpMailer \<Rightarrow> curl_handle" where
  "server_options m =
     \<lparr>ch_user = (if sm_authUsername m = [] then None else Some (c_string (sm_authUsername m))),
      ch_password = (if sm_authUsername m = [] \<or> sm_authPassword m = [] then None else Some (c_string (sm_authPassword m))),
      ch_url = Some (c_string ((case sm_serverTlsMode m of SMTPS \<Rightarrow> ''smtps'' | _ \<Rightarrow> ''smtp'') @ ''://''
        @ sm_serverDomain m @ '':'' @ dec (sm_serverPort m))),
      ch_ssl = (case sm_serverTlsMode m of REQUIRE_STARTTLS \<Rightarrow> Some USESSL_ALL | TRY_STARTTLS \<Rightarrow> Some USESSL_TRY
        | _ \<Rightarrow> None),
      ch_verify_peer = (sm_serverTlsMode m = TLS_NONE \<or> sm_verifyServerTlsCert m),
      ch_verify_host = (sm_serverTlsMode m = TLS_NONE \<or> sm_verifyServerTlsCert m),
      ch_timeout = Some (sm_connectionTimeout m), ch_envelope = ([], [], []), ch_upload = False\<rparr>"

definition with_envelope :: "curl_handle \<Rightarrow> envelope \<Rightarrow> curl_handle" where
  "with_envelope c e = c\<lparr>ch_envelope := e, ch_upload := True\<rparr>"

definition delivery :: "SmtpMailer \<Rightarrow> envelope \<Rightarrow> curl_handle" where
  "delivery m e = with_envelope (server_options m) e"

text \<open>The answers of a run that stopped at the first failure, or sent everything.\<close>

fun stops_right :: "string option list \<Rightarrow> nat \<Rightarrow> unit result \<Rightarrow> bool" where
  "stops_right as len (Inr _) \<longleftrightarrow> as = replicate len None"
| "stops_right as len (Inl x) \<longleftrightarrow>
     as \<noteq> [] \<and> butlast as = replicate (length as - 1) None
     \<and> (case last as of None \<Rightarrow> False | Some e \<Rightarrow> x = NawaException 1 (''CURL error: '' @ e))"

lemma transfers_append: "transfers c (xs @ ys) = transfers c xs @ transfers (fold setopt xs c) ys"
  by (induction xs arbitrary: c) auto

lemma answers_append: "answers p pre (xs @ ys) = answers p pre xs @ answers p (pre @ xs) ys"
  by (induction xs arbitrary: pre) auto

lemma with_envelope_again [simp]: "with_envelope (with_envelope c e) e' = with_envelope c e'"
  by (simp add: with_envelope_def)

definition elem_calls :: "envelope \<Rightarrow> curl_call list" where
  "elem_calls e = [MAIL_FROM (fst e), MAIL_RCPT (fst (snd e)), READDATA (snd (snd e)), UPLOAD 1, Perform]"

lemma elem_calls_replay:
  "transfers c (elem_calls e) = [with_envelope c e]" "fold setopt (elem_calls e) c = with_envelope c e"
  "answers p pre (elem_calls e) = [p (pre @ elem_calls e)]"
  by (simp_all add: elem_calls_def with_envelope_def)

lemma setup_replay:
  "transfers fresh_handle (curl_setup m) = []" "fold setopt (curl_setup m) fresh_handle = server_options m"
  "answers p pre (curl_setup m) = []"
  by (simp_all add: curl_setup_def fresh_handle_def server_options_def split: TlsMode.split)

lemma send_step:
  assumes "envelopes os h (q # qs) k = Some es"
  obtains e es' k' where "es = e # es'" "envelopes os h qs k' = Some es'"
    "send_queue p os h (q # qs) calls k =
       (let calls = calls @ elem_calls e in
        case p calls of
          None \<Rightarrow> send_queue p os h qs calls k'
        | Some x \<Rightarrow> (calls @ [Cleanup], k', Some (Inl (NawaException 1 (''CURL error: '' @ x)))))"
proof -
  from assms obtain f r d k' es' where
    "from_calls h q = Inr f" "get_all (qe_recipients q) = Inr r" "elem_raw os h q k = Inr (Some (d, k'))"
    "envelopes os h qs k' = Some es'" "es = (f, r, d) # es'"
    by (auto split: sum.splits option.splits prod.splits)
  then show thesis
    by (intro that [of "(f, r, d)" es' k']) (simp_all add: Let_def elem_calls_def split: option.split)
qed

lemma send_queue_refines:
  assumes "envelopes os h qs k = Some es"
  shows "\<exists>new n k' out. send_queue p os h qs calls k = (calls @ new @ [Cleanup], k', Some out)
    \<and> n \<le> length es \<and> (\<forall>c. transfers c new = map (with_envelope c) (take n es))
    \<and> stops_right (answers p calls new) (length es) out"
  using assms
proof (induction qs arbitrary: k es calls)
  case Nil
  then show ?case by (intro exI [of _ "[]"] exI [of _ 0] exI [of _ k] exI [of _ "Inr ()"]) simp
next
  case (Cons q qs)
  obtain e es' k' where es: "es = e # es'" "envelopes os h qs k' = Some es'"
    and run: "send_queue p os h (q # qs) calls k =
       (let calls = calls @ elem_calls e in
        case p calls of
          None \<Rightarrow> send_queue p os h qs calls k'
        | Some x \<Rightarrow> (calls @ [Cleanup], k', Some (Inl (NawaException 1 (''CURL error: '' @ x)))))"
    using send_step [OF Cons.prems, of p calls] by blast
  show ?case
  proof (cases "p (calls @ elem_calls e)")
    case (Some x)
    with run es show ?thesis
      by (intro exI [of _ "elem_calls e"] exI [of _ 1] exI [of _ k']
          exI [of _ "Inl (NawaException 1 (''CURL error: '' @ x))"]) (simp add: Let_def elem_calls_replay)
  next
    case None
    from Cons.IH [OF es(2), of "calls @ elem_calls e"] obtain new n k'' out where
      r: "send_queue p os h qs (calls @ elem_calls e) k' = ((calls @ elem_calls e) @ new @ [Cleanup], k'', Some out)"
      "n \<le> length es'" "\<forall>c. transfers c new = map (with_envelope c) (take n es')"
      "stops_right (answers p (calls @ elem_calls e) new) (length es') out" by blast
    have "stops_right (None # answers p (calls @ elem_calls e) new) (length es) out"
      using r(4) es(1) by (cases out) (auto simp: replicate_Suc [symmetric] simp del: replicate_Suc)
    with run None r es(1) show ?thesis
      by (intro exI [of _ "elem_calls e @ new"] exI [of _ "Suc n"] exI [of _ k''] exI [of _ out])
        (simp add: Let_def elem_calls_replay transfers_append answers_append)
  qed
qed

lemma processQueue_refines:
  assumes "envelopes os h (sm_queue m) k = Some es"
  shows "\<exists>calls n k' out. processQueue True p os h m k = (calls @ [Cleanup], k', Some out)
    \<and> n \<le> length es \<and> transfers fresh_handle calls = map (delivery m) (take n es)
    \<and> stops_right (answers p [] calls) (length es) out"
proof -
  have d: "delivery m = with_envelope (server_options m)" by (simp add: delivery_def fun_eq_iff)
  from send_queue_refines [OF assms, of p "curl_setup m"] show ?thesis
    unfolding processQueue_def if_P [OF TrueI] d
    by (metis append_assoc transfers_append answers_append setup_replay append_Nil)
qed

text \<open>Every transfer runs under the TLS mode of the mailer, and checks certificates unless told not to.\<close>

lemma delivery_tls:
  "sm_serverTlsMode m = REQUIRE_STARTTLS \<Longrightarrow> ch_ssl (delivery m e) = Some USESSL_ALL"
  "sm_verifyServerTlsCert m \<Longrightarrow> ch_verify_peer (delivery m e) \<and> ch_verify_host (delivery m e)"
  "ch_envelope (delivery m e) = e" "ch_upload (delivery m e)"
  by (simp_all add: delivery_def with_envelope_def server_options_def)

section \<open>Queueing an email\<close>

lemma set_header_get [simp]:
  "umap_get (em_headers (set_header k v em)) = (umap_get (em_headers em))(k \<mapsto> v)" "em_body (set_header k v em) = em_body em"
  by (simp_all add: set_header_def um.get_put)

text \<open>A step that only adds headers that are missing.\<close>

definition extends_email :: "email \<Rightarrow> email \<Rightarrow> bool" where
  "extends_email em em' \<longleftrightarrow> em_body em' = em_body em
     \<and> (\<forall>n v. umap_get (em_headers em) n = Some v \<longrightarrow> umap_get (em_headers em') n = Some v)"

lemma extends_email_refl [simp]: "extends_email em em"
  by (simp add: extends_email_def)

lemma extends_email_trans: "extends_email a b \<Longrightarrow> extends_email b c \<Longrightarrow> extends_email a c"
  by (simp add: extends_email_def)

lemma extends_set_header: "\<not> umap_has (em_headers em) k \<Longrightarrow> extends_email em (set_header k v em)"
  by (auto simp: extends_email_def umap_has_def)

lemma extends_has: "extends_email em em' \<Longrightarrow> umap_has (em_headers em) n \<Longrightarrow> umap_has (em_headers em') n"
  by (auto simp: extends_email_def umap_has_def)

lemma add_date_adds: "add_date os em = Inr em' \<Longrightarrow> extends_email em em' \<and> umap_has (em_headers em') ''Date''"
  by (auto simp: add_date_def extends_set_header umap_has_def split: if_splits)

lemma add_from_adds:
  "add_from a em = Inr em' \<Longrightarrow> extends_email em em' \<and>
     (\<forall>x. a = Some x \<and> ea_address x \<noteq> [] \<longrightarrow> umap_has (em_headers em') ''From'')"
  by (auto simp: add_from_def extends_set_header umap_has_def split: if_splits option.splits)

lemma add_message_id_adds:
  "add_message_id os k a em = Inr (em', k') \<Longrightarrow> extends_email em em' \<and>
     (\<forall>x. a = Some x \<and> find_last_char (CHR ''@'') (ea_address x) \<noteq> None \<longrightarrow> umap_has (em_headers em') ''Message-ID'')"
  by (auto simp: add_message_id_def extends_set_header umap_has_def split: if_splits option.splits)

text \<open>What \<^verbatim>\<open>addMissingHeaders\<close> did, whether it threw or not.\<close>

lemma addMissingHeaders_effect:
  assumes "addMissingHeaders os e from h k = (r, h', k')" and "ob_emails h e = Some em"
  shows "\<exists>em'. h' = set_email e em' h \<and> extends_email em em'
    \<and> (r = Inr () \<longrightarrow> umap_has (em_headers em') ''Date''
         \<and> (\<forall>a. ob_addresses h from = Some a \<longrightarrow>
              (ea_address a \<noteq> [] \<longrightarrow> umap_has (em_headers em') ''From'')
              \<and> (find_last_char (CHR ''@'') (ea_address a) \<noteq> None \<longrightarrow> umap_has (em_headers em') ''Message-ID'')))"
proof -
  have same: "h = set_email e em h" using assms(2) by (simp add: set_email_def fun_upd_idem)
  show ?thesis
  proof (cases "add_date os em")
    case (Inl x)
    with assms have "r = Inl x" "h' = h" by (simp_all add: addMissingHeaders_def)
    with same show ?thesis by (intro exI [of _ em]) simp
  next
    case d: (Inr em1)
    note d1 = add_date_adds [OF d]
    show ?thesis
    proof (cases "add_from (ob_addresses h from) em1")
      case (Inl x)
      with d assms d1 show ?thesis by (intro exI [of _ em1]) (auto simp: addMissingHeaders_def)
    next
      case f: (Inr em2)
      note f1 = add_from_adds [OF f]
      show ?thesis
      proof (cases "add_message_id os k (ob_addresses h from) em2")
        case (Inl x)
        with d f assms d1 f1 show ?thesis
          by (intro exI [of _ em2]) (auto simp: addMissingHeaders_def intro: extends_email_trans)
      next
        case m: (Inr p)
        obtain em3 k3 where p: "p = (em3, k3)" by fastforce
        note m1 = add_message_id_adds [OF m [unfolded p]]
        from d f m p assms have "r = Inr ()" "h' = set_email e em3 h" by (simp_all add: addMissingHeaders_def)
        moreover have "extends_email em em3" using d1 f1 m1 extends_email_trans by blast
        moreover have "umap_has (em_headers em3) n" if "umap_has (em_headers em2) n" for n
          using m1 that extends_has by blast
        moreover have "umap_has (em_headers em2) ''Date''" using d1 f1 extends_has by blast
        ultimately show ?thesis using f1 m1 by (intro exI [of _ em3]) simp
      qed
    qed
  qed
qed

lemma bulkEnqueue_effect:
  assumes "bulkEnqueue os e recipients from rules (m, h, k) = (r, m', h', k')" and "ob_emails h e = Some em"
  shows "\<exists>em'. h' = set_email e em' h \<and> extends_email em em'
    \<and> (case r of
         Inl x \<Rightarrow> m' = m
       | Inr _ \<Rightarrow> m' = m\<lparr>sm_queue := sm_queue m @ [\<lparr>qe_email = e, qe_from = from, qe_recipients = recipients,
                    qe_replacementRules = rules\<rparr>]\<rparr>
           \<and> umap_has (em_headers em') ''Date''
           \<and> (\<forall>a. ob_addresses h from = Some a \<longrightarrow>
                (ea_address a \<noteq> [] \<longrightarrow> umap_has (em_headers em') ''From'')
                \<and> (find_last_char (CHR ''@'') (ea_address a) \<noteq> None \<longrightarrow> umap_has (em_headers em') ''Message-ID'')))"
proof -
  obtain s h1 k1 where a: "addMissingHeaders os e from h k = (s, h1, k1)" by (metis prod_cases3)
  from addMissingHeaders_effect [OF a assms(2)] obtain em' where em': "h1 = set_email e em' h" "extends_email em em'"
    "s = Inr () \<longrightarrow> umap_has (em_headers em') ''Date''
         \<and> (\<forall>a. ob_addresses h from = Some a \<longrightarrow>
              (ea_address a \<noteq> [] \<longrightarrow> umap_has (em_headers em') ''From'')
              \<and> (find_last_char (CHR ''@'') (ea_address a) \<noteq> None \<longrightarrow> umap_has (em_headers em') ''Message-ID''))" by blast
  with assms(1) a show ?thesis by (intro exI [of _ em']) (cases s; auto simp: bulkEnqueue_def)
qed

end
