(* ===== verification/Blowfish.thy ===== *)
theory Blowfish
  imports Bf_Tables
begin

text \<open>
  The vendored bcrypt implementation (\<^verbatim>\<open>libs/libbcrypt/crypt_blowfish/crypt_blowfish.c\<close>), as it is
  compiled for a little-endian machine without the assembler version of \<^verbatim>\<open>BF_body\<close>. A C string is
  its characters without the terminating null; reading at or past its end gives the null. Passwords
  and settings hold no null characters. The four S-boxes lie behind one another in memory.
\<close>

unbundle bit_operations_syntax

section \<open>Bytes and words\<close>

definition char_at :: "string \<Rightarrow> nat \<Rightarrow> char" where
  "char_at s i = (if i < length s then s ! i else CHR 0x00)"

text \<open>The memory view of words on a little-endian machine.\<close>

definition le_word :: "nat list \<Rightarrow> BF_word" where
  "le_word bs = of_nat (bs ! 0) OR push_bit 8 (of_nat (bs ! 1)) OR push_bit 16 (of_nat (bs ! 2)) OR push_bit 24 (of_nat (bs ! 3))"

definition le_bytes :: "BF_word \<Rightarrow> nat list" where
  "le_bytes w = map (\<lambda>k. unat (drop_bit (8 * k) w AND 0xFF)) [0..<4]"

definition BF_swap :: "BF_word \<Rightarrow> BF_word" where
  "BF_swap x =
     (let tmp = push_bit 16 x OR drop_bit 16 x
      in push_bit 8 (tmp AND 0x00FF00FF) OR (drop_bit 8 tmp AND 0x00FF00FF))"

section \<open>The encoding\<close>

definition BF_safe_atoi64 :: "char \<Rightarrow> nat option" where
  "BF_safe_atoi64 src =
     (let tmp = of_char src :: nat in
      if tmp < 0x20 \<or> 0x60 \<le> tmp - 0x20 then None
      else
        let tmp = BF_atoi64 ! (tmp - 0x20) in
        if tmp > 63 then None else Some tmp)"

text \<open>\<^verbatim>\<open>BF_safe_atoi64(c, *sptr++)\<close>: the value and the rest of the string.\<close>

definition next_atoi64 :: "string \<Rightarrow> (nat \<times> string) option" where
  "next_atoi64 sptr = map_option (\<lambda>c. (c, tl sptr)) (BF_safe_atoi64 (char_at sptr 0))"

function BF_decode :: "string \<Rightarrow> nat \<Rightarrow> nat list option" where
  "BF_decode sptr sz =
     Option.bind (next_atoi64 sptr) (\<lambda>(c1, sptr). Option.bind (next_atoi64 sptr) (\<lambda>(c2, sptr).
       let d1 = push_bit 2 c1 OR drop_bit 4 (c2 AND 0x30) in
       if sz \<le> 1 then Some [d1]
       else Option.bind (next_atoi64 sptr) (\<lambda>(c3, sptr).
         let d2 = push_bit 4 (c2 AND 0x0F) OR drop_bit 2 (c3 AND 0x3C) in
         if sz \<le> 2 then Some [d1, d2]
         else Option.bind (next_atoi64 sptr) (\<lambda>(c4, sptr).
           let d3 = push_bit 6 (c3 AND 0x03) OR c4 in
           if sz \<le> 3 then Some [d1, d2, d3]
           else map_option (\<lambda>ds. d1 # d2 # d3 # ds) (BF_decode sptr (sz - 3))))))"
  by pat_completeness auto
termination by (relation "measure snd") auto

declare BF_decode.simps [simp del]

fun BF_encode :: "nat list \<Rightarrow> string" where
  "BF_encode [] = []"
| "BF_encode [c1] = [BF_itoa64 ! drop_bit 2 c1, BF_itoa64 ! push_bit 4 (c1 AND 0x03)]"
| "BF_encode [c1, c2] =
     [BF_itoa64 ! drop_bit 2 c1, BF_itoa64 ! (push_bit 4 (c1 AND 0x03) OR drop_bit 4 c2),
      BF_itoa64 ! push_bit 2 (c2 AND 0x0f)]"
| "BF_encode (c1 # c2 # c3 # sptr) =
     [BF_itoa64 ! drop_bit 2 c1, BF_itoa64 ! (push_bit 4 (c1 AND 0x03) OR drop_bit 4 c2),
      BF_itoa64 ! (push_bit 2 (c2 AND 0x0f) OR drop_bit 6 c3), BF_itoa64 ! (c3 AND 0x3f)] @ BF_encode sptr"

section \<open>Encryption\<close>

record BF_ctx =
  bf_S :: "BF_word list"
  bf_P :: "BF_word list"

definition BF_init_S :: "BF_word list" where
  "BF_init_S = BF_init_S0 @ BF_init_S1 @ BF_init_S2 @ BF_init_S3"

definition BF_ROUND :: "BF_ctx \<Rightarrow> BF_word \<Rightarrow> BF_word \<Rightarrow> nat \<Rightarrow> BF_word" where
  "BF_ROUND ctx L R N =
     (let S = (\<lambda>i x. bf_S ctx ! (0x100 * i + unat (x :: BF_word)));
          tmp1 = L AND 0xFF;
          tmp2 = drop_bit 8 L AND 0xFF;
          tmp3 = drop_bit 16 L AND 0xFF;
          tmp4 = drop_bit 24 L;
          tmp1 = S 3 tmp1;
          tmp2 = S 2 tmp2;
          tmp3 = S 1 tmp3 + S 0 tmp4;
          tmp3 = tmp3 XOR tmp2;
          R = R XOR bf_P ctx ! (N + 1);
          tmp3 = tmp3 + tmp1
      in R XOR tmp3)"

text \<open>
  The build chooses between two forms of the round. On machines without scaled addressing the
  index is a byte offset, a multiple of 4, into an S-box.
\<close>

definition BF_INDEX :: "BF_ctx \<Rightarrow> nat \<Rightarrow> BF_word \<Rightarrow> BF_word" where
  "BF_INDEX ctx k i = bf_S ctx ! (0x100 * k + unat i div 4)"

definition BF_ROUND_unscaled :: "BF_ctx \<Rightarrow> BF_word \<Rightarrow> BF_word \<Rightarrow> nat \<Rightarrow> BF_word" where
  "BF_ROUND_unscaled ctx L R N =
     (let tmp1 = push_bit 2 (L AND 0xFF);
          tmp2 = drop_bit 6 L AND 0x3FC;
          tmp3 = drop_bit 14 L AND 0x3FC;
          tmp4 = drop_bit 22 L AND 0x3FC;
          tmp1 = BF_INDEX ctx 3 tmp1;
          tmp2 = BF_INDEX ctx 2 tmp2;
          tmp3 = BF_INDEX ctx 1 tmp3 + BF_INDEX ctx 0 tmp4;
          tmp3 = tmp3 XOR tmp2;
          R = R XOR bf_P ctx ! (N + 1);
          tmp3 = tmp3 + tmp1
      in R XOR tmp3)"

lemma quarter: "unat w div 4 = unat (drop_bit 2 (w :: BF_word))"
  by (simp only: unat_drop_bit_eq drop_bit_eq_div [of 2 "unat w"]) simp

lemma unscaled_offsets:
  fixes L :: BF_word
  shows "drop_bit 2 (push_bit 2 (L AND 0xFF)) = L AND 0xFF"
    and "drop_bit 2 (drop_bit 6 L AND 0x3FC) = drop_bit 8 L AND 0xFF"
    and "drop_bit 2 (drop_bit 14 L AND 0x3FC) = drop_bit 16 L AND 0xFF"
    and "drop_bit 2 (drop_bit 22 L AND 0x3FC) = drop_bit 24 L"
proof -
  have m: "(0xFF :: BF_word) = mask 8" "(0x3FC :: BF_word) = push_bit 2 (mask 8)"
    by (simp_all add: mask_eq_decr_exp)
  show "drop_bit 2 (push_bit 2 (L AND 0xFF)) = L AND 0xFF"
     "drop_bit 2 (drop_bit 6 L AND 0x3FC) = drop_bit 8 L AND 0xFF"
     "drop_bit 2 (drop_bit 14 L AND 0x3FC) = drop_bit 16 L AND 0xFF"
    "drop_bit 2 (drop_bit 22 L AND 0x3FC) = drop_bit 24 L"
    unfolding m
    by (rule bit_word_eqI; auto simp: bit_simps dest: bit_imp_le_length; fail)+
qed

lemma BF_ROUND_unscaled: "BF_ROUND_unscaled = BF_ROUND"
  by (intro ext) (unfold BF_ROUND_unscaled_def BF_ROUND_def BF_INDEX_def Let_def quarter unscaled_offsets, simp)

definition BF_ENCRYPT :: "BF_ctx \<Rightarrow> BF_word \<times> BF_word \<Rightarrow> BF_word \<times> BF_word" where
  "BF_ENCRYPT ctx = (\<lambda>(L, R).
     let (L, R) = fold (\<lambda>N (L, R). if even N then (L, BF_ROUND ctx L R N) else (BF_ROUND ctx R L N, R))
           [0..<16] (L XOR bf_P ctx ! 0, R)
     in (R XOR bf_P ctx ! 17, L))"

text \<open>One step of the loops that overwrite the subkeys and the S-boxes, two words at a time.\<close>

definition set_P :: "nat \<Rightarrow> BF_word \<times> BF_word \<Rightarrow> BF_ctx \<Rightarrow> BF_ctx" where
  "set_P i = (\<lambda>(L, R) ctx. ctx\<lparr>bf_P := (bf_P ctx)[i := L, i + 1 := R]\<rparr>)"

definition set_S :: "nat \<Rightarrow> BF_word \<times> BF_word \<Rightarrow> BF_ctx \<Rightarrow> BF_ctx" where
  "set_S i = (\<lambda>(L, R) ctx. ctx\<lparr>bf_S := (bf_S ctx)[i := L, i + 1 := R]\<rparr>)"

definition BF_body :: "BF_ctx \<Rightarrow> BF_ctx" where
  "BF_body ctx =
     (let step = (\<lambda>set i (lr, ctx). let lr = BF_ENCRYPT ctx lr in (lr, set i lr ctx));
          st = fold (\<lambda>k. step set_P (2 * k)) [0..<9] ((0, 0), ctx);
          st = fold (\<lambda>k. step set_S (2 * k)) [0..<512] st
      in snd st)"

section \<open>The key\<close>

text \<open>\<^verbatim>\<open>ptr\<close> is what is left of the key; behind its null character it starts again.\<close>

definition set_key_char :: "string \<Rightarrow> nat \<Rightarrow> string \<times> BF_word \<times> BF_word \<times> BF_word \<Rightarrow> string \<times> BF_word \<times> BF_word \<times> BF_word" where
  "set_key_char key j = (\<lambda>(ptr, tmp0, tmp1, sign).
     let c = char_at ptr 0;
         tmp0 = push_bit 8 tmp0 OR of_char c;
         tmp1 = push_bit 8 tmp1 OR scast (of_char c :: 8 word);
         sign = (if j \<noteq> 0 then sign OR (tmp1 AND 0x80) else sign)
     in (if c = CHR 0x00 then key else tl ptr, tmp0, tmp1, sign))"

record key_state =
  ks_ptr :: string
  ks_sign :: BF_word
  ks_diff :: BF_word
  ks_expanded :: "BF_word list"
  ks_initial :: "BF_word list"

definition set_key_word :: "string \<Rightarrow> bool \<Rightarrow> nat \<Rightarrow> key_state \<Rightarrow> key_state" where
  "set_key_word key bug i st =
     (let (ptr, tmp0, tmp1, sign) = fold (set_key_char key) [0..<4] (ks_ptr st, 0, 0, ks_sign st);
          tmp = (if bug then tmp1 else tmp0)
      in \<lparr>ks_ptr = ptr, ks_sign = sign, ks_diff = ks_diff st OR (tmp0 XOR tmp1),
          ks_expanded = ks_expanded st @ [tmp], ks_initial = ks_initial st @ [BF_init_P ! i XOR tmp]\<rparr>)"

text \<open>The result is the pair \<^verbatim>\<open>expanded\<close> and \<^verbatim>\<open>initial\<close>.\<close>

definition BF_set_key :: "string \<Rightarrow> BF_word \<Rightarrow> BF_word list \<times> BF_word list" where
  "BF_set_key key flags =
     (let bug = flags AND 1 \<noteq> 0;
          safety = push_bit 15 (flags AND 2);
          st = fold (set_key_word key bug) [0..<18]
            \<lparr>ks_ptr = key, ks_sign = 0, ks_diff = 0, ks_expanded = [], ks_initial = []\<rparr>;
          diff = ks_diff st;
          diff = diff OR drop_bit 16 diff;
          diff = diff AND 0xffff;
          diff = diff + 0xffff;
          sign = push_bit 9 (ks_sign st) AND (NOT diff AND safety)
      in (ks_expanded st, (ks_initial st)[0 := ks_initial st ! 0 XOR sign]))"

section \<open>Hashing\<close>

definition flags_by_subtype :: "BF_word list" where
  "flags_by_subtype = [2, 4, 0, 0, 0, 0, 0, 0, 0, 0, 0, 0, 0, 0, 0, 0, 0, 0, 0, 0, 0, 0, 0, 1, 4, 0]"

definition subtype_flags :: "string \<Rightarrow> BF_word" where
  "subtype_flags setting = flags_by_subtype ! (of_char (char_at setting 2) - of_char (CHR ''a''))"

definition setting_ok :: "string \<Rightarrow> bool" where
  "setting_ok setting \<longleftrightarrow>
     \<not> (char_at setting 0 \<noteq> CHR ''$'' \<or> char_at setting 1 \<noteq> CHR ''2''
        \<or> char_at setting 2 < CHR ''a'' \<or> char_at setting 2 > CHR ''z''
        \<or> subtype_flags setting = 0
        \<or> char_at setting 3 \<noteq> CHR ''$''
        \<or> char_at setting 4 < CHR ''0'' \<or> char_at setting 4 > CHR ''3''
        \<or> char_at setting 5 < CHR ''0'' \<or> char_at setting 5 > CHR ''9''
        \<or> (char_at setting 4 = CHR ''3'' \<and> char_at setting 5 > CHR ''1'')
        \<or> char_at setting 6 \<noteq> CHR ''$'')"

definition setting_count :: "string \<Rightarrow> nat" where
  "setting_count setting =
     2 ^ ((of_char (char_at setting 4) - of_char (CHR ''0'')) * 10 + (of_char (char_at setting 5) - of_char (CHR ''0'')))"

text \<open>The state before the main loop: subkeys and S-boxes, mixed with the salt.\<close>

definition salted_state :: "BF_word list \<Rightarrow> BF_word list \<Rightarrow> BF_ctx" where
  "salted_state salt initial =
     (let mix = (\<lambda>k (L, R). (L XOR salt ! k, R XOR salt ! (k + 1)));
          step = (\<lambda>k set i (lr, ctx). let lr = BF_ENCRYPT ctx (mix k lr) in (lr, set i lr ctx));
          st = ((0, 0), \<lparr>bf_S = BF_init_S, bf_P = initial\<rparr>);
          st = fold (\<lambda>k. let i = 2 * k in step (i AND 2) set_P i) [0..<9] st;
          st = fold (\<lambda>k. step 0 set_S (4 * k + 2) \<circ> step 2 set_S (4 * k)) [0..<256] st
      in snd st)"

definition main_step :: "BF_word list \<Rightarrow> BF_word list \<Rightarrow> BF_ctx \<Rightarrow> BF_ctx" where
  "main_step salt expanded ctx =
     (let ctx = ctx\<lparr>bf_P := map2 (XOR) (bf_P ctx) expanded\<rparr>;
          ctx = BF_body ctx;
          ctx = ctx\<lparr>bf_P := map2 (\<lambda>i p. p XOR salt ! (i AND 3)) [0..<18] (bf_P ctx)\<rparr>
      in BF_body ctx)"

definition BF_output :: "BF_ctx \<Rightarrow> BF_word list" where
  "BF_output ctx =
     concat (map (\<lambda>i. let (L, R) = (BF_ENCRYPT ctx ^^ 64) (BF_magic_w ! i, BF_magic_w ! (i + 1)) in [L, R]) [0, 2, 4])"

definition BF_digest :: "string \<Rightarrow> BF_word \<Rightarrow> nat \<Rightarrow> nat list \<Rightarrow> BF_word list" where
  "BF_digest key flags count bytes =
     (let salt = map (\<lambda>i. BF_swap (le_word (take 4 (drop (4 * i) bytes)))) [0..<4];
          (expanded, initial) = BF_set_key key flags;
          ctx = (main_step salt expanded ^^ count) (salted_state salt initial)
      in BF_output ctx)"

definition BF_crypt :: "string \<Rightarrow> string \<Rightarrow> nat \<Rightarrow> nat \<Rightarrow> string option" where
  "BF_crypt key setting sz least =
     (if sz < 7 + 22 + 31 + 1 then None
      else if \<not> setting_ok setting then None
      else if setting_count setting < least then None
      else case BF_decode (drop 7 setting) 16 of
        None \<Rightarrow> None
      | Some bytes \<Rightarrow>
          (let output = BF_digest key (subtype_flags setting) (setting_count setting) bytes
           in Some (take 28 setting
                @ [BF_itoa64 ! (BF_atoi64 ! (of_char (char_at setting 28) - 0x20) AND 0x30)]
                @ BF_encode (take 23 (concat (map (\<lambda>w. le_bytes (BF_swap w)) output))))))"

text \<open>What is written into \<^verbatim>\<open>output\<close>; \<open>None\<close> is the return value -1.\<close>

definition crypt_output_magic :: "string \<Rightarrow> nat \<Rightarrow> string option" where
  "crypt_output_magic setting sz =
     (if sz < 3 then None
      else Some (if char_at setting 0 = CHR ''*'' \<and> char_at setting 1 = CHR ''0'' then ''*1'' else ''*0''))"

text \<open>The self-test, with the 63 bytes of \<^verbatim>\<open>buf.o\<close>.\<close>

definition test_key :: string where
  "test_key = ''8b '' @ [CHR 0xd0, CHR 0xc1, CHR 0xd2, CHR 0xcf, CHR 0xcc, CHR 0xd8]"

definition test_setting :: string where
  "test_setting = ''$2a$00$abcdefghijklmnopqrstuu''"

definition test_hashes :: "string list" where
  "test_hashes = [''i1D709vfamulimlGcq0qq3UvuUasvEa'' @ [CHR 0x00, CHR 0x55, CHR 0x00],
     ''VUrPmXD6q/nVSSp7pNDhCR9071IfIRe'' @ [CHR 0x00, CHR 0x55, CHR 0x00]]"

definition hash_test :: "string option \<Rightarrow> bool" where
  "hash_test passed =
     (let s = (case passed of None \<Rightarrow> test_setting | Some setting \<Rightarrow> test_setting[2 := char_at setting 2]);
          test_hash = (case passed of None \<Rightarrow> test_hashes ! 0
            | Some setting \<Rightarrow> test_hashes ! (if subtype_flags setting AND 1 = 0 then 0 else 1));
          buf = replicate 62 (CHR 0x55) @ [CHR 0x00]
      in case BF_crypt test_key s 61 1 of
           None \<Rightarrow> False
         | Some p \<Rightarrow>
             (let buf = (p @ [CHR 0x00]) @ drop (length p + 1) buf
              in take 29 buf = s \<and> take 34 (drop 29 buf) = test_hash))"

definition key_test :: bool where
  "key_test =
     (let k = [CHR 0xff, CHR 0xa3] @ ''34'' @ [CHR 0xff, CHR 0xff, CHR 0xff, CHR 0xa3] @ ''345'';
          (ae, ai) = BF_set_key k 2;
          (ye, yi) = BF_set_key k 4;
          ai = ai[0 := ai ! 0 XOR 0x10000]
      in ai ! 0 = 0xdb9c59bc \<and> ye ! 17 = 0x33343500 \<and> ae = ye \<and> ai = yi)"

definition crypt_blowfish_rn :: "string \<Rightarrow> string \<Rightarrow> string \<Rightarrow> nat \<Rightarrow> bool \<times> string" where
  "crypt_blowfish_rn key setting output sz =
     (let magic = (\<lambda>out. case crypt_output_magic setting sz of None \<Rightarrow> out | Some m \<Rightarrow> m);
          output = magic output;
          retval = BF_crypt key setting sz 16;
          output = (case retval of None \<Rightarrow> output | Some t \<Rightarrow> t);
          ok = (hash_test (if retval = None then None else Some setting) \<and> key_test)
      in if ok then (retval \<noteq> None, output) else (False, magic output))"

definition crypt_gensalt_blowfish_rn :: "string \<Rightarrow> nat \<Rightarrow> nat list \<Rightarrow> nat \<Rightarrow> nat \<Rightarrow> string option" where
  "crypt_gensalt_blowfish_rn pfx count inp sz output_size =
     (if sz < 16 \<or> output_size < 7 + 22 + 1 \<or> (count \<noteq> 0 \<and> (count < 4 \<or> count > 31))
          \<or> char_at pfx 0 \<noteq> CHR ''$'' \<or> char_at pfx 1 \<noteq> CHR ''2''
          \<or> (char_at pfx 2 \<noteq> CHR ''a'' \<and> char_at pfx 2 \<noteq> CHR ''b'' \<and> char_at pfx 2 \<noteq> CHR ''y'')
      then None
      else
        let count = (if count = 0 then 5 else count) in
        Some (''$2'' @ [char_at pfx 2] @ ''$'' @ [char_of (of_char (CHR ''0'') + count div 10 :: nat),
            char_of (of_char (CHR ''0'') + count mod 10 :: nat)] @ ''$'' @ BF_encode (take 16 inp)))"

section \<open>Encoding and decoding\<close>


lemma or_low: "y < 2 ^ n \<Longrightarrow> push_bit n x OR y = x * 2 ^ n + (y::nat)"
proof -
  assume y: "y < 2 ^ n"
  have "push_bit n x AND y = 0"
  proof (rule bit_eqI)
    fix m
    have "\<not> bit y m" if "n \<le> m"
      using y that by (metis bit_take_bit_iff linorder_not_less take_bit_nat_eq_self)
    then show "bit (push_bit n x AND y) m = bit (0::nat) m" by (auto simp: bit_and_iff bit_push_bit_iff)
  qed
  then have "push_bit n x OR y = push_bit n x + y" by (simp add: disjunctive_add_eq_or)
  then show ?thesis by (simp add: push_bit_eq_mult)
qed

lemma atoi64_itoa64: "n < 64 \<Longrightarrow> BF_safe_atoi64 (BF_itoa64 ! n) = Some n"
proof -
  have u: "[0..<64] = 0 # Suc 0 # [2..<64]" by (simp add: upt_conv_Cons numeral_2_eq_2)
  have "map BF_safe_atoi64 BF_itoa64 = map Some [0..<64]"
    unfolding u by (simp add: BF_safe_atoi64_def BF_itoa64_def BF_atoi64_def upt_rec_numeral)
  then have "map BF_safe_atoi64 BF_itoa64 ! n = map Some [0..<64] ! n" by simp
  then show "n < 64 \<Longrightarrow> ?thesis" by simp
qed

lemma atoi64_bound: "BF_safe_atoi64 c = Some x \<Longrightarrow> x < 64"
  by (auto simp: BF_safe_atoi64_def Let_def split: if_splits)

lemma next_atoi64_simps [simp]:
  "next_atoi64 [] = None" "next_atoi64 (c # s) = map_option (\<lambda>x. (x, s)) (BF_safe_atoi64 c)"
  by (simp_all add: next_atoi64_def char_at_def BF_safe_atoi64_def)

text \<open>Decoding what was encoded.\<close>

lemma encoded_parts:
  fixes c1 c2 c3 :: nat
  assumes "c1 < 256" "c2 < 256" "c3 < 256"
  shows "drop_bit 2 c1 < 64" "push_bit 4 (c1 AND 0x03) < 64" "push_bit 4 (c1 AND 0x03) OR drop_bit 4 c2 < 64"
    "push_bit 2 (c2 AND 0x0f) < 64" "push_bit 2 (c2 AND 0x0f) OR drop_bit 6 c3 < 64" "c3 AND 0x3f < 64"
    "push_bit 2 (drop_bit 2 c1) OR drop_bit 4 (push_bit 4 (c1 AND 0x03) AND 0x30) = c1"
    "push_bit 2 (drop_bit 2 c1) OR drop_bit 4 ((push_bit 4 (c1 AND 0x03) OR drop_bit 4 c2) AND 0x30) = c1"
    "push_bit 4 ((push_bit 4 (c1 AND 0x03) OR drop_bit 4 c2) AND 0x0F) OR drop_bit 2 (push_bit 2 (c2 AND 0x0f) AND 0x3C) = c2"
    "push_bit 4 ((push_bit 4 (c1 AND 0x03) OR drop_bit 4 c2) AND 0x0F)
       OR drop_bit 2 ((push_bit 2 (c2 AND 0x0f) OR drop_bit 6 c3) AND 0x3C) = c2"
    "push_bit 6 ((push_bit 2 (c2 AND 0x0f) OR drop_bit 6 c3) AND 0x03) OR (c3 AND 0x3f) = c3"
proof -
  obtain a b where c1: "c1 = 4 * a + b" "b < 4" "a < 64"
    using assms(1) by (intro that [of "c1 div 4" "c1 mod 4"]) auto
  obtain c d where c2: "c2 = 16 * c + d" "d < 16" "c < 16"
    using assms(2) by (intro that [of "c2 div 16" "c2 mod 16"]) auto
  obtain e f where c3: "c3 = 64 * e + f" "f < 64" "e < 4"
    using assms(3) by (intro that [of "c3 div 64" "c3 mod 64"]) auto
  have or: "push_bit 4 b OR c = 16 * b + c" "push_bit 2 d OR e = 4 * d + e" "push_bit 2 a OR b = 4 * a + b"
    "push_bit 4 c OR d = 16 * c + d" "push_bit 6 e OR f = 64 * e + f"
    using c1 c2 c3 or_low [of c 4 b] or_low [of e 2 d] or_low [of b 2 a] or_low [of d 4 c] or_low [of f 6 e] by simp_all
  have div: "drop_bit 2 c1 = a" "c1 AND 0x03 = b" "drop_bit 4 c2 = c" "c2 AND 0x0f = d" "drop_bit 6 c3 = e"
    "c3 AND 0x3f = f"
    using c1 c2 c3 by (simp_all add: and_low_mod drop_bit_eq_div)
  show "drop_bit 2 c1 < 64" "push_bit 4 (c1 AND 0x03) < 64" "push_bit 4 (c1 AND 0x03) OR drop_bit 4 c2 < 64"
    "push_bit 2 (c2 AND 0x0f) < 64" "push_bit 2 (c2 AND 0x0f) OR drop_bit 6 c3 < 64" "c3 AND 0x3f < 64"
    unfolding div or using c1 c2 c3 by (simp_all add: push_bit_eq_mult)
  show "push_bit 2 (drop_bit 2 c1) OR drop_bit 4 (push_bit 4 (c1 AND 0x03) AND 0x30) = c1"
    "push_bit 2 (drop_bit 2 c1) OR drop_bit 4 ((push_bit 4 (c1 AND 0x03) OR drop_bit 4 c2) AND 0x30) = c1"
    unfolding div or drop_and_div using c1 c2 or(3) by (simp_all add: push_bit_eq_mult)
  show "push_bit 4 ((push_bit 4 (c1 AND 0x03) OR drop_bit 4 c2) AND 0x0F) OR drop_bit 2 (push_bit 2 (c2 AND 0x0f) AND 0x3C) = c2"
    "push_bit 4 ((push_bit 4 (c1 AND 0x03) OR drop_bit 4 c2) AND 0x0F)
       OR drop_bit 2 ((push_bit 2 (c2 AND 0x0f) OR drop_bit 6 c3) AND 0x3C) = c2"
    unfolding div or unfolding drop_and_div and_low_mod using c1 c2 c3 or(4) by (simp_all add: push_bit_eq_mult)
  show "push_bit 6 ((push_bit 2 (c2 AND 0x0f) OR drop_bit 6 c3) AND 0x03) OR (c3 AND 0x3f) = c3"
    unfolding div or unfolding and_low_mod using c1 c2 c3 or(5) by simp
qed

lemma decode_encode:
  assumes "bs \<noteq> []" and "list_all (\<lambda>b. b < 256) bs"
  shows "BF_decode (BF_encode bs @ rest) (length bs) = Some bs"
  using assms
proof (induction bs rule: BF_encode.induct)
  case (2 c1)
  then show ?case using encoded_parts [of c1 0 0] by (subst BF_decode.simps) (simp add: atoi64_itoa64)
next
  case (3 c1 c2)
  then show ?case using encoded_parts [of c1 c2 0] by (subst BF_decode.simps) (simp add: atoi64_itoa64)
next
  case (4 c1 c2 c3 bs)
  then show ?case using encoded_parts [of c1 c2 c3]
    by (subst BF_decode.simps) (cases "bs = []"; simp add: atoi64_itoa64 Let_def)
qed simp


lemma decode_step:
  "n \<noteq> 0 \<Longrightarrow> BF_decode (a # b # c # d # p) (n + 3) =
     (case (BF_safe_atoi64 a, BF_safe_atoi64 b, BF_safe_atoi64 c, BF_safe_atoi64 d) of
        (Some c1, Some c2, Some c3, Some c4) \<Rightarrow>
          map_option (\<lambda>ds. (push_bit 2 c1 OR drop_bit 4 (c2 AND 0x30)) # (push_bit 4 (c2 AND 0x0F) OR drop_bit 2 (c3 AND 0x3C))
            # (push_bit 6 (c3 AND 0x03) OR c4) # ds) (BF_decode p n)
      | _ \<Rightarrow> None)"
  by (subst BF_decode.simps) (simp add: Let_def split: option.split)

lemma decode_one:
  "BF_decode (a # b # p) 1 =
     (case (BF_safe_atoi64 a, BF_safe_atoi64 b) of
        (Some c1, Some c2) \<Rightarrow> Some [push_bit 2 c1 OR drop_bit 4 (c2 AND 0x30)] | _ \<Rightarrow> None)"
  by (subst BF_decode.simps) (simp split: option.split)

lemma next_atoi64_Some: "next_atoi64 s = Some (x, r) \<longleftrightarrow> (\<exists>c. s = c # r \<and> BF_safe_atoi64 c = Some x)"
  by (cases s) auto

lemma decode_four: "BF_decode s n = Some bs \<Longrightarrow> 3 < n \<Longrightarrow> 4 \<le> length s"
  by (subst (asm) BF_decode.simps) (auto simp: Let_def bind_eq_Some_conv next_atoi64_Some)

lemma decode_short:
  "BF_decode s (3 * k + 1) = Some bs \<Longrightarrow> 4 * k + 2 \<le> length s \<and> (\<exists>x. BF_safe_atoi64 (s ! (4 * k + 1)) = Some x)
     \<and> length bs = 3 * k + 1"
proof (induction k arbitrary: s bs)
  case 0
  then obtain a b p where "s = a # b # p"
    by (cases s rule: list.exhaust; cases "tl s") (auto simp: BF_decode.simps [of _ "Suc 0"] bind_eq_Some_conv)
  with 0 show ?case using decode_one [of a b p] by (auto split: option.splits)
next
  case (Suc k)
  have e: "3 * Suc k + 1 = (3 * k + 1) + 3" by simp
  from Suc.prems have "4 \<le> length s" unfolding e by (intro decode_four) auto
  then have "\<exists>a b c d p. s = a # b # c # d # p" by (auto simp: numeral_eq_Suc Suc_le_length_iff)
  then obtain a b c d p where s: "s = a # b # c # d # p" by blast
  with Suc.prems e decode_step [of "3 * k + 1" a b c d p] obtain ds where
    ds: "BF_decode p (3 * k + 1) = Some ds" "length bs = 3 + length ds"
    by (cases "BF_decode p (3 * k + 1)") (auto split: option.splits)
  from Suc.IH [OF ds(1)] ds(2) s show ?case by simp
qed

text \<open>Only two bits of the last character count.\<close>

lemma decode_last:
  assumes "BF_safe_atoi64 c = Some x" and "BF_safe_atoi64 d = Some y" and "x AND 0x30 = y AND 0x30"
  shows "length p = 4 * k + 1 \<Longrightarrow> BF_decode (p @ c # r) (3 * k + 1) = BF_decode (p @ d # r') (3 * k + 1)"
proof (induction k arbitrary: p)
  case 0
  then obtain a where "p = [a]" by (cases p) auto
  then show ?case using assms decode_one [of a] by (cases "BF_safe_atoi64 a") simp_all
next
  case (Suc k)
  then have "4 \<le> length p" by simp
  then obtain a1 a2 a3 a4 p' where p: "p = a1 # a2 # a3 # a4 # p'"
    by (auto simp: numeral_eq_Suc Suc_le_length_iff)
  have e: "3 * Suc k + 1 = (3 * k + 1) + 3" by simp
  from Suc.prems p have "length p' = 4 * k + 1" by simp
  from Suc.IH [OF this] show ?case unfolding e p by (simp only: append_Cons decode_step)
qed

lemma length_BF_encode: "length (BF_encode bs) = (4 * length bs + 2) div 3"
  by (induction bs rule: BF_encode.induct) simp_all


section \<open>Settings that mean the same\<close>

definition same_setting :: "string \<Rightarrow> string \<Rightarrow> bool" where
  "same_setting s t \<longleftrightarrow> 28 < length s \<and> 28 < length t \<and> take 28 s = take 28 t
     \<and> (\<exists>x y. BF_safe_atoi64 (s ! 28) = Some x \<and> BF_safe_atoi64 (t ! 28) = Some y \<and> x AND 0x30 = y AND 0x30)"

lemma same_char_at: "same_setting s t \<Longrightarrow> i < 28 \<Longrightarrow> char_at s i = char_at t i"
  unfolding same_setting_def char_at_def by (metis nth_take order_less_trans)

lemma same_decode: "same_setting s t \<Longrightarrow> BF_decode (drop 7 s) 16 = BF_decode (drop 7 t) 16"
proof -
  assume same: "same_setting s t"
  then obtain x y where xy: "BF_safe_atoi64 (s ! 28) = Some x" "BF_safe_atoi64 (t ! 28) = Some y"
    "x AND 0x30 = y AND 0x30" and len: "28 < length s" "28 < length t" and tk: "take 28 s = take 28 t"
    by (auto simp: same_setting_def)
  have cut: "drop 7 u = drop 7 (take 28 u) @ u ! 28 # drop 29 u" if "28 < length u" for u :: string
    using id_take_nth_drop [of 21 "drop 7 u"] that by (simp add: drop_take)
  have l: "length (drop 7 (take 28 s)) = 4 * 5 + 1" using len by simp
  show ?thesis
    unfolding cut [OF len(1)] cut [OF len(2)] tk [symmetric]
    using decode_last [OF xy l] by simp
qed

lemma same_last:
  "same_setting s t \<Longrightarrow>
     BF_atoi64 ! (of_char (char_at s 28) - 0x20) AND 0x30 = BF_atoi64 ! (of_char (char_at t 28) - 0x20) AND 0x30"
  by (auto simp: same_setting_def char_at_def BF_safe_atoi64_def Let_def split: if_splits)

lemma same_flags: "same_setting s t \<Longrightarrow> subtype_flags s = subtype_flags t"
  using same_char_at by (simp add: subtype_flags_def)

lemma BF_crypt_same: "same_setting s t \<Longrightarrow> BF_crypt key s sz least = BF_crypt key t sz least"
proof -
  assume same: "same_setting s t"
  note c = same_char_at [OF same] same_flags [OF same]
  have "setting_ok s = setting_ok t" "setting_count s = setting_count t"
    using c by (simp_all add: setting_ok_def setting_count_def)
  moreover have "take 28 s = take 28 t" using same by (simp add: same_setting_def)
  ultimately show ?thesis
    unfolding BF_crypt_def by (simp only: same_decode [OF same] same_last [OF same] same_flags [OF same])
qed

lemma crypt_blowfish_same:
  "same_setting s t \<Longrightarrow> crypt_blowfish_rn key s out sz = crypt_blowfish_rn key t out sz"
proof -
  assume same: "same_setting s t"
  have "crypt_output_magic s sz = crypt_output_magic t sz"
    using same_char_at [OF same] by (simp add: crypt_output_magic_def)
  moreover have "hash_test (Some s) = hash_test (Some t)"
    using same_char_at [OF same] same_flags [OF same] by (simp add: hash_test_def)
  ultimately show ?thesis
    unfolding crypt_blowfish_rn_def BF_crypt_same [OF same] Let_def
    by (cases "BF_crypt key t sz 16") (simp_all split: option.split)
qed

lemma length_BF_digest: "length (BF_digest key flags count bytes) = 6"
  by (simp add: BF_digest_def BF_output_def Let_def split_beta)

lemma BF_crypt_result:
  assumes "BF_crypt key s sz least = Some t"
  shows "same_setting s t \<and> length t = 60 \<and> setting_ok s \<and> least \<le> setting_count s"
proof -
  from assms obtain bytes where d: "BF_decode (drop 7 s) (3 * 5 + 1) = Some bytes"
    and ok: "setting_ok s" "least \<le> setting_count s"
    by (auto simp: BF_crypt_def split: if_splits option.splits)
  from decode_short [OF d] obtain x where x: "BF_safe_atoi64 (s ! 28) = Some x" and len: "28 < length s" by auto
  then have x64: "x < 64" "x = BF_atoi64 ! (of_char (char_at s 28) - 0x20)"
    using atoi64_bound by (auto simp: char_at_def BF_safe_atoi64_def Let_def split: if_splits)
  from x64(1) have "take_bit 6 (x AND 0x30) = x AND 0x30" by (simp add: take_bit_and take_bit_nat_eq_self)
  then have "x AND 0x30 < 64" using take_bit_nat_less_exp [of 6 "x AND 0x30"] by simp
  then have y: "BF_safe_atoi64 (BF_itoa64 ! (x AND 0x30)) = Some (x AND 0x30)" by (rule atoi64_itoa64)
  let ?bs = "concat (map (\<lambda>w. le_bytes (BF_swap w)) (BF_digest key (subtype_flags s) (setting_count s) bytes))"
  have "length ?bs = 24" by (simp add: length_concat comp_def le_bytes_def sum_list_triv length_BF_digest)
  moreover have "t = take 28 s @ [BF_itoa64 ! (x AND 0x30)] @ BF_encode (take 23 ?bs)"
    using assms d ok x64(2) by (simp add: BF_crypt_def split: if_splits)
  ultimately show ?thesis using x y len ok by (auto simp: same_setting_def nth_append length_BF_encode)
qed

end
