(* ===== verification/Bf_Key.thy ===== *)
theory Bf_Key
  imports Blowfish
begin

text \<open>
  What the key schedule \<^verbatim>\<open>BF_set_key\<close> computes, with its bug compatibility and its safety measure,
  against a reference definition on the bytes of the key.
\<close>


text \<open>
  The reference: the key, with its null character, is repeated for ever; a word is four of its
  bytes, as unsigned bytes or, in the buggy variant, sign extended. \<open>collides\<close> is the condition under
  which the safety measure deviates.
\<close>

definition key_byte :: "string \<Rightarrow> nat \<Rightarrow> char" where
  "key_byte key i = (key @ [CHR 0x00]) ! (i mod (length key + 1))"

definition byte_word :: "bool \<Rightarrow> char \<Rightarrow> BF_word" where
  "byte_word bug c = (if bug then scast (of_char c :: 8 word) else of_char c)"

definition key_word :: "bool \<Rightarrow> string \<Rightarrow> nat \<Rightarrow> BF_word" where
  "key_word bug key i =
     push_bit 8 (push_bit 8 (push_bit 8 (byte_word bug (key_byte key (4 * i))) OR byte_word bug (key_byte key (4 * i + 1)))
       OR byte_word bug (key_byte key (4 * i + 2))) OR byte_word bug (key_byte key (4 * i + 3))"

definition high :: "char \<Rightarrow> bool" where
  "high c \<longleftrightarrow> 128 \<le> (of_char c :: nat)"

definition collides :: "string \<Rightarrow> bool" where
  "collides key \<longleftrightarrow> (\<forall>i \<in> {0..<18}. key_word False key i = key_word True key i)
     \<and> (\<exists>i \<in> {0..<72}. i mod 4 \<noteq> 0 \<and> high (key_byte key i))"

definition key_rest :: "string \<Rightarrow> nat \<Rightarrow> string" where
  "key_rest key n = drop (n mod (length key + 1)) key"

lemma key_rest_char: "char_at (key_rest key n) 0 = key_byte key n"
proof -
  have "n mod (length key + 1) \<le> length key" using mod_less_divisor [of "length key + 1" n] by linarith
  then show ?thesis by (auto simp: key_rest_def key_byte_def char_at_def nth_append)
qed

lemma key_rest_next:
  assumes "CHR 0x00 \<notin> set key"
  shows "(if key_byte key n = CHR 0x00 then key else tl (key_rest key n)) = key_rest key (n + 1)"
proof -
  let ?m = "n mod (length key + 1)"
  have m: "?m \<le> length key" using mod_less_divisor [of "length key + 1" n] by linarith
  show ?thesis
  proof (cases "?m = length key")
    case True
    then have "(n + 1) mod (length key + 1) = 0" by (metis mod_Suc Suc_eq_plus1)
    with True show ?thesis by (simp add: key_rest_def key_byte_def)
  next
    case False
    with m have lt: "?m < length key" by (rule le_neq_implies_less)
    then have "(n + 1) mod (length key + 1) = ?m + 1" by (simp add: mod_Suc)
    moreover have "key_byte key n \<noteq> CHR 0x00"
    proof -
      have "key_byte key n = key ! ?m" using lt by (simp add: key_byte_def nth_append)
      with nth_mem [OF lt] assms show ?thesis by metis
    qed
    ultimately show ?thesis by (simp add: key_rest_def drop_Suc tl_drop)
  qed
qed

lemma high_digit: "high c = digit7 c"
  by (cases c) (auto simp: high_def of_bool_def)

lemma byte_word_bit: "bit (scast (of_char c :: 8 word) :: BF_word) 7 = digit7 c"
  by (cases c) (simp add: bit_signed_iff bit_horner_sum_bit_iff)

lemma sign_bit: "(push_bit 8 w OR scast (of_char c :: 8 word)) AND (0x80 :: BF_word) = (if high c then 0x80 else 0)"
proof -
  have b: "bit (push_bit 8 w OR scast (of_char c :: 8 word) :: BF_word) 7 = high c"
    by (simp add: bit_or_iff bit_push_bit_iff byte_word_bit high_digit)
  have m: "bit (0x80 :: BF_word) n = (n = 7)" if "n < 32" for n
  proof -
    have "bit (push_bit 7 (1 :: BF_word)) n = (n = 7)" using that by (auto simp only: bit_push_bit_iff bit_1_iff) auto
    then show ?thesis by (simp add: push_bit_eq_mult)
  qed
  show ?thesis
  proof (rule bit_word_eqI)
    fix n assume "n < LENGTH(32)"
    with b m [of n] show "bit ((push_bit 8 w OR scast (of_char c :: 8 word)) AND 0x80) n = bit (if high c then 0x80 else (0 :: BF_word)) n"
      by (cases "n = 7") (simp_all add: bit_and_iff)
  qed
qed


lemma set_key_char_step:
  assumes "CHR 0x00 \<notin> set key" and "n' = n + 1"
  shows "set_key_char key 0 (key_rest key n, t0, t1, sg) =
      (key_rest key n', push_bit 8 t0 OR byte_word False (key_byte key n), push_bit 8 t1 OR byte_word True (key_byte key n), sg)"
    "j \<noteq> 0 \<Longrightarrow> set_key_char key j (key_rest key n, t0, t1, sg) =
      (key_rest key n', push_bit 8 t0 OR byte_word False (key_byte key n), push_bit 8 t1 OR byte_word True (key_byte key n),
       sg OR (if high (key_byte key n) then 0x80 else 0))"
  unfolding set_key_char_def Let_def prod.case key_rest_char key_rest_next [OF assms(1)] byte_word_def sign_bit assms(2)
  by simp_all

lemma set_key_word_step:
  assumes "CHR 0x00 \<notin> set key" and "ks_ptr st = key_rest key (4 * i)"
  shows "set_key_word key bug i st =
    \<lparr>ks_ptr = key_rest key (4 * i + 4),
     ks_sign = ks_sign st OR (if \<exists>k \<in> {4 * i + 1, 4 * i + 2, 4 * i + 3}. high (key_byte key k) then 0x80 else 0),
     ks_diff = ks_diff st OR (key_word False key i XOR key_word True key i),
     ks_expanded = ks_expanded st @ [key_word bug key i],
     ks_initial = ks_initial st @ [BF_init_P ! i XOR key_word bug key i]\<rparr>"
proof -
  have u: "[0..<4] = [0, 1, 2, 3::nat]" by (simp add: upt_conv_Cons numeral_eq_Suc)
  let ?h = "\<lambda>k. if high (key_byte key k) then 0x80 else (0 :: BF_word)" and ?w = "\<lambda>b k. byte_word b (key_byte key k)"
  have s: "set_key_char key 0 (key_rest key (4 * i), t0, t1, sg) =
      (key_rest key (4 * i + 1), push_bit 8 t0 OR ?w False (4 * i), push_bit 8 t1 OR ?w True (4 * i), sg)"
    "set_key_char key 1 (key_rest key (4 * i + 1), t0, t1, sg) =
      (key_rest key (4 * i + 2), push_bit 8 t0 OR ?w False (4 * i + 1), push_bit 8 t1 OR ?w True (4 * i + 1), sg OR ?h (4 * i + 1))"
    "set_key_char key 2 (key_rest key (4 * i + 2), t0, t1, sg) =
      (key_rest key (4 * i + 3), push_bit 8 t0 OR ?w False (4 * i + 2), push_bit 8 t1 OR ?w True (4 * i + 2), sg OR ?h (4 * i + 2))"
    "set_key_char key 3 (key_rest key (4 * i + 3), t0, t1, sg) =
      (key_rest key (4 * i + 4), push_bit 8 t0 OR ?w False (4 * i + 3), push_bit 8 t1 OR ?w True (4 * i + 3), sg OR ?h (4 * i + 3))"
    for t0 t1 sg
    by (intro set_key_char_step [OF assms(1)]; simp)+
  have "fold (set_key_char key) [0..<4] (ks_ptr st, 0, 0, ks_sign st) =
    (key_rest key (4 * i + 4), key_word False key i, key_word True key i,
     ks_sign st OR (if \<exists>k \<in> {4 * i + 1, 4 * i + 2, 4 * i + 3}. high (key_byte key k) then 0x80 else 0))"
    unfolding u assms(2) fold.simps comp_apply id_apply s by (simp add: key_word_def or.assoc)
  then show ?thesis by (simp add: set_key_word_def Let_def)
qed

lemma xor_word_zero: "u XOR v = 0 \<longleftrightarrow> u = v" for u v :: BF_word
  by (metis xor_self_eq xor.right_neutral xor.assoc)

lemma or_word_zero: "u OR v = 0 \<longleftrightarrow> u = 0 \<and> v = 0" for u v :: BF_word
proof
  assume z: "u OR v = 0"
  have "\<not> bit u n \<and> \<not> bit v n" for n using z by (metis bit_0_eq bit_or_iff bot_apply bot_bool_def)
  then show "u = 0 \<and> v = 0" by (auto intro!: bit_word_eqI)
qed simp

lemma set_key_loop:
  assumes nul: "CHR 0x00 \<notin> set key" and st: "st = fold (set_key_word key bug) [0..<n]
     \<lparr>ks_ptr = key, ks_sign = 0, ks_diff = 0, ks_expanded = [], ks_initial = []\<rparr>"
  shows "ks_ptr st = key_rest key (4 * n)
    \<and> ks_sign st = (if \<exists>i \<in> {0..<4 * n}. i mod 4 \<noteq> 0 \<and> high (key_byte key i) then 0x80 else 0)
    \<and> (ks_diff st = 0 \<longleftrightarrow> (\<forall>i \<in> {0..<n}. key_word False key i = key_word True key i))
    \<and> ks_expanded st = map (key_word bug key) [0..<n]
    \<and> ks_initial st = map (\<lambda>i. BF_init_P ! i XOR key_word bug key i) [0..<n]"
  using st
proof (induction n arbitrary: st)
  case 0
  then show ?case by (simp add: key_rest_def)
next
  case (Suc n)
  let ?st = "fold (set_key_word key bug) [0..<n] \<lparr>ks_ptr = key, ks_sign = 0, ks_diff = 0, ks_expanded = [], ks_initial = []\<rparr>"
  note ih = Suc.IH [OF refl]
  have st: "st = set_key_word key bug n ?st" using Suc.prems by simp
  note step = set_key_word_step [OF nul ih [THEN conjunct1], of bug]
  have "{0..<4 * Suc n} = {0..<4 * n} \<union> {4 * n, 4 * n + 1, 4 * n + 2, 4 * n + 3}" by auto
  then have ex: "(\<exists>i \<in> {0..<4 * Suc n}. i mod 4 \<noteq> 0 \<and> P i) \<longleftrightarrow>
      (\<exists>i \<in> {0..<4 * n}. i mod 4 \<noteq> 0 \<and> P i) \<or> (\<exists>k \<in> {4 * n + 1, 4 * n + 2, 4 * n + 3}. P k)" for P
  proof -
    have "\<not> 4 * n mod 4 \<noteq> 0" "(4 * n + 1) mod 4 \<noteq> 0" "(4 * n + 2) mod 4 \<noteq> 0" "(4 * n + 3) mod 4 \<noteq> 0" by presburger+
    then have "(\<exists>i \<in> {4 * n, 4 * n + 1, 4 * n + 2, 4 * n + 3}. i mod 4 \<noteq> 0 \<and> P i) \<longleftrightarrow>
        (\<exists>k \<in> {4 * n + 1, 4 * n + 2, 4 * n + 3}. P k)" by blast
    then show ?thesis unfolding \<open>{0..<4 * Suc n} = _\<close> bex_Un by (rule arg_cong)
  qed
  have al: "{0..<Suc n} = insert n {0..<n}" by auto
  have or: "(if A then 0x80 else 0) OR (if B then 0x80 else 0) = (if A \<or> B then 0x80 else (0 :: BF_word))" for A B
    by simp
  show ?case
  proof (intro conjI)
    show "ks_ptr st = key_rest key (4 * Suc n)" unfolding st step by (simp add: add.commute)
    show "ks_sign st = (if \<exists>i \<in> {0..<4 * Suc n}. i mod 4 \<noteq> 0 \<and> high (key_byte key i) then 0x80 else 0)"
      unfolding st step key_state.simps ih [THEN conjunct2, THEN conjunct1] ex by (rule or)
    show "(ks_diff st = 0) = (\<forall>i \<in> {0..<Suc n}. key_word False key i = key_word True key i)"
      unfolding st step key_state.simps or_word_zero xor_word_zero ih [THEN conjunct2, THEN conjunct2, THEN conjunct1] al
      by blast
    show "ks_expanded st = map (key_word bug key) [0..<Suc n]"
      "ks_initial st = map (\<lambda>i. BF_init_P ! i XOR key_word bug key i) [0..<Suc n]"
      unfolding st step using ih by simp_all
  qed
qed

lemma safety_bit:
  fixes d :: BF_word
  shows "NOT (((d OR drop_bit 16 d) AND 0xffff) + 0xffff) AND 0x10000 = (if d = 0 then 0x10000 else 0)"
proof -
  define e where "e = (d OR drop_bit 16 d) AND 0xffff"
  have e: "e = take_bit 16 (d OR drop_bit 16 d)" by (simp add: e_def take_bit_eq_mask mask_eq_exp_minus_1)
  have bound: "unat e < 65536" unfolding e unsigned_take_bit_eq using take_bit_nat_less_exp [of 16] by simp
  have zero: "e = 0 \<longleftrightarrow> d = 0"
  proof
    assume "e = 0"
    have "\<not> bit d n" if "n < 32" for n
    proof -
      have "\<not> bit e (if n < 16 then n else n - 16)" using \<open>e = 0\<close> by simp
      with that show ?thesis unfolding e by (auto simp: bit_take_bit_iff bit_or_iff bit_drop_bit_eq split: if_splits)
    qed
    then show "d = 0" by (intro bit_word_eqI) auto
  qed (simp add: e)
  have "unat (e + 0xffff) = unat e + 65535" using bound by (simp add: unat_word_ariths)
  moreover have "bit (e + 0xffff) 16 = bit (unat (e + 0xffff)) 16" by (simp add: bit_unsigned_iff)
  ultimately have "bit (e + 0xffff) 16 \<longleftrightarrow> odd ((unat e + 65535) div 65536)" by (simp add: bit_iff_odd)
  moreover have "(unat e + 65535) div 65536 = (if d = 0 then 0 else 1)"
  proof (cases "d = 0")
    case False
    with zero have "0 < unat e" by (simp add: unat_gt_0)
    with bound have "65536 \<le> unat e + 65535" "unat e + 65535 < 2 * 65536" by simp_all
    with False show ?thesis by simp
  qed (use zero in simp)
  ultimately have b: "bit (e + 0xffff) 16 \<longleftrightarrow> d \<noteq> 0" by simp
  have m: "bit (0x10000 :: BF_word) n = (n = 16)" if "n < 32" for n
  proof -
    have "bit (push_bit 16 (1 :: BF_word)) n = (n = 16)" using that by (auto simp only: bit_push_bit_iff bit_1_iff) auto
    then show ?thesis by (simp add: push_bit_eq_mult)
  qed
  show ?thesis unfolding e_def [symmetric]
  proof (rule bit_word_eqI)
    fix n assume "n < LENGTH(32)"
    with b m [of n] show "bit (NOT (e + 0xffff) AND 0x10000) n = bit (if d = 0 then 0x10000 else (0 :: BF_word)) n"
      by (cases "n = 16") (simp_all add: bit_and_iff bit_not_iff)
  qed
qed

section \<open>The key schedule\<close>

definition reference_key :: "bool \<Rightarrow> bool \<Rightarrow> string \<Rightarrow> BF_word list \<times> BF_word list" where
  "reference_key bug safety key =
     (let words = map (key_word bug key) [0..<18];
          initial = map2 (XOR) BF_init_P words
      in (words, initial[0 := initial ! 0 XOR (if safety \<and> collides key then 0x10000 else 0)]))"

lemma BF_set_key_reference:
  assumes nul: "CHR 0x00 \<notin> set key" and flags: "flags \<in> {1, 2, 4}"
  shows "BF_set_key key flags = reference_key (flags = 1) (flags = 2) key"
proof -
  let ?st = "fold (set_key_word key (flags = 1)) [0..<18]
      \<lparr>ks_ptr = key, ks_sign = 0, ks_diff = 0, ks_expanded = [], ks_initial = []\<rparr>"
  let ?A = "\<exists>i \<in> {0..<72}. i mod 4 \<noteq> 0 \<and> high (key_byte key i)"
  note l = set_key_loop [OF nul refl, of "flags = 1" 18, simplified mult_numeral_1]
  have sg: "ks_sign ?st = (if ?A then 0x80 else 0)" using l by simp
  have df: "ks_diff ?st = 0 \<longleftrightarrow> (\<forall>i \<in> {0..<18}. key_word False key i = key_word True key i)" using l by simp
  have bug: "(flags AND 1 \<noteq> 0) = (flags = 1)" and safe: "push_bit 15 (flags AND 2) = (if flags = 2 then 0x10000 else 0)"
    using flags by auto
  have init: "map (\<lambda>i. BF_init_P ! i XOR key_word b key i) [0..<18] = map2 (XOR) BF_init_P (map (key_word b key) [0..<18])" for b
    by (rule nth_equalityI) simp_all
  have "push_bit 9 (ks_sign ?st) AND
      (NOT (((ks_diff ?st OR drop_bit 16 (ks_diff ?st)) AND 0xffff) + 0xffff) AND push_bit 15 (flags AND 2)) =
      (if flags = 2 \<and> collides key then 0x10000 else 0)"
  proof -
    have "NOT (((d OR drop_bit 16 d) AND 0xffff) + 0xffff) AND (if flags = 2 then 0x10000 else 0)
        = (if flags = 2 \<and> d = 0 then 0x10000 else 0)" for d :: BF_word
      by (simp add: safety_bit)
    note sb = this [of "ks_diff ?st"]
    show ?thesis unfolding safe sb unfolding sg df collides_def by simp
  qed
  then show ?thesis
    unfolding BF_set_key_def Let_def bug reference_key_def using l by (simp add: init)
qed

text \<open>Of a long password only the first 72 bytes count.\<close>

lemma BF_set_key_72:
  assumes "CHR 0x00 \<notin> set (p @ s)" and "length p = 72" and "flags \<in> {1, 2, 4}"
  shows "BF_set_key (p @ s) flags = BF_set_key p flags"
proof -
  have b: "key_byte (p @ s) i = key_byte p i" if "i < 72" for i
    using that assms(2) by (simp add: key_byte_def nth_append)
  have w: "key_word bug (p @ s) i = key_word bug p i" if "i < 18" for bug i
    using that by (simp add: key_word_def b)
  have "collides (p @ s) = collides p" 
    unfolding collides_def
    by (intro arg_cong2 [where f = "(\<and>)"] ball_cong bex_cong refl) (auto simp: w b)
  note c = this
  have m: "map (key_word bug (p @ s)) [0..<18] = map (key_word bug p) [0..<18]" for bug
    by (rule map_cong [OF refl]) (simp add: w)
  have "CHR 0x00 \<notin> set p" using assms(1) by simp
  from BF_set_key_reference [OF this assms(3)] BF_set_key_reference [OF assms(1,3)] show ?thesis
    by (simp only: reference_key_def m c)
qed

end
