(* ===== verification/Hashing.thy ===== *)
theory Hashing
  imports Regex_Lang Base64 Crypto
begin

text \<open>
  Password hashing (\<^verbatim>\<open>src/hashing\<close>) and \<^verbatim>\<open>passwordHash\<close> and \<^verbatim>\<open>passwordVerify\<close> of \<^verbatim>\<open>src/util/crypto.cpp\<close>.
  libargon2 is not part of the repository; what it and libbcrypt compute are function parameters here
  (theory \<^verbatim>\<open>Bcrypt\<close> puts the vendored libbcrypt in), an error code (0 is success) with the text they write. Argon2's
  text is a C string; a user-defined salt and a password may hold any bytes. \<open>argon2_documented\<close>
  states the documented form of Argon2's encoded hash, on which verification relies.
\<close>

section \<open>The libraries\<close>

datatype Algorithm = ARGON2I | ARGON2D | ARGON2ID

record argon2_params =
  ap_algorithm :: Algorithm
  ap_timeCost :: nat
  ap_memoryCost :: nat
  ap_parallelism :: nat

text \<open>\<open>hl_argon2 params input salt hashLen encodedLen\<close>; the random source is the sequence of its values.\<close>

record hash_libs =
  hl_argon2 :: "argon2_params \<Rightarrow> string \<Rightarrow> string \<Rightarrow> nat \<Rightarrow> nat \<Rightarrow> int \<times> string"
  hl_argon2_error :: "int \<Rightarrow> string"
  hl_entropy32 :: bool
  hl_random32 :: "nat \<Rightarrow> nat"
  hl_random16 :: "nat \<Rightarrow> nat"
  hl_gensalt :: "int \<Rightarrow> int \<times> string"
  hl_hashpw :: "string \<Rightarrow> string \<Rightarrow> int \<times> string"
  hl_checkpw :: "string \<Rightarrow> string \<Rightarrow> int"

section \<open>Argon2\<close>

record Argon2HashingEngine =
  ae_params :: argon2_params
  ae_salt :: string
  ae_hashLen :: nat

text \<open>The low byte of a shifted draw, as \<^verbatim>\<open>(char) ((val >> k) & 0xff)\<close> gives it.\<close>

definition draw_byte :: "nat \<Rightarrow> nat \<Rightarrow> char" where
  "draw_byte val k = char_of (val div 2 ^ k mod 256)"

definition random_salt :: "hash_libs \<Rightarrow> string" where
  "random_salt L =
     (if hl_entropy32 L
      then concat (map (\<lambda>i. map (draw_byte (hl_random32 L i)) [0, 8, 16, 24]) [0..<4])
      else concat (map (\<lambda>i. map (draw_byte (hl_random16 L i)) [0, 8]) [0..<8]))"

definition encoded_ceil :: "nat \<Rightarrow> nat \<Rightarrow> nat" where
  "encoded_ceil saltLen hashLen = 50 + saltLen * 4 div 3 + hashLen * 4 div 3"

definition Argon2_generateHash :: "hash_libs \<Rightarrow> Argon2HashingEngine \<Rightarrow> string \<Rightarrow> string result" where
  "Argon2_generateHash L e inp =
     (if ae_salt e \<noteq> [] \<and> length (ae_salt e) < 8
      then Inl (NawaException 10 ''Provided user-defined salt is not long enough'')
      else
        let actualSalt = (if ae_salt e = [] then random_salt L else ae_salt e);
            (errorCode, c_hash) = hl_argon2 L (ae_params e) inp actualSalt (ae_hashLen e)
               (encoded_ceil (length actualSalt) (ae_hashLen e))
        in if errorCode \<noteq> 0 then Inl (NawaException 10 (''Argon2 error: '' @ hl_argon2_error L errorCode))
           else Inr (c_string c_hash))"

definition digit_ranges :: "(char \<times> char) list" where
  "digit_ranges = [(CHR ''0'', CHR ''9'')]"

definition rx_number :: "nat \<Rightarrow> rx" where
  "rx_number k = RGroup k (RPlus (RSet False digit_ranges))"

definition rx_base64 :: "nat \<Rightarrow> rx" where
  "rx_base64 k = RGroup k (RSeq (RPlus (RSet False b64_ranges)) (RRep 0 (Some 2) True (RChr (CHR ''=''))))"

definition argon2_rx :: rx where
  "argon2_rx =
     RSeq (RStr ''$argon2'') (RSeq (RGroup 1 (RAlt (RChr (CHR ''i'')) (RAlt (RChr (CHR ''d'')) (RStr ''id''))))
     (RSeq (RChr (CHR ''$'')) (RSeq (ROpt (RGroup 2 (RSeq (RStr ''v='') (rx_number 3))))
     (RSeq (RStr ''$m='') (RSeq (rx_number 4) (RSeq (RStr '',t='') (RSeq (rx_number 5)
     (RSeq (RStr '',p='') (RSeq (rx_number 6) (RSeq (RChr (CHR ''$'')) (RSeq (rx_base64 7)
     (RSeq (RChr (CHR ''$'')) (rx_base64 8)))))))))))))"

text \<open>A value of \<^verbatim>\<open>stoul\<close> is stored in 32 bits; any exception means the hash does not verify.\<close>

definition argon2_fields :: "caps \<Rightarrow> (nat \<times> argon2_params \<times> string \<times> string) result" where
  "argon2_fields matches =
     bind_result (stoul 10 (cap matches 3)) (\<lambda>version1.
     bind_result (stoul 10 (cap matches 4)) (\<lambda>memoryCost1.
     bind_result (stoul 10 (cap matches 5)) (\<lambda>timeCost1.
     bind_result (stoul 10 (cap matches 6)) (\<lambda>parallelism1.
       Inr (version1 mod 2 ^ 32,
            \<lparr>ap_algorithm = (if cap matches 1 = ''d'' then ARGON2D else if cap matches 1 = ''id'' then ARGON2ID
               else ARGON2I),
             ap_timeCost = timeCost1 mod 2 ^ 32, ap_memoryCost = memoryCost1 mod 2 ^ 32,
             ap_parallelism = parallelism1 mod 2 ^ 32\<rparr>,
            base64Decode (cap matches 7), base64Decode (cap matches 8))))))"

text \<open>The comparison looks at every byte, whatever the first difference.\<close>

definition same_bytes :: "string \<Rightarrow> string \<Rightarrow> bool" where
  "same_bytes a b = (fold (\<lambda>i ret. or ret (xor (code (a ! i)) (code (b ! i)))) [0..<length a] (0 :: nat) = 0)"

definition Argon2_verifyHash :: "hash_libs \<Rightarrow> string \<Rightarrow> string \<Rightarrow> bool" where
  "Argon2_verifyHash L inp hash =
     (case regex_match argon2_rx hash of
        None \<Rightarrow> False
      | Some matches \<Rightarrow>
          (case argon2_fields matches of
             Inl e \<Rightarrow> False
           | Inr (version1, params, salt1, hash1) \<Rightarrow>
               if version1 \<noteq> 19 then False
               else
                 (case Argon2_generateHash L \<lparr>ae_params = params, ae_salt = salt1, ae_hashLen = length hash1\<rparr> inp of
                    Inl e \<Rightarrow> False
                  | Inr inputHash \<Rightarrow>
                      (let inputHash = base64Decode (drop (pos_add (find_last_char (CHR ''$'') inputHash) 1) inputHash)
                       in if length hash1 \<noteq> length inputHash then False else same_bytes hash1 inputHash))))"

section \<open>Bcrypt\<close>

record BcryptHashingEngine =
  be_workFactor :: int
  be_salt :: string

text \<open>
  A user-defined salt is copied into the buffer of the result, not into the salt that is then used:
  that one is uninitialised, and what happens is undefined. The password is cut at its first null byte.
\<close>

definition Bcrypt_generateHash :: "hash_libs \<Rightarrow> BcryptHashingEngine \<Rightarrow> string \<Rightarrow> string result" where
  "Bcrypt_generateHash L e inp =
     (if be_salt e \<noteq> [] then Inl Undefined
      else
        let (rc, bcsalt) = hl_gensalt L (be_workFactor e) in
        if rc \<noteq> 0 then Inl (NawaException 10 ''Could not generate a salt (unknown bcrypt failure).'')
        else
          let (rc, hash) = hl_hashpw L (c_string inp) bcsalt in
          if rc \<noteq> 0 then Inl (NawaException 11 ''Could not hash this password (unknown bcrypt failure).'')
          else Inr (take 60 hash))"

definition Bcrypt_verifyHash :: "hash_libs \<Rightarrow> string \<Rightarrow> string \<Rightarrow> bool" where
  "Bcrypt_verifyHash L inp hash = (hl_checkpw L (c_string inp) (c_string hash) = 0)"

section \<open>Engines and tables\<close>

datatype HashingEngine = Engine_argon2 Argon2HashingEngine | Engine_bcrypt BcryptHashingEngine

definition Argon2_default :: Argon2HashingEngine where
  "Argon2_default = \<lparr>ae_params = \<lparr>ap_algorithm = ARGON2ID, ap_timeCost = 2, ap_memoryCost = 65536,
     ap_parallelism = 1\<rparr>, ae_salt = [], ae_hashLen = 32\<rparr>"

definition Bcrypt_default :: BcryptHashingEngine where
  "Bcrypt_default = \<lparr>be_workFactor = 10, be_salt = []\<rparr>"

definition generateHash :: "hash_libs \<Rightarrow> HashingEngine \<Rightarrow> string \<Rightarrow> string result" where
  "generateHash L e inp =
     (case e of Engine_argon2 a \<Rightarrow> Argon2_generateHash L a inp | Engine_bcrypt b \<Rightarrow> Bcrypt_generateHash L b inp)"

definition verifyHash :: "hash_libs \<Rightarrow> HashingEngine \<Rightarrow> string \<Rightarrow> string \<Rightarrow> bool" where
  "verifyHash L e inp hash =
     (case e of Engine_argon2 a \<Rightarrow> Argon2_verifyHash L inp hash | Engine_bcrypt b \<Rightarrow> Bcrypt_verifyHash L inp hash)"

type_synonym HashTypeTable = "string \<Rightarrow> HashingEngine option"

definition BcryptOnlyHashTypeTable :: HashTypeTable where
  "BcryptOnlyHashTypeTable hash =
     (if take 4 hash \<in> {''$2a$'', ''$2b$'', ''$2x$'', ''$2y$''} then Some (Engine_bcrypt Bcrypt_default) else None)"

definition DefaultHashTypeTable :: HashTypeTable where
  "DefaultHashTypeTable hash =
     (if take 4 hash \<in> {''$2a$'', ''$2b$'', ''$2x$'', ''$2y$''} then Some (Engine_bcrypt Bcrypt_default)
      else if take 10 hash = ''$argon2id$'' \<or> take 9 hash = ''$argon2i$'' \<or> take 9 hash = ''$argon2d$''
      then Some (Engine_argon2 Argon2_default) else None)"

definition passwordHash :: "hash_libs \<Rightarrow> string \<Rightarrow> HashingEngine \<Rightarrow> string result" where
  "passwordHash L password hashingEngine = generateHash L hashingEngine password"

definition passwordVerify :: "hash_libs \<Rightarrow> string \<Rightarrow> string \<Rightarrow> HashTypeTable \<Rightarrow> bool result" where
  "passwordVerify L password hash hashTypeTable =
     (if hash = [] then Inl (NawaException 1 ''Cannot verify an empty hash'')
      else case hashTypeTable hash of
        None \<Rightarrow> Inl (NawaException 2 ''Could not determine a HashingEngine that is able to verify the given hash'')
      | Some verifyer \<Rightarrow> Inr (verifyHash L verifyer password hash))"

section \<open>Matching a greedy class\<close>

lemma rep_opt_stuck: "f st = [] \<Longrightarrow> rep_opt f g n st = [st]"
  by (cases n) simp_all

definition blocked :: "(char \<times> char) list \<Rightarrow> string \<Rightarrow> bool" where
  "blocked rs v \<longleftrightarrow> (case v of [] \<Rightarrow> True | c # _ \<Rightarrow> \<not> in_ranges rs c)"

text \<open>The states of a greedy repetition of a class, the longest match first.\<close>

lemma rep_opt_class:
  assumes "list_all (in_ranges rs) u" and "blocked rs v" and "length u \<le> n"
  shows "rep_opt (rx_run (RSet False rs)) True n (u @ v, cs) =
    map (\<lambda>k. (drop k u @ v, cs)) (rev [0..<Suc (length u)])"
  using assms
proof (induction u arbitrary: n)
  case Nil
  then have "rx_run (RSet False rs) (v, cs) = []" by (cases v) (auto simp: blocked_def)
  then show ?case by (simp add: rep_opt_stuck del: rx_run.simps)
next
  case (Cons c u)
  then obtain m where n: "n = Suc m" "length u \<le> m" by (cases n) auto
  have up: "[0..<Suc (Suc (length u))] = 0 # map Suc [0..<Suc (length u)]"
    unfolding map_Suc_upt by (rule upt_conv_Cons) simp
  from Cons n show ?case by (simp add: up rev_map [symmetric] comp_def del: upt_Suc)
qed

lemma run_class:
  assumes "list_all (in_ranges rs) u" and "blocked rs v" and "u \<noteq> []"
  shows "rx_run (RPlus (RSet False rs)) (u @ v, cs) = map (\<lambda>k. (drop k u @ v, cs)) (rev [1..<Suc (length u)])"
proof -
  obtain c t where u: "u = c # t" using assms(3) by (cases u) auto
  have up: "[1..<Suc (length u)] = map Suc [0..<Suc (length t)]" by (simp only: map_Suc_upt u list.size One_nat_def) simp
  have e: "map (\<lambda>k. (drop k u @ v, cs)) [1..<Suc (length u)] = map (\<lambda>k. (drop k t @ v, cs)) [0..<Suc (length t)]"
    unfolding up by (simp add: u comp_def del: upt_Suc)
  have "rx_run (RPlus (RSet False rs)) (u @ v, cs) = map (\<lambda>k. (drop k t @ v, cs)) (rev [0..<Suc (length t)])"
    using assms(1) rep_opt_class [of rs t v "length (t @ v)" cs] assms(1,2)
    by (simp add: u rep_rounds_def del: upt_Suc)
  then show ?thesis by (simp only: rev_map [symmetric] e)
qed

definition committed :: "(char \<times> char) list \<Rightarrow> (mstate \<Rightarrow> mstate list) \<Rightarrow> bool" where
  "committed rs f \<longleftrightarrow> (\<forall>c s cs. in_ranges rs c \<longrightarrow> f (c # s, cs) = [])"

text \<open>What follows the class cannot start with a character of it: only the longest match goes on.\<close>

lemma commit_longest:
  assumes "committed rs f" and "list_all (in_ranges rs) u" and "u \<noteq> []"
  shows "concat (map (\<lambda>k. f (drop k u @ v, g k)) (rev [1..<Suc (length u)])) = f (v, g (length u))"
proof -
  have "f (drop k u @ v, g k) = []" if "k \<in> set (rev [1..<length u])" for k
  proof -
    have "k < length u" using that by simp
    then have "drop k u = u ! k # drop (Suc k) u" "in_ranges rs (u ! k)"
      using assms(2) by (simp_all add: Cons_nth_drop_Suc list_all_length)
    then show ?thesis using assms(1) by (simp add: committed_def)
  qed
  then have "concat (map (\<lambda>k. f (drop k u @ v, g k)) (rev [1..<length u])) = []" by simp
  moreover have "[1..<Suc (length u)] = [1..<length u] @ [length u]" using assms(3) by (cases u) simp_all
  ultimately show ?thesis by simp
qed

lemma run_group_class:
  assumes "list_all (in_ranges rs) u" and "blocked rs v" and "u \<noteq> []"
  shows "rx_run (RGroup n (RPlus (RSet False rs))) (u @ v, cs) =
    map (\<lambda>k. (drop k u @ v, (n, take k u) # cs)) (rev [1..<Suc (length u)])"
proof -
  have "take (length (u @ v) - length (drop k u @ v)) (u @ v) = take k u" if "k \<in> set (rev [1..<Suc (length u)])" for k
    using that by auto
  then show ?thesis unfolding rx_run.simps(5) run_class [OF assms] by (simp add: comp_def del: upt_Suc)
qed

lemma run_str [simp]: "rx_run (RStr w) (w @ s, cs) = [(s, cs)]"
  by (induction w) simp_all

lemma run_seq_class:
  assumes "list_all (in_ranges rs) u" and "blocked rs v" and "u \<noteq> []" and "committed rs (rx_run r)"
  shows "rx_run (RSeq (RGroup n (RPlus (RSet False rs))) r) (u @ v, cs) = rx_run r (v, (n, u) # cs)"
  using commit_longest [OF assms(4,1,3), of v "\<lambda>k. (n, take k u) # cs"]
  unfolding rx_run.simps(2) run_group_class [OF assms(1-3)] by (simp add: comp_def del: upt_Suc)

section \<open>Argon2's encoded form\<close>

text \<open>The alphabet's text without padding, as libargon2 writes it.\<close>

definition b64_nopad :: "string \<Rightarrow> string" where
  "b64_nopad s = takeWhile (\<lambda>c. c \<noteq> CHR ''='') (b64_ref s)"

lemma b64_nopad_props:
  "\<exists>k. b64_ref s = b64_nopad s @ replicate k (CHR ''='')" "list_all is_base64 (b64_nopad s)"
  "s \<noteq> [] \<Longrightarrow> b64_nopad s \<noteq> []"
proof -
  obtain body k where b: "b64_ref s = body @ replicate k (CHR ''='')" "\<forall>c \<in> set body. is_base64 c"
    "s \<noteq> [] \<longrightarrow> body \<noteq> []" using b64_ref_shape [of s] by blast
  have "\<not> is_base64 (CHR ''='')" by (simp add: is_base64_def is_upper_def is_lower_def is_digit_def less_eq_char_def)
  with b(2) have "\<forall>c \<in> set body. c \<noteq> CHR ''=''" by blast
  then have "b64_nopad s = body" by (simp add: b64_nopad_def b(1) takeWhile_append takeWhile_eq_all_conv [THEN iffD2])
  with b show "\<exists>k. b64_ref s = b64_nopad s @ replicate k (CHR ''='')" "list_all is_base64 (b64_nopad s)"
    "s \<noteq> [] \<Longrightarrow> b64_nopad s \<noteq> []" by (auto simp: list_all_iff)
qed

lemma dec_pad: "b64_dec_loop arr (s @ replicate k (CHR ''='')) = b64_dec_loop arr s"
proof -
  have eq: "\<not> is_base64 (CHR ''='')" by (simp add: is_base64_def is_upper_def is_lower_def is_digit_def less_eq_char_def)
  have "b64_dec_loop arr (replicate k (CHR ''='')) = b64_dec_tail arr" for arr
    using eq ws_not_eq by (cases k) simp_all
  then show ?thesis by (induction arr s rule: b64_dec_loop.induct) (simp_all add: Let_def)
qed

lemma decode_nopad [simp]: "base64Decode (b64_nopad s) = s"
  using b64_nopad_props(1) [of s] dec_ref [of s] dec_pad by (metis base64Decode_def base64_decode_def)

definition algorithm_name :: "Algorithm \<Rightarrow> string" where
  "algorithm_name a = (case a of ARGON2I \<Rightarrow> ''i'' | ARGON2D \<Rightarrow> ''d'' | ARGON2ID \<Rightarrow> ''id'')"

definition argon2_text :: "argon2_params \<Rightarrow> string \<Rightarrow> string \<Rightarrow> string" where
  "argon2_text p salt hash =
     ''$argon2'' @ algorithm_name (ap_algorithm p) @ ''$'' @ ''v='' @ ''19'' @ ''$m='' @ dec (ap_memoryCost p) @ '',t=''
     @ dec (ap_timeCost p) @ '',p='' @ dec (ap_parallelism p) @ ''$'' @ b64_nopad salt @ ''$'' @ b64_nopad hash"

text \<open>
  What libargon2 documents: when it reports success, the text is the encoding of the parameters, the
  salt and the raw hash \<open>raw\<close> of these inputs, which has the requested length.
\<close>

definition argon2_documented :: "hash_libs \<Rightarrow> (argon2_params \<Rightarrow> string \<Rightarrow> string \<Rightarrow> nat \<Rightarrow> string) \<Rightarrow> bool" where
  "argon2_documented L raw \<longleftrightarrow>
     (\<forall>p inp salt n len. length (raw p inp salt n) = n
        \<and> (fst (hl_argon2 L p inp salt n len) = 0 \<longrightarrow>
             c_string (snd (hl_argon2 L p inp salt n len)) = argon2_text p salt (raw p inp salt n)))"

definition params_ok :: "argon2_params \<Rightarrow> bool" where
  "params_ok p \<longleftrightarrow> ap_timeCost p < 2 ^ 32 \<and> ap_memoryCost p < 2 ^ 32 \<and> ap_parallelism p < 2 ^ 32"

lemma digits_class: "list_all (in_ranges digit_ranges) (dec n)" "dec n \<noteq> []"
proof -
  have "is_digit c" if "base_digit 10 c \<noteq> None" for c
    using that by (auto simp: base_digit_def digit_val_def is_upper_def is_lower_def less_eq_char_def split: if_splits)
  then show "list_all (in_ranges digit_ranges) (dec n)"
    using set_dec by (auto simp: list_all_iff digit_ranges_def is_digit_def)
qed simp

lemma base64_class: "list_all is_base64 u \<Longrightarrow> list_all (in_ranges b64_ranges) u"
  using b64_ranges_class [of _ "[]"] by (simp add: list_all_iff)

lemma in_digit_ranges: "in_ranges digit_ranges c \<longleftrightarrow> is_digit c"
  by (simp add: digit_ranges_def is_digit_def)

lemma committed_str: "\<not> in_ranges rs a \<Longrightarrow> committed rs (rx_run (RSeq (RStr (a # w)) r))"
  by (auto simp: committed_def)

lemma committed_chr: "\<not> in_ranges rs a \<Longrightarrow> committed rs (rx_run (RSeq (RChr a) r))"
  by (auto simp: committed_def)

lemma run_seq_str: "rx_run (RSeq (RStr w) r) (w @ s, cs) = rx_run r (s, cs)"
  by simp

lemma run_seq_chr: "rx_run (RSeq (RChr a) r) (a # s, cs) = rx_run r (s, cs)"
  by simp

lemma run_number:
  assumes "blocked digit_ranges v" and "committed digit_ranges (rx_run r)"
  shows "rx_run (RSeq (rx_number k) r) (dec n @ v, cs) = rx_run r (v, (k, dec n) # cs)"
  unfolding rx_number_def by (rule run_seq_class) (use assms digits_class in auto)

text \<open>An unpadded text inside a group, followed by a character outside the alphabet or by the end.\<close>

lemma run_base64:
  assumes "list_all is_base64 u" and "blocked b64_ranges v" and "u \<noteq> []" and "blocked (chars ''='') v"
  shows "rx_run (rx_base64 n) (u @ v, cs) = map (\<lambda>k. (drop k u @ v, (n, take k u) # cs)) (rev [1..<Suc (length u)])"
proof -
  note cl = base64_class [OF assms(1)]
  have eq: "\<not> in_ranges b64_ranges (CHR ''='')" by (simp add: b64_ranges_def)
  have stuck: "rx_run (RRep 0 (Some 2) True (RChr (CHR ''=''))) (drop k u @ v, cs) = [(drop k u @ v, cs)]" for k
  proof -
    have "rx_run (RChr (CHR ''='')) (drop k u @ v, cs) = []"
    proof (cases "drop k u")
      case Nil
      with assms(4) show ?thesis by (cases v) (auto simp: blocked_def)
    next
      case (Cons c t)
      then have "c \<in> set u" by (metis in_set_dropD list.set_intros(1))
      with cl eq have "c \<noteq> CHR ''=''" by (auto simp: list_all_iff)
      with Cons show ?thesis by simp
    qed
    then show ?thesis by (simp only: rx_run.simps(6) rep_min.simps list.map concat.simps rep_opt_stuck append_Nil2)
  qed
  have cut: "take (length (u @ v) - length (drop k u @ v)) (u @ v) = take k u" if "k \<in> set (rev [1..<Suc (length u)])" for k
    using that by auto
  show ?thesis
    unfolding rx_base64_def rx_run.simps(5) rx_run.simps(2) [of "RPlus (RSet False b64_ranges)"]
      run_class [OF cl assms(2,3)]
    by (simp add: comp_def stuck cut del: upt_Suc rx_run.simps)
qed

lemma run_seq_base64:
  assumes "list_all is_base64 u" and "u \<noteq> []"
  shows "rx_run (RSeq (rx_base64 n) (RSeq (RChr (CHR ''$'')) r)) (u @ CHR ''$'' # v, cs) = rx_run r (v, (n, u) # cs)"
proof -
  have b: "blocked b64_ranges (CHR ''$'' # v)" "blocked (chars ''='') (CHR ''$'' # v)"
    by (simp_all add: blocked_def b64_ranges_def)
  have c: "committed b64_ranges (rx_run (RSeq (RChr (CHR ''$'')) r))" by (rule committed_chr) (simp add: b64_ranges_def)
  show ?thesis
    using commit_longest [OF c base64_class [OF assms(1)] assms(2), of "CHR ''$'' # v" "\<lambda>k. (n, take k u) # cs"]
    unfolding rx_run.simps(2) [of "rx_base64 n"] run_base64 [OF assms(1) b(1) assms(2) b(2)]
    by (simp add: comp_def run_seq_chr del: upt_Suc rx_run.simps)
qed

lemma rep_opt_zero: "concat (map (rep_opt f g 0) xs) = xs"
  by (induction xs) simp_all

lemma run_opt:
  assumes "filter (\<lambda>st'. length (fst st') < length (fst st)) (rx_run a st) = rx_run a st" and "fst st \<noteq> []"
  shows "rx_run (ROpt a) st = rx_run a st @ [st]"
proof -
  have "rep_rounds 0 (Some 1) (fst st) = Suc 0" using assms(2) by (cases "fst st") (simp_all add: rep_rounds_def)
  then show ?thesis using assms(1) by (simp add: rep_opt_zero Let_def)
qed

text \<open>The version, an optional group: it is taken, as what follows cannot start inside it.\<close>

lemma run_version:
  assumes "committed digit_ranges (rx_run r)" and "blocked digit_ranges v" and "\<And>s cs. rx_run r (CHR ''v'' # s, cs) = []"
  shows "\<exists>c2. rx_run (RSeq (ROpt (RGroup 2 (RSeq (RStr ''v='') (rx_number 3)))) r) (''v='' @ dec 19 @ v, cs) =
    rx_run r (v, (2, c2) # (3, dec 19) # cs)"
proof -
  let ?g = "RGroup 2 (RSeq (RStr ''v='') (rx_number 3))" and ?s = "''v='' @ dec 19 @ v"
  let ?c2 = "\<lambda>k. take (length ?s - length (drop k (dec 19) @ v)) ?s"
  have g: "rx_run ?g (?s, cs) = map (\<lambda>k. (drop k (dec 19) @ v, (2, ?c2 k) # (3, take k (dec 19)) # cs))
      (rev [1..<Suc (length (dec 19))])"
    unfolding rx_run.simps(5) [of 2] rx_number_def rx_run.simps(2) [of "RStr ''v=''"] run_str list.map concat.simps append_Nil2
      run_group_class [OF digits_class(1) assms(2) digits_class(2)]
    by (simp add: comp_def del: upt_Suc rx_run.simps)
  have len: "filter (\<lambda>st'. length (fst st') < length (fst (?s, cs))) (rx_run ?g (?s, cs)) = rx_run ?g (?s, cs)"
    unfolding g by (rule filter_True) auto
  have opt: "rx_run (ROpt ?g) (?s, cs) = rx_run ?g (?s, cs) @ [(?s, cs)]"
    by (rule run_opt [OF len]) simp
  show ?thesis
    using commit_longest [OF assms(1) digits_class(1) [of 19] digits_class(2) [of 19], of v "\<lambda>k. (2, ?c2 k) # (3, take k (dec 19)) # cs"] assms(3)
    unfolding rx_run.simps(2) [of "ROpt ?g"] opt map_append concat_append g
    by (intro exI [of _ "?c2 (length (dec 19))"]) (simp add: comp_def del: upt_Suc rx_run.simps)
qed

definition argon2_caps :: "string \<Rightarrow> argon2_params \<Rightarrow> string \<Rightarrow> string \<Rightarrow> caps" where
  "argon2_caps c2 p salt hash =
     [(8, b64_nopad hash), (7, b64_nopad salt), (6, dec (ap_parallelism p)), (5, dec (ap_timeCost p)),
      (4, dec (ap_memoryCost p)), (2, c2), (3, dec 19), (1, algorithm_name (ap_algorithm p))]"

lemma dec_19: "''19'' = dec 19"
  by code_simp

lemma run_algorithm:
  assumes "\<And>c s cs. c \<noteq> CHR ''$'' \<Longrightarrow> rx_run r (c # s, cs) = []"
  shows "rx_run (RSeq (RGroup 1 (RAlt (RChr (CHR ''i'')) (RAlt (RChr (CHR ''d'')) (RStr ''id'')))) r)
      (algorithm_name a @ CHR ''$'' # s, cs) = rx_run r (CHR ''$'' # s, (1, algorithm_name a) # cs)"
  using assms by (cases a) (simp_all add: algorithm_name_def Suc_diff_le)

lemma argon2_match:
  assumes "salt \<noteq> []" and "hash \<noteq> []"
  shows "\<exists>c2. regex_match argon2_rx (argon2_text p salt hash) = Some (argon2_caps c2 p salt hash)"
proof -
  let ?h = "b64_nopad hash" and ?s = "b64_nopad salt"
  let ?r8 = "rx_base64 8"
  let ?r7 = "RSeq (rx_base64 7) (RSeq (RChr (CHR ''$'')) ?r8)"
  let ?r6 = "RSeq (rx_number 6) (RSeq (RChr (CHR ''$'')) ?r7)"
  let ?r5 = "RSeq (rx_number 5) (RSeq (RStr '',p='') ?r6)"
  let ?r4 = "RSeq (RStr ''$m='') (RSeq (rx_number 4) (RSeq (RStr '',t='') ?r5))"
  let ?rv = "RSeq (ROpt (RGroup 2 (RSeq (RStr ''v='') (rx_number 3)))) ?r4"
  let ?t7 = "?s @ CHR ''$'' # ?h"
  let ?t6 = "dec (ap_parallelism p) @ CHR ''$'' # ?t7"
  let ?t5 = "dec (ap_timeCost p) @ '',p='' @ ?t6"
  let ?t4 = "dec (ap_memoryCost p) @ '',t='' @ ?t5"
  let ?tv = "''v='' @ dec 19 @ ''$m='' @ ?t4"
  have ne: "?h \<noteq> []" "?s \<noteq> []" using assms b64_nopad_props(3) by auto
  have dig: "\<not> in_ranges digit_ranges (CHR '','')" "\<not> in_ranges digit_ranges (CHR ''$'')"
    by (simp_all add: digit_ranges_def less_eq_char_def)
  then have bl: "blocked digit_ranges ('',p='' @ x)" "blocked digit_ranges ('',t='' @ x)"
    "blocked digit_ranges (CHR ''$'' # x)" "blocked digit_ranges (''$m='' @ x)" for x by (simp_all add: blocked_def)
  have r8: "\<exists>sts. rx_run ?r8 (?h, cs) = ([], (8, ?h) # cs) # sts" for cs
  proof -
    have "[1..<Suc (length ?h)] = [1..<length ?h] @ [length ?h]" using ne(1) by (cases ?h) simp_all
    then show ?thesis
      using run_base64 [OF b64_nopad_props(2) _ ne(1), of "[]" 8 cs] by (simp add: blocked_def del: upt_Suc)
  qed
  have r7: "rx_run ?r7 (?t7, cs) = rx_run ?r8 (?h, (7, ?s) # cs)" for cs
    by (rule run_seq_base64 [OF b64_nopad_props(2) ne(2)])
  have r6: "rx_run ?r6 (?t6, cs) = rx_run ?r7 (?t7, (6, dec (ap_parallelism p)) # cs)" for cs
    unfolding run_number [OF bl(3) committed_chr [OF dig(2)]] by (rule run_seq_chr)
  have r5: "rx_run ?r5 (?t5, cs) = rx_run ?r6 (?t6, (5, dec (ap_timeCost p)) # cs)" for cs
    unfolding run_number [OF bl(1) committed_str [OF dig(1)]] by (rule run_seq_str)
  have r4: "rx_run ?r4 (''$m='' @ ?t4, cs) = rx_run ?r5 (?t5, (4, dec (ap_memoryCost p)) # cs)" for cs
    unfolding run_seq_str run_number [OF bl(2) committed_str [OF dig(1)]] ..
  have rv: "\<exists>c2. rx_run ?rv (?tv, cs) = rx_run ?r4 (''$m='' @ ?t4, (2, c2) # (3, dec 19) # cs)" for cs
    by (rule run_version [OF committed_str [OF dig(2)] bl(4)]) simp
  let ?ralg = "RSeq (RGroup 1 (RAlt (RChr (CHR ''i'')) (RAlt (RChr (CHR ''d'')) (RStr ''id'')))) (RSeq (RChr (CHR ''$'')) ?rv)"
  have alg: "rx_run ?ralg (algorithm_name (ap_algorithm p) @ CHR ''$'' # ?tv, []) =
      rx_run ?rv (?tv, [(1, algorithm_name (ap_algorithm p))])"
    by (rule trans [OF run_algorithm run_seq_chr]) simp
  have tx: "argon2_text p salt hash = ''$argon2'' @ algorithm_name (ap_algorithm p) @ CHR ''$'' # ?tv"
    unfolding argon2_text_def dec_19 by simp
  have "rx_run argon2_rx (argon2_text p salt hash, []) = rx_run ?rv (?tv, [(1, algorithm_name (ap_algorithm p))])"
    unfolding argon2_rx_def tx run_seq_str by (rule alg)
  then have m: "rx_run argon2_rx (argon2_text p salt hash, []) = rx_run ?rv (?tv, [(1, algorithm_name (ap_algorithm p))])" .
  obtain c2 where c2: "rx_run ?rv (?tv, [(1, algorithm_name (ap_algorithm p))]) =
      rx_run ?r4 (''$m='' @ ?t4, [(2, c2), (3, dec 19), (1, algorithm_name (ap_algorithm p))])" using rv by blast
  obtain sts where "rx_run argon2_rx (argon2_text p salt hash, []) = ([], argon2_caps c2 p salt hash) # sts"
    using r8 unfolding m c2 r4 r5 r6 r7 argon2_caps_def by blast
  then have "regex_match argon2_rx (argon2_text p salt hash) = Some (argon2_caps c2 p salt hash)"
    by (simp add: regex_match_def)
  then show ?thesis ..
qed

lemma argon2_fields_caps:
  assumes "params_ok p"
  shows "argon2_fields (argon2_caps c2 p salt hash) = Inr (19, p, salt, hash)"
proof -
  have c: "cap (argon2_caps c2 p salt hash) 1 = algorithm_name (ap_algorithm p)"
    "cap (argon2_caps c2 p salt hash) 3 = dec 19" "cap (argon2_caps c2 p salt hash) 4 = dec (ap_memoryCost p)"
    "cap (argon2_caps c2 p salt hash) 5 = dec (ap_timeCost p)" "cap (argon2_caps c2 p salt hash) 6 = dec (ap_parallelism p)"
    "cap (argon2_caps c2 p salt hash) 7 = b64_nopad salt" "cap (argon2_caps c2 p salt hash) 8 = b64_nopad hash"
    by (simp_all add: cap_def argon2_caps_def)
  have a: "(if algorithm_name a = ''d'' then ARGON2D else if algorithm_name a = ''id'' then ARGON2ID else ARGON2I) = a"
    for a by (cases a) (simp_all add: algorithm_name_def)
  have "stoul 10 (dec n) = Inr n" if "n < 2 ^ 32" for n using that by (intro stoul_dec) simp
  with assms show ?thesis unfolding argon2_fields_def c a by (simp add: params_ok_def)
qed

lemma xor_zero_iff: "xor u v = 0 \<longleftrightarrow> u = v" for u v :: nat
proof
  assume x: "xor u v = 0"
  show "u = v"
  proof (rule bit_eqI)
    fix n
    from x have "\<not> bit (xor u v) n" by simp
    then show "bit u n \<longleftrightarrow> bit v n" by (simp add: bit_xor_iff)
  qed
qed simp

lemma same_bytes_eq: "length a = length b \<Longrightarrow> same_bytes a b \<longleftrightarrow> a = b"
proof -
  assume l: "length a = length b"
  have "fold (\<lambda>i ret. or ret (xor (code (a ! i)) (code (b ! i)))) is (n :: nat) = 0 \<longleftrightarrow>
      n = 0 \<and> (\<forall>i \<in> set is. a ! i = b ! i)" for "is" n
  proof (induction "is" arbitrary: n)
    case (Cons i "is")
    have "or n (xor (code (a ! i)) (code (b ! i))) = 0 \<longleftrightarrow> n = 0 \<and> a ! i = b ! i"
      unfolding or_eq_0_iff xor_zero_iff by simp
    with Cons show ?case by auto
  qed simp
  then have "same_bytes a b \<longleftrightarrow> (\<forall>i \<in> set [0..<length a]. a ! i = b ! i)" unfolding same_bytes_def by simp
  also have "\<dots> \<longleftrightarrow> a = b" using l by (auto intro: nth_equalityI)
  finally show ?thesis .
qed

text \<open>The raw hash of a text is what follows its last \<^verbatim>\<open>$\<close>.\<close>

lemma argon2_text_hash:
  "base64Decode (drop (pos_add (find_last_char (CHR ''$'') (argon2_text p salt hash)) 1) (argon2_text p salt hash)) = hash"
proof -
  obtain pre where t: "argon2_text p salt hash = pre @ CHR ''$'' # b64_nopad hash" by (simp add: argon2_text_def)
  have "CHR ''$'' \<notin> set (b64_nopad hash)"
    using b64_nopad_props(2) [of hash]
    by (auto simp: list_all_iff is_base64_def is_upper_def is_lower_def is_digit_def less_eq_char_def)
  then have "find_char (CHR ''$'') (rev (pre @ CHR ''$'' # b64_nopad hash)) = Some (length (b64_nopad hash))"
    using find_char_append [of "CHR ''$''" "rev (b64_nopad hash)"] by simp
  then show ?thesis by (simp add: t find_last_char_def)
qed

text \<open>
  A password verifies against a generated hash exactly if libargon2 computes the same raw hash for it
  (and succeeds).
\<close>

lemma Argon2_verify_text:
  assumes doc: "argon2_documented L raw" and p: "params_ok p"
    and salt: "8 \<le> length salt" and h: "hash \<noteq> []"
  shows "Argon2_verifyHash L inp (argon2_text p salt hash) \<longleftrightarrow>
    fst (hl_argon2 L p inp salt (length hash) (encoded_ceil (length salt) (length hash))) = 0
    \<and> raw p inp salt (length hash) = hash"
proof -
  have ne: "salt \<noteq> []" using salt by auto
  obtain c2 where m: "regex_match argon2_rx (argon2_text p salt hash) = Some (argon2_caps c2 p salt hash)"
    using argon2_match [OF ne h] by blast
  obtain rc t where E: "hl_argon2 L p inp salt (length hash) (encoded_ceil (length salt) (length hash)) = (rc, t)"
    by fastforce
  have t: "c_string t = argon2_text p salt (raw p inp salt (length hash))" if "rc = 0"
    using doc that E unfolding argon2_documented_def by (metis fst_conv snd_conv)
  have len: "length (raw p inp salt (length hash)) = length hash" using doc by (simp add: argon2_documented_def)
  have ge: "length salt < 8 \<longleftrightarrow> False" using salt by simp
  let ?e = "\<lparr>ae_params = p, ae_salt = salt, ae_hashLen = length hash\<rparr>"
  have gen: "Argon2_generateHash L ?e inp =
      (if rc \<noteq> 0 then Inl (NawaException 10 (''Argon2 error: '' @ hl_argon2_error L rc))
       else Inr (argon2_text p salt (raw p inp salt (length hash))))"
    using ne ge t by (simp add: Argon2_generateHash_def Let_def E)
  have "same_bytes hash (raw p inp salt (length hash)) \<longleftrightarrow> raw p inp salt (length hash) = hash"
    using len same_bytes_eq [of hash "raw p inp salt (length hash)"] by auto
  then show ?thesis
    unfolding Argon2_verifyHash_def m option.case argon2_fields_caps [OF p] E fst_conv sum.case prod.case gen
    by (simp only: if_False if_True Let_def argon2_text_hash len sum.case split: if_split) simp
qed

lemma length_random_salt: "length (random_salt L) = 16"
  by (simp add: random_salt_def length_concat comp_def sum_list_triv)

text \<open>What \<^verbatim>\<open>passwordHash\<close> returned verifies for exactly the passwords with the same raw hash.\<close>

definition actual_salt :: "hash_libs \<Rightarrow> Argon2HashingEngine \<Rightarrow> string" where
  "actual_salt L e = (if ae_salt e = [] then random_salt L else ae_salt e)"

lemma default_table_argon2: "DefaultHashTypeTable (argon2_text p salt hash) = Some (Engine_argon2 Argon2_default)"
  by (cases "ap_algorithm p") (simp_all add: DefaultHashTypeTable_def argon2_text_def algorithm_name_def)

lemma password_argon2:
  assumes doc: "argon2_documented L raw" and p: "params_ok (ae_params e)" and len: "0 < ae_hashLen e"
    and gen: "passwordHash L password (Engine_argon2 e) = Inr hash"
  shows "passwordVerify L guess hash DefaultHashTypeTable =
    Inr (fst (hl_argon2 L (ae_params e) guess (actual_salt L e) (ae_hashLen e)
             (encoded_ceil (length (actual_salt L e)) (ae_hashLen e))) = 0
         \<and> raw (ae_params e) guess (actual_salt L e) (ae_hashLen e) =
             raw (ae_params e) password (actual_salt L e) (ae_hashLen e))"
proof -
  let ?s = "actual_salt L e" and ?r = "raw (ae_params e) password (actual_salt L e) (ae_hashLen e)"
  obtain rc t where E: "hl_argon2 L (ae_params e) password ?s (ae_hashLen e) (encoded_ceil (length ?s) (ae_hashLen e)) = (rc, t)"
    by fastforce
  have sl: "\<not> (ae_salt e \<noteq> [] \<and> length (ae_salt e) < 8)"
    using gen by (auto simp: passwordHash_def generateHash_def Argon2_generateHash_def split: if_splits)
  then have s8: "8 \<le> length ?s" by (auto simp: actual_salt_def length_random_salt)
  have "Argon2_generateHash L e password =
      (if rc \<noteq> 0 then Inl (NawaException 10 (''Argon2 error: '' @ hl_argon2_error L rc)) else Inr (c_string t))"
    unfolding Argon2_generateHash_def Let_def actual_salt_def [symmetric] E using sl by simp
  with gen have rc: "rc = 0" "hash = c_string t" by (auto simp: passwordHash_def generateHash_def split: if_splits)
  have "c_string t = argon2_text (ae_params e) ?s ?r"
    using doc E rc(1) unfolding argon2_documented_def by (metis fst_conv snd_conv)
  with rc have h: "hash = argon2_text (ae_params e) ?s ?r" by simp
  have lr: "length ?r = ae_hashLen e" using doc by (simp add: argon2_documented_def)
  with len have ne: "?r \<noteq> []" by auto
  have "hash \<noteq> []" by (simp add: h argon2_text_def)
  with default_table_argon2 [of "ae_params e" ?s ?r] Argon2_verify_text [OF doc p s8 ne, of guess] lr
  show ?thesis by (simp add: passwordVerify_def h verifyHash_def)
qed

lemma password_argon2_accepts:
  assumes "argon2_documented L raw" and "params_ok (ae_params e)" and "0 < ae_hashLen e"
    and gen: "passwordHash L password (Engine_argon2 e) = Inr hash"
  shows "passwordVerify L password hash DefaultHashTypeTable = Inr True"
proof -
  have "fst (hl_argon2 L (ae_params e) password (actual_salt L e) (ae_hashLen e)
             (encoded_ceil (length (actual_salt L e)) (ae_hashLen e))) = 0"
    using gen by (auto simp: passwordHash_def generateHash_def Argon2_generateHash_def actual_salt_def Let_def
        split: if_splits prod.splits)
  with password_argon2 [OF assms, of password] show ?thesis by simp
qed

end
