(* ===== verification/Bcrypt.thy ===== *)
theory Bcrypt
  imports Bf_Key Hashing
begin

text \<open>
  The layers of \<^verbatim>\<open>libs/libbcrypt\<close> above the cipher: \<^verbatim>\<open>crypt_gensalt.c\<close>, \<^verbatim>\<open>wrapper.c\<close> (as built outside
  glibc) and \<^verbatim>\<open>bcrypt.c\<close>. A function that returns its output buffer or \<^verbatim>\<open>NULL\<close> yields whether it
  returned it and what the buffer then holds, or an option where the buffer is not looked at after
  a failure. \<^verbatim>\<open>realloc\<close> and \<^verbatim>\<open>strdup\<close> succeed or not by a parameter. What \<^verbatim>\<open>open\<close>, \<^verbatim>\<open>read\<close> and \<^verbatim>\<open>close\<close> on
  \<^verbatim>\<open>/dev/urandom\<close> deliver is a list of outcomes; when it is used up the call does not return (\<open>None\<close>).
\<close>

section \<open>Salts of the other methods\<close>

definition itoa64 :: "nat \<Rightarrow> char" where
  "itoa64 v = crypt_itoa64 ! (v AND 0x3f)"

definition three_bytes :: "nat list \<Rightarrow> nat \<Rightarrow> nat" where
  "three_bytes inp i = inp ! i OR push_bit 8 (inp ! (i + 1)) OR push_bit 16 (inp ! (i + 2))"

definition crypt_gensalt_traditional_rn :: "string \<Rightarrow> nat \<Rightarrow> nat list \<Rightarrow> nat \<Rightarrow> nat \<Rightarrow> string option" where
  "crypt_gensalt_traditional_rn pfx count inp sz output_size =
     (if sz < 2 \<or> output_size < 2 + 1 \<or> (count \<noteq> 0 \<and> count \<noteq> 25) then None
      else Some [itoa64 (inp ! 0), itoa64 (inp ! 1)])"

definition crypt_gensalt_extended_rn :: "string \<Rightarrow> nat \<Rightarrow> nat list \<Rightarrow> nat \<Rightarrow> nat \<Rightarrow> string option" where
  "crypt_gensalt_extended_rn pfx count inp sz output_size =
     (if sz < 3 \<or> output_size < 1 + 4 + 4 + 1 \<or> (count \<noteq> 0 \<and> (count > 0xffffff \<or> count AND 1 = 0)) then None
      else
        let count = (if count = 0 then 725 else count);
            v = three_bytes inp 0
        in Some (''_'' @ map itoa64 [count, drop_bit 6 count, drop_bit 12 count, drop_bit 18 count]
             @ map itoa64 [v, drop_bit 6 v, drop_bit 12 v, drop_bit 18 v]))"

definition crypt_gensalt_md5_rn :: "string \<Rightarrow> nat \<Rightarrow> nat list \<Rightarrow> nat \<Rightarrow> nat \<Rightarrow> string option" where
  "crypt_gensalt_md5_rn pfx count inp sz output_size =
     (if sz < 3 \<or> output_size < 3 + 4 + 1 \<or> (count \<noteq> 0 \<and> count \<noteq> 1000) then None
      else
        let v = three_bytes inp 0;
            w = three_bytes inp 3
        in Some (''$1$'' @ map itoa64 [v, drop_bit 6 v, drop_bit 12 v, drop_bit 18 v]
             @ (if 6 \<le> sz \<and> 3 + 4 + 4 + 1 \<le> output_size
                then map itoa64 [w, drop_bit 6 w, drop_bit 12 w, drop_bit 18 w] else [])))"

section \<open>The wrapper\<close>

text \<open>The buffer that \<^verbatim>\<open>crypt_ra\<close> keeps, with its size; a fresh one holds no text yet.\<close>

definition crypt_data_alloc :: "bool \<Rightarrow> string option \<times> nat \<Rightarrow> nat \<Rightarrow> bool \<times> string option \<times> nat" where
  "crypt_data_alloc realloc = (\<lambda>(data, sz) need.
     if data \<noteq> None \<and> need \<le> sz then (True, data, sz)
     else if \<not> realloc then (False, data, sz)
     else (True, Some (case data of Some d \<Rightarrow> d | None \<Rightarrow> []), need))"

definition crypt_retval_magic :: "bool \<Rightarrow> string \<Rightarrow> string \<Rightarrow> nat \<Rightarrow> bool \<times> string" where
  "crypt_retval_magic retval setting output sz =
     (if retval then (True, output)
      else case crypt_output_magic setting sz of None \<Rightarrow> (False, output) | Some m \<Rightarrow> (True, m))"

definition CRYPT_OUTPUT_SIZE :: nat where
  "CRYPT_OUTPUT_SIZE = 7 + 22 + 31 + 1"

definition crypt_rn :: "string \<Rightarrow> string \<Rightarrow> string \<Rightarrow> nat \<Rightarrow> bool \<times> string" where
  "crypt_rn key setting data sz = crypt_blowfish_rn key setting data sz"

definition crypt_ra :: "bool \<Rightarrow> string \<Rightarrow> string \<Rightarrow> string option \<times> nat \<Rightarrow> bool \<times> string option \<times> nat" where
  "crypt_ra realloc key setting buf =
     (case crypt_data_alloc realloc buf CRYPT_OUTPUT_SIZE of
        (True, Some data, sz) \<Rightarrow> (let (ok, out) = crypt_blowfish_rn key setting data sz in (ok, Some out, sz))
      | (_, data, sz) \<Rightarrow> (False, data, sz))"

definition crypt_r :: "string \<Rightarrow> string \<Rightarrow> string \<Rightarrow> bool \<times> string" where
  "crypt_r key setting data =
     (let (retval, data) = crypt_rn key setting data CRYPT_OUTPUT_SIZE
      in crypt_retval_magic retval setting data CRYPT_OUTPUT_SIZE)"

text \<open>\<open>output\<close> is the static buffer of \<^verbatim>\<open>crypt\<close>.\<close>

definition crypt :: "string \<Rightarrow> string \<Rightarrow> string \<Rightarrow> bool \<times> string" where
  "crypt key setting output =
     (let (retval, output) = crypt_rn key setting output CRYPT_OUTPUT_SIZE
      in crypt_retval_magic retval setting output CRYPT_OUTPUT_SIZE)"

text \<open>
  The same functions (\<^verbatim>\<open>crypt\<close> is \<^verbatim>\<open>crypt_r\<close> on a static buffer) as they are compiled into glibc, which has MD5 and DES hashes of its own:
  \<open>md5_r\<close> and \<open>des_r\<close>, functions of the key, the setting and the buffer. \<open>data_size\<close> is the size of the
  \<^verbatim>\<open>struct crypt_data\<close>.
\<close>

definition glibc_crypt_rn ::
    "(string \<Rightarrow> string \<Rightarrow> string \<Rightarrow> nat \<Rightarrow> bool \<times> string) \<Rightarrow> (string \<Rightarrow> string \<Rightarrow> string \<Rightarrow> bool \<times> string) \<Rightarrow> nat
       \<Rightarrow> string \<Rightarrow> string \<Rightarrow> string \<Rightarrow> nat \<Rightarrow> bool \<times> string" where
  "glibc_crypt_rn md5_r des_r data_size key setting data sz =
     (if char_at setting 0 = CHR ''$'' \<and> char_at setting 1 = CHR ''2'' then crypt_blowfish_rn key setting data sz
      else if char_at setting 0 = CHR ''$'' \<and> char_at setting 1 = CHR ''1'' then md5_r key setting data sz
      else if char_at setting 0 = CHR ''$'' \<or> char_at setting 0 = CHR ''_'' then (False, data)
      else if data_size \<le> sz then des_r key setting data
      else (False, data))"

definition glibc_crypt_ra ::
    "(string \<Rightarrow> string \<Rightarrow> string \<Rightarrow> nat \<Rightarrow> bool \<times> string) \<Rightarrow> (string \<Rightarrow> string \<Rightarrow> string \<Rightarrow> bool \<times> string) \<Rightarrow> nat
       \<Rightarrow> bool \<Rightarrow> string \<Rightarrow> string \<Rightarrow> string option \<times> nat \<Rightarrow> bool \<times> string option \<times> nat" where
  "glibc_crypt_ra md5_r des_r data_size realloc key setting buf =
     (let hash_with = (\<lambda>f need.
            (case crypt_data_alloc realloc buf need of
               (True, Some data, sz) \<Rightarrow> (let (ok, out) = f data sz in (ok, Some out, sz))
             | (_, data, sz) \<Rightarrow> (False, data, sz)))
      in if char_at setting 0 = CHR ''$'' \<and> char_at setting 1 = CHR ''2''
         then hash_with (crypt_blowfish_rn key setting) CRYPT_OUTPUT_SIZE
         else if char_at setting 0 = CHR ''$'' \<and> char_at setting 1 = CHR ''1''
         then hash_with (md5_r key setting) CRYPT_OUTPUT_SIZE
         else if char_at setting 0 = CHR ''$'' \<or> char_at setting 0 = CHR ''_'' then (False, buf)
         else hash_with (\<lambda>data sz. des_r key setting data) data_size)"

definition glibc_crypt_r ::
    "(string \<Rightarrow> string \<Rightarrow> string \<Rightarrow> nat \<Rightarrow> bool \<times> string) \<Rightarrow> (string \<Rightarrow> string \<Rightarrow> string \<Rightarrow> bool \<times> string) \<Rightarrow> nat
       \<Rightarrow> string \<Rightarrow> string \<Rightarrow> string \<Rightarrow> bool \<times> string" where
  "glibc_crypt_r md5_r des_r data_size key setting data =
     (let (retval, data) = glibc_crypt_rn md5_r des_r data_size key setting data data_size
      in crypt_retval_magic retval setting data data_size)"

text \<open>Settings of bcrypt are hashed alike by both builds.\<close>

lemma glibc_bcrypt:
  assumes "char_at setting 0 = CHR ''$''" and "char_at setting 1 = CHR ''2''"
  shows "glibc_crypt_rn md5_r des_r n key setting = crypt_rn key setting"
    and "glibc_crypt_ra md5_r des_r n realloc key setting = crypt_ra realloc key setting"
  using assms by (auto simp: fun_eq_iff glibc_crypt_rn_def crypt_rn_def glibc_crypt_ra_def crypt_ra_def Let_def)

definition crypt_gensalt_rn :: "string \<Rightarrow> nat \<Rightarrow> nat list option \<Rightarrow> nat \<Rightarrow> nat \<Rightarrow> string option" where
  "crypt_gensalt_rn pfx count input sz output_size =
     (case input of
        None \<Rightarrow> None
      | Some inp \<Rightarrow>
          (if take 4 pfx = ''$2a$'' \<or> take 4 pfx = ''$2b$'' \<or> take 4 pfx = ''$2y$''
           then crypt_gensalt_blowfish_rn pfx count inp sz output_size
           else if take 3 pfx = ''$1$'' then crypt_gensalt_md5_rn pfx count inp sz output_size
           else if char_at pfx 0 = CHR ''_'' then crypt_gensalt_extended_rn pfx count inp sz output_size
           else if pfx = [] \<or> (1 < length pfx \<and> pfx ! 0 \<in> set crypt_itoa64 \<and> pfx ! 1 \<in> set crypt_itoa64)
           then crypt_gensalt_traditional_rn pfx count inp sz output_size
           else None))"

definition crypt_gensalt_ra :: "bool \<Rightarrow> string \<Rightarrow> nat \<Rightarrow> nat list option \<Rightarrow> nat \<Rightarrow> string option" where
  "crypt_gensalt_ra strdup pfx count input sz =
     (case crypt_gensalt_rn pfx count input sz (7 + 22 + 1) of
        None \<Rightarrow> None
      | Some s \<Rightarrow> if strdup then Some s else None)"

definition crypt_gensalt :: "string \<Rightarrow> nat \<Rightarrow> nat list option \<Rightarrow> nat \<Rightarrow> string option" where
  "crypt_gensalt pfx count input sz = crypt_gensalt_rn pfx count input sz (7 + 22 + 1)"

section \<open>The random device\<close>

datatype close_result = Closed | Close_interrupted | Close_failed

datatype read_result = Read_bytes string | Read_interrupted | Read_failed

record urandom =
  ur_open :: bool
  ur_reads :: "read_result list"
  ur_closes :: "close_result list"

fun try_close :: "close_result list \<Rightarrow> bool option" where
  "try_close [] = None"
| "try_close (Close_interrupted # rs) = try_close rs"
| "try_close (Closed # rs) = Some True"
| "try_close (Close_failed # rs) = Some False"

text \<open>\<^verbatim>\<open>read\<close> delivers at most the bytes asked for; no byte is the end of the file. The inner \<open>None\<close> is -1.\<close>

fun try_read :: "read_result list \<Rightarrow> nat \<Rightarrow> string option option" where
  "try_read rs 0 = Some (Some [])"
| "try_read [] (Suc n) = None"
| "try_read (Read_interrupted # rs) (Suc n) = try_read rs (Suc n)"
| "try_read (Read_failed # rs) (Suc n) = Some None"
| "try_read (Read_bytes bs # rs) (Suc n) =
     (if bs = [] then Some None
      else map_option (map_option (\<lambda>more. take (Suc n) bs @ more)) (try_read rs (Suc n - length bs)))"

section \<open>The interface\<close>

definition timing_safe_strcmp :: "string \<Rightarrow> string \<Rightarrow> int" where
  "timing_safe_strcmp str1 str2 =
     (if length str1 \<noteq> length str2 then 1
      else int (fold (\<lambda>i ret. ret OR (of_char (str1 ! i) XOR of_char (str2 ! i))) [0..<length str1] (0 :: nat)))"

definition BCRYPT_HASHSIZE :: nat where
  "BCRYPT_HASHSIZE = 64"

definition bcrypt_gensalt :: "int \<Rightarrow> urandom \<Rightarrow> (int \<times> string option) option" where
  "bcrypt_gensalt factor ur =
     (if \<not> ur_open ur then Some (1, None)
      else case try_read (ur_reads ur) 16 of
        None \<Rightarrow> None
      | Some None \<Rightarrow> map_option (\<lambda>closed. (if \<not> closed then 4 else 2, None)) (try_close (ur_closes ur))
      | Some (Some inp) \<Rightarrow>
          map_option (\<lambda>closed.
              if \<not> closed then (3, None)
              else
                let workf = (if factor < 4 \<or> factor > 31 then 12 else factor)
                in case crypt_gensalt_rn ''$2a$'' (nat workf) (Some (map of_char inp)) 16 BCRYPT_HASHSIZE of
                     None \<Rightarrow> (5, None)
                   | Some salt \<Rightarrow> (0, Some salt))
            (try_close (ur_closes ur)))"

text \<open>The return code and what \<^verbatim>\<open>hash\<close> then holds.\<close>

definition bcrypt_hashpw :: "string \<Rightarrow> string \<Rightarrow> string \<Rightarrow> int \<times> string" where
  "bcrypt_hashpw passwd salt hash =
     (let (ok, hash) = crypt_rn passwd salt hash BCRYPT_HASHSIZE in (if ok then 0 else 1, hash))"

text \<open>\<open>outhash\<close> is the uninitialised buffer of \<^verbatim>\<open>bcrypt_checkpw\<close>.\<close>

definition bcrypt_checkpw :: "string \<Rightarrow> string \<Rightarrow> string \<Rightarrow> int" where
  "bcrypt_checkpw passwd hash outhash =
     (let (ret, outhash) = bcrypt_hashpw passwd hash outhash in
      if ret \<noteq> 0 then - 1 else timing_safe_strcmp hash outhash)"

section \<open>Comparing\<close>

lemma strcmp_zero: "timing_safe_strcmp a b = 0 \<longleftrightarrow> a = b"
proof (cases "length a = length b")
  case True
  then have "timing_safe_strcmp a b = 0 \<longleftrightarrow> same_bytes a b"
    by (simp add: timing_safe_strcmp_def same_bytes_def)
  with True same_bytes_eq show ?thesis by blast
qed (auto simp: timing_safe_strcmp_def)

lemma crypt_blowfish_result:
  assumes "3 \<le> sz"
  shows "crypt_blowfish_rn key setting out sz = crypt_blowfish_rn key setting [] sz"
    and "crypt_blowfish_rn key setting out sz = (True, t) \<Longrightarrow> BF_crypt key setting sz 16 = Some t"
  using assms by (cases "BF_crypt key setting sz 16"; auto simp: crypt_blowfish_rn_def crypt_output_magic_def Let_def
      split: if_splits)+

lemma hashpw_buffer: "bcrypt_hashpw p salt out = bcrypt_hashpw p salt []"
  unfolding bcrypt_hashpw_def crypt_rn_def BCRYPT_HASHSIZE_def by (subst crypt_blowfish_result(1)) simp_all

lemma hashpw_crypt: "bcrypt_hashpw p salt out = (0, h) \<Longrightarrow> BF_crypt p salt 64 16 = Some h"
  using crypt_blowfish_result(2) [of 64 p salt out h]
  by (auto simp: bcrypt_hashpw_def crypt_rn_def BCRYPT_HASHSIZE_def split: prod.splits if_splits)

text \<open>A hash is checked as if the password were hashed with the salt it was made with.\<close>

lemma checkpw_iff:
  assumes "bcrypt_hashpw p salt out = (0, h)"
  shows "bcrypt_checkpw p' h out' = 0 \<longleftrightarrow> bcrypt_hashpw p' salt [] = (0, h)"
proof -
  have "same_setting salt h" using BF_crypt_result [OF hashpw_crypt [OF assms]] by simp
  from crypt_blowfish_same [OF this, of p' "[]" 64]
  have "bcrypt_hashpw p' h [] = bcrypt_hashpw p' salt []"
    by (simp add: bcrypt_hashpw_def crypt_rn_def BCRYPT_HASHSIZE_def)
  then show ?thesis
    unfolding bcrypt_checkpw_def hashpw_buffer [of p' h out'] strcmp_zero
    by (cases "bcrypt_hashpw p' salt []") (auto simp: strcmp_zero)
qed

lemma checkpw_own: "bcrypt_hashpw p salt out = (0, h) \<Longrightarrow> bcrypt_checkpw p h out' = 0"
  using checkpw_iff hashpw_buffer by metis


section \<open>The text of a hash\<close>

lemma decode_chars:
  "BF_decode s (3 * k + 1) = Some bs \<Longrightarrow> list_all (\<lambda>c. BF_safe_atoi64 c \<noteq> None) (take (4 * k + 2) s)"
proof (induction k arbitrary: s bs)
  case 0
  then have "2 \<le> length s" using decode_short [of s 0] by simp
  then obtain a b p where "s = a # b # p" by (auto simp: numeral_eq_Suc Suc_le_length_iff)
  with 0 show ?case using decode_one [of a b p] by (auto split: option.splits)
next
  case (Suc k)
  have e: "3 * Suc k + 1 = (3 * k + 1) + 3" by simp
  from Suc.prems have "4 \<le> length s" unfolding e by (intro decode_four) auto
  then obtain a b c d p where s: "s = a # b # c # d # p" by (auto simp: numeral_eq_Suc Suc_le_length_iff)
  with Suc.prems e decode_step [of "3 * k + 1" a b c d p] obtain ds where
    "BF_decode p (3 * k + 1) = Some ds" "BF_safe_atoi64 a \<noteq> None" "BF_safe_atoi64 b \<noteq> None"
    "BF_safe_atoi64 c \<noteq> None" "BF_safe_atoi64 d \<noteq> None"
    by (cases "BF_decode p (3 * k + 1)") (auto split: option.splits)
  moreover have "4 * Suc k + 2 = Suc (Suc (Suc (Suc (4 * k + 2))))" by simp
  ultimately show ?case using Suc.IH unfolding s by (simp only: take_Suc_Cons list.pred_inject) simp
qed

lemma atoi64_not_nul: "BF_safe_atoi64 c \<noteq> None \<Longrightarrow> c \<noteq> CHR 0x00"
  by (auto simp: BF_safe_atoi64_def)

lemma itoa64_not_nul: "CHR 0x00 \<notin> set BF_itoa64"
  by (simp add: BF_itoa64_def)

lemma set_BF_encode: "list_all (\<lambda>b. b < 256) bs \<Longrightarrow> set (BF_encode bs) \<subseteq> set BF_itoa64"
proof (induction bs rule: BF_encode.induct)
  case (2 c1)
  then show ?case using encoded_parts [of c1 0 0] by (auto intro!: nth_mem)
next
  case (3 c1 c2)
  then show ?case using encoded_parts [of c1 c2 0] by (auto intro!: nth_mem)
next
  case (4 c1 c2 c3 bs)
  then show ?case using encoded_parts [of c1 c2 c3] by (auto intro!: nth_mem)
qed simp

lemma le_bytes_bound: "list_all (\<lambda>b. b < 256) (le_bytes w)"
proof -
  have "unat (v AND 0xFF) < 256" for v :: BF_word
  proof -
    have "v AND 0xFF = take_bit 8 v" by (simp add: take_bit_eq_mask mask_eq_exp_minus_1)
    then show ?thesis using take_bit_nat_less_exp [of 8 "unat v"] by (simp add: unsigned_take_bit_eq)
  qed
  then show ?thesis by (simp add: le_bytes_def list_all_iff)
qed

lemma subtype_cases:
  assumes "setting_ok s"
  shows "char_at s 2 \<in> {CHR ''a'', CHR ''b'', CHR ''x'', CHR ''y''}"
proof -
  let ?n = "of_char (char_at s 2) - 97 :: nat"
  have n: "?n < 26" "97 \<le> (of_char (char_at s 2) :: nat)" "flags_by_subtype ! ?n \<noteq> 0"
    using assms by (auto simp: setting_ok_def subtype_flags_def less_char_def not_less)
  have "n \<in> {0, 1, 23, 24}" if "n < 26" "flags_by_subtype ! n \<noteq> 0" for n
    using that by (auto simp: flags_by_subtype_def nth_Cons' split: if_splits)
  from this [OF n(1,3)] n(2) have
    "code (char_at s 2) \<in> {code (CHR ''a''), code (CHR ''b''), code (CHR ''x''), code (CHR ''y'')}" by auto
  then show ?thesis unfolding insert_iff empty_iff by (blast dest: code_inject)
qed

lemma setting_not_nul: "setting_ok s \<Longrightarrow> i < 7 \<Longrightarrow> char_at s i \<noteq> CHR 0x00"
proof -
  assume ok: "setting_ok s" and "i < 7"
  then consider "i = 0" | "i = 1" | "i = 2" | "i = 3" | "i = 4" | "i = 5" | "i = 6" by linarith
  then show ?thesis
  proof cases
    case 3
    with subtype_cases [OF ok] show ?thesis by auto
  qed (use ok in \<open>auto simp: setting_ok_def less_char_def\<close>)
qed

lemma hash_text:
  assumes "BF_crypt p s sz least = Some t"
  shows "CHR 0x00 \<notin> set t \<and> take 4 t \<in> {''$2a$'', ''$2b$'', ''$2x$'', ''$2y$''}"
proof -
  note r = BF_crypt_result [OF assms]
  then have s: "28 < length s" "setting_ok s" by (auto simp: same_setting_def)
  from assms obtain bytes where d: "BF_decode (drop 7 s) (3 * 5 + 1) = Some bytes"
    by (auto simp: BF_crypt_def split: if_splits option.splits)
  let ?bs = "take 23 (concat (map (\<lambda>w. le_bytes (BF_swap w)) (BF_digest p (subtype_flags s) (setting_count s) bytes)))"
  obtain x where x: "BF_safe_atoi64 (s ! 28) = Some x" using decode_short [OF d] by auto
  have c: "s ! i = char_at s i" if "i < 7" for i using that s(1) by (simp add: char_at_def)
  have "s ! i \<noteq> CHR 0x00" if "i < 28" for i
  proof (cases "i < 7")
    case True
    with setting_not_nul [OF s(2)] c show ?thesis by simp
  next
    case False
    with that s(1) have e: "s ! i = take (4 * 5 + 2) (drop 7 s) ! (i - 7)" "i - 7 < length (take (4 * 5 + 2) (drop 7 s))" by auto
    from decode_chars [OF d] e(2) have "BF_safe_atoi64 (s ! i) \<noteq> None"
      unfolding list_all_length e(1) by blast
    then show ?thesis by (rule atoi64_not_nul)
  qed
  with s(1) have head: "CHR 0x00 \<notin> set (take 28 s)" by (auto simp: in_set_conv_nth)
  have "take 4 s = [s ! 0, s ! 1, s ! 2, s ! 3]" 
  proof -
    from s(1) have "4 \<le> length s" by simp
    then obtain a b c d q where "s = a # b # c # d # q" by (auto simp: numeral_eq_Suc Suc_le_length_iff)
    then show ?thesis by simp
  qed
  with c s(2) subtype_cases [OF s(2)] have kind: "take 4 s \<in> {''$2a$'', ''$2b$'', ''$2x$'', ''$2y$''}"
    by (auto simp: setting_ok_def)
  have "list_all (\<lambda>b. b < 256) ?bs" using le_bytes_bound by (auto simp: list_all_iff dest!: in_set_takeD)
  then have tail: "CHR 0x00 \<notin> set (BF_encode ?bs)" using set_BF_encode itoa64_not_nul by blast
  have t: "t = take 28 s @ [BF_itoa64 ! (BF_atoi64 ! (of_char (char_at s 28) - 0x20) AND 0x30)] @ BF_encode ?bs"
    using assms d by (simp add: BF_crypt_def split: if_splits)
  moreover have "t ! 28 = BF_itoa64 ! (BF_atoi64 ! (of_char (char_at s 28) - 0x20) AND 0x30)"
    using s(1) unfolding t by (simp add: nth_append)
  moreover have "t ! 28 \<noteq> CHR 0x00" using r by (auto simp: same_setting_def intro!: atoi64_not_nul)
  moreover have "take 4 t = take 4 s" using s(1) unfolding t by (simp add: take_append)
  ultimately show ?thesis using head tail kind by auto
qed


section \<open>Passwords\<close>

text \<open>The libraries with libbcrypt filled in; where salts come from stays open.\<close>

definition with_bcrypt :: "hash_libs \<Rightarrow> hash_libs" where
  "with_bcrypt L = L\<lparr>hl_hashpw := \<lambda>p s. bcrypt_hashpw p s [], hl_checkpw := \<lambda>p h. bcrypt_checkpw p h []\<rparr>"

lemma c_string_no_nul: "CHR 0x00 \<notin> set s \<Longrightarrow> c_string s = s"
  unfolding c_string_def takeWhile_eq_all_conv by blast

lemma password_bcrypt:
  assumes "passwordHash (with_bcrypt L) password (Engine_bcrypt e) = Inr hash"
  shows "bcrypt_hashpw (c_string password) (snd (hl_gensalt L (be_workFactor e))) [] = (0, hash) \<and> length hash = 60
    \<and> (\<forall>guess. \<forall>table. table = BcryptOnlyHashTypeTable \<or> table = DefaultHashTypeTable \<longrightarrow>
         passwordVerify (with_bcrypt L) guess hash table =
           Inr (bcrypt_hashpw (c_string guess) (snd (hl_gensalt L (be_workFactor e))) [] = (0, hash)))"
proof -
  let ?salt = "snd (hl_gensalt L (be_workFactor e))"
  obtain rc h where h: "bcrypt_hashpw (c_string password) ?salt [] = (rc, h)" by fastforce
  with assms have g: "rc = 0" "hash = take 60 h"
    by (auto simp: passwordHash_def generateHash_def Bcrypt_generateHash_def with_bcrypt_def split_beta split: if_splits)
  note c = hashpw_crypt [OF h [unfolded g(1)]]
  have len: "length h = 60" and hh: "hash = h" using BF_crypt_result [OF c] g(2) by simp_all
  from hash_text [OF c] have nul: "c_string h = h" and tab: "take 4 h \<in> {''$2a$'', ''$2b$'', ''$2x$'', ''$2y$''}"
    by (simp_all add: c_string_no_nul)
  from len have ne: "h \<noteq> []" by auto
  have "Bcrypt_verifyHash (with_bcrypt L) guess h = (bcrypt_hashpw (c_string guess) ?salt [] = (0, h))" for guess
    using checkpw_iff [OF h [unfolded g(1)], of "c_string guess" "[]"] by (simp add: Bcrypt_verifyHash_def with_bcrypt_def nul)
  moreover have "BcryptOnlyHashTypeTable h = Some (Engine_bcrypt Bcrypt_default)"
    "DefaultHashTypeTable h = Some (Engine_bcrypt Bcrypt_default)"
    unfolding BcryptOnlyHashTypeTable_def DefaultHashTypeTable_def using tab by (simp_all only: if_True)
  ultimately have "passwordVerify (with_bcrypt L) guess h table = Inr (bcrypt_hashpw (c_string guess) ?salt [] = (0, h))"
    if "table = BcryptOnlyHashTypeTable \<or> table = DefaultHashTypeTable" for guess table
    using that ne by (auto simp: passwordVerify_def verifyHash_def)
  with h g(1) hh len show ?thesis by blast
qed

section \<open>Salts\<close>

lemma length_try_read: "try_read rs n = Some (Some bs) \<Longrightarrow> length bs = n"
proof (induction rs n arbitrary: bs rule: try_read.induct)
  case (5 cs rs n)
  from "5.prems" have ne: "cs \<noteq> []" by (simp split: if_splits)
  with "5.prems" obtain more where m: "try_read rs (Suc n - length cs) = Some (Some more)" "bs = take (Suc n) cs @ more"
    by (simp add: map_option_eq_Some) blast
  from "5.IH" [OF ne m(1)] m(2) show ?case by simp
qed simp_all

lemma length_BF_encode_16: "length bs = 16 \<Longrightarrow> length (BF_encode bs) = 22"
  by (simp add: length_BF_encode)

definition salt_text :: "nat \<Rightarrow> nat list \<Rightarrow> string" where
  "salt_text w bs = ''$2'' @ ''a'' @ ''$'' @ [char_of (48 + w div 10), char_of (48 + w mod 10)] @ ''$'' @ BF_encode bs"

lemma salt_text_accepted:
  assumes w: "4 \<le> w" "w \<le> 31" and bs: "length bs = 16" "list_all (\<lambda>b. b < 256) bs"
  shows "setting_ok (salt_text w bs) \<and> setting_count (salt_text w bs) = 2 ^ w
    \<and> BF_decode (drop 7 (salt_text w bs)) 16 = Some bs \<and> (\<exists>t. BF_crypt pw (salt_text w bs) 64 16 = Some t)"
proof -
  let ?s = "salt_text w bs"
  have d: "BF_decode (drop 7 ?s) 16 = Some bs"
  proof -
    have "bs \<noteq> []" using bs(1) by auto
    from decode_encode [OF this bs(2), of "[]"] bs(1) show ?thesis by (simp add: salt_text_def)
  qed
  have at: "char_at ?s 0 = CHR ''$''" "char_at ?s 1 = CHR ''2''" "char_at ?s 2 = CHR ''a''" "char_at ?s 3 = CHR ''$''"
    "char_at ?s 4 = char_of (48 + w div 10)" "char_at ?s 5 = char_of (48 + w mod 10)" "char_at ?s 6 = CHR ''$''"
    by (simp_all add: char_at_def salt_text_def)
  have c: "code (char_of (48 + w div 10)) = 48 + w div 10" "code (char_of (48 + w mod 10)) = 48 + w mod 10"
    using w by simp_all
  have "w div 10 = 3 \<Longrightarrow> w mod 10 \<le> 1" using w by presburger
  moreover have "w div 10 \<le> 3" using w by simp
  moreover have "w div 10 = 3" if "char_of (48 + w div 10) = CHR ''3''" using c(1) unfolding that by simp
  ultimately have ok: "setting_ok ?s"
    unfolding setting_ok_def at subtype_flags_def less_char_def c
    using w by (auto simp: flags_by_subtype_def of_char_eq_iff [symmetric] simp del: of_char_eq_iff)
  have count: "setting_count ?s = 2 ^ w"
    unfolding setting_count_def at c by (simp add: mult.commute)
  have "(2 :: nat) ^ 4 \<le> 2 ^ w" using w(1) by (intro power_increasing) simp_all
  then have "\<not> 2 ^ w < (16 :: nat)" by simp
  with ok count d show ?thesis by (simp add: BF_crypt_def)
qed

lemma gensalt_text:
  assumes "bcrypt_gensalt factor ur = Some (rc, Some salt)"
  shows "rc = 0 \<and> (\<exists>inp. try_read (ur_reads ur) 16 = Some (Some inp)
    \<and> salt = salt_text (if factor < 4 \<or> 31 < factor then 12 else nat factor) (map of_char inp))"
proof -
  let ?w = "if factor < 4 \<or> factor > 31 then 12 else factor"
  from assms obtain inp where r: "ur_open ur" "try_read (ur_reads ur) 16 = Some (Some inp)"
    by (auto simp: bcrypt_gensalt_def split: if_splits option.splits)
  have w: "4 \<le> nat ?w" "nat ?w \<le> 31" "nat ?w \<noteq> 0" by auto
  have len: "length inp = 16" by (rule length_try_read [OF r(2)])
  have g: "crypt_gensalt_rn ''$2a$'' (nat ?w) (Some (map of_char inp)) 16 BCRYPT_HASHSIZE =
      Some (salt_text (nat ?w) (map of_char inp))"
    using w len by (simp add: crypt_gensalt_rn_def crypt_gensalt_blowfish_rn_def BCRYPT_HASHSIZE_def char_at_def salt_text_def Let_def)
  from assms r have "rc = 0 \<and> salt = salt_text (nat ?w) (map of_char inp)"
    unfolding bcrypt_gensalt_def Let_def by (cases "try_close (ur_closes ur)") (auto simp only: r option.case g if_False if_True
        option.map prod.inject option.inject not_True_eq_False not_False_eq_True simp_thms split: if_splits)
  with r(2) show ?thesis by auto
qed

end
