(* ===== verification/Filters.thy ===== *)
theory Filters
  imports Http_Time
begin

text \<open>
  Access filters (\<^verbatim>\<open>src/filter/\<close>): the conditions on the request path that block, authenticate
  and forward filters share, and the list of filters of an application. \<^verbatim>\<open>requestPath.back()\<close>
  on an empty path has no defined behaviour (\<open>Undefined\<close>).
\<close>

record access_filter =
  af_invert :: bool
  af_pathFilter :: "string list list"
  af_invertPathFilter :: bool
  af_extensionFilter :: "string list"
  af_invertExtensionFilter :: bool
  af_regexFilterEnabled :: bool
  af_regexFilter :: rx
  af_response :: string

record block_filter = access_filter +
  bf_status :: nat

record auth_filter = access_filter +
  au_authFunction :: "(string \<Rightarrow> string \<Rightarrow> bool) option"
  au_authName :: string
  au_useSessions :: bool

datatype BasePathExtension = BY_FILENAME | BY_PATH

record forward_filter = access_filter +
  ff_basePath :: string
  ff_basePathExtension :: BasePathExtension

record filter_list =
  fl_filtersEnabled :: bool
  fl_blockFilters :: "block_filter list"
  fl_authFilters :: "auth_filter list"
  fl_forwardFilters :: "forward_filter list"

text \<open>A regex that is not assigned matches nothing: the empty alternative of characters.\<close>

definition AccessFilter_default :: access_filter where
  "AccessFilter_default = \<lparr>af_invert = False, af_pathFilter = [], af_invertPathFilter = False,
     af_extensionFilter = [], af_invertExtensionFilter = False, af_regexFilterEnabled = False,
     af_regexFilter = RSet False [], af_response = []\<rparr>"

definition BlockFilter_default :: block_filter where
  "BlockFilter_default = access_filter.extend AccessFilter_default (block_filter.fields 404)"

definition AuthFilter_default :: auth_filter where
  "AuthFilter_default = access_filter.extend AccessFilter_default (auth_filter.fields None [] False)"

definition ForwardFilter_default :: forward_filter where
  "ForwardFilter_default = access_filter.extend AccessFilter_default (forward_filter.fields [] BY_FILENAME)"

definition AccessFilterList_default :: filter_list where
  "AccessFilterList_default = \<lparr>fl_filtersEnabled = False, fl_blockFilters = [], fl_authFilters = [],
     fl_forwardFilters = []\<rparr>"

section \<open>AccessFilter::matches\<close>

text \<open>One path of the path filter against the request path.\<close>

definition path_matches :: "string list \<Rightarrow> string list \<Rightarrow> bool" where
  "path_matches requestPath flt \<longleftrightarrow>
     \<not> length requestPath < length flt \<and> list_all (\<lambda>i. flt ! i = requestPath ! i) [0..<length flt]"

definition path_condition :: "('x) access_filter_scheme \<Rightarrow> string list \<Rightarrow> bool" where
  "path_condition f requestPath \<longleftrightarrow>
     af_pathFilter f = [] \<or> (list_ex (path_matches requestPath) (af_pathFilter f) \<noteq> af_invertPathFilter f)"

definition extension_condition :: "('x) access_filter_scheme \<Rightarrow> string list \<Rightarrow> bool result" where
  "extension_condition f requestPath =
     (if af_extensionFilter f = [] then Inr True
      else if requestPath = [] then Inl Undefined
      else (let fileExtension = getFileExtension (last requestPath) in
            Inr (list_ex (\<lambda>e. fileExtension = e) (af_extensionFilter f) \<noteq> af_invertExtensionFilter f)))"

definition regex_condition :: "('x) access_filter_scheme \<Rightarrow> string list \<Rightarrow> bool" where
  "regex_condition f requestPath \<longleftrightarrow>
     \<not> af_regexFilterEnabled f
     \<or> regex_match (af_regexFilter f) (concat (map (\<lambda>e. CHR ''/'' # e) requestPath)) \<noteq> None"

definition matches :: "('x) access_filter_scheme \<Rightarrow> string list \<Rightarrow> bool result" where
  "matches f requestPath =
     (if \<not> path_condition f requestPath then Inr False
      else case extension_condition f requestPath of
             Inl e \<Rightarrow> Inl e
           | Inr b \<Rightarrow> Inr (b \<and> regex_condition f requestPath))"

text \<open>\<^verbatim>\<open>(!matches && !flt.invert()) || (matches && flt.invert())\<close> skips the filter.\<close>

definition applies :: "('x) access_filter_scheme \<Rightarrow> string list \<Rightarrow> bool result" where
  "applies f requestPath = bind_result (matches f requestPath) (\<lambda>m. Inr (m \<noteq> af_invert f))"

section \<open>What the conditions say\<close>

lemma path_matches_prefix: "path_matches requestPath flt \<longleftrightarrow> (\<exists>rest. requestPath = flt @ rest)"
proof
  assume "path_matches requestPath flt"
  then have "take (length flt) requestPath = flt"
    by (intro nth_equalityI) (auto simp: path_matches_def list_all_iff)
  then show "\<exists>rest. requestPath = flt @ rest" by (metis append_take_drop_id)
qed (auto simp: path_matches_def list_all_iff nth_append)

lemma applies_default:
  "af_pathFilter f = [] \<Longrightarrow> af_extensionFilter f = [] \<Longrightarrow> \<not> af_regexFilterEnabled f \<Longrightarrow>
     applies f path = Inr (\<not> af_invert f)"
  by (simp add: applies_def matches_def path_condition_def extension_condition_def regex_condition_def)

lemma applies_total: "path \<noteq> [] \<or> af_extensionFilter f = [] \<Longrightarrow> \<exists>b. applies f path = Inr b"
  by (auto simp: applies_def matches_def extension_condition_def Let_def)

lemma matches_iff:
  "path \<noteq> [] \<Longrightarrow> matches f path = Inr b \<Longrightarrow>
     b \<longleftrightarrow> path_condition f path \<and> extension_condition f path = Inr True \<and> regex_condition f path"
  by (auto simp: matches_def split: if_splits sum.splits)

end
