(* ===== verification/Session.thy ===== *)
theory Session
  imports Crypto
begin

text \<open>
  The session store (\<^verbatim>\<open>src/session/Session.cpp\<close>). The \<^verbatim>\<open>SessionData\<close> objects are shared
  between the global map and the \<^verbatim>\<open>Session\<close> objects of the connections, so they live in a heap
  (\<open>w_heap\<close>, allocated up to \<open>w_next\<close>), and both the map \<open>w_sessions\<close> and the handle's
  \<open>se_current\<close> hold addresses. The clock and the random device are streams: each
  \<^verbatim>\<open>time(nullptr)\<close> and each \<^verbatim>\<open>rd()\<close> takes the next element. Stored values
  (\<^verbatim>\<open>std::any\<close>) are of a type variable; an empty \<^verbatim>\<open>any\<close> is \<open>None\<close>. \<^verbatim>\<open>Session::start\<close> is
  composed of its critical sections \<open>start_lookup\<close>, \<open>start_create\<close> and \<open>start_gc\<close>, which
  \<open>Session_Steps\<close> interleaves.
\<close>

section \<open>State\<close>

record 'a sess_data =
  sd_data :: "(string, 'a) umap"
  sd_expires :: int
  sd_sourceIP :: string

definition SessionData_new :: "string \<Rightarrow> 'a sess_data" where
  "SessionData_new sIP = \<lparr>sd_data = [], sd_expires = 0, sd_sourceIP = sIP\<rparr>"

record 'a world =
  w_heap :: "nat \<Rightarrow> 'a sess_data"
  w_next :: nat
  w_sessions :: "(string, nat) umap"
  w_clock :: "nat \<Rightarrow> int"
  w_ticks :: nat
  w_random :: "nat \<Rightarrow> nat"
  w_draws :: nat

definition read_time :: "'a world \<Rightarrow> int \<times> 'a world" where
  "read_time w = (w_clock w (w_ticks w), w\<lparr>w_ticks := w_ticks w + 1\<rparr>)"

definition read_random :: "'a world \<Rightarrow> nat \<times> 'a world" where
  "read_random w = (w_random w (w_draws w), w\<lparr>w_draws := w_draws w + 1\<rparr>)"

text \<open>\<^verbatim>\<open>time(nullptr) + sessionKeepalive\<close>: unsigned 64-bit arithmetic, stored as a \<^verbatim>\<open>time_t\<close>.\<close>

definition time_t_add :: "int \<Rightarrow> nat \<Rightarrow> int" where
  "time_t_add t k = (t + int k + 2 ^ 63) mod 2 ^ 64 - 2 ^ 63"

record session =
  se_current :: "nat option"
  se_currentID :: string
  se_cookieName :: string

definition Session_new :: session where
  "Session_new = \<lparr>se_current = None, se_currentID = [], se_cookieName = []\<rparr>"

definition established :: "session \<Rightarrow> bool" where
  "established s \<longleftrightarrow> se_current s \<noteq> None"

section \<open>Session IDs and garbage collection\<close>

definition generateID :: "(string \<Rightarrow> string) \<Rightarrow> string \<Rightarrow> 'a world \<Rightarrow> string \<times> 'a world" where
  "generateID H remoteAddress w =
     (let (r1, w1) = read_random w;
          (r2, w2) = read_random w1
      in (sha1 H (dec r1 @ dec r2 @ remoteAddress) True, w2))"

fun gc_loop :: "(string \<times> nat) list \<Rightarrow> 'a world \<Rightarrow> 'a world" where
  "gc_loop [] w = w"
| "gc_loop ((sid, a) # es) w =
     (let (t, w1) = read_time w in
      gc_loop es (if sd_expires (w_heap w1 a) < t
                  then w1\<lparr>w_sessions := umap_erase sid (w_sessions w1)\<rparr> else w1))"

definition collectGarbage :: "'a world \<Rightarrow> 'a world" where
  "collectGarbage w = gc_loop (w_sessions w) w"

section \<open>Starting a session\<close>

definition session_keepalive :: "config \<Rightarrow> nat option \<Rightarrow> nat result" where
  "session_keepalive cfg keepalive =
     (case keepalive of
        Some k \<Rightarrow> Inr k
      | None \<Rightarrow>
          (let str = Config_get cfg (''session'', ''keepalive'') in
           if str \<noteq> [] then (case stoul 10 str of Inl InvalidArgument \<Rightarrow> Inr 1800 | r \<Rightarrow> r)
           else Inr 1800))"

definition start_lookup ::
    "config \<Rightarrow> env \<Rightarrow> string \<Rightarrow> nat \<Rightarrow> 'a world \<Rightarrow> session \<Rightarrow> 'a world \<times> session" where
  "start_lookup cfg e sessionId k w s =
     (if sessionId = [] then (w, s)
      else case umap_get (w_sessions w) sessionId of
             None \<Rightarrow> (w, s)
           | Some a \<Rightarrow>
               (let validateIP = Config_get cfg (''session'', ''validate_ip'');
                    (t, w1) = read_time w
                in if sd_expires (w_heap w1 a) \<le> t
                   then (w1\<lparr>w_sessions := umap_erase sessionId (w_sessions w1)\<rparr>, s)
                   else if (validateIP = ''strict'' \<or> validateIP = ''lax'')
                           \<and> sd_sourceIP (w_heap w1 a) \<noteq> Env_get e ''REMOTE_ADDR''
                   then (if validateIP = ''strict''
                         then (w1\<lparr>w_sessions := umap_erase sessionId (w_sessions w1)\<rparr>, s)
                         else (w1, s))
                   else
                     (let (t', w2) = read_time w1 in
                      (w2\<lparr>w_heap := (w_heap w2)(a := (w_heap w2 a)\<lparr>sd_expires := time_t_add t' k\<rparr>)\<rparr>,
                       s\<lparr>se_current := Some a\<rparr>))))"

text \<open>The \<^verbatim>\<open>do ... while\<close> that draws IDs until one is not taken; \<open>None\<close> is a loop without end.\<close>

partial_function (option) pick_id ::
    "(string \<Rightarrow> string) \<Rightarrow> string \<Rightarrow> 'a world \<Rightarrow> (string \<times> 'a world) option" where
  "pick_id H addr w =
     (if umap_has (w_sessions (snd (generateID H addr w))) (fst (generateID H addr w))
      then pick_id H addr (snd (generateID H addr w))
      else Some (generateID H addr w))"

definition start_create ::
    "(string \<Rightarrow> string) \<Rightarrow> env \<Rightarrow> string \<Rightarrow> nat \<Rightarrow> 'a world \<Rightarrow> session
       \<Rightarrow> (string \<times> 'a world \<times> session) option" where
  "start_create H e sessionId k w s =
     (if se_current s \<noteq> None then Some (sessionId, w, s)
      else case pick_id H (Env_get e ''REMOTE_ADDR'') w of
             None \<Rightarrow> None
           | Some (sid, w1) \<Rightarrow>
               (let a = w_next w1;
                    (t, w2) = read_time w1;
                    obj = (SessionData_new (Env_get e ''REMOTE_ADDR''))\<lparr>sd_expires := time_t_add t k\<rparr>
                in Some (sid,
                         w2\<lparr>w_heap := (w_heap w2)(a := obj), w_next := a + 1,
                            w_sessions := umap_set sid a (w_sessions w2)\<rparr>,
                         s\<lparr>se_current := Some a\<rparr>)))"

definition gc_divisor :: "config \<Rightarrow> nat result" where
  "gc_divisor cfg =
     (let str = Config_get cfg (''session'', ''gc_divisor'') in
      if str \<noteq> [] then (case stoul 10 str of Inl InvalidArgument \<Rightarrow> Inr 100 | r \<Rightarrow> r) else Inr 100)"

definition start_gc :: "config \<Rightarrow> 'a world \<Rightarrow> unit result \<times> 'a world" where
  "start_gc cfg w =
     (case gc_divisor cfg of
        Inl err \<Rightarrow> (Inl err, w)
      | Inr divisor \<Rightarrow>
          (let (r, w1) = read_random w in
           if divisor = 0 then (Inl Undefined, w1)
           else (Inr (), if r mod divisor = 0 then collectGarbage w1 else w1)))"

definition Session_start ::
    "(string \<Rightarrow> string) \<Rightarrow> config \<Rightarrow> env \<Rightarrow> string \<Rightarrow> nat option \<Rightarrow> 'a world \<Rightarrow> session
       \<Rightarrow> (string result \<times> 'a world \<times> session) option" where
  "Session_start H cfg e sessionId keepalive w s =
     (if established s then Some (Inr (se_currentID s), w, s)
      else case session_keepalive cfg keepalive of
             Inl err \<Rightarrow> Some (Inl err, w, s)
           | Inr k \<Rightarrow>
               (let (w1, s1) = start_lookup cfg e sessionId k w s in
                case start_create H e sessionId k w1 s1 of
                  None \<Rightarrow> None
                | Some (sid, w2, s2) \<Rightarrow>
                    (let s3 = s2\<lparr>se_currentID := sid\<rparr>;
                         (r, w3) = start_gc cfg w2
                     in Some (bind_result r (\<lambda>_. Inr sid), w3, s3))))"

text \<open>
  \<^verbatim>\<open>Session::start(Cookie)\<close>, up to its last statement: the result is the name and the cookie
  given to \<^verbatim>\<open>Connection::setCookie\<close>, or nothing if the session was started before.
\<close>

definition session_cookieName :: "config \<Rightarrow> string" where
  "session_cookieName cfg =
     (let name = Config_get cfg (''session'', ''cookie_name'') in if name = [] then ''SESSION'' else name)"

definition cookie_expiry :: "config \<Rightarrow> nat \<Rightarrow> cookie \<Rightarrow> 'a world \<Rightarrow> cookie \<times> 'a world" where
  "cookie_expiry cfg k properties w =
     (if ck_expires properties \<noteq> None \<or> Config_get cfg (''session'', ''cookie_expires'') \<noteq> ''off''
      then (let (t, w1) = read_time w in
            (properties\<lparr>ck_expires := Some (time_t_add t k), ck_maxAge := Some k\<rparr>, w1))
      else (properties\<lparr>ck_maxAge := None\<rparr>, w))"

definition cookie_protection :: "config \<Rightarrow> cookie \<Rightarrow> cookie" where
  "cookie_protection cfg properties =
     (let p = (if \<not> ck_secure properties \<and> Config_get cfg (''session'', ''cookie_secure'') \<noteq> ''off''
               then properties\<lparr>ck_secure := True\<rparr> else properties);
          p = (if \<not> ck_httpOnly p \<and> Config_get cfg (''session'', ''cookie_httponly'') \<noteq> ''off''
               then p\<lparr>ck_httpOnly := True\<rparr> else p)
      in if ck_sameSite p = SameSite_OFF then
           (let sameSite = Config_get cfg (''session'', ''cookie_samesite'') in
            if sameSite = ''lax'' then p\<lparr>ck_sameSite := SameSite_LAX\<rparr>
            else if sameSite \<noteq> ''off'' then p\<lparr>ck_sameSite := SameSite_STRICT\<rparr> else p)
         else p)"

definition Session_start_cookie ::
    "(string \<Rightarrow> string) \<Rightarrow> config \<Rightarrow> request \<Rightarrow> cookie \<Rightarrow> 'a world \<Rightarrow> session
       \<Rightarrow> ((string \<times> cookie) option result \<times> 'a world \<times> session) option" where
  "Session_start_cookie H cfg req properties w s =
     (if established s then Some (Inr None, w, s)
      else
        let name = session_cookieName cfg;
            s = s\<lparr>se_cookieName := name\<rparr>
        in case session_keepalive cfg (ck_maxAge properties) of
             Inl err \<Rightarrow> Some (Inl err, w, s)
           | Inr k \<Rightarrow>
               (case Session_start H cfg (rq_env req) (GPC_get (rq_cookie req) name) (Some k) w s of
                  None \<Rightarrow> None
                | Some (Inl err, w1, s1) \<Rightarrow> Some (Inl err, w1, s1)
                | Some (Inr sessionId, w1, s1) \<Rightarrow>
                    (let (p, w2) = cookie_expiry cfg k properties w1;
                         p = cookie_protection cfg p;
                         s2 = s1\<lparr>se_currentID := sessionId\<rparr>
                     in Some (Inr (Some (name, p\<lparr>ck_content := sessionId\<rparr>)), w2, s2))))"

section \<open>Using a session\<close>

definition Session_isSet :: "'a world \<Rightarrow> session \<Rightarrow> string \<Rightarrow> bool" where
  "Session_isSet w s key =
     (case se_current s of Some a \<Rightarrow> umap_has (sd_data (w_heap w a)) key | None \<Rightarrow> False)"

definition Session_get :: "'a world \<Rightarrow> session \<Rightarrow> string \<Rightarrow> 'a option" where
  "Session_get w s key =
     (case se_current s of Some a \<Rightarrow> umap_get (sd_data (w_heap w a)) key | None \<Rightarrow> None)"

definition upd_data ::
    "nat \<Rightarrow> ((string, 'a) umap \<Rightarrow> (string, 'a) umap) \<Rightarrow> 'a world \<Rightarrow> 'a world" where
  "upd_data a f w = w\<lparr>w_heap := (w_heap w)(a := (w_heap w a)\<lparr>sd_data := f (sd_data (w_heap w a))\<rparr>)\<rparr>"

definition Session_set :: "string \<Rightarrow> 'a \<Rightarrow> 'a world \<Rightarrow> session \<Rightarrow> unit result \<times> 'a world" where
  "Session_set key val w s =
     (case se_current s of
        None \<Rightarrow> (Inl (NawaException 1 ''Session not established.''), w)
      | Some a \<Rightarrow> (Inr (), upd_data a (umap_set key val) w))"

definition Session_unset :: "string \<Rightarrow> 'a world \<Rightarrow> session \<Rightarrow> unit result \<times> 'a world" where
  "Session_unset key w s =
     (case se_current s of
        None \<Rightarrow> (Inl (NawaException 1 ''Session not established.''), w)
      | Some a \<Rightarrow> (Inr (), upd_data a (umap_erase key) w))"

text \<open>The last component is the name given to \<^verbatim>\<open>Connection::unsetCookie\<close>.\<close>

definition Session_invalidate :: "'a world \<Rightarrow> session \<Rightarrow> 'a world \<times> session \<times> string option" where
  "Session_invalidate w s =
     (if \<not> established s then (w, s, None)
      else (w\<lparr>w_sessions := umap_erase (se_currentID s) (w_sessions w)\<rparr>, s\<lparr>se_current := None\<rparr>,
            Some (se_cookieName s)))"

definition Session_getID :: "session \<Rightarrow> string" where
  "Session_getID s = (if established s then se_currentID s else [])"

definition Session_destroy :: "'a world \<Rightarrow> 'a world" where
  "Session_destroy w = w\<lparr>w_sessions := []\<rparr>"

section \<open>The time stamps\<close>

lemma time_t_add_nowrap:
  "- (2 ^ 63) \<le> t + int k \<Longrightarrow> t + int k < 2 ^ 63 \<Longrightarrow> time_t_add t k = t + int k"
  by (simp add: time_t_add_def)

lemma read_simps [simp]:
  "w_heap (snd (read_time w)) = w_heap w" "w_next (snd (read_time w)) = w_next w"
  "w_sessions (snd (read_time w)) = w_sessions w" "w_clock (snd (read_time w)) = w_clock w"
  "w_heap (snd (read_random w)) = w_heap w" "w_next (snd (read_random w)) = w_next w"
  "w_sessions (snd (read_random w)) = w_sessions w" "w_clock (snd (read_random w)) = w_clock w"
  "w_ticks (snd (read_time w)) = Suc (w_ticks w)"
  "fst (read_time w) = w_clock w (w_ticks w)"
  by (simp_all add: read_time_def read_random_def)

section \<open>Drawing an ID\<close>

lemma generateID_world [simp]:
  "w_heap (snd (generateID H addr w)) = w_heap w" "w_next (snd (generateID H addr w)) = w_next w"
  "w_sessions (snd (generateID H addr w)) = w_sessions w"
  "w_clock (snd (generateID H addr w)) = w_clock w" "w_ticks (snd (generateID H addr w)) = w_ticks w"
  "w_random (snd (generateID H addr w)) = w_random w"
  "w_draws (snd (generateID H addr w)) = w_draws w + 2"
  by (simp_all add: generateID_def read_random_def)

text \<open>The candidate of round \<open>n\<close>.\<close>

definition candidate :: "(string \<Rightarrow> string) \<Rightarrow> string \<Rightarrow> (nat \<Rightarrow> nat) \<Rightarrow> nat \<Rightarrow> string" where
  "candidate H addr rnd d = sha1 H (dec (rnd d) @ dec (rnd (d + 1)) @ addr) True"

lemma generateID_candidate: "fst (generateID H addr w) = candidate H addr (w_random w) (w_draws w)"
  by (simp add: generateID_def read_random_def candidate_def)

lemma pick_id_result:
  assumes "pick_id H addr w = Some (sid, w')"
  shows "\<not> umap_has (w_sessions w) sid \<and>
    (\<exists>n. sid = candidate H addr (w_random w) n \<and> w' = w\<lparr>w_draws := n + 2\<rparr>)"
proof -
  have "(\<lambda>w p. \<not> umap_has (w_sessions w) (fst p) \<and>
      (\<exists>n. fst p = candidate H addr (w_random w) n \<and> snd p = w\<lparr>w_draws := n + 2\<rparr>)) w (sid, w')"
  proof (rule pick_id.raw_induct [OF _ assms,
        where P = "\<lambda>H' addr' w p. H' = H \<and> addr' = addr \<longrightarrow> \<not> umap_has (w_sessions w) (fst p) \<and>
      (\<exists>n. fst p = candidate H addr (w_random w) n \<and> snd p = w\<lparr>w_draws := n + 2\<rparr>)", THEN mp])
    fix f :: "(string \<Rightarrow> string) \<Rightarrow> string \<Rightarrow> 'a world \<Rightarrow> (string \<times> 'a world) option"
    fix H' addr' and w :: "'a world" and p
    assume IH: "\<And>H' addr' w p. f H' addr' w = Some p \<Longrightarrow> H' = H \<and> addr' = addr \<longrightarrow>
        \<not> umap_has (w_sessions w) (fst p) \<and>
        (\<exists>n. fst p = candidate H addr (w_random w) n \<and> snd p = w\<lparr>w_draws := n + 2\<rparr>)"
      and eq: "(if umap_has (w_sessions (snd (generateID H' addr' w))) (fst (generateID H' addr' w))
                then f H' addr' (snd (generateID H' addr' w)) else Some (generateID H' addr' w)) = Some p"
    show "H' = H \<and> addr' = addr \<longrightarrow> \<not> umap_has (w_sessions w) (fst p) \<and>
        (\<exists>n. fst p = candidate H addr (w_random w) n \<and> snd p = w\<lparr>w_draws := n + 2\<rparr>)"
    proof (intro impI, elim conjE)
      assume h: "H' = H" "addr' = addr"
      show "\<not> umap_has (w_sessions w) (fst p) \<and>
        (\<exists>n. fst p = candidate H addr (w_random w) n \<and> snd p = w\<lparr>w_draws := n + 2\<rparr>)"
      proof (cases "umap_has (w_sessions w) (fst (generateID H addr w))")
        case True
        with eq h have "f H addr (snd (generateID H addr w)) = Some p" by simp
        from IH [OF this] show ?thesis
          by (simp add: generateID_def read_random_def)
      next
        case False
        with eq h have p: "p = generateID H addr w" by simp
        with False show ?thesis
          by (auto simp: generateID_def read_random_def candidate_def)
      qed
    qed
  qed simp
  then show ?thesis by simp
qed

text \<open>The loop ends as soon as some round draws an unused ID.\<close>

lemma pick_id_total:
  "\<not> umap_has (w_sessions w) (candidate H addr (w_random w) (w_draws w + 2 * n)) \<Longrightarrow>
     \<exists>sid w'. pick_id H addr w = Some (sid, w')"
proof (induction n arbitrary: w)
  case 0
  then show ?case by (subst pick_id.simps) (simp add: generateID_candidate prod_eq_iff)
next
  case (Suc n)
  let ?w' = "snd (generateID H addr w)"
  have "\<exists>sid w''. pick_id H addr ?w' = Some (sid, w'')"
    by (rule Suc.IH) (use Suc.prems in \<open>simp add: add.assoc\<close>)
  then show ?case
    by (subst pick_id.simps) (auto simp: prod_eq_iff)
qed

section \<open>The store as the connections see it\<close>

text \<open>The abstract store: session IDs with their session data.\<close>

definition sess_view :: "'a world \<Rightarrow> string \<Rightarrow> 'a sess_data option" where
  "sess_view w sid = map_option (w_heap w) (umap_get (w_sessions w) sid)"

definition world_ok :: "'a world \<Rightarrow> bool" where
  "world_ok w \<longleftrightarrow> umap_wf (w_sessions w)
     \<and> (\<forall>sid a. umap_get (w_sessions w) sid = Some a \<longrightarrow> a < w_next w)
     \<and> (\<forall>sid sid' a. umap_get (w_sessions w) sid = Some a \<and> umap_get (w_sessions w) sid' = Some a \<longrightarrow> sid = sid')"

text \<open>A handle refers to an allocated object, which the map holds under no other ID.\<close>

definition handle_ok :: "'a world \<Rightarrow> session \<Rightarrow> bool" where
  "handle_ok w s \<longleftrightarrow> (\<forall>a. se_current s = Some a \<longrightarrow> a < w_next w
     \<and> (\<forall>sid. umap_get (w_sessions w) sid = Some a \<longrightarrow> sid = se_currentID s))"

lemma world_okI:
  assumes "umap_wf (w_sessions w)"
    and "\<And>sid a. umap_get (w_sessions w) sid = Some a \<Longrightarrow> a < w_next w"
    and "\<And>sid sid' a. umap_get (w_sessions w) sid = Some a \<Longrightarrow> umap_get (w_sessions w) sid' = Some a \<Longrightarrow> sid = sid'"
  shows "world_ok w"
  using assms unfolding world_ok_def by blast

lemma world_okD:
  assumes "world_ok w"
  shows "umap_wf (w_sessions w)"
    and "umap_get (w_sessions w) sid = Some a \<Longrightarrow> a < w_next w"
    and "umap_get (w_sessions w) sid = Some a \<Longrightarrow> umap_get (w_sessions w) sid' = Some a \<Longrightarrow> sid = sid'"
  using assms unfolding world_ok_def by blast+

lemma world_ok_cong:
  "w_sessions w' = w_sessions w \<Longrightarrow> w_next w' = w_next w \<Longrightarrow> world_ok w' = world_ok w"
  by (simp add: world_ok_def)

lemma world_ok_erase:
  assumes "world_ok w"
  shows "world_ok (w\<lparr>w_sessions := umap_erase sid (w_sessions w)\<rparr>)"
proof (rule world_okI)
  note wf = world_okD(1) [OF assms]
  show "umap_wf (w_sessions (w\<lparr>w_sessions := umap_erase sid (w_sessions w)\<rparr>))"
    using um.wf_erase [OF wf] by simp
  show "a < w_next (w\<lparr>w_sessions := umap_erase sid (w_sessions w)\<rparr>)"
    if "umap_get (w_sessions (w\<lparr>w_sessions := umap_erase sid (w_sessions w)\<rparr>)) i = Some a" for i a
    using that world_okD(2) [OF assms, of i a] by (simp add: um.get_erase [OF wf] split: if_splits)
  show "i = j" if "umap_get (w_sessions (w\<lparr>w_sessions := umap_erase sid (w_sessions w)\<rparr>)) i = Some a"
    "umap_get (w_sessions (w\<lparr>w_sessions := umap_erase sid (w_sessions w)\<rparr>)) j = Some a" for i j a
    using that world_okD(3) [OF assms, of i a j] by (simp add: um.get_erase [OF wf] split: if_splits)
qed

lemma handle_ok_erase:
  "world_ok w \<Longrightarrow> handle_ok w s \<Longrightarrow> handle_ok (w\<lparr>w_sessions := umap_erase sid (w_sessions w)\<rparr>) s"
  by (auto simp: handle_ok_def um.get_erase [OF world_okD(1)] split: if_splits)

subsection \<open>Garbage collection\<close>

text \<open>A property of the world that the erasure of an entry and the reading of the clock keep.\<close>

lemma gc_loop_keeps:
  assumes "P w" and "\<And>w sid. P w \<Longrightarrow> P (w\<lparr>w_sessions := umap_erase sid (w_sessions w)\<rparr>)"
    and "\<And>w. P w \<Longrightarrow> P (snd (read_time w))"
  shows "P (gc_loop es w)"
  using assms(1)
proof (induction es arbitrary: w)
  case (Cons e es)
  obtain sid a where e: "e = (sid, a)" by (cases e)
  have t: "P (snd (read_time w))" by (rule assms(3) [OF Cons.prems])
  show ?case
    by (cases "read_time w") (use t Cons.IH assms(2) in \<open>simp add: e\<close>)
qed simp

lemma gc_world [simp]:
  "w_heap (collectGarbage w) = w_heap w" "w_next (collectGarbage w) = w_next w"
  "w_clock (collectGarbage w) = w_clock w"
  unfolding collectGarbage_def by (rule gc_loop_keeps; simp)+

lemma gc_world_ok: "world_ok w \<Longrightarrow> world_ok (collectGarbage w)"
  unfolding collectGarbage_def
  by (rule gc_loop_keeps) (simp_all add: world_ok_erase cong: world_ok_cong)

lemma gc_handle_ok: "world_ok w \<Longrightarrow> handle_ok w s \<Longrightarrow> handle_ok (collectGarbage w) s"
  unfolding collectGarbage_def
proof -
  assume "world_ok w" "handle_ok w s"
  then have "(\<lambda>w. world_ok w \<and> handle_ok w s) (gc_loop (w_sessions w) w)"
    by (intro gc_loop_keeps [where P = "\<lambda>w. world_ok w \<and> handle_ok w s"])
      (simp_all add: world_ok_erase handle_ok_erase cong: world_ok_cong, simp add: handle_ok_def)
  then show "handle_ok (gc_loop (w_sessions w) w) s" by simp
qed

text \<open>What it removes: the entries that are expired at the tick they are looked at.\<close>

lemma gc_loop_get:
  assumes "umap_wf (w_sessions w)" and "umap_wf es"
  shows "umap_get (w_sessions (gc_loop es w)) sid =
    (case umap_get es sid of
       None \<Rightarrow> umap_get (w_sessions w) sid
     | Some a \<Rightarrow>
         (if \<exists>n < length es. es ! n = (sid, a) \<and> sd_expires (w_heap w a) < w_clock w (w_ticks w + n)
          then None else umap_get (w_sessions w) sid))"
  using assms
proof (induction es arbitrary: w)
  case Nil
  then show ?case by simp
next
  case (Cons e es)
  obtain i b where e: "e = (i, b)" by (cases e)
  define w1 where "w1 = snd (read_time w)"
  define w2 where "w2 = (if sd_expires (w_heap w1 b) < w_clock w (w_ticks w)
    then w1\<lparr>w_sessions := umap_erase i (w_sessions w1)\<rparr> else w1)"
  have step: "gc_loop (e # es) w = gc_loop es w2"
    by (simp add: e w2_def w1_def read_time_def)
  have w2: "w_heap w2 = w_heap w" "w_clock w2 = w_clock w" "w_ticks w2 = Suc (w_ticks w)"
    by (simp_all add: w2_def w1_def)
  have wf2: "umap_wf (w_sessions w2)" using Cons.prems(1) by (auto simp: w2_def w1_def um.wf_erase)
  have get2: "umap_get (w_sessions w2) sid =
      (if sid = i \<and> sd_expires (w_heap w b) < w_clock w (w_ticks w) then None else umap_get (w_sessions w) sid)"
    using Cons.prems(1) by (auto simp: w2_def w1_def um.get_erase)
  have es: "umap_wf es" "i \<notin> fst ` set es" using Cons.prems(2) by (auto simp: e umap_wf_def)
  have get: "umap_get (e # es) sid = (if sid = i then Some b else umap_get es sid)"
    by (auto simp: umap_get_def e)
  have ex: "(\<exists>n < length (e # es). (e # es) ! n = (sid, a) \<and> sd_expires (w_heap w a) < w_clock w (w_ticks w + n)) =
      ((sid = i \<and> a = b \<and> sd_expires (w_heap w b) < w_clock w (w_ticks w))
       \<or> (\<exists>n < length es. es ! n = (sid, a) \<and> sd_expires (w_heap w a) < w_clock w (Suc (w_ticks w) + n)))" for a
    by (auto simp: e less_Suc_eq_0_disj)
  show ?case
  proof (cases "sid = i")
    case True
    then have "umap_get es sid = None" "\<not> (\<exists>n < length es. es ! n = (sid, b))"
      using es(2) by (auto simp: umap_get_def map_of_eq_None_iff in_set_conv_nth image_iff)
        (metis fst_conv nth_mem)
    then show ?thesis
      unfolding step Cons.IH [OF wf2 es(1)] get get2 ex using True by auto
  next
    case False
    then show ?thesis
      unfolding step Cons.IH [OF wf2 es(1)] get get2 ex w2 by (simp split: option.split)
  qed
qed

lemma gc_view:
  assumes "umap_wf (w_sessions w)" and "sess_view w sid = Some d"
  shows "(\<forall>n < length (w_sessions w). w_clock w (w_ticks w + n) \<le> sd_expires d) \<Longrightarrow>
      sess_view (collectGarbage w) sid = Some d"
    and "(\<forall>n. sd_expires d < w_clock w (w_ticks w + n)) \<Longrightarrow> sess_view (collectGarbage w) sid = None"
proof -
  from assms(2) obtain a where a: "umap_get (w_sessions w) sid = Some a" "w_heap w a = d"
    by (auto simp: sess_view_def)
  have g: "umap_get (w_sessions (collectGarbage w)) sid =
      (if \<exists>n < length (w_sessions w). w_sessions w ! n = (sid, a) \<and> sd_expires d < w_clock w (w_ticks w + n)
       then None else Some a)"
    using gc_loop_get [OF assms(1) assms(1), of sid] a by (auto simp: collectGarbage_def)
  have "(sid, a) \<in> set (w_sessions w)" using a(1) umap_get_in_set [OF assms(1)] by blast
  then obtain n where n: "n < length (w_sessions w)" "w_sessions w ! n = (sid, a)"
    by (auto simp: in_set_conv_nth)
  show "sess_view (collectGarbage w) sid = Some d" 
    if k: "\<forall>n < length (w_sessions w). w_clock w (w_ticks w + n) \<le> sd_expires d"
  proof -
    have "\<not> (\<exists>n < length (w_sessions w). w_sessions w ! n = (sid, a) \<and> sd_expires d < w_clock w (w_ticks w + n))"
      using k by (auto simp: not_less)
    then have "umap_get (w_sessions (collectGarbage w)) sid = Some a" using g by (simp only: if_False)
    then show ?thesis using a(2) by (simp add: sess_view_def)
  qed
  show "sess_view (collectGarbage w) sid = None" if "\<forall>n. sd_expires d < w_clock w (w_ticks w + n)"
    using g n that by (auto simp: sess_view_def)
qed

text \<open>An ID that garbage collection keeps keeps its object; none is added.\<close>

lemma gc_get_subset:
  "umap_wf (w_sessions w) \<Longrightarrow> umap_get (w_sessions (collectGarbage w)) sid = Some a \<Longrightarrow>
     umap_get (w_sessions w) sid = Some a"
  using gc_loop_get [of w "w_sessions w" sid] by (auto simp: collectGarbage_def split: option.splits if_splits)

subsection \<open>Looking a session up\<close>

definition validates_ip :: "config \<Rightarrow> bool" where
  "validates_ip cfg \<longleftrightarrow> Config_get cfg (''session'', ''validate_ip'') \<in> {''strict'', ''lax''}"

definition resumable :: "config \<Rightarrow> env \<Rightarrow> 'a world \<Rightarrow> string \<Rightarrow> bool" where
  "resumable cfg e w sid \<longleftrightarrow> sid \<noteq> [] \<and>
     (case sess_view w sid of
        None \<Rightarrow> False
      | Some d \<Rightarrow> w_clock w (w_ticks w) < sd_expires d
          \<and> (validates_ip cfg \<longrightarrow> sd_sourceIP d = Env_get e ''REMOTE_ADDR''))"

text \<open>A session that is turned down is erased, unless the address differs in \<^verbatim>\<open>lax\<close> mode.\<close>

definition erased_by_lookup :: "config \<Rightarrow> env \<Rightarrow> 'a world \<Rightarrow> string \<Rightarrow> bool" where
  "erased_by_lookup cfg e w sid \<longleftrightarrow> sid \<noteq> [] \<and>
     (case sess_view w sid of
        None \<Rightarrow> False
      | Some d \<Rightarrow> sd_expires d \<le> w_clock w (w_ticks w)
          \<or> Config_get cfg (''session'', ''validate_ip'') = ''strict''
             \<and> sd_sourceIP d \<noteq> Env_get e ''REMOTE_ADDR'')"

lemma start_lookup_resume:
  assumes "resumable cfg e w sid"
  shows "\<exists>a. umap_get (w_sessions w) sid = Some a \<and>
    start_lookup cfg e sid k w s =
      (w\<lparr>w_ticks := w_ticks w + 2,
         w_heap := (w_heap w)(a := (w_heap w a)\<lparr>sd_expires := time_t_add (w_clock w (w_ticks w + 1)) k\<rparr>)\<rparr>,
       s\<lparr>se_current := Some a\<rparr>)"
  using assms
  by (auto simp: resumable_def sess_view_def validates_ip_def start_lookup_def read_time_def
      Let_def split: option.splits)

lemma start_lookup_reject:
  assumes "\<not> resumable cfg e w sid" and "world_ok w"
  shows "snd (start_lookup cfg e sid k w s) = s"
    and "w_heap (fst (start_lookup cfg e sid k w s)) = w_heap w"
    and "w_next (fst (start_lookup cfg e sid k w s)) = w_next w"
    and "w_clock (fst (start_lookup cfg e sid k w s)) = w_clock w"
    and "w_random (fst (start_lookup cfg e sid k w s)) = w_random w"
    and "w_draws (fst (start_lookup cfg e sid k w s)) = w_draws w"
    and "w_sessions (fst (start_lookup cfg e sid k w s)) =
      (if erased_by_lookup cfg e w sid then umap_erase sid (w_sessions w) else w_sessions w)"
  using assms
  by (auto simp: resumable_def erased_by_lookup_def sess_view_def validates_ip_def start_lookup_def
      read_time_def Let_def split: option.splits)

lemma start_lookup_current:
  assumes "se_current s = None" and "snd (start_lookup cfg e sid k w s) = s'" and "se_current s' = Some a"
    and "world_ok w"
  shows "resumable cfg e w sid \<and> umap_get (w_sessions w) sid = Some a"
proof -
  have r: "resumable cfg e w sid" using start_lookup_reject(1) [of cfg e w sid k s] assms by force
  then show ?thesis using start_lookup_resume [OF r, of k s] assms by auto
qed

lemma start_lookup_shape:
  "w_next (fst (start_lookup cfg e sid k w s)) = w_next w
   \<and> (w_sessions (fst (start_lookup cfg e sid k w s)) = w_sessions w
      \<or> w_sessions (fst (start_lookup cfg e sid k w s)) = umap_erase sid (w_sessions w))"
  by (auto simp: start_lookup_def read_time_def Let_def split: option.split)

lemma start_lookup_world_ok: "world_ok w \<Longrightarrow> world_ok (fst (start_lookup cfg e sid k w s))"
  using start_lookup_shape [of cfg e sid k w s] world_ok_erase [of w sid]
  by (metis (no_types, lifting) world_ok_cong world.select_convs(3) world.update_convs(3)
      world.select_convs(2) world.surjective)

subsection \<open>Creating a session\<close>

lemma start_create_result:
  assumes "start_create H e sid k w s = Some (sid', w', s')" and "se_current s = None"
  shows "\<not> umap_has (w_sessions w) sid'"
    and "se_current s' = Some (w_next w)"
    and "w_heap w' = (w_heap w)(w_next w :=
      (SessionData_new (Env_get e ''REMOTE_ADDR''))\<lparr>sd_expires := time_t_add (w_clock w (w_ticks w)) k\<rparr>)"
    and "w_next w' = Suc (w_next w)"
    and "w_sessions w' = umap_set sid' (w_next w) (w_sessions w)"
    and "w_clock w' = w_clock w" and "w_ticks w' = Suc (w_ticks w)"
proof -
  obtain w1 where p: "pick_id H (Env_get e ''REMOTE_ADDR'') w = Some (sid', w1)"
    and st: "w' = w1\<lparr>w_ticks := w_ticks w1 + 1,
        w_heap := (w_heap w1)(w_next w1 :=
          (SessionData_new (Env_get e ''REMOTE_ADDR''))\<lparr>sd_expires := time_t_add (w_clock w1 (w_ticks w1)) k\<rparr>),
        w_next := w_next w1 + 1, w_sessions := umap_set sid' (w_next w1) (w_sessions w1)\<rparr>"
      "s' = s\<lparr>se_current := Some (w_next w1)\<rparr>"
    using assms by (auto simp: start_create_def read_time_def Let_def split: option.splits)
  from pick_id_result [OF p] obtain n where n: "\<not> umap_has (w_sessions w) sid'" "w1 = w\<lparr>w_draws := n + 2\<rparr>"
    by blast
  show "\<not> umap_has (w_sessions w) sid'" by (rule n(1))
  show "se_current s' = Some (w_next w)" "w_next w' = Suc (w_next w)"
    "w_sessions w' = umap_set sid' (w_next w) (w_sessions w)"
    "w_clock w' = w_clock w" "w_ticks w' = Suc (w_ticks w)"
    "w_heap w' = (w_heap w)(w_next w :=
      (SessionData_new (Env_get e ''REMOTE_ADDR''))\<lparr>sd_expires := time_t_add (w_clock w (w_ticks w)) k\<rparr>)"
    by (simp_all add: st n(2))
qed

lemma start_create_established:
  "se_current s = Some a \<Longrightarrow> start_create H e sid k w s = Some (sid, w, s)"
  by (simp add: start_create_def)

text \<open>Some round of the loop draws an ID that is not in use.\<close>

definition id_available :: "(string \<Rightarrow> string) \<Rightarrow> env \<Rightarrow> 'a world \<Rightarrow> bool" where
  "id_available H e w \<longleftrightarrow>
     (\<exists>n. \<not> umap_has (w_sessions w) (candidate H (Env_get e ''REMOTE_ADDR'') (w_random w) (w_draws w + 2 * n)))"

lemma start_create_total:
  assumes "id_available H e w"
  shows "\<exists>r. start_create H e sid k w s = Some r"
proof -
  from assms obtain n where
    "\<not> umap_has (w_sessions w) (candidate H (Env_get e ''REMOTE_ADDR'') (w_random w) (w_draws w + 2 * n))"
    by (auto simp: id_available_def)
  from pick_id_total [OF this] show ?thesis
    by (auto simp: start_create_def read_time_def Let_def)
qed

lemma start_create_world_ok:
  assumes "start_create H e sid k w s = Some (sid', w', s')" and "world_ok w"
  shows "world_ok w'"
proof (cases "se_current s")
  case (Some a)
  with assms start_create_established [OF Some, of H e sid k w] show ?thesis by simp
next
  case None
  note r = start_create_result [OF assms(1) None]
  have new: "umap_get (w_sessions w) i \<noteq> Some (w_next w)" for i
    using world_okD(2) [OF assms(2), of i "w_next w"] by auto
  show ?thesis
  proof (rule world_okI)
    show "umap_wf (w_sessions w')" by (simp add: r(5) um.wf_put world_okD(1) [OF assms(2)])
    show "a < w_next w'" if "umap_get (w_sessions w') i = Some a" for i a
      using that world_okD(2) [OF assms(2), of i a] by (auto simp: r(4,5) um.get_put split: if_splits)
    show "i = j" if "umap_get (w_sessions w') i = Some a" "umap_get (w_sessions w') j = Some a" for i j a
      using that new world_okD(3) [OF assms(2), of i a j] by (auto simp: r(5) um.get_put split: if_splits)
  qed
qed

section \<open>Session::start\<close>

lemma start_gc_world:
  "w_heap (snd (start_gc cfg w)) = w_heap w" "w_next (snd (start_gc cfg w)) = w_next w"
  "w_clock (snd (start_gc cfg w)) = w_clock w"
  by (auto simp: start_gc_def Let_def read_random_def split: sum.split)

lemma start_gc_sessions:
  "w_sessions (snd (start_gc cfg w)) = w_sessions w
   \<or> w_sessions (snd (start_gc cfg w)) = w_sessions (collectGarbage (w\<lparr>w_draws := w_draws w + 1\<rparr>))"
  by (auto simp: start_gc_def Let_def read_random_def split: sum.split)

lemma start_gc_world_ok:
  assumes "world_ok w"
  shows "world_ok (snd (start_gc cfg w))"
proof -
  have "world_ok (w\<lparr>w_draws := w_draws w + 1\<rparr>)" using assms by (simp cong: world_ok_cong)
  with assms show ?thesis
    by (auto simp: start_gc_def Let_def read_random_def gc_world_ok split: sum.split)
qed

lemma start_gc_get_subset:
  assumes "umap_wf (w_sessions w)" and "umap_get (w_sessions (snd (start_gc cfg w))) sid = Some a"
  shows "umap_get (w_sessions w) sid = Some a"
  using start_gc_sessions [of cfg w] assms gc_get_subset [of "w\<lparr>w_draws := w_draws w + 1\<rparr>" sid a] by auto

lemma start_gc_view_keeps:
  assumes "umap_wf (w_sessions w)" and "sess_view w sid = Some d"
    and "\<forall>n < length (w_sessions w). w_clock w (w_ticks w + n) \<le> sd_expires d"
  shows "sess_view (snd (start_gc cfg w)) sid = Some d"
proof -
  let ?w = "w\<lparr>w_draws := w_draws w + 1\<rparr>"
  have "sess_view ?w sid = Some d" "umap_wf (w_sessions ?w)" using assms by (simp_all add: sess_view_def)
  from gc_view(1) [OF this(2,1)] assms(3) have "sess_view (collectGarbage ?w) sid = Some d" by simp
  with assms(2) show ?thesis
    by (auto simp: start_gc_def Let_def read_random_def sess_view_def split: sum.split)
qed

lemma Session_start_unfold:
  assumes "\<not> established s" and "session_keepalive cfg ka = Inr k"
    and "start_create H e sid k (fst (start_lookup cfg e sid k w s)) (snd (start_lookup cfg e sid k w s))
      = Some (sid', w2, s2)"
  shows "Session_start H cfg e sid ka w s =
    Some (bind_result (fst (start_gc cfg w2)) (\<lambda>_. Inr sid'), snd (start_gc cfg w2), s2\<lparr>se_currentID := sid'\<rparr>)"
  using assms
  by (cases "start_lookup cfg e sid k w s"; cases "start_gc cfg w2") (simp add: Session_start_def)

text \<open>What \<^verbatim>\<open>start\<close> returns once the session is attached: the ID, unless the divisor for the garbage
  collector is zero or no number \<^verbatim>\<open>stoul\<close> can return.\<close>

definition id_returned :: "config \<Rightarrow> string \<Rightarrow> string result" where
  "id_returned cfg sid =
     (case gc_divisor cfg of Inl err \<Rightarrow> Inl err | Inr divisor \<Rightarrow> if divisor = 0 then Inl Undefined else Inr sid)"

lemma start_gc_returns: "bind_result (fst (start_gc cfg w)) (\<lambda>_. Inr sid) = id_returned cfg sid"
  by (simp add: start_gc_def id_returned_def Let_def split: sum.split prod.split)

lemma id_returned_ok: "gc_divisor cfg = Inr d \<Longrightarrow> d \<noteq> 0 \<Longrightarrow> id_returned cfg sid = Inr sid"
  by (simp add: id_returned_def)

text \<open>A valid ID resumes its session.\<close>

lemma Session_start_resume:
  assumes "\<not> established s" and "session_keepalive cfg ka = Inr k" and "resumable cfg e w sid"
    and "world_ok w" and "sess_view w sid = Some d"
  shows "\<exists>w' s' a. Session_start H cfg e sid ka w s = Some (id_returned cfg sid, w', s')
    \<and> se_current s' = Some a \<and> umap_get (w_sessions w) sid = Some a
    \<and> w_heap w' a = d\<lparr>sd_expires := time_t_add (w_clock w (w_ticks w + 1)) k\<rparr>
    \<and> Session_getID s' = sid"
proof -
  obtain a where a: "umap_get (w_sessions w) sid = Some a"
    "start_lookup cfg e sid k w s =
      (w\<lparr>w_ticks := w_ticks w + 2,
         w_heap := (w_heap w)(a := (w_heap w a)\<lparr>sd_expires := time_t_add (w_clock w (w_ticks w + 1)) k\<rparr>)\<rparr>,
       s\<lparr>se_current := Some a\<rparr>)"
    using start_lookup_resume [OF assms(3), of k s] by blast
  let ?w1 = "fst (start_lookup cfg e sid k w s)" and ?s1 = "snd (start_lookup cfg e sid k w s)"
  have "start_create H e sid k ?w1 ?s1 = Some (sid, ?w1, ?s1)"
    by (rule start_create_established [where a = a]) (simp add: a)
  from Session_start_unfold [OF assms(1,2) this] show ?thesis
    using a assms(5) by (auto simp: start_gc_world start_gc_returns sess_view_def Session_getID_def established_def)
qed

lemma start_lookup_ticks:
  "\<not> resumable cfg e w sid \<Longrightarrow> w_ticks (fst (start_lookup cfg e sid k w s)) \<le> Suc (w_ticks w)"
  "w_ticks w \<le> w_ticks (fst (start_lookup cfg e sid k w s))"
  by (auto simp: resumable_def sess_view_def validates_ip_def start_lookup_def read_time_def Let_def split: option.splits)

text \<open>Any other ID, and the empty one, gets a new session with no data.\<close>

lemma Session_start_new:
  assumes "\<not> established s" and "session_keepalive cfg ka = Inr k" and "\<not> resumable cfg e w sid"
    and "world_ok w" and "id_available H e (fst (start_lookup cfg e sid k w s))"
  shows "\<exists>w' s' sid'. Session_start H cfg e sid ka w s = Some (id_returned cfg sid', w', s')
    \<and> se_current s' = Some (w_next w) \<and> Session_getID s' = sid'
    \<and> (umap_has (w_sessions w) sid' \<longrightarrow> sid' = sid \<and> erased_by_lookup cfg e w sid)
    \<and> (\<exists>n \<in> {w_ticks w, Suc (w_ticks w)}. w_heap w' (w_next w) = \<lparr>sd_data = [], sd_expires = time_t_add (w_clock w n) k,
          sd_sourceIP = Env_get e ''REMOTE_ADDR''\<rparr>)
    \<and> (\<forall>a. a \<noteq> w_next w \<longrightarrow> w_heap w' a = w_heap w a)"
proof -
  let ?w1 = "fst (start_lookup cfg e sid k w s)" and ?s1 = "snd (start_lookup cfg e sid k w s)"
  note rej = start_lookup_reject [OF assms(3,4), of k s]
  obtain sid' w2 s2 where c: "start_create H e sid k ?w1 ?s1 = Some (sid', w2, s2)"
    using start_create_total [OF assms(5)] by (metis prod_cases3)
  have n: "se_current ?s1 = None" using assms(1) rej(1) by (simp add: established_def)
  note cr = start_create_result [OF c n]
  have has: "umap_has (w_sessions w) sid' \<longrightarrow> sid' = sid \<and> erased_by_lookup cfg e w sid"
    using cr(1) rej(7) world_okD(1) [OF assms(4)] by (auto split: if_splits)
  have ticks: "w_ticks ?w1 \<in> {w_ticks w, Suc (w_ticks w)}"
    using start_lookup_ticks(1) [OF assms(3), of k s] start_lookup_ticks(2) [of w cfg e sid k s] by auto
  show ?thesis
    using Session_start_unfold [OF assms(1,2) c] cr has ticks
    by (auto simp: start_gc_world start_gc_returns rej Session_getID_def established_def SessionData_new_def)
qed

text \<open>The new session is in the store when \<^verbatim>\<open>start\<close> returns, if the keepalive is not over by then.\<close>

lemma start_lookup_available: "id_available H e w \<Longrightarrow> world_ok w \<Longrightarrow> \<not> resumable cfg e w sid \<Longrightarrow>
    id_available H e (fst (start_lookup cfg e sid k w s))"
  using world_okD(1) [of w] by (auto simp: id_available_def start_lookup_reject umap_has_def um.get_erase split: if_splits)

lemma start_create_draws:
  assumes "start_create H e sid k w s = Some (sid', w', s')" and "se_current s = None"
  shows "w_random w' = w_random w" "\<exists>n. sid' = candidate H (Env_get e ''REMOTE_ADDR'') (w_random w) n"
    "s' = s\<lparr>se_current := Some (w_next w)\<rparr>"
proof -
  obtain w1 where p: "pick_id H (Env_get e ''REMOTE_ADDR'') w = Some (sid', w1)"
    and st: "w_random w' = w_random w1" "s' = s\<lparr>se_current := Some (w_next w1)\<rparr>"
    using assms by (auto simp: start_create_def read_time_def Let_def split: option.splits)
  from pick_id_result [OF p] obtain n where n: "sid' = candidate H (Env_get e ''REMOTE_ADDR'') (w_random w) n"
    "w1 = w\<lparr>w_draws := n + 2\<rparr>" by blast
  with st show "w_random w' = w_random w" "s' = s\<lparr>se_current := Some (w_next w)\<rparr>" by simp_all
  from n(1) show "\<exists>n. sid' = candidate H (Env_get e ''REMOTE_ADDR'') (w_random w) n" ..
qed

lemma gc_random: "w_random (collectGarbage w) = w_random w"
  unfolding collectGarbage_def by (rule gc_loop_keeps) (simp_all add: read_time_def)

lemma start_gc_random: "w_random (snd (start_gc cfg w)) = w_random w"
  by (auto simp: start_gc_def Let_def read_random_def gc_random split: sum.split)

lemma length_umap: "length (umap_erase k m) \<le> length m" "length (umap_set k v m) \<le> Suc (length m)"
  by (simp_all add: umap_erase_def umap_set_def length_filter_le AList.delete_eq)
    (induction m; auto)

text \<open>No keepalive goes by while one request reads the clock: for the lookup, for the new session and
  once for each session that the garbage collector looks at.\<close>

definition within_keepalive :: "'a world \<Rightarrow> nat \<Rightarrow> bool" where
  "within_keepalive w k \<longleftrightarrow>
     (\<forall>i j. w_ticks w \<le> i \<and> i < j \<and> j \<le> w_ticks w + length (w_sessions w) + 2 \<longrightarrow>
        w_clock w j \<le> time_t_add (w_clock w i) k)"

definition fresh_session :: "'a world \<Rightarrow> nat \<Rightarrow> string \<Rightarrow> 'a sess_data \<Rightarrow> bool" where
  "fresh_session w k addr d \<longleftrightarrow>
     (\<exists>n \<in> {w_ticks w, Suc (w_ticks w)}. d = \<lparr>sd_data = [], sd_expires = time_t_add (w_clock w n) k, sd_sourceIP = addr\<rparr>)"

lemma Session_start_first:
  assumes n: "\<not> established s" and k: "session_keepalive cfg ka = Inr k" and r: "\<not> resumable cfg e w sid0"
    and ok: "world_ok w" and av: "id_available H e w" and dv: "gc_divisor cfg = Inr dv" "dv \<noteq> 0"
    and t: "within_keepalive w k"
  shows "\<exists>sid w' d. Session_start H cfg e sid0 ka w s =
      Some (Inr sid, w', s\<lparr>se_current := Some (w_next w), se_currentID := sid\<rparr>)
    \<and> (umap_has (w_sessions w) sid \<longrightarrow> sid = sid0 \<and> erased_by_lookup cfg e w sid0)
    \<and> (\<exists>n. sid = candidate H (Env_get e ''REMOTE_ADDR'') (w_random w) n)
    \<and> world_ok w' \<and> w_random w' = w_random w \<and> w_clock w' = w_clock w
    \<and> umap_get (w_sessions w') sid = Some (w_next w) \<and> w_heap w' (w_next w) = d
    \<and> fresh_session w k (Env_get e ''REMOTE_ADDR'') d"
proof -
  let ?w1 = "fst (start_lookup cfg e sid0 k w s)"
  note rej = start_lookup_reject [OF r ok, of k s] and av1 = start_lookup_available [OF av ok r, of k s]
  obtain sid w2 s2 where c: "start_create H e sid0 k ?w1 s = Some (sid, w2, s2)"
    using start_create_total [OF av1] by (metis prod_cases3)
  have new: "se_current s = None" using n by (simp add: established_def)
  note cr = start_create_result [OF c new] and dr = start_create_draws [OF c new]
  let ?d = "\<lparr>sd_data = [], sd_expires = time_t_add (w_clock w (w_ticks ?w1)) k, sd_sourceIP = Env_get e ''REMOTE_ADDR''\<rparr>"
  have ok2: "world_ok w2" by (rule start_create_world_ok [OF c start_lookup_world_ok [OF ok]])
  have get2: "umap_get (w_sessions w2) sid = Some (w_next w)" "w_heap w2 (w_next w) = ?d"
    using cr rej by (simp_all add: um.get_put SessionData_new_def)
  have len: "length (w_sessions w2) \<le> Suc (length (w_sessions w))"
    using length_umap(2) [of sid "w_next w" "w_sessions ?w1"] length_umap(1) [of sid0 "w_sessions w"] cr(5) rej(3,7)
    by (auto split: if_splits)
  have ticks: "w_ticks w \<le> w_ticks ?w1" "w_ticks ?w1 \<le> Suc (w_ticks w)"
    using start_lookup_ticks(1) [OF r, of k s] start_lookup_ticks(2) [of w cfg e sid0 k s] by simp_all
  have "w_ticks ?w1 \<in> {w_ticks w, Suc (w_ticks w)}" using ticks by auto
  then have fresh: "fresh_session w k (Env_get e ''REMOTE_ADDR'') ?d" unfolding fresh_session_def by (rule bexI [rotated]) simp
  have "w_clock w2 (w_ticks w2 + m) \<le> sd_expires ?d" if "m < length (w_sessions w2)" for m
    using t [unfolded within_keepalive_def, rule_format, of "w_ticks ?w1" "Suc (w_ticks ?w1) + m"] that len ticks cr(6,7) rej(4)
    by simp
  moreover have "sess_view w2 sid = Some ?d" using get2 by (simp add: sess_view_def)
  ultimately have "sess_view (snd (start_gc cfg w2)) sid = Some ?d"
    using start_gc_view_keeps [OF world_okD(1) [OF ok2]] by blast
  then obtain a where "umap_get (w_sessions (snd (start_gc cfg w2))) sid = Some a" by (auto simp: sess_view_def)
  with start_gc_get_subset [OF world_okD(1) [OF ok2]] get2 have
    gc: "umap_get (w_sessions (snd (start_gc cfg w2))) sid = Some (w_next w)" by fastforce
  have "umap_has (w_sessions w) sid \<longrightarrow> sid = sid0 \<and> erased_by_lookup cfg e w sid0"
    using cr(1) rej(7) world_okD(1) [OF ok] by (auto split: if_splits)
  moreover have "Session_start H cfg e sid0 ka w s = Some (Inr sid, snd (start_gc cfg w2), s2\<lparr>se_currentID := sid\<rparr>)"
    using Session_start_unfold [OF n k, of H e sid0 w sid w2 s2] c rej(1) by (simp add: start_gc_returns id_returned_ok [OF dv])
  ultimately show ?thesis
    using dr rej gc get2 cr(4,6) start_gc_world_ok [OF ok2, of cfg]
    by (intro exI [of _ sid] exI [of _ "snd (start_gc cfg w2)"] exI [of _ ?d])
      (use fresh in \<open>auto simp: start_gc_world start_gc_random\<close>)
qed

section \<open>Data operations\<close>

text \<open>The contract of the data of an established session, and what follows from it.\<close>

locale session_data =
  fixes data_get :: "'w \<Rightarrow> 'h \<Rightarrow> 'k \<Rightarrow> 'v option"
    and data_set :: "'k \<Rightarrow> 'v \<Rightarrow> 'w \<Rightarrow> 'h \<Rightarrow> 'w"
    and data_unset :: "'k \<Rightarrow> 'w \<Rightarrow> 'h \<Rightarrow> 'w"
    and live :: "'w \<Rightarrow> 'h \<Rightarrow> bool"
    and same :: "'h \<Rightarrow> 'h \<Rightarrow> bool"
  assumes get_set_same: "live w h \<Longrightarrow> same h h' \<Longrightarrow>
      data_get (data_set k v w h) h' = (data_get w h')(k \<mapsto> v)"
    and get_set_other: "\<not> same h h' \<Longrightarrow> data_get (data_set k v w h) h' = data_get w h'"
    and get_unset_same: "live w h \<Longrightarrow> same h h' \<Longrightarrow>
      data_get (data_unset k w h) h' = (data_get w h')(k := None)"
    and get_unset_other: "\<not> same h h' \<Longrightarrow> data_get (data_unset k w h) h' = data_get w h'"
    and live_set: "live w h \<Longrightarrow> live (data_set k v w h') h"
    and same_refl: "same h h"
begin

lemma get_after_set: "live w h \<Longrightarrow> data_get (data_set k v w h) h k = Some v"
  by (simp add: get_set_same same_refl)

lemma set_seen_by_same: "live w h \<Longrightarrow> same h h' \<Longrightarrow> data_get (data_set k v w h) h' k = Some v"
  by (simp add: get_set_same)

lemma unset_after_set:
  "live w h \<Longrightarrow> data_get (data_unset k (data_set k v w h) h) h = (data_get w h)(k := None)"
  by (simp add: get_unset_same get_set_same same_refl live_set)

lemma set_isolated: "\<not> same h h' \<Longrightarrow> data_get (data_set k v w h) h' k' = data_get w h' k'"
  by (simp add: get_set_other)

end

text \<open>Handles of the same object see the same data; the data of an object is a map without
  duplicate keys.\<close>

definition data_wf :: "'a world \<Rightarrow> bool" where
  "data_wf w \<longleftrightarrow> (\<forall>a. umap_wf (sd_data (w_heap w a)))"

lemma Session_get_set:
  "Session_get (snd (Session_set k v w s)) s' =
     (if established s \<and> se_current s = se_current s' then (Session_get w s')(k \<mapsto> v) else Session_get w s')"
  by (rule ext) (auto simp: Session_set_def Session_get_def upd_data_def established_def um.get_put
      split: option.split)

lemma Session_get_unset:
  "data_wf w \<Longrightarrow> Session_get (snd (Session_unset k w s)) s' =
     (if established s \<and> se_current s = se_current s' then (Session_get w s')(k := None) else Session_get w s')"
  by (rule ext) (auto simp: Session_unset_def Session_get_def upd_data_def established_def um.get_erase
      data_wf_def split: option.split)

lemma data_wf_set: "data_wf w \<Longrightarrow> data_wf (snd (Session_set k v w s))"
  by (auto simp: data_wf_def Session_set_def upd_data_def um.wf_put split: option.split)

lemma data_wf_unset: "data_wf w \<Longrightarrow> data_wf (snd (Session_unset k w s))"
  by (auto simp: data_wf_def Session_unset_def upd_data_def um.wf_erase split: option.split)

interpretation sdata: session_data Session_get "\<lambda>k v w s. snd (Session_set k v w s)"
  "\<lambda>k w s. snd (Session_unset k w s)" "\<lambda>w s. data_wf w \<and> established s" "\<lambda>s s'. se_current s = se_current s'"
proof unfold_locales
  fix w :: "'a world" and s s' :: session and k v
  show "Session_get (snd (Session_unset k w s)) s' = Session_get w s'" if "se_current s \<noteq> se_current s'"
    using that by (auto simp: Session_unset_def Session_get_def upd_data_def fun_eq_iff split: option.split)
qed (auto simp: Session_get_set Session_get_unset data_wf_set)

lemma Session_isSet_get: "Session_isSet w s k \<longleftrightarrow> Session_get w s k \<noteq> None"
  by (simp add: Session_isSet_def Session_get_def umap_has_def split: option.split)

lemma data_ops_error:
  "\<not> established s \<Longrightarrow> Session_set k v w s = (Inl (NawaException 1 ''Session not established.''), w)"
  "\<not> established s \<Longrightarrow> Session_unset k w s = (Inl (NawaException 1 ''Session not established.''), w)"
  "\<not> established s \<Longrightarrow> Session_get w s k = None \<and> \<not> Session_isSet w s k \<and> Session_getID s = []"
  by (auto simp: established_def Session_set_def Session_unset_def Session_get_def Session_isSet_def Session_getID_def)

section \<open>Invalidation\<close>

lemma Session_invalidate_view:
  assumes "world_ok w" and "established s" and "Session_invalidate w s = (w', s', c)"
  shows "sess_view w' = (sess_view w)(se_currentID s := None)" and "\<not> established s'"
    and "c = Some (se_cookieName s)" and "w_heap w' = w_heap w"
  using assms by (auto simp: Session_invalidate_def established_def sess_view_def fun_eq_iff
      um.get_erase [OF world_okD(1)])

lemma invalid_not_resumable:
  "world_ok w \<Longrightarrow> established s \<Longrightarrow> Session_invalidate w s = (w', s', c) \<Longrightarrow>
     \<not> resumable cfg e w' (se_currentID s)"
  using Session_invalidate_view(1) [of w s w' s' c] by (simp add: resumable_def)

end
