(* ===== verification/Session_Steps.thy ===== *)
theory Session_Steps
  imports Session
begin

text \<open>
  Connections run in threads and share the session store. The code takes \<^verbatim>\<open>gLock\<close> for each
  critical section of \<^verbatim>\<open>Session::start\<close>, for the garbage collection and for the erasure in
  \<^verbatim>\<open>invalidate\<close>, and \<^verbatim>\<open>dLock\<close> for each access to the data; between the sections other
  threads run. A state is the world with the \<^verbatim>\<open>Session\<close> object and the program point of every
  thread, and a step is one section of one thread. The invariant says that every session data
  object has one owner, the ID it was created for, and that a handle refers to an object only
  under that ID; with IP validation switched on, only from the address it was created from.
\<close>

text \<open>Between the sections: \<open>Looked\<close> after the validity check of the given ID, \<open>Created\<close> after a
  session data object is set, \<open>Saved\<close> after the ID is stored, \<open>Reset\<close> within \<^verbatim>\<open>invalidate\<close>.\<close>

datatype pc = Idle | Looked string nat | Created string | Saved | Reset

type_synonym 'a sess_state = "'a world \<times> (nat \<Rightarrow> session \<times> pc)"

inductive sess_step ::
    "(string \<Rightarrow> string) \<Rightarrow> config \<Rightarrow> (nat \<Rightarrow> env) \<Rightarrow> 'a sess_state \<Rightarrow> 'a sess_state \<Rightarrow> bool"
  for H cfg envs where
  lookup: "ths i = (s, Idle) \<Longrightarrow> \<not> established s \<Longrightarrow> session_keepalive cfg ka = Inr k \<Longrightarrow>
      start_lookup cfg (envs i) sid k w s = (w', s') \<Longrightarrow>
      sess_step H cfg envs (w, ths) (w', ths(i := (s', Looked sid k)))"
| create: "ths i = (s, Looked sid k) \<Longrightarrow> start_create H (envs i) sid k w s = Some (sid', w', s') \<Longrightarrow>
      sess_step H cfg envs (w, ths) (w', ths(i := (s', Created sid')))"
| save: "ths i = (s, Created sid) \<Longrightarrow>
      sess_step H cfg envs (w, ths) (w, ths(i := (s\<lparr>se_currentID := sid\<rparr>, Saved)))"
| gc: "ths i = (s, Saved) \<Longrightarrow> start_gc cfg w = (r, w') \<Longrightarrow>
      sess_step H cfg envs (w, ths) (w', ths(i := (s, Idle)))"
| set_data: "ths i = (s, Idle) \<Longrightarrow> Session_set key val w s = (r, w') \<Longrightarrow>
      sess_step H cfg envs (w, ths) (w', ths)"
| unset_data: "ths i = (s, Idle) \<Longrightarrow> Session_unset key w s = (r, w') \<Longrightarrow>
      sess_step H cfg envs (w, ths) (w', ths)"
| reset: "ths i = (s, Idle) \<Longrightarrow> established s \<Longrightarrow>
      sess_step H cfg envs (w, ths) (w, ths(i := (s\<lparr>se_current := None\<rparr>, Reset)))"
| erase: "ths i = (s, Reset) \<Longrightarrow>
      sess_step H cfg envs (w, ths)
        (w\<lparr>w_sessions := umap_erase (se_currentID s) (w_sessions w)\<rparr>, ths(i := (s, Idle)))"

inductive_cases sess_stepE: "sess_step H cfg envs (w, ths) (w', ths')"

section \<open>The invariant\<close>

text \<open>The ID a thread's handle stands for, at each program point.\<close>

definition held_id :: "session \<times> pc \<Rightarrow> string" where
  "held_id t = (case snd t of Looked sid k \<Rightarrow> sid | Created sid \<Rightarrow> sid | _ \<Rightarrow> se_currentID (fst t))"

definition owned :: "config \<Rightarrow> (nat \<Rightarrow> env) \<Rightarrow> (nat \<Rightarrow> string) \<Rightarrow> 'a sess_state \<Rightarrow> bool" where
  "owned cfg envs own st \<longleftrightarrow> (case st of (w, ths) \<Rightarrow>
     world_ok w
     \<and> (\<forall>sid a. umap_get (w_sessions w) sid = Some a \<longrightarrow> own a = sid)
     \<and> (\<forall>i a. se_current (fst (ths i)) = Some a \<longrightarrow>
          a < w_next w \<and> own a = held_id (ths i)
          \<and> (validates_ip cfg \<longrightarrow> sd_sourceIP (w_heap w a) = Env_get (envs i) ''REMOTE_ADDR'')))"

definition sess_inv :: "config \<Rightarrow> (nat \<Rightarrow> env) \<Rightarrow> 'a sess_state \<Rightarrow> bool" where
  "sess_inv cfg envs st \<longleftrightarrow> (\<exists>own. owned cfg envs own st)"

lemma ownedD:
  assumes "owned cfg envs own (w, ths)"
  shows "world_ok w" and "umap_get (w_sessions w) sid = Some a \<Longrightarrow> own a = sid"
    and "se_current (fst (ths i)) = Some a \<Longrightarrow> a < w_next w"
    and "se_current (fst (ths i)) = Some a \<Longrightarrow> own a = held_id (ths i)"
    and "se_current (fst (ths i)) = Some a \<Longrightarrow> validates_ip cfg \<Longrightarrow>
      sd_sourceIP (w_heap w a) = Env_get (envs i) ''REMOTE_ADDR''"
  using assms unfolding owned_def by auto

text \<open>A step that creates no session: it may erase entries and change the thread's handle.\<close>

lemma owned_update:
  assumes "owned cfg envs own (w, ths)" and "world_ok w'" and "w_next w' = w_next w"
    and "\<And>sid a. umap_get (w_sessions w') sid = Some a \<Longrightarrow> umap_get (w_sessions w) sid = Some a"
    and "\<And>a. sd_sourceIP (w_heap w' a) = sd_sourceIP (w_heap w a)"
    and "\<And>a. se_current (fst t) = Some a \<Longrightarrow> a < w_next w \<and> own a = held_id t
      \<and> (validates_ip cfg \<longrightarrow> sd_sourceIP (w_heap w a) = Env_get (envs i) ''REMOTE_ADDR'')"
  shows "owned cfg envs own (w', ths(i := t))"
  using assms(2-6) ownedD [OF assms(1)] unfolding owned_def by (auto simp: fun_upd_apply)

lemma owned_create:
  assumes own: "owned cfg envs own (w, ths)" and ths: "ths i = (s, Looked sid k)"
    and c: "start_create H (envs i) sid k w s = Some (sid', w', s')"
  shows "\<exists>own'. owned cfg envs own' (w', ths(i := (s', Created sid')))"
proof (cases "se_current s")
  case (Some a)
  with c have "sid' = sid" "w' = w" "s' = s" using start_create_established [OF Some, of H "envs i" sid k w] by simp_all
  then have "owned cfg envs own (w', ths(i := (s', Created sid')))"
    using owned_update [OF own ownedD(1) [OF own], where t = "(s, Created sid)"] ownedD(3-5) [OF own, of i] ths
    by (auto simp: held_id_def)
  then show ?thesis by blast
next
  case None
  note r = start_create_result [OF c None]
  let ?own = "own(w_next w := sid')"
  have old: "own a = ?own a \<and> w_heap w' a = w_heap w a" if "a < w_next w" for a
    using that by (simp add: r(3))
  have "owned cfg envs ?own (w', ths(i := (s', Created sid')))"
    unfolding owned_def prod.case
  proof (intro conjI allI impI)
    show "world_ok w'" by (rule start_create_world_ok [OF c ownedD(1) [OF own]])
    show "?own a = sd" if "umap_get (w_sessions w') sd = Some a" for sd a
      using that ownedD(2) [OF own, of sd a] world_okD(2) [OF ownedD(1) [OF own], of sd a]
      by (auto simp: r(5) um.get_put split: if_splits)
  next
    fix j a
    assume cur: "se_current (fst ((ths(i := (s', Created sid'))) j)) = Some a"
    have le: "a = w_next w \<and> j = i \<or> a < w_next w \<and> j \<noteq> i"
      using cur r(2) ownedD(3) [OF own, of j a] by (auto split: if_splits)
    then show "a < w_next w'" by (auto simp: r(4))
    show "?own a = held_id ((ths(i := (s', Created sid'))) j)"
      using le cur old ownedD(4) [OF own, of j a] by (auto simp: held_id_def)
    show "sd_sourceIP (w_heap w' a) = Env_get (envs j) ''REMOTE_ADDR''" if "validates_ip cfg"
      using le cur old ownedD(5) [OF own, of j a] that by (auto simp: r(3) SessionData_new_def)
  qed
  then show ?thesis by blast
qed

lemma start_lookup_get_subset:
  "world_ok w \<Longrightarrow> umap_get (w_sessions (fst (start_lookup cfg e sid k w s))) i = Some a \<Longrightarrow>
     umap_get (w_sessions w) i = Some a"
  using start_lookup_shape [of cfg e sid k w s] by (auto simp: um.get_erase [OF world_okD(1)] split: if_splits)

lemma start_lookup_sourceIP:
  "sd_sourceIP (w_heap (fst (start_lookup cfg e sid k w s)) a) = sd_sourceIP (w_heap w a)"
  by (auto simp: start_lookup_def read_time_def Let_def split: option.split)

lemma owned_lookup:
  assumes own: "owned cfg envs own (w, ths)" and ths: "ths i = (s, Idle)" and n: "\<not> established s"
    and l: "start_lookup cfg (envs i) sid k w s = (w', s')"
  shows "owned cfg envs own (w', ths(i := (s', Looked sid k)))"
proof (rule owned_update [OF own])
  have w': "w' = fst (start_lookup cfg (envs i) sid k w s)" by (simp add: l)
  note ok = ownedD(1) [OF own]
  show "world_ok w'" unfolding w' by (rule start_lookup_world_ok [OF ok])
  show "w_next w' = w_next w" using start_lookup_shape [of cfg "envs i" sid k w s] by (simp add: w')
  show "umap_get (w_sessions w) j = Some a" if "umap_get (w_sessions w') j = Some a" for j a
    using that start_lookup_get_subset [OF ok] by (simp add: w')
  show "sd_sourceIP (w_heap w' a) = sd_sourceIP (w_heap w a)" for a
    unfolding w' by (rule start_lookup_sourceIP)
  fix a
  assume a: "se_current (fst (s', Looked sid k)) = Some a"
  have r: "resumable cfg (envs i) w sid \<and> umap_get (w_sessions w) sid = Some a"
    by (rule start_lookup_current [where s = s and k = k and s' = s'])
      (use n l a ok in \<open>auto simp: established_def\<close>)
  then show "a < w_next w \<and> own a = held_id (s', Looked sid k)
      \<and> (validates_ip cfg \<longrightarrow> sd_sourceIP (w_heap w a) = Env_get (envs i) ''REMOTE_ADDR'')"
    using world_okD(2) [OF ok, of sid a] ownedD(2) [OF own, of sid a]
    by (auto simp: held_id_def resumable_def sess_view_def)
qed

lemma owned_data:
  assumes own: "owned cfg envs own (w, ths)" and "w' = upd_data a f w \<or> w' = w"
  shows "owned cfg envs own (w', ths)"
proof -
  have "owned cfg envs own (w', ths(0 := ths 0))"
    by (rule owned_update [OF own])
      (use assms ownedD(1) [OF own] ownedD(2-5) [OF own] in \<open>auto simp: upd_data_def cong: world_ok_cong\<close>)
  then show ?thesis by simp
qed

lemma owned_save:
  assumes own: "owned cfg envs own (w, ths)" and ths: "ths i = (s, Created sid)"
  shows "owned cfg envs own (w, ths(i := (s\<lparr>se_currentID := sid\<rparr>, Saved)))"
  by (rule owned_update [OF own ownedD(1) [OF own]])
    (use ownedD(3-5) [OF own, of i] ths in \<open>auto simp: held_id_def\<close>)

lemma owned_gc:
  assumes own: "owned cfg envs own (w, ths)" and ths: "ths i = (s, Saved)"
    and g: "start_gc cfg w = (r, w')"
  shows "owned cfg envs own (w', ths(i := (s, Idle)))"
proof -
  have w': "w' = snd (start_gc cfg w)" by (simp add: g)
  note ok = ownedD(1) [OF own]
  show ?thesis unfolding w'
    by (rule owned_update [OF own start_gc_world_ok [OF ok]])
      (use ownedD(3-5) [OF own, of i] ths start_gc_get_subset [OF world_okD(1) [OF ok]] in
        \<open>auto simp: held_id_def start_gc_world\<close>)
qed

lemma owned_reset:
  assumes own: "owned cfg envs own (w, ths)"
  shows "owned cfg envs own (w, ths(i := (s\<lparr>se_current := None\<rparr>, Reset)))"
  by (rule owned_update [OF own ownedD(1) [OF own]]) auto

lemma owned_erase:
  assumes own: "owned cfg envs own (w, ths)" and ths: "ths i = (s, Reset)"
  shows "owned cfg envs own (w\<lparr>w_sessions := umap_erase sid (w_sessions w)\<rparr>, ths(i := (s, Idle)))"
proof -
  note ok = ownedD(1) [OF own]
  show ?thesis
    by (rule owned_update [OF own world_ok_erase [OF ok]])
      (use ownedD(3-5) [OF own, of i] ths in \<open>auto simp: held_id_def um.get_erase [OF world_okD(1) [OF ok]]
        split: if_splits\<close>)
qed

lemma owned_step:
  assumes own: "owned cfg envs own (w, ths)" and st: "sess_step H cfg envs (w, ths) (w', ths')"
  shows "\<exists>own'. owned cfg envs own' (w', ths')"
  using st
proof (cases rule: sess_stepE [consumes 1, case_names lookup create save gc set_data unset_data reset erase])
  case lookup
  then show ?thesis using owned_lookup [OF own] by blast
next
  case create
  then show ?thesis using owned_create [OF own] by blast
next
  case (save i s sid)
  then show ?thesis using owned_save [OF own] by blast
next
  case gc
  then show ?thesis using owned_gc [OF own] by blast
next
  case set_data
  then have "\<exists>a f. w' = upd_data a f w \<or> w' = w" by (auto simp: Session_set_def split: option.splits)
  then show ?thesis using owned_data [OF own] set_data(1) by blast
next
  case unset_data
  then have "\<exists>a f. w' = upd_data a f w \<or> w' = w" by (auto simp: Session_unset_def split: option.splits)
  then show ?thesis using owned_data [OF own] unset_data(1) by blast
next
  case reset
  then show ?thesis using owned_reset [OF own] by blast
next
  case erase
  then show ?thesis using owned_erase [OF own] by blast
qed

interpretation sess: transition_system "sess_step H cfg envs" "sess_inv cfg envs"
proof
  fix st st' :: "'a sess_state"
  show "sess_inv cfg envs st \<Longrightarrow> sess_step H cfg envs st st' \<Longrightarrow> sess_inv cfg envs st'"
    using owned_step unfolding sess_inv_def by (metis prod.collapse)
qed

section \<open>A call without interference\<close>

text \<open>\<^verbatim>\<open>Session::start\<close> and \<^verbatim>\<open>invalidate\<close>, run without other threads between their sections,
  are runs of the transition system.\<close>

lemma start_runs:
  assumes ths: "ths i = (s, Idle)" and n: "\<not> established s" and k: "session_keepalive cfg ka = Inr k"
    and st: "Session_start H cfg (envs i) sid ka w s = Some (r, w', s')"
  shows "(sess_step H cfg envs)\<^sup>*\<^sup>* (w, ths) (w', ths(i := (s', Idle)))"
proof -
  obtain w1 s1 where l: "start_lookup cfg (envs i) sid k w s = (w1, s1)" by fastforce
  from st n k l obtain sid' w2 s2 where c: "start_create H (envs i) sid k w1 s1 = Some (sid', w2, s2)"
    and g: "w' = snd (start_gc cfg w2)" "s' = s2\<lparr>se_currentID := sid'\<rparr>"
    by (auto simp: Session_start_def Let_def split: option.splits prod.splits)
  let ?t1 = "ths(i := (s1, Looked sid k))" and ?t2 = "ths(i := (s2, Created sid'))"
    and ?t3 = "ths(i := (s2\<lparr>se_currentID := sid'\<rparr>, Saved))"
  have "sess_step H cfg envs (w, ths) (w1, ?t1)" by (rule sess_step.lookup [where i = i]) (use ths n k l in auto)
  moreover have "sess_step H cfg envs (w1, ?t1) (w2, ?t2)"
    using create [of ?t1 i s1 sid k H envs w1 sid' w2 s2 cfg] c by simp
  moreover have "sess_step H cfg envs (w2, ?t2) (w2, ?t3)"
    using save [of ?t2 i s2 sid' H cfg envs w2] by simp
  moreover have "sess_step H cfg envs (w2, ?t3) (w', ths(i := (s', Idle)))"
    using gc [of ?t3 i "s2\<lparr>se_currentID := sid'\<rparr>" cfg w2 _ w' H envs] g
    by (metis fun_upd_same fun_upd_upd prod.collapse)
  ultimately show ?thesis by (meson rtranclp.rtrancl_into_rtrancl rtranclp.rtrancl_refl)
qed

lemma invalidate_runs:
  assumes ths: "ths i = (s, Idle)" and n: "established s" and iv: "Session_invalidate w s = (w', s', c)"
  shows "(sess_step H cfg envs)\<^sup>*\<^sup>* (w, ths) (w', ths(i := (s', Idle)))"
proof -
  let ?t = "ths(i := (s\<lparr>se_current := None\<rparr>, Reset))"
  have "sess_step H cfg envs (w, ths) (w, ?t)" by (rule sess_step.reset [where i = i]) (use ths n in auto)
  moreover have "sess_step H cfg envs (w, ?t) (w', ths(i := (s', Idle)))"
    using erase [of ?t i "s\<lparr>se_current := None\<rparr>" H cfg envs w] n iv
    by (auto simp: Session_invalidate_def)
  ultimately show ?thesis by (meson rtranclp.rtrancl_into_rtrancl rtranclp.rtrancl_refl)
qed

end
