(* ===== verification/Connection.thy ===== *)
theory Connection
  imports Filters Session_Steps
begin

text \<open>
  Connections (\<^verbatim>\<open>src/connection/Connection.cpp\<close>): the response a request builds up (status,
  headers, cookies, body and stream), files, flushing, and the access filters. The files of the
  operating system are a parameter (\<open>os\<close>: contents and modification times), the flush callback
  is the trace of the containers it was called with. Operations that may start a session also
  take and return the session world; \<open>None\<close> is a call that does not return (only the search for
  an unused session ID can).
\<close>

definition httpStatusCodes :: "(nat, string) umap" where
  "httpStatusCodes =
    [(200, ''OK''),
     (201, ''Created''),
     (202, ''Accepted''),
     (203, ''Non-Authoritative Information''),
     (204, ''No Content''),
     (205, ''Reset Content''),
     (206, ''Partial Content''),
     (207, ''Multi-Status''),
     (208, ''Already Reported''),
     (226, ''IM Used''),
     (300, ''Multiple Choices''),
     (301, ''Moved Permanently''),
     (302, ''Found''),
     (303, ''See Other''),
     (304, ''Not Modified''),
     (305, ''Use Proxy''),
     (307, ''Temporary Redirect''),
     (308, ''Permanent Redirect''),
     (400, ''Bad Request''),
     (401, ''Unauthorized''),
     (402, ''Payment Required''),
     (403, ''Forbidden''),
     (404, ''Not Found''),
     (405, ''Method Not Allowed''),
     (406, ''Not Acceptable''),
     (407, ''Proxy Authentication Required''),
     (408, ''Request Timeout''),
     (409, ''Conflict''),
     (410, ''Gone''),
     (411, ''Length Required''),
     (412, ''Precondition Failed''),
     (413, ''Payload Too Large''),
     (414, ''URI Too Long''),
     (415, ''Unsupported Media Type''),
     (416, ''Range Not Satisfiable''),
     (417, ''Expectation Failed''),
     (418, ''I'' @ [CHR 0x27] @ ''m a teapot''),
     (421, ''Misdirected Request''),
     (422, ''Unprocessable Entity''),
     (423, ''Locked''),
     (424, ''Failed Dependency''),
     (426, ''Upgrade Required''),
     (428, ''Precondition Required''),
     (429, ''Too Many Requests''),
     (431, ''Request Header Fields Too Large''),
     (451, ''Unavailable For Legal Reasons''),
     (500, ''Internal Server Error''),
     (501, ''Not Implemented''),
     (502, ''Bad Gateway''),
     (503, ''Service Unavailable''),
     (504, ''Gateway Timeout''),
     (505, ''HTTP Version Not Supported''),
     (506, ''Variant Also Negotiates''),
     (507, ''Insufficient Storage''),
     (508, ''Loop Detected''),
     (510, ''Not Extended''),
     (511, ''Network Authentication Required'')]"

section \<open>State\<close>

record flush_container =
  fc_status :: nat
  fc_headers :: "(string, string) ummap"
  fc_body :: string
  fc_flushedBefore :: bool

text \<open>The values of the session variables: strings, and whatever else the application stores.\<close>

datatype 'b any = AnyString string | AnyOther 'b

record connection =
  cn_bodyString :: string
  cn_responseStatus :: nat
  cn_headers :: "(string, string list) umap"
  cn_cookies :: "(string, cookie) umap"
  cn_cookiePolicy :: cookie
  cn_isFlushed :: bool
  cn_flushed :: "flush_container list"
  cn_request :: request
  cn_session :: session
  cn_config :: config
  cn_responseStream :: string

record os =
  os_read :: "string \<Rightarrow> string option"
  os_mtime :: "string \<Rightarrow> int option"

definition clearStream :: "connection \<Rightarrow> connection" where
  "clearStream c = c\<lparr>cn_responseStream := []\<rparr>"

definition mergeStream :: "connection \<Rightarrow> connection" where
  "mergeStream c = clearStream (c\<lparr>cn_bodyString := cn_bodyString c @ cn_responseStream c\<rparr>)"

definition writeStream :: "string \<Rightarrow> connection \<Rightarrow> connection" where
  "writeStream s c = c\<lparr>cn_responseStream := cn_responseStream c @ s\<rparr>"

definition setResponseBody :: "string \<Rightarrow> connection \<Rightarrow> connection" where
  "setResponseBody content c = clearStream (c\<lparr>cn_bodyString := content\<rparr>)"

definition getResponseBody :: "connection \<Rightarrow> string \<times> connection" where
  "getResponseBody c = (let c = mergeStream c in (cn_bodyString c, c))"

definition setStatus :: "nat \<Rightarrow> connection \<Rightarrow> connection" where
  "setStatus status c = c\<lparr>cn_responseStatus := status\<rparr>"

definition getStatus :: "connection \<Rightarrow> nat" where
  "getStatus c = cn_responseStatus c"

definition setCookiePolicy :: "cookie \<Rightarrow> connection \<Rightarrow> connection" where
  "setCookiePolicy policy c = c\<lparr>cn_cookiePolicy := policy\<rparr>"

section \<open>Headers and cookies\<close>

definition setHeader :: "string \<Rightarrow> string \<Rightarrow> connection \<Rightarrow> connection" where
  "setHeader key val c =
     (let key = toLowercase key in c\<lparr>cn_headers := umap_set key [val] (cn_headers c)\<rparr>)"

definition addHeader :: "string \<Rightarrow> string \<Rightarrow> connection \<Rightarrow> connection" where
  "addHeader key val c =
     (let key = toLowercase key;
          old = (case umap_get (cn_headers c) key of Some vs \<Rightarrow> vs | None \<Rightarrow> [])
      in c\<lparr>cn_headers := umap_set key (old @ [val]) (cn_headers c)\<rparr>)"

definition unsetHeader :: "string \<Rightarrow> connection \<Rightarrow> connection" where
  "unsetHeader key c = (let key = toLowercase key in c\<lparr>cn_headers := umap_erase key (cn_headers c)\<rparr>)"

definition or_policy :: "'v option \<Rightarrow> 'v option \<Rightarrow> 'v option" where
  "or_policy own policy = (if own \<noteq> None then own else policy)"

definition cookie_header :: "cookie \<Rightarrow> string \<times> cookie \<Rightarrow> string" where
  "cookie_header policy e =
     (let ck = snd e in
      fst e @ ''='' @ ck_content ck
      @ (case or_policy (ck_domain ck) (ck_domain policy) of
           Some d \<Rightarrow> if d \<noteq> [] then ''; Domain='' @ d else [] | None \<Rightarrow> [])
      @ (case or_policy (ck_path ck) (ck_path policy) of
           Some p \<Rightarrow> if p \<noteq> [] then ''; Path='' @ p else [] | None \<Rightarrow> [])
      @ (case or_policy (ck_expires ck) (ck_expires policy) of
           Some t \<Rightarrow> ''; Expires='' @ (case makeHttpTime t of Inr s \<Rightarrow> s | Inl _ \<Rightarrow> []) | None \<Rightarrow> [])
      @ (case or_policy (ck_maxAge ck) (ck_maxAge policy) of
           Some a \<Rightarrow> ''; Max-Age='' @ dec a | None \<Rightarrow> [])
      @ (if ck_secure ck \<or> ck_secure policy then ''; Secure'' else [])
      @ (if ck_httpOnly ck \<or> ck_httpOnly policy then ''; HttpOnly'' else [])
      @ (let sameSite = (if ck_sameSite ck \<noteq> SameSite_OFF then ck_sameSite ck else ck_sameSite policy) in
         if sameSite = SameSite_LAX then ''; SameSite=lax''
         else if sameSite = SameSite_STRICT then ''; SameSite=strict'' else []))"

definition getHeaders :: "bool \<Rightarrow> connection \<Rightarrow> (string, string) ummap" where
  "getHeaders includeCookies c =
     concat (map (\<lambda>(key, vals). map (\<lambda>v. (key, v)) vals) (cn_headers c))
     @ (if includeCookies
        then map (\<lambda>e. (''set-cookie'', cookie_header (cn_cookiePolicy c) e)) (cn_cookies c) else [])"

definition token_ranges :: "(char \<times> char) list" where
  "token_ranges = [(CHR ''A'', CHR ''Z''), (CHR ''a'', CHR ''z''), (CHR ''0'', CHR ''9'')]"

definition matchKey :: rx where
  "matchKey = RStar (RSet False (token_ranges @ chars (''!#$%&'' @ [CHR 0x27] @ ''*+-.^_`|~'')))"

definition matchContent :: rx where
  "matchContent = RStar (RSet False (token_ranges @ chars (''!#$%&'' @ [CHR 0x27] @ ''()*+-./:<=>?@[]^_`{|}~'')))"

definition setCookie :: "string \<Rightarrow> cookie \<Rightarrow> connection \<Rightarrow> unit result \<times> connection" where
  "setCookie key ck c =
     (if regex_match matchKey key = None \<or> regex_match matchContent (ck_content ck) = None
      then (Inl (NawaException 1 ''Invalid characters in key or value''), c)
      else (Inr (), c\<lparr>cn_cookies := umap_set key ck (cn_cookies c)\<rparr>))"

definition setCookieContent :: "string \<Rightarrow> string \<Rightarrow> connection \<Rightarrow> unit result \<times> connection" where
  "setCookieContent key content c = setCookie key (Cookie_new content) c"

definition unsetCookie :: "string \<Rightarrow> connection \<Rightarrow> connection" where
  "unsetCookie key c = c\<lparr>cn_cookies := umap_erase key (cn_cookies c)\<rparr>"

section \<open>Files\<close>

definition disposition :: "bool \<Rightarrow> string \<Rightarrow> connection \<Rightarrow> connection" where
  "disposition forceDownload downloadFilename c =
     (if forceDownload then
        (if downloadFilename \<noteq> []
         then setHeader ''content-disposition''
                (''attachment; filename='' @ [DQUOTE] @ downloadFilename @ [DQUOTE]) c
         else setHeader ''content-disposition'' ''attachment'' c)
      else if downloadFilename \<noteq> []
      then setHeader ''content-disposition''
             (''inline; filename='' @ [DQUOTE] @ downloadFilename @ [DQUOTE]) c
      else c)"

definition ifModifiedSince :: "connection \<Rightarrow> int" where
  "ifModifiedSince c =
     (case stol 10 (Env_get (rq_env (cn_request c)) ''if-modified-since'') of Inr t \<Rightarrow> t | Inl _ \<Rightarrow> 0)"

text \<open>The body is the file, followed by the NUL that the code reserves one more byte for.\<close>

definition sendFile ::
    "os \<Rightarrow> string \<Rightarrow> string \<Rightarrow> bool \<Rightarrow> string \<Rightarrow> bool \<Rightarrow> connection \<Rightarrow> unit result \<times> connection" where
  "sendFile os path contentType forceDownload downloadFilename checkIfModifiedSince c =
     (case os_read os path of
        None \<Rightarrow> (Inl (NawaException 1 ''Cannot open file for reading''), c)
      | Some content \<Rightarrow>
          (let lastModified = (case os_mtime os path of Some t \<Rightarrow> t | None \<Rightarrow> 0) in
           if checkIfModifiedSince \<and> lastModified \<le> ifModifiedSince c
           then (Inr (), setResponseBody [] (setStatus 304 c))
           else
             (let c = (if contentType \<noteq> [] then setHeader ''content-type'' contentType c
                       else setHeader ''content-type'' (contentTypeByExtension (getFileExtension path)) c);
                  c = disposition forceDownload downloadFilename c;
                  c = setHeader ''content-length'' (dec (length content)) c;
                  c = (if 0 < lastModified
                       then (case makeHttpTime lastModified of
                               Inr t \<Rightarrow> setHeader ''last-modified'' t c | Inl _ \<Rightarrow> c)
                       else c);
                  c = c\<lparr>cn_bodyString := content @ [CHR 0x00]\<rparr>
              in (Inr (), clearStream c))))"

section \<open>Flushing\<close>

definition flushResponse :: "connection \<Rightarrow> connection" where
  "flushResponse c =
     (let headers = getHeaders True c;
          (body, c) = getResponseBody c;
          c = c\<lparr>cn_flushed := cn_flushed c @
                 [\<lparr>fc_status = cn_responseStatus c, fc_headers = headers, fc_body = body,
                   fc_flushedBefore = cn_isFlushed c\<rparr>]\<rparr>;
          c = c\<lparr>cn_isFlushed := True\<rparr>
      in setResponseBody [] c)"

definition getStatusString :: "flush_container \<Rightarrow> string" where
  "getStatusString f =
     dec (fc_status f)
     @ (case umap_get httpStatusCodes (fc_status f) of Some t \<Rightarrow> '' '' @ t | None \<Rightarrow> [])"

definition getFullHttp :: "flush_container \<Rightarrow> string" where
  "getFullHttp f =
     (if \<not> fc_flushedBefore f
      then concat (map (\<lambda>(k, v). k @ '': '' @ v @ CRLF) (fc_headers f)) @ CRLF else [])
     @ fc_body f"

section \<open>Sessions of a connection\<close>

text \<open>\<^verbatim>\<open>session().start(properties)\<close>, with the \<^verbatim>\<open>setCookie\<close> at its end.\<close>

definition startSession ::
    "(string \<Rightarrow> string) \<Rightarrow> cookie \<Rightarrow> connection \<Rightarrow> 'b any world
       \<Rightarrow> (unit result \<times> connection \<times> 'b any world) option" where
  "startSession H properties c w =
     (case Session_start_cookie H (cn_config c) (cn_request c) properties w (cn_session c) of
        None \<Rightarrow> None
      | Some (r, w', s') \<Rightarrow>
          (let c = c\<lparr>cn_session := s'\<rparr> in
           case r of
             Inl e \<Rightarrow> Some (Inl e, c, w')
           | Inr None \<Rightarrow> Some (Inr (), c, w')
           | Inr (Some (name, ck)) \<Rightarrow> (let (q, c) = setCookie name ck c in Some (q, c, w'))))"

definition invalidateSession :: "connection \<Rightarrow> 'b any world \<Rightarrow> connection \<times> 'b any world" where
  "invalidateSession c w =
     (let (w', s', name) = Session_invalidate w (cn_session c);
          c = c\<lparr>cn_session := s'\<rparr>
      in (case name of Some n \<Rightarrow> unsetCookie n c | None \<Rightarrow> c, w'))"

definition Connection_data :: "request_init \<Rightarrow> config \<Rightarrow> connection" where
  "Connection_data requestInit cfg =
     \<lparr>cn_bodyString = [], cn_responseStatus = 200, cn_headers = [], cn_cookies = [],
      cn_cookiePolicy = Cookie_default, cn_isFlushed = False, cn_flushed = [],
      cn_request = Request_new requestInit, cn_session = Session_new, cn_config = cfg,
      cn_responseStream = []\<rparr>"

definition Connection_new ::
    "(string \<Rightarrow> string) \<Rightarrow> request_init \<Rightarrow> config \<Rightarrow> 'b any world
       \<Rightarrow> (unit result \<times> connection \<times> 'b any world) option" where
  "Connection_new H requestInit cfg w =
     (let c = Connection_data requestInit cfg;
          c = c\<lparr>cn_headers := umap_set ''content-type'' [''text/html; charset=utf-8''] (cn_headers c)\<rparr>
      in if Config_get (cn_config c) (''session'', ''autostart'') = ''on''
         then startSession H Cookie_default c w
         else Some (Inr (), c, w))"

section \<open>Access filters\<close>

definition filter_response :: "nat \<Rightarrow> ('x) access_filter_scheme \<Rightarrow> connection \<Rightarrow> connection" where
  "filter_response status flt c =
     setResponseBody (if af_response flt \<noteq> [] then af_response flt else generateErrorPage status) c"

text \<open>The three loops; the flag says whether the request has been filtered.\<close>

fun apply_block :: "block_filter list \<Rightarrow> string list \<Rightarrow> connection \<Rightarrow> bool result \<times> connection" where
  "apply_block [] path c = (Inr False, c)"
| "apply_block (flt # flts) path c =
     (case applies flt path of
        Inl e \<Rightarrow> (Inl e, c)
      | Inr False \<Rightarrow> apply_block flts path c
      | Inr True \<Rightarrow> (Inr True, filter_response (bf_status flt) flt (setStatus (bf_status flt) c)))"

text \<open>The credentials of an \<^verbatim>\<open>authorization\<close> header: nothing if the header is not accepted.
  \<^verbatim>\<open>at(0)\<close> is evaluated only when there are not two parts.\<close>

definition auth_credentials :: "string \<Rightarrow> (string \<times> string) option result" where
  "auth_credentials authorization =
     (let authResponse = splitString authorization (CHR '' '') True in
      bind_result (if length authResponse = 2 then Inr True
                   else bind_result (vec_at authResponse 0) (\<lambda>s. Inr (s = ''Basic''))) (\<lambda>ok.
      if \<not> ok then Inr None
      else bind_result (vec_at authResponse 1) (\<lambda>b.
        let credentials = splitString (base64Decode b) (CHR '':'') True in
        Inr (if length credentials = 2 then Some (credentials ! 0, credentials ! 1) else None))))"

text \<open>The user name, if the header authenticates a user of the filter.\<close>

definition auth_check :: "auth_filter \<Rightarrow> string \<Rightarrow> string option result" where
  "auth_check flt authorization =
     bind_result (auth_credentials authorization) (\<lambda>cr.
       Inr (case (cr, au_authFunction flt) of
              (Some (user, pw), Some f) \<Rightarrow> (if f user pw then Some user else None)
            | _ \<Rightarrow> None))"

definition auth_challenge :: "auth_filter \<Rightarrow> connection \<Rightarrow> connection" where
  "auth_challenge flt c =
     setHeader ''www-authenticate''
       (''Basic'' @ (if au_authName flt \<noteq> []
                    then '' realm='' @ [DQUOTE] @ au_authName flt @ [DQUOTE] else []))
       (setStatus 401 c)"

definition auth_key :: "nat \<Rightarrow> string" where
  "auth_key authFilterID = ''_nawa_authfilter'' @ dec authFilterID"

text \<open>What happens behind the session part, for a user that is not authenticated by a session.\<close>

definition apply_credentials ::
    "nat \<Rightarrow> auth_filter \<Rightarrow> connection \<Rightarrow> 'b any world \<Rightarrow> bool result \<times> connection \<times> 'b any world" where
  "apply_credentials authFilterID flt c w =
     (let authorization = Env_get (rq_env (cn_request c)) ''authorization'' in
      if authorization = [] then (Inr True, auth_challenge flt c, w)
      else case auth_check flt authorization of
             Inl e \<Rightarrow> (Inl e, c, w)
           | Inr None \<Rightarrow> (Inr True, filter_response 403 flt (setStatus 403 c), w)
           | Inr (Some user) \<Rightarrow>
               (if au_useSessions flt
                then (case Session_set (auth_key authFilterID) (AnyString user) w (cn_session c) of
                        (Inl e, w') \<Rightarrow> (Inl e, c, w')
                      | (Inr (), w') \<Rightarrow> (Inr False, c, w'))
                else (Inr False, c, w)))"

fun apply_auth ::
    "(string \<Rightarrow> string) \<Rightarrow> nat \<Rightarrow> auth_filter list \<Rightarrow> string list \<Rightarrow> connection \<Rightarrow> 'b any world
       \<Rightarrow> (bool result \<times> connection \<times> 'b any world) option" where
  "apply_auth H authFilterID [] path c w = Some (Inr False, c, w)"
| "apply_auth H authFilterID (flt # flts) path c w =
     (case applies flt path of
        Inl e \<Rightarrow> Some (Inl e, c, w)
      | Inr False \<Rightarrow> apply_auth H (authFilterID + 1) flts path c w
      | Inr True \<Rightarrow>
          (if au_useSessions flt
           then (case startSession H Cookie_default c w of
                   None \<Rightarrow> None
                 | Some (Inl e, c', w') \<Rightarrow> Some (Inl e, c', w')
                 | Some (Inr _, c', w') \<Rightarrow>
                     (if Session_isSet w' (cn_session c') (auth_key authFilterID)
                      then Some (Inr False, c', w')
                      else Some (apply_credentials authFilterID flt c' w')))
           else Some (apply_credentials authFilterID flt c w)))"

definition forward_path :: "forward_filter \<Rightarrow> string list \<Rightarrow> string result" where
  "forward_path flt requestPath =
     (if ff_basePathExtension flt = BY_PATH
      then Inr (ff_basePath flt @ concat (map (\<lambda>e. CHR ''/'' # e) requestPath))
      else if requestPath = [] then Inl Undefined
      else Inr (ff_basePath flt @ CHR ''/'' # last requestPath))"

fun apply_forward :: "os \<Rightarrow> forward_filter list \<Rightarrow> string list \<Rightarrow> connection \<Rightarrow> bool result \<times> connection" where
  "apply_forward os [] path c = (Inr False, c)"
| "apply_forward os (flt # flts) path c =
     (case applies flt path of
        Inl e \<Rightarrow> (Inl e, c)
      | Inr False \<Rightarrow> apply_forward os flts path c
      | Inr True \<Rightarrow>
          (case forward_path flt path of
             Inl e \<Rightarrow> (Inl e, c)
           | Inr filePath \<Rightarrow>
               (case sendFile os filePath [] False [] True c of
                  (Inr _, c') \<Rightarrow> (Inr True, c')
                | (Inl (NawaException _ _), c') \<Rightarrow>
                    (Inr True, filter_response 404 flt (setStatus 404 c'))
                | (Inl e, c') \<Rightarrow> (Inl e, c'))))"

definition applyFilters ::
    "(string \<Rightarrow> string) \<Rightarrow> os \<Rightarrow> filter_list \<Rightarrow> connection \<Rightarrow> 'b any world
       \<Rightarrow> (bool result \<times> connection \<times> 'b any world) option" where
  "applyFilters H os flts c w =
     (if \<not> fl_filtersEnabled flts then Some (Inr False, c, w)
      else
        let path = getRequestPath (rq_env (cn_request c)) in
        case apply_block (fl_blockFilters flts) path c of
          (Inr False, c) \<Rightarrow>
            (case apply_auth H 0 (fl_authFilters flts) path c w of
               None \<Rightarrow> None
             | Some (Inr False, c, w) \<Rightarrow>
                 (case apply_forward os (fl_forwardFilters flts) path c of (r, c) \<Rightarrow> Some (r, c, w))
             | Some r \<Rightarrow> Some r)
        | (r, c) \<Rightarrow> Some (r, c, w))"

end
