(* ===== verification/Connection_Props.thy ===== *)
theory Connection_Props
  imports Connection
begin

text \<open>
  What the operations of a connection guarantee: header lookup without regard to case, cookies
  of permitted characters only, a body that is sent once and in order, and filters that let a
  request pass only if nothing blocks or forwards it and the authentication asked for has
  succeeded.
\<close>

section \<open>Headers\<close>

definition header_values :: "connection \<Rightarrow> string \<Rightarrow> string list" where
  "header_values c key = ummap_range (getHeaders False c) key"

lemma ummap_range_append [simp]: "ummap_range (xs @ ys) k = ummap_range xs k @ ummap_range ys k"
  by (simp add: ummap_range_def)

lemma ummap_range_const: "ummap_range (map (\<lambda>v. (key, v)) vals) k = (if key = k then vals else [])"
  by (induction vals) (auto simp: ummap_range_def)

lemma flatten_range:
  "umap_wf m \<Longrightarrow> ummap_range (concat (map (\<lambda>(key, vals). map (\<lambda>v. (key, v)) vals) m)) k =
     (case umap_get m k of Some vs \<Rightarrow> vs | None \<Rightarrow> [])"
proof (induction m)
  case Nil
  show ?case by (simp add: ummap_range_def)
next
  case (Cons e m)
  obtain key vals where e: "e = (key, vals)" by (cases e)
  from Cons.prems have wf: "umap_wf m" "key \<notin> fst ` set m" by (simp_all add: umap_wf_def e)
  then have "umap_get m key = None" by (simp add: umap_get_def map_of_eq_None_iff)
  with Cons.IH [OF wf(1)] show ?case
    by (auto simp: e ummap_range_const umap_get_def)
qed

lemma header_values_get:
  "umap_wf (cn_headers c) \<Longrightarrow>
     header_values c k = (case umap_get (cn_headers c) k of Some vs \<Rightarrow> vs | None \<Rightarrow> [])"
  by (simp add: header_values_def getHeaders_def flatten_range)

lemma headers_wf [inv_intros]:
  "umap_wf (cn_headers c) \<Longrightarrow> umap_wf (cn_headers (setHeader k v c))"
  "umap_wf (cn_headers c) \<Longrightarrow> umap_wf (cn_headers (addHeader k v c))"
  "umap_wf (cn_headers c) \<Longrightarrow> umap_wf (cn_headers (unsetHeader k c))"
  by (simp_all add: setHeader_def addHeader_def unsetHeader_def Let_def um.wf_put um.wf_erase)

lemma header_values_set:
  assumes "umap_wf (cn_headers c)"
  shows "header_values (setHeader k v c) n = (if n = toLowercase k then [v] else header_values c n)"
    and "header_values (addHeader k v c) n =
      (if n = toLowercase k then header_values c n @ [v] else header_values c n)"
    and "header_values (unsetHeader k c) n = (if n = toLowercase k then [] else header_values c n)"
  using assms headers_wf [OF assms]
  by (simp_all add: header_values_get)
    (simp_all add: setHeader_def addHeader_def unsetHeader_def Let_def um.get_put um.get_erase)

text \<open>An interface for the header operations: what a client may rely on.\<close>

locale header_store =
  fixes val :: "'c \<Rightarrow> string \<Rightarrow> string list"
    and put :: "string \<Rightarrow> string \<Rightarrow> 'c \<Rightarrow> 'c"
    and add :: "string \<Rightarrow> string \<Rightarrow> 'c \<Rightarrow> 'c"
    and del :: "string \<Rightarrow> 'c \<Rightarrow> 'c"
    and norm :: "string \<Rightarrow> string"
    and ok :: "'c \<Rightarrow> bool"
  assumes val_put: "ok c \<Longrightarrow> val (put k v c) n = (if n = norm k then [v] else val c n)"
    and val_add: "ok c \<Longrightarrow> val (add k v c) n = (if n = norm k then val c n @ [v] else val c n)"
    and val_del: "ok c \<Longrightarrow> val (del k c) n = (if n = norm k then [] else val c n)"
    and ok_put: "ok c \<Longrightarrow> ok (put k v c)"
    and ok_add: "ok c \<Longrightarrow> ok (add k v c)"
    and ok_del: "ok c \<Longrightarrow> ok (del k c)"
begin

lemma put_overrides: "ok c \<Longrightarrow> norm k = norm k' \<Longrightarrow> val (put k' v' (put k v c)) n = val (put k' v' c) n"
  by (simp add: val_put ok_put)

lemma del_after_put: "ok c \<Longrightarrow> norm k = norm k' \<Longrightarrow> val (del k' (put k v c)) n = val (del k' c) n"
  by (simp add: val_put val_del ok_put)

lemma add_list:
  "ok c \<Longrightarrow> val (fold (add k) vs c) n = (if n = norm k then val c n @ vs else val c n)"
  by (induction vs arbitrary: c) (auto simp: val_add ok_add)

end

interpretation hdr: header_store header_values setHeader addHeader unsetHeader toLowercase
  "\<lambda>c. umap_wf (cn_headers c)"
  by unfold_locales (simp_all add: header_values_set headers_wf)

section \<open>Cookies\<close>

definition key_char :: "char \<Rightarrow> bool" where
  "key_char c \<longleftrightarrow> in_ranges (token_ranges @ chars (''!#$%&'' @ [CHR 0x27] @ ''*+-.^_`|~'')) c"

definition content_char :: "char \<Rightarrow> bool" where
  "content_char c \<longleftrightarrow>
     in_ranges (token_ranges @ chars (''!#$%&'' @ [CHR 0x27] @ ''()*+-./:<=>?@[]^_`{|}~'')) c"

lemma match_class:
  "regex_match (RStar (RSet False rs)) s \<noteq> None \<longleftrightarrow> (\<forall>c \<in> set s. in_ranges rs c)"
proof -
  have "rx_wf (RStar (RSet False rs))" by simp
  from regex_match_iff [OF this, of s] show ?thesis
    by (simp add: rx_lang_rep_class del: rx_lang.simps)
qed

lemma setCookie_iff:
  "fst (setCookie key ck c) = Inr () \<longleftrightarrow> list_all key_char key \<and> list_all content_char (ck_content ck)"
proof -
  have "(regex_match matchKey key \<noteq> None) = list_all key_char key"
    "(regex_match matchContent (ck_content ck) \<noteq> None) = list_all content_char (ck_content ck)"
    unfolding matchKey_def matchContent_def match_class key_char_def content_char_def list_all_iff by simp_all
  then show ?thesis by (auto simp: setCookie_def)
qed

lemma setCookie_error: "fst (setCookie key ck c) = Inl e \<Longrightarrow> snd (setCookie key ck c) = c"
  by (auto simp: setCookie_def split: if_splits)

text \<open>No character of a permitted name or content ends the header line or the attribute.\<close>

lemma cookie_chars_safe:
  "\<not> key_char d \<and> \<not> content_char d" if "d \<in> {CR, LF, CHR '';'', CHR '' '', DQUOTE, CHR '',''}"
  using that unfolding key_char_def content_char_def token_ranges_def chars_def in_ranges_def
    CR_def LF_def DQUOTE_def
  by (elim insertE emptyE) (simp_all add: less_eq_char_def)

definition cookies_ok :: "connection \<Rightarrow> bool" where
  "cookies_ok c \<longleftrightarrow> list_all (\<lambda>(k, ck). list_all key_char k \<and> list_all content_char (ck_content ck)) (cn_cookies c)"

lemma list_all_update:
  "list_all P m \<Longrightarrow> P (k, v) \<Longrightarrow> list_all P (AList.update k v m)"
  by (induction m) auto

lemma cookies_ok_setCookie [inv_intros]: "cookies_ok c \<Longrightarrow> cookies_ok (snd (setCookie key ck c))"
proof (cases "fst (setCookie key ck c) = Inr ()")
  case True
  then have "list_all key_char key" "list_all content_char (ck_content ck)" by (simp_all add: setCookie_iff)
  moreover assume "cookies_ok c"
  ultimately show ?thesis
    by (auto simp: setCookie_def cookies_ok_def umap_set_def intro!: list_all_update)
next
  case False
  then show "cookies_ok c \<Longrightarrow> ?thesis" by (auto simp: setCookie_def split: if_splits)
qed

lemma cookies_ok_unset [inv_intros]: "cookies_ok c \<Longrightarrow> cookies_ok (unsetCookie key c)"
  by (auto simp: cookies_ok_def unsetCookie_def umap_erase_def list_all_iff AList.delete_eq)

section \<open>Flushing\<close>

text \<open>What an application does to its response: write to the stream and flush.\<close>

datatype response_op = Write string | Flush

fun run_op :: "response_op \<Rightarrow> connection \<Rightarrow> connection" where
  "run_op (Write s) c = writeStream s c"
| "run_op Flush c = flushResponse c"

fun written :: "response_op list \<Rightarrow> string" where
  "written [] = []"
| "written (Write s # ops) = s @ written ops"
| "written (Flush # ops) = written ops"

abbreviation sent_bodies :: "connection \<Rightarrow> string" where
  "sent_bodies c \<equiv> concat (map fc_body (cn_flushed c))"

abbreviation pending :: "connection \<Rightarrow> string" where
  "pending c \<equiv> cn_bodyString c @ cn_responseStream c"

lemma flushResponse_simps:
  "cn_bodyString (flushResponse c) = []" "cn_responseStream (flushResponse c) = []"
  "cn_isFlushed (flushResponse c)" "cn_responseStatus (flushResponse c) = cn_responseStatus c"
  "cn_flushed (flushResponse c) = cn_flushed c @
     [\<lparr>fc_status = cn_responseStatus c, fc_headers = getHeaders True c, fc_body = pending c,
       fc_flushedBefore = cn_isFlushed c\<rparr>]"
  by (simp_all add: flushResponse_def getResponseBody_def mergeStream_def clearStream_def
      setResponseBody_def Let_def)

lemma writes_delivered:
  "sent_bodies (fold run_op ops c) @ pending (fold run_op ops c) = sent_bodies c @ pending c @ written ops"
proof (induction ops arbitrary: c)
  case (Cons p ops)
  have "sent_bodies (run_op p c) @ pending (run_op p c) = sent_bodies c @ pending c @ written [p]"
    by (cases p) (simp_all add: flushResponse_simps writeStream_def)
  with Cons.IH [of "run_op p c"] show ?case by (cases p) (simp_all flip: append_assoc)
qed simp

definition flags_ok :: "connection \<Rightarrow> bool" where
  "flags_ok c \<longleftrightarrow> (cn_isFlushed c \<longleftrightarrow> cn_flushed c \<noteq> [])
     \<and> (\<forall>i < length (cn_flushed c). fc_flushedBefore (cn_flushed c ! i) = (0 < i))"

lemma flags_ok_op: "flags_ok c \<Longrightarrow> flags_ok (run_op p c)"
  by (cases p) (auto simp: flags_ok_def flushResponse_simps writeStream_def nth_append less_Suc_eq)

lemma flags_ok_run: "flags_ok c \<Longrightarrow> flags_ok (fold run_op ops c)"
  by (induction ops arbitrary: c) (simp_all add: flags_ok_op)

text \<open>The raw HTTP text of all flushes: one header block, then the bodies.\<close>

lemma full_http_rest:
  "(\<And>f. f \<in> set fs \<Longrightarrow> fc_flushedBefore f) \<Longrightarrow> concat (map getFullHttp fs) = concat (map fc_body fs)"
  by (induction fs) (simp_all add: getFullHttp_def)

lemma full_http_all:
  assumes "flags_ok c" and "cn_flushed c = f # fs"
  shows "concat (map getFullHttp (cn_flushed c)) =
    concat (map (\<lambda>(k, v). k @ '': '' @ v @ CRLF) (fc_headers f)) @ CRLF @ sent_bodies c"
proof -
  have "fc_flushedBefore g" if "g \<in> set fs" for g
    using that assms by (auto simp: flags_ok_def in_set_conv_nth)
  moreover have "\<not> fc_flushedBefore f" using assms by (auto simp: flags_ok_def)
  ultimately show ?thesis by (simp add: assms(2) full_http_rest) (simp add: getFullHttp_def)
qed

section \<open>Files\<close>

lemma setHeader_simps [simp]:
  "cn_bodyString (setHeader k v c) = cn_bodyString c" "cn_responseStatus (setHeader k v c) = cn_responseStatus c"
  "cn_request (setHeader k v c) = cn_request c" "cn_session (setHeader k v c) = cn_session c"
  by (simp_all add: setHeader_def Let_def)

lemma disposition_simps [simp]:
  "cn_responseStatus (disposition b f c) = cn_responseStatus c"
  "cn_request (disposition b f c) = cn_request c"
  by (simp_all add: disposition_def)

lemma disposition_wf: "umap_wf (cn_headers c) \<Longrightarrow> umap_wf (cn_headers (disposition b f c))"
  by (simp add: disposition_def headers_wf)

lemma header_values_body [simp]:
  "header_values (c\<lparr>cn_bodyString := s\<rparr>) k = header_values c k"
  "header_values (clearStream c) k = header_values c k"
  by (simp_all add: header_values_def getHeaders_def clearStream_def)

lemma lower_names [simp]:
  "toLowercase ''content-length'' = ''content-length''" "toLowercase ''last-modified'' = ''last-modified''"
  "toLowercase ''content-type'' = ''content-type''" "toLowercase ''content-disposition'' = ''content-disposition''"
  by code_simp+

lemma sendFile_content:
  assumes "os_read os path = Some content" and "umap_wf (cn_headers c)"
    and "\<not> check \<or> ifModifiedSince c < (case os_mtime os path of Some t \<Rightarrow> t | None \<Rightarrow> 0)"
  shows "\<exists>c'. sendFile os path ct fd fn check c = (Inr (), c')
    \<and> cn_responseStatus c' = cn_responseStatus c
    \<and> fst (getResponseBody c') = content @ [CHR 0x00]
    \<and> header_values c' ''content-length'' = [dec (length content)]
    \<and> (ct \<noteq> [] \<longrightarrow> header_values c' ''content-type'' = [ct])
    \<and> (ct = [] \<longrightarrow> header_values c' ''content-type'' = [contentTypeByExtension (getFileExtension path)])"
proof -
  let ?lm = "case os_mtime os path of Some t \<Rightarrow> t | None \<Rightarrow> 0"
  define c1 where "c1 = setHeader ''content-type''
    (if ct \<noteq> [] then ct else contentTypeByExtension (getFileExtension path)) c"
  define c2 where "c2 = disposition fd fn c1"
  define c3 where "c3 = setHeader ''content-length'' (dec (length content)) c2"
  define c4 where "c4 = (if 0 < ?lm then (case makeHttpTime ?lm of
    Inr t \<Rightarrow> setHeader ''last-modified'' t c3 | Inl _ \<Rightarrow> c3) else c3)"
  have res: "sendFile os path ct fd fn check c = (Inr (), clearStream (c4\<lparr>cn_bodyString := content @ [CHR 0x00]\<rparr>))"
    using assms(1,3) unfolding sendFile_def Let_def c4_def c3_def c2_def c1_def
    by (auto simp: if_distrib [of "\<lambda>x. setHeader ''content-type'' x c"] cong: if_cong)
  have wf1: "umap_wf (cn_headers c1)" using assms(2) by (simp add: c1_def headers_wf)
  have wf2: "umap_wf (cn_headers c2)" using wf1 by (simp add: c2_def disposition_wf)
  have wf3: "umap_wf (cn_headers c3)" using wf2 by (simp add: c3_def headers_wf)
  have st: "cn_responseStatus c4 = cn_responseStatus c"
    by (simp add: c4_def c3_def c2_def c1_def split: sum.split)
  have v4: "header_values c4 k = header_values c3 k" if "k \<noteq> ''last-modified''" for k
    using wf3 that by (simp add: c4_def header_values_set split: sum.split)
  have cl: "header_values c3 ''content-length'' = [dec (length content)]"
    using wf2 by (simp add: c3_def header_values_set)
  have "header_values c3 ''content-type'' = header_values c1 ''content-type''"
    using wf1 wf2 by (simp add: c3_def header_values_set) (simp add: c2_def disposition_def header_values_set)
  then have ct: "header_values c3 ''content-type'' =
      [if ct \<noteq> [] then ct else contentTypeByExtension (getFileExtension path)]"
    using assms(2) by (simp add: c1_def header_values_set)
  show ?thesis
    using res st v4 cl ct by (simp add: clearStream_def getResponseBody_def mergeStream_def)
      (simp add: header_values_def getHeaders_def)
qed

lemma sendFile_not_modified:
  assumes "os_read os path = Some content"
    and "(case os_mtime os path of Some t \<Rightarrow> t | None \<Rightarrow> 0) \<le> ifModifiedSince c"
  shows "sendFile os path ct fd fn True c = (Inr (), setResponseBody [] (setStatus 304 c))"
  using assms by (simp add: sendFile_def Let_def)

lemma sendFile_missing:
  "os_read os path = None \<Longrightarrow>
     sendFile os path ct fd fn check c = (Inl (NawaException 1 ''Cannot open file for reading''), c)"
  by (simp add: sendFile_def)

end
