(* ===== verification/Filter_Props.thy ===== *)
theory Filter_Props
  imports Connection_Props
begin

text \<open>
  What \<^verbatim>\<open>Connection::applyFilters\<close> guarantees. \<open>passes\<close> is the policy the filters stand
  for: no block filter and no forward filter applies, and the first authentication filter that
  applies has been satisfied.
\<close>

lemmas filter_splits = bool.splits sum.splits option.splits prod.splits if_splits

lemma apply_block_pass:
  "apply_block flts path c = (Inr False, c') \<Longrightarrow> c' = c \<and> list_all (\<lambda>f. applies f path = Inr False) flts"
  by (induction flts path c rule: apply_block.induct) (auto split: filter_splits)

lemma apply_block_none:
  "list_all (\<lambda>f. applies f path = Inr False) flts \<Longrightarrow> apply_block flts path c = (Inr False, c)"
  by (induction flts path c rule: apply_block.induct) auto

text \<open>The first block filter that applies decides.\<close>

lemma apply_block_first:
  assumes "applies f path = Inr True" and "list_all (\<lambda>f. applies f path = Inr False) pre"
  shows "apply_block (pre @ f # post) path c =
    (Inr True, filter_response (bf_status f) f (setStatus (bf_status f) c))"
  using assms(2) by (induction pre) (simp_all add: assms(1))

lemma apply_forward_pass:
  "apply_forward os flts path c = (Inr False, c') \<Longrightarrow> c' = c \<and> list_all (\<lambda>f. applies f path = Inr False) flts"
  by (induction os flts path c rule: apply_forward.induct) (auto split: filter_splits cxx_error.splits)

section \<open>Authentication\<close>

text \<open>The header carries credentials that the filter's function accepts.\<close>

definition credentials_accepted :: "auth_filter \<Rightarrow> connection \<Rightarrow> bool" where
  "credentials_accepted flt c \<longleftrightarrow>
     (\<exists>user pw f. auth_credentials (Env_get (rq_env (cn_request c)) ''authorization'') = Inr (Some (user, pw))
        \<and> au_authFunction flt = Some f \<and> f user pw)"

definition authenticated :: "nat \<Rightarrow> auth_filter \<Rightarrow> connection \<Rightarrow> 'b any world \<Rightarrow> bool" where
  "authenticated n flt c w \<longleftrightarrow>
     credentials_accepted flt c \<or> au_useSessions flt \<and> Session_isSet w (cn_session c) (auth_key n)"

lemma startSession_request:
  "startSession H p c w = Some (r, c', w') \<Longrightarrow> cn_request c' = cn_request c"
  by (auto simp: startSession_def setCookie_def Let_def split: option.splits prod.splits sum.splits if_splits)

lemma auth_check_accepted:
  assumes "auth_check flt (Env_get (rq_env (cn_request c)) ''authorization'') = Inr (Some user)"
  shows "credentials_accepted flt c"
proof -
  obtain cr where cr: "auth_credentials (Env_get (rq_env (cn_request c)) ''authorization'') = Inr cr"
    and res: "(case (cr, au_authFunction flt) of (Some (u, pw), Some f) \<Rightarrow> (if f u pw then Some u else None)
        | _ \<Rightarrow> None) = Some user"
    using assms unfolding auth_check_def bind_result_Inr_iff by auto
  from res obtain u pw f where "cr = Some (u, pw)" "au_authFunction flt = Some f" "f u pw"
    by (cases cr; cases "au_authFunction flt") (auto split: if_splits)
  with cr show ?thesis by (auto simp: credentials_accepted_def)
qed

lemma apply_credentials_accept:
  assumes "apply_credentials n flt c w = (Inr False, c', w')"
  obtains user where
    "auth_check flt (Env_get (rq_env (cn_request c)) ''authorization'') = Inr (Some user)"
    "c' = c"
    "au_useSessions flt \<Longrightarrow> Session_set (auth_key n) (AnyString user) w (cn_session c) = (Inr (), w')"
proof -
  let ?a = "Env_get (rq_env (cn_request c)) ''authorization''"
  have a: "?a \<noteq> []" using assms by (auto simp: apply_credentials_def)
  obtain q where q: "auth_check flt ?a = Inr q"
    using assms a by (cases "auth_check flt ?a") (auto simp: apply_credentials_def)
  obtain user where u: "q = Some user"
    using assms a q by (cases q) (auto simp: apply_credentials_def)
  obtain r w1 where s: "Session_set (auth_key n) (AnyString user) w (cn_session c) = (r, w1)" by fastforce
  have eq: "apply_credentials n flt c w =
      (if au_useSessions flt
       then (case r of Inl e \<Rightarrow> (Inl e, c, w1) | Inr _ \<Rightarrow> (Inr False, c, w1)) else (Inr False, c, w))"
    unfolding apply_credentials_def Let_def q u by (cases r) (simp_all add: a s split: unit.split)
  show ?thesis
  proof (rule that [of user])
    show "auth_check flt ?a = Inr (Some user)" using q u by simp
    show "c' = c" using assms unfolding eq by (cases r) (simp_all split: if_splits)
    show "Session_set (auth_key n) (AnyString user) w (cn_session c) = (Inr (), w')" if "au_useSessions flt"
      using assms that unfolding eq s by (cases r) simp_all
  qed
qed

lemma apply_credentials_pass:
  "apply_credentials n flt c w = (Inr False, c', w') \<Longrightarrow> credentials_accepted flt c \<and> c' = c"
  by (erule apply_credentials_accept) (simp add: auth_check_accepted)

text \<open>With a session, the user name is stored under the key of the filter.\<close>

lemma apply_credentials_session:
  assumes "apply_credentials n flt c w = (Inr False, c', w')" and "au_useSessions flt"
  shows "\<exists>user. Session_get w' (cn_session c') (auth_key n) = Some (AnyString user)"
proof -
  from assms obtain user where s: "Session_set (auth_key n) (AnyString user) w (cn_session c) = (Inr (), w')"
    "c' = c" by (auto elim: apply_credentials_accept)
  then have e: "established (cn_session c)"
    by (cases "established (cn_session c)") (simp_all add: data_ops_error)
  have "Session_get (snd (Session_set (auth_key n) (AnyString user) w (cn_session c))) (cn_session c) (auth_key n)
      = Some (AnyString user)"
    using e by (simp add: Session_get_set)
  with s show ?thesis by auto
qed

lemma apply_auth_pass:
  assumes "apply_auth H n flts path c w = Some (Inr False, c', w')"
  shows "list_all (\<lambda>f. applies f path = Inr False) flts \<or>
    (\<exists>pre f post. flts = pre @ f # post \<and> list_all (\<lambda>f. applies f path = Inr False) pre
       \<and> applies f path = Inr True \<and> authenticated (n + length pre) f c' w')"
  using assms
proof (induction flts arbitrary: n)
  case Nil
  then show ?case by simp
next
  case (Cons flt flts)
  consider (skip) "applies flt path = Inr False" | (hit) "applies flt path = Inr True"
    using Cons.prems by (cases "applies flt path") (auto split: bool.splits)
  then show ?case
  proof cases
    case skip
    with Cons.prems have "apply_auth H (n + 1) flts path c w = Some (Inr False, c', w')" by simp
    from Cons.IH [OF this] show ?thesis
    proof (elim disjE exE conjE)
      fix pre f post
      assume "flts = pre @ f # post" "list_all (\<lambda>f. applies f path = Inr False) pre"
        "applies f path = Inr True" "authenticated (n + 1 + length pre) f c' w'"
      with skip have "flt # flts = (flt # pre) @ f # post
          \<and> list_all (\<lambda>f. applies f path = Inr False) (flt # pre)
          \<and> applies f path = Inr True \<and> authenticated (n + length (flt # pre)) f c' w'"
        by simp
      then show ?thesis by blast
    qed (use skip in simp)
  next
    case hit
    have "authenticated n flt c' w'"
    proof (cases "au_useSessions flt")
      case True
      with hit Cons.prems obtain c1 w1 where st: "startSession H Cookie_default c w = Some (Inr (), c1, w1)"
        and k: "Session_isSet w1 (cn_session c1) (auth_key n) \<and> c' = c1 \<and> w' = w1
          \<or> apply_credentials n flt c1 w1 = (Inr False, c', w')"
        by (auto split: filter_splits)
      then show ?thesis using True apply_credentials_pass [of n flt c1 w1 c' w'] by (auto simp: authenticated_def)
    next
      case False
      with hit Cons.prems have "apply_credentials n flt c w = (Inr False, c', w')" by simp
      then show ?thesis using apply_credentials_pass [of n flt c w c' w'] by (auto simp: authenticated_def)
    qed
    then have "flt # flts = [] @ flt # flts \<and> list_all (\<lambda>f. applies f path = Inr False) []
        \<and> applies flt path = Inr True \<and> authenticated (n + length []) flt c' w'"
      using hit by simp
    then show ?thesis by blast
  qed
qed

section \<open>The policy\<close>

definition auth_satisfied :: "auth_filter list \<Rightarrow> string list \<Rightarrow> connection \<Rightarrow> 'b any world \<Rightarrow> bool" where
  "auth_satisfied flts path c w \<longleftrightarrow>
     list_all (\<lambda>f. applies f path = Inr False) flts \<or>
     (\<exists>pre f post. flts = pre @ f # post \<and> list_all (\<lambda>f. applies f path = Inr False) pre
        \<and> applies f path = Inr True \<and> authenticated (length pre) f c w)"

lemma applyFilters_pass:
  assumes "applyFilters H os flts c w = Some (Inr False, c', w')" and "fl_filtersEnabled flts"
  shows "list_all (\<lambda>f. applies f (getRequestPath (rq_env (cn_request c))) = Inr False) (fl_blockFilters flts)"
    and "auth_satisfied (fl_authFilters flts) (getRequestPath (rq_env (cn_request c))) c' w'"
    and "list_all (\<lambda>f. applies f (getRequestPath (rq_env (cn_request c))) = Inr False) (fl_forwardFilters flts)"
proof -
  let ?path = "getRequestPath (rq_env (cn_request c))"
  obtain r c1 where b: "apply_block (fl_blockFilters flts) ?path c = (r, c1)" by fastforce
  with assms have r: "r = Inr False"
    by (auto simp: applyFilters_def Let_def split: filter_splits)
  note b' = apply_block_pass [OF b [unfolded r]]
  from assms b r b' obtain c2 where a: "apply_auth H 0 (fl_authFilters flts) ?path c w = Some (Inr False, c2, w')"
    and f: "apply_forward os (fl_forwardFilters flts) ?path c2 = (Inr False, c')"
    by (auto simp: applyFilters_def Let_def split: filter_splits)
  note f' = apply_forward_pass [OF f]
  show "list_all (\<lambda>f. applies f ?path = Inr False) (fl_blockFilters flts)" using b' by simp
  show "auth_satisfied (fl_authFilters flts) ?path c' w'"
    using apply_auth_pass [OF a] f' by (simp add: auth_satisfied_def)
  show "list_all (\<lambda>f. applies f ?path = Inr False) (fl_forwardFilters flts)" using f' by simp
qed

lemma applyFilters_blocked:
  assumes "fl_filtersEnabled flts" and "fl_blockFilters flts = pre @ f # post"
    and "list_all (\<lambda>f. applies f (getRequestPath (rq_env (cn_request c))) = Inr False) pre"
    and "applies f (getRequestPath (rq_env (cn_request c))) = Inr True"
  shows "applyFilters H os flts c w =
    Some (Inr True, filter_response (bf_status f) f (setStatus (bf_status f) c), w)"
  using assms apply_block_first [OF assms(4,3), of post c] by (simp add: applyFilters_def Let_def)

text \<open>The \<^verbatim>\<open>Basic\<close> scheme, followed: the header of RFC 7617 is decoded to the user and the
  password, if neither is empty or contains a colon.\<close>

lemma no_space_encoded: "CHR '' '' \<notin> set (base64Encode s 0 [])"
proof
  assume "CHR '' '' \<in> set (base64Encode s 0 [])"
  then have "CHR '' '' \<in> set (strip (base64Encode s 0 []))" by (simp only: base64Encode_no_ws)
  then show False by (simp add: is_whitespace_def)
qed

lemma auth_credentials_encoded:
  assumes "s \<noteq> []"
  shows "auth_credentials (''Basic '' @ base64Encode s 0 []) =
    Inr (case splitString s (CHR '':'') True of [user, pw] \<Rightarrow> Some (user, pw) | _ \<Rightarrow> None)"
proof -
  let ?b = "base64Encode s 0 []"
  have ne: "?b \<noteq> []" using isBase64_encoded [of s "[]" False] assms
    by (auto simp: isBase64_def regex_match_def isBase64_rx_def rep_rounds_def)
  have tok: "splitString ?b (CHR '' '') True = [?b]" by (rule splitString_token [OF no_space_encoded ne])
  have "splitString (''Basic'' @ CHR '' '' # ?b) (CHR '' '') True = [''Basic'', ?b]"
    by (subst splitString_step) (simp_all only: tok, simp_all)
  then have sp: "splitString (''Basic '' @ ?b) (CHR '' '') True = [''Basic'', ?b]" by simp
  have "base64Decode ?b = s" by (simp add: base64_roundtrip blank_break_def)
  then show ?thesis unfolding auth_credentials_def sp Let_def
    by (simp add: vec_at_def length_Suc_conv numeral_2_eq_2 split: list.split)
qed

lemma auth_credentials_basic:
  assumes "user \<noteq> []" and "pw \<noteq> []" and "CHR '':'' \<notin> set user" and "CHR '':'' \<notin> set pw"
  shows "auth_credentials (''Basic '' @ base64Encode (user @ '':'' @ pw) 0 []) = Inr (Some (user, pw))"
proof -
  have "splitString (user @ '':'' @ pw) (CHR '':'') True = [user, pw]"
    using assms by (simp add: splitString_token)
  then show ?thesis using auth_credentials_encoded [of "user @ '':'' @ pw"] by simp
qed

text \<open>
  Which headers carry credentials: those of exactly two words, whatever the first of them is, and longer
  ones that begin with \<^verbatim>\<open>Basic\<close>. So the credentials of any other scheme are taken for those of \<^verbatim>\<open>Basic\<close>.
\<close>

lemma auth_credentials_iff:
  "auth_credentials h = Inr (Some (user, pw)) \<longleftrightarrow>
     (\<exists>scheme b rest. splitString h (CHR '' '') True = scheme # b # rest \<and> (rest = [] \<or> scheme = ''Basic'')
        \<and> splitString (base64Decode b) (CHR '':'') True = [user, pw])"
proof -
  consider (none) "splitString h (CHR '' '') True = []" | (one) a where "splitString h (CHR '' '') True = [a]"
    | (more) a b rest where "splitString h (CHR '' '') True = a # b # rest"
    by (metis list.exhaust)
  then show ?thesis
  proof cases
    case (more a b rest)
    have two: "length xs = 2 \<longleftrightarrow> (\<exists>x y. xs = [x, y])" for xs :: "string list"
      by (auto simp: numeral_2_eq_2 length_Suc_conv)
    show ?thesis
      by (cases "rest = []"; cases "a = ''Basic''") (auto simp: auth_credentials_def more vec_at_def Let_def two)
  qed (auto simp: auth_credentials_def vec_at_def)
qed

lemma auth_credentials_any_scheme:
  assumes "scheme \<noteq> []" and "CHR '' '' \<notin> set scheme"
    and "user \<noteq> []" and "pw \<noteq> []" and "CHR '':'' \<notin> set user" and "CHR '':'' \<notin> set pw"
  shows "auth_credentials (scheme @ '' '' @ base64Encode (user @ '':'' @ pw) 0 []) = Inr (Some (user, pw))"
proof -
  let ?b = "base64Encode (user @ '':'' @ pw) 0 []"
  have ne: "?b \<noteq> []" using isBase64_encoded [of "user @ '':'' @ pw" "[]" False]
    by (auto simp: isBase64_def regex_match_def isBase64_rx_def rep_rounds_def)
  have "splitString ?b (CHR '' '') True = [?b]" by (rule splitString_token [OF no_space_encoded ne])
  then have "splitString (scheme @ CHR '' '' # ?b) (CHR '' '') True = [scheme, ?b]"
    using assms(1,2) by (subst splitString_step) simp_all
  moreover have "base64Decode ?b = user @ '':'' @ pw" by (simp add: base64_roundtrip blank_break_def)
  moreover have "splitString (user @ '':'' @ pw) (CHR '':'') True = [user, pw]"
    using assms by (simp add: splitString_token)
  ultimately show ?thesis unfolding auth_credentials_iff by simp
qed

text \<open>A header of one word other than \<^verbatim>\<open>Basic\<close> is turned down; \<^verbatim>\<open>Basic\<close> alone, or a header of
  spaces, makes \<^verbatim>\<open>at\<close> throw.\<close>

lemma auth_credentials_throws:
  "auth_credentials ''Basic'' = Inl OutOfRange" "auth_credentials '' '' = Inl OutOfRange"
  by (simp_all add: auth_credentials_def splitString_token splitString.simps [of "'' ''"] vec_at_def)

text \<open>
  A header that is just the word \<^verbatim>\<open>Basic\<close>, or only white space, is not answered with a 403 page: the
  access beyond the parts of the header throws \<^verbatim>\<open>out_of_range\<close> for every filter. A password with a
  colon is turned down although the function would accept it.
\<close>

lemma malformed_credentials:
  "auth_check flt ''Basic'' = Inl OutOfRange" "auth_check flt '' '' = Inl OutOfRange"
  "auth_check flt (''Basic '' @ base64Encode ''a:b:c'' 0 []) = Inr None"
proof -
  have "splitString ''a:b:c'' (CHR '':'') True = [''a'', ''b'', ''c'']"
    using splitString_step [of "CHR '':''" "''a''" "''b:c''" True]
      splitString_step [of "CHR '':''" "''b''" "''c''" True] splitString_token [of "CHR '':''" "''c''" True]
    by simp
  then show "auth_check flt ''Basic'' = Inl OutOfRange" "auth_check flt '' '' = Inl OutOfRange"
    "auth_check flt (''Basic '' @ base64Encode ''a:b:c'' 0 []) = Inr None"
    using auth_credentials_encoded [of "''a:b:c''"] by (simp_all add: auth_check_def auth_credentials_throws)
qed

end
