(* ===== verification/Mime.thy ===== *)
theory Mime
  imports Request
begin

text \<open>
  MIME multipart payloads (\<^verbatim>\<open>src/util/MimeMultipart.cpp\<close>). \<^verbatim>\<open>parse\<close> appends the parts it
  reads to the object, also those it read before it throws. The reference \<open>mime_text\<close> is the
  text of a payload; parsing it gives the parts back, with the headers that
  \<^verbatim>\<open>parseHeaders\<close> reads from each header section, except that a content of exactly one
  character is dropped.
\<close>

record mime_part =
  pt_partName :: string
  pt_filename :: string
  pt_contentType :: string
  pt_headers :: "(string, string) umap"
  pt_content :: string

record mime =
  mm_contentType :: string
  mm_parts :: "mime_part list"

definition Part_default :: mime_part where
  "Part_default = \<lparr>pt_partName = [], pt_filename = [], pt_contentType = [], pt_headers = [], pt_content = []\<rparr>"

definition MimeMultipart_default :: mime where
  "MimeMultipart_default = \<lparr>mm_contentType = [], mm_parts = []\<rparr>"

section \<open>The regular expressions\<close>

definition findBoundary :: rx where
  "findBoundary =
     RSeq (RStr ''boundary='') (RSeq (ROpt (RChr DQUOTE))
       (RSeq (RGroup 1 (RPlus (RSet False
                ([(CHR ''A'', CHR ''Z''), (CHR ''a'', CHR ''z''), (CHR ''0'', CHR ''9'')]
                 @ chars ([CHR 0x27] @ ''()+_,-./:=? '')))))
             (ROpt (RChr DQUOTE))))"

definition matchPartAndFileName :: rx where
  "matchPartAndFileName =
     RSeq (RGroup 1 (RAlt (RChr (CHR '';'')) (RChr (CHR '' ''))))
       (RSeq (RStr ''name='') (RSeq (ROpt (RChr DQUOTE))
          (RSeq (RGroup 2 (RPlus (RSet True [(DQUOTE, DQUOTE)]))) (RSeq (ROpt (RChr DQUOTE))
             (ROpt (RGroup 3 (RSeq (RChr (CHR '';'')) (RSeq (ROpt (RChr (CHR '' '')))
                (RSeq (RStr ''filename='') (RSeq (ROpt (RChr DQUOTE))
                   (RSeq (RGroup 4 (RPlus (RSet True [(DQUOTE, DQUOTE)]))) (ROpt (RChr DQUOTE)))))))))))))"

definition mime_boundary :: "string \<Rightarrow> string option" where
  "mime_boundary contentType =
     (case rx_search findBoundary contentType of
        None \<Rightarrow> None
      | Some (pre, m, cs, suf) \<Rightarrow> Some (''--'' @ cap cs 1))"

definition extractPartAndFileName :: "string \<Rightarrow> string \<times> string" where
  "extractPartAndFileName contentDisposition =
     (case rx_search matchPartAndFileName contentDisposition of
        None \<Rightarrow> ([], [])
      | Some (pre, m, cs, suf) \<Rightarrow> (cap cs 2, cap cs 4))"

section \<open>Parsing\<close>

definition malformed :: "'a result" where
  "malformed = Inl (NawaException 2 ''Malformed MIME payload.'')"

text \<open>A part, from its header section and its content.\<close>

definition make_part :: "boost \<Rightarrow> string \<Rightarrow> string \<Rightarrow> mime_part" where
  "make_part B rawHeaders content =
     (let headers = parseHeaders B rawHeaders;
          ct = (case umap_get headers ''content-type'' of Some v \<Rightarrow> v | None \<Rightarrow> []);
          (pn, fn) = (case umap_get headers ''content-disposition'' of
                        Some cd \<Rightarrow> extractPartAndFileName cd | None \<Rightarrow> ([], []))
      in \<lparr>pt_partName = pn, pt_filename = fn, pt_contentType = ct, pt_headers = headers,
          pt_content = content\<rparr>)"

text \<open>The size of the header section; the next boundary bounds it.\<close>

definition headers_end :: "nat \<Rightarrow> string \<Rightarrow> nat" where
  "headers_end nextBoundaryPos content =
     (case find_str (CRLF @ CRLF) content of
        None \<Rightarrow> nextBoundaryPos
      | Some p \<Rightarrow> (if p > nextBoundaryPos then nextBoundaryPos else p))"

definition part_content :: "nat \<Rightarrow> nat \<Rightarrow> string \<Rightarrow> string" where
  "part_content headersEndPos nextBoundaryPos content =
     (if nextBoundaryPos > headersEndPos + 7
      then take (nextBoundaryPos - 2 - (headersEndPos + 4)) (drop (headersEndPos + 4) content) else [])"

function mime_loop :: "boost \<Rightarrow> string \<Rightarrow> string \<Rightarrow> mime_part list \<Rightarrow> unit result \<times> mime_part list" where
  "mime_loop B boundary content parts =
     (if content = [] then (Inr (), parts)
      else if boundary = [] \<or> length content < length boundary + 2
              \<or> take (length boundary) content \<noteq> boundary then (malformed, parts)
      else
        let content = drop (length boundary) content in
        if take 2 content = ''--'' then (Inr (), parts)
        else if length content < length boundary + 6 \<or> take 2 content \<noteq> CRLF then (malformed, parts)
        else
          let content = drop 2 content in
          case find_str boundary content of
            None \<Rightarrow> (malformed, parts)
          | Some nextBoundaryPos \<Rightarrow>
              let headersEndPos = headers_end nextBoundaryPos content in
              if headersEndPos < 4 then (malformed, parts)
              else mime_loop B boundary (drop nextBoundaryPos content)
                     (parts @ [make_part B (take headersEndPos content)
                                 (part_content headersEndPos nextBoundaryPos content)]))"
  by pat_completeness auto
termination
  by (relation "measure (\<lambda>(B, boundary, content, parts). length content)") auto

declare mime_loop.simps [simp del]

text \<open>The boundary starts with two hyphens, so the guard against an empty one never matters.\<close>

definition mime_parse :: "boost \<Rightarrow> string \<Rightarrow> string \<Rightarrow> mime \<Rightarrow> unit result \<times> mime" where
  "mime_parse B contentType content m =
     (case mime_boundary contentType of
        None \<Rightarrow> (Inl (NawaException 1 ''Could not find boundary in content type.''), m)
      | Some boundary \<Rightarrow>
          (let (r, parts) = mime_loop B boundary content (mm_parts m);
               m = m\<lparr>mm_parts := parts\<rparr>
           in case r of
                Inl e \<Rightarrow> (Inl e, m)
              | Inr _ \<Rightarrow> (Inr (), m\<lparr>mm_contentType := substr_to contentType (find_char (CHR '';'') contentType)\<rparr>)))"

definition MimeMultipart_new :: "boost \<Rightarrow> string \<Rightarrow> string \<Rightarrow> mime result" where
  "MimeMultipart_new B contentType content =
     (let (r, m) = mime_parse B contentType content MimeMultipart_default in
      bind_result r (\<lambda>_. Inr m))"

definition mime_clear :: "mime \<Rightarrow> mime" where
  "mime_clear m = m\<lparr>mm_contentType := [], mm_parts := []\<rparr>"

section \<open>What is read is what was written\<close>

definition mime_section :: "string \<times> string \<Rightarrow> string" where
  "mime_section hc = fst hc @ CRLF @ CRLF @ snd hc @ CRLF"

definition mime_text :: "string \<Rightarrow> (string \<times> string) list \<Rightarrow> string" where
  "mime_text boundary hcs =
     concat (map (\<lambda>hc. boundary @ CRLF @ mime_section hc) hcs) @ boundary @ ''--'' @ CRLF"

text \<open>The header section is not empty and ends at the first empty line; the boundary does not
  occur in the section. Both conditions are decided by searching.\<close>

definition mime_section_ok :: "string \<Rightarrow> string \<times> string \<Rightarrow> bool" where
  "mime_section_ok boundary hc \<longleftrightarrow>
     4 \<le> length (fst hc)
     \<and> find_str (CRLF @ CRLF) (fst hc @ CRLF @ CRLF) = Some (length (fst hc))
     \<and> find_str boundary (mime_section hc @ boundary) = Some (length (mime_section hc))"

lemma is_prefix_short: "length key \<le> length u \<Longrightarrow> is_prefix key (u @ t) = is_prefix key u"
  by (induction key u rule: is_prefix.induct) auto

lemma find_str_extend:
  assumes "find_str key (s @ key) = Some (length s)"
  shows "find_str key (s @ key @ t) = Some (length s)"
  using assms
proof (induction s)
  case Nil
  show ?case using is_prefix_append [of key t] by (cases "key @ t") auto
next
  case (Cons c s)
  have np: "\<not> is_prefix key (c # s @ key)" using Cons.prems by auto
  have "length key \<le> length (c # s @ key)" by simp
  with np have "\<not> is_prefix key (c # s @ key @ t)"
    using is_prefix_short [of key "c # s @ key" t] by simp
  moreover have "find_str key (s @ key) = Some (length s)" using Cons.prems np by (auto split: if_splits)
  ultimately show ?case using Cons.IH by simp
qed

lemma mime_loop_section:
  assumes ok: "mime_section_ok boundary (h, c)" and b: "boundary \<noteq> []"
    and tail: "length boundary + 2 \<le> length (boundary @ rest)"
  shows "mime_loop B boundary (boundary @ CRLF @ mime_section (h, c) @ boundary @ rest) parts =
    mime_loop B boundary (boundary @ rest)
      (parts @ [make_part B h (if length c = 1 then [] else c)])"
proof -
  let ?s = "mime_section (h, c)"
  let ?content = "?s @ boundary @ rest"
  have nb: "find_str boundary ?content = Some (length ?s)"
    by (rule find_str_extend) (use ok in \<open>simp add: mime_section_ok_def\<close>)
  have "find_str (CRLF @ CRLF) (h @ (CRLF @ CRLF) @ c @ CRLF @ boundary @ rest) = Some (length h)"
    by (rule find_str_extend) (use ok in \<open>simp add: mime_section_ok_def\<close>)
  then have he: "headers_end (length ?s) ?content = length h"
    by (simp add: headers_end_def mime_section_def CRLF_def)
  have len: "length ?s = length h + 6 + length c" by (simp add: mime_section_def CRLF_def)
  have "part_content (length h) (length ?s) ?content = (if length c = 1 then [] else c)"
    by (cases "length c"; cases "length c = 1") (auto simp: part_content_def len mime_section_def CRLF_def)
  moreover have "take (length h) ?content = h" by (simp add: mime_section_def)
  moreover have "take 2 (CRLF @ ?content) = CRLF" "drop 2 (CRLF @ ?content) = ?content" "CRLF \<noteq> ''--''"
    by (simp_all add: CRLF_def CR_def)
  moreover have "4 \<le> length h" using ok by (simp add: mime_section_ok_def)
  ultimately show ?thesis
    using b tail nb he len
    by (subst mime_loop.simps) (simp add: Let_def CRLF_def CR_def [THEN arg_cong, of "\<lambda>c. c = CHR ''-''"])
qed

lemma mime_loop_text:
  assumes "boundary \<noteq> []" and "list_all (mime_section_ok boundary) hcs"
  shows "mime_loop B boundary (mime_text boundary hcs) parts =
    (Inr (), parts @ map (\<lambda>(h, c). make_part B h (if length c = 1 then [] else c)) hcs)"
  using assms(2)
proof (induction hcs arbitrary: parts)
  case Nil
  show ?case using assms(1) by (subst mime_loop.simps) (simp add: mime_text_def CRLF_def)
next
  case (Cons hc hcs)
  obtain h c where hc: "hc = (h, c)" by (cases hc)
  obtain rest where rest: "mime_text boundary hcs = boundary @ rest" "2 \<le> length rest"
    by (cases hcs) (auto simp: mime_text_def CRLF_def)
  have "mime_text boundary (hc # hcs) = boundary @ CRLF @ mime_section (h, c) @ mime_text boundary hcs"
    by (simp add: mime_text_def hc)
  with mime_loop_section [of boundary h c rest B parts] Cons.IH Cons.prems assms(1) rest
  show ?case by (simp add: hc)
qed

lemma mime_parse_text:
  assumes "mime_boundary contentType = Some boundary" and "list_all (mime_section_ok boundary) hcs"
  shows "mime_parse B contentType (mime_text boundary hcs) m =
    (Inr (), \<lparr>mm_contentType = substr_to contentType (find_char (CHR '';'') contentType),
       mm_parts = mm_parts m @ map (\<lambda>(h, c). make_part B h (if length c = 1 then [] else c)) hcs\<rparr>)"
proof -
  have "boundary \<noteq> []" using assms(1) by (auto simp: mime_boundary_def split: option.splits)
  from mime_loop_text [OF this assms(2), of B "mm_parts m"] assms(1) show ?thesis
    by (simp add: mime_parse_def)
qed

end
