(* ===== verification/Request_Handler.thy ===== *)
theory Request_Handler
  imports Filter_Props Mime
begin

text \<open>
  Request handlers (\<^verbatim>\<open>src/RequestHandler/\<close>): the configuration they hold, the dispatch of a
  request to the filters and the application, the environment and the variables built from an
  HTTP request (cpp-netlib) or from FastCGI parameters (fastcgi++-lite), the consumption of POST
  data, and the life cycle of the servers. The network libraries are not part of the repository:
  a request is a record of what they hand over, and what is written back is the trace of
  \<^verbatim>\<open>flushed\<close> containers of the connection. The application is a function; it may throw.
\<close>

type_synonym 'b app = "connection \<Rightarrow> 'b any world \<Rightarrow> (unit result \<times> connection \<times> 'b any world) option"

section \<open>The handler's configuration\<close>

text \<open>The pointers may be null (\<open>None\<close>).\<close>

record 'b request_handler =
  rh_handleRequestFunction :: "'b app option"
  rh_accessFilters :: "filter_list option"
  rh_config :: "config option"

definition RequestHandler_default :: "'b request_handler" where
  "RequestHandler_default = \<lparr>rh_handleRequestFunction = None, rh_accessFilters = None, rh_config = None\<rparr>"

definition setAppRequestHandler :: "'b app option \<Rightarrow> 'b request_handler \<Rightarrow> 'b request_handler" where
  "setAppRequestHandler f rh = rh\<lparr>rh_handleRequestFunction := f\<rparr>"

definition setAccessFilters :: "filter_list \<Rightarrow> 'b request_handler \<Rightarrow> 'b request_handler" where
  "setAccessFilters fl rh = rh\<lparr>rh_accessFilters := Some fl\<rparr>"

definition setConfig :: "config \<Rightarrow> 'b request_handler \<Rightarrow> 'b request_handler" where
  "setConfig cfg rh = rh\<lparr>rh_config := Some cfg\<rparr>"

definition getConfig :: "'b request_handler \<Rightarrow> config option" where
  "getConfig rh = rh_config rh"

definition reconfigure ::
    "'b app option option \<Rightarrow> filter_list option \<Rightarrow> config option \<Rightarrow> 'b request_handler \<Rightarrow> 'b request_handler" where
  "reconfigure f fl cfg rh =
     (let rh = (case f of Some g \<Rightarrow> rh\<lparr>rh_handleRequestFunction := g\<rparr> | None \<Rightarrow> rh);
          rh = (case fl of Some l \<Rightarrow> rh\<lparr>rh_accessFilters := Some l\<rparr> | None \<Rightarrow> rh)
      in (case cfg of Some c \<Rightarrow> rh\<lparr>rh_config := Some c\<rparr> | None \<Rightarrow> rh))"

definition run_app ::
    "'b request_handler \<Rightarrow> connection \<Rightarrow> 'b any world \<Rightarrow> (unit result \<times> connection \<times> 'b any world) option" where
  "run_app rh c w =
     (case rh_handleRequestFunction rh of
        None \<Rightarrow> Some (Inl Undefined, c, w)
      | Some f \<Rightarrow> f c w)"

definition handleRequest ::
    "(string \<Rightarrow> string) \<Rightarrow> os \<Rightarrow> 'b request_handler \<Rightarrow> connection \<Rightarrow> 'b any world
       \<Rightarrow> (unit result \<times> connection \<times> 'b any world) option" where
  "handleRequest H os rh c w =
     (case rh_accessFilters rh of
        None \<Rightarrow> run_app rh c w
      | Some fl \<Rightarrow>
          (case applyFilters H os fl c w of
             None \<Rightarrow> None
           | Some (Inl e, c, w) \<Rightarrow> Some (Inl e, c, w)
           | Some (Inr True, c, w) \<Rightarrow> Some (Inr (), c, w)
           | Some (Inr False, c, w) \<Rightarrow> run_app rh c w))"

text \<open>\<^verbatim>\<open>Connection connection(init); handleRequest(connection); connection.flushResponse()\<close>. An
  exception leaves the response unflushed.\<close>

definition serve ::
    "(string \<Rightarrow> string) \<Rightarrow> os \<Rightarrow> 'b request_handler \<Rightarrow> request_init \<Rightarrow> config \<Rightarrow> 'b any world
       \<Rightarrow> (unit result \<times> connection \<times> 'b any world) option" where
  "serve H os rh requestInit cfg w =
     (case Connection_new H requestInit cfg w of
        None \<Rightarrow> None
      | Some (Inl e, c, w) \<Rightarrow> Some (Inl e, c, w)
      | Some (Inr _, c, w) \<Rightarrow>
          (case handleRequest H os rh c w of
             None \<Rightarrow> None
           | Some (Inl e, c, w) \<Rightarrow> Some (Inl e, c, w)
           | Some (Inr _, c, w) \<Rightarrow> Some (Inr (), flushResponse c, w)))"

section \<open>HTTP requests\<close>

record http_request =
  hq_source :: string
  hq_source_port :: nat
  hq_destination :: string
  hq_method :: string
  hq_headers :: "(string \<times> string) list"

definition getListenAddr :: "config \<Rightarrow> string" where
  "getListenAddr cfg = (let a = Config_get cfg (''http'', ''listen'') in if a = [] then ''127.0.0.1'' else a)"

definition getListenPort :: "config \<Rightarrow> string" where
  "getListenPort cfg = (let p = Config_get cfg (''http'', ''port'') in if p = [] then ''8080'' else p)"

text \<open>\<^verbatim>\<open>environment[k]\<close> creates a missing entry.\<close>

definition env_touch :: "string \<Rightarrow> env \<Rightarrow> string \<times> env" where
  "env_touch k e = (Env_get e k, umap_insert k [] e)"

definition http_environment :: "config \<Rightarrow> http_request \<Rightarrow> env" where
  "http_environment cfg req =
     (let e = [(''REMOTE_ADDR'', substr_to (hq_source req) (find_char (CHR '':'') (hq_source req))),
               (''REQUEST_URI'', hq_destination req),
               (''REMOTE_PORT'', dec (hq_source_port req)),
               (''REQUEST_METHOD'', hq_method req),
               (''SERVER_ADDR'', getListenAddr cfg),
               (''SERVER_PORT'', getListenPort cfg),
               (''SERVER_SOFTWARE'', ''NAWA Development Web Server'')];
          e = fold (\<lambda>(n, v) e. umap_insert (toLowercase n) v e) (hq_headers req) e;
          (host, e) = env_touch ''host'' e;
          baseUrl = ''http://'' @ host;
          e = umap_set ''BASE_URL'' baseUrl e;
          e = umap_set ''FULL_URL_WITH_QS'' (baseUrl @ hq_destination req) e
      in umap_set ''FULL_URL_WITHOUT_QS''
           (baseUrl @ substr_to (hq_destination req) (find_char (CHR ''?'') (hq_destination req))) e)"

definition http_init :: "boost \<Rightarrow> config \<Rightarrow> http_request \<Rightarrow> request_init result" where
  "http_init B cfg req =
     (let e = http_environment cfg req in
      bind_result (if CHR ''?'' \<in> set (hq_destination req) then splitQueryString (hq_destination req) else Inr [])
        (\<lambda>gets.
          let (ck, e) = env_touch ''cookie'' e in
          Inr (request_init_empty\<lparr>ri_environment := e, ri_getVars := gets, ri_cookieVars := parseCookies B ck\<rparr>)))"

section \<open>POST data of HTTP requests\<close>

datatype RawPostAccess = RawPost_NEVER | RawPost_NONSTANDARD | RawPost_ALWAYS

definition rawPostAccess :: "config \<Rightarrow> RawPostAccess" where
  "rawPostAccess cfg =
     (let s = Config_get cfg (''post'', ''raw_access'') in
      if s = ''never'' then RawPost_NEVER
      else if s = ''always'' then RawPost_ALWAYS else RawPost_NONSTANDARD)"

record post_input =
  pi_requestInit :: request_init
  pi_maxPostSize :: int
  pi_expectedSize :: nat
  pi_postBody :: string
  pi_rawPostAccess :: RawPostAccess

text \<open>A comparison of a \<^verbatim>\<open>size_t\<close> with an \<^verbatim>\<open>ssize_t\<close> converts the latter.\<close>

definition size_greater :: "nat \<Rightarrow> int \<Rightarrow> bool" where
  "size_greater n m \<longleftrightarrow> m mod 2 ^ 64 < int n"

definition is_file_part :: "mime_part \<Rightarrow> bool" where
  "is_file_part p \<longleftrightarrow> pt_filename p \<noteq> []
     \<or> (pt_contentType p \<noteq> [] \<and> take (length ''text/plain'') (pt_contentType p) \<noteq> ''text/plain'')"

definition add_part :: "mime_part \<Rightarrow> request_init \<Rightarrow> request_init" where
  "add_part p ri =
     (if is_file_part p
      then ri\<lparr>ri_postFiles := ummap_insert (pt_partName p)
             \<lparr>file_filename = pt_filename p, file_contentType = pt_contentType p, file_data = pt_content p\<rparr>
             (ri_postFiles ri)\<rparr>
      else ri\<lparr>ri_postVars := ummap_insert (pt_partName p) (pt_content p) (ri_postVars ri)\<rparr>)"

text \<open>The POST variables and files, once the body is complete.\<close>

definition post_init :: "boost \<Rightarrow> post_input \<Rightarrow> request_init result" where
  "post_init B inp =
     (let (ct, e) = env_touch ''content-type'' (ri_environment (pi_requestInit inp));
          ri = (pi_requestInit inp)\<lparr>ri_environment := e\<rparr>;
          postContentType = toLowercase ct;
          ri = (if pi_rawPostAccess inp = RawPost_ALWAYS then ri\<lparr>ri_rawPost := Some (pi_postBody inp)\<rparr> else ri)
      in if postContentType = ''application/x-www-form-urlencoded''
         then bind_result (splitQueryString (pi_postBody inp)) (\<lambda>vars.
                Inr (ri\<lparr>ri_postContentType := postContentType, ri_postVars := vars\<rparr>))
         else if take (length ''multipart/form-data'') postContentType = ''multipart/form-data''
         then (case MimeMultipart_new B ct (pi_postBody inp) of
                 Inr m \<Rightarrow> Inr (fold add_part (mm_parts m) ri)
               | Inl (NawaException _ _) \<Rightarrow> Inr ri
               | Inl err \<Rightarrow> Inl err)
         else if pi_rawPostAccess inp = RawPost_NONSTANDARD
         then Inr (ri\<lparr>ri_rawPost := Some (pi_postBody inp)\<rparr>)
         else Inr ri)"

datatype input_event = Input_eof | Input_data string

datatype input_action = ServerError | ReadMore post_input | Handle "request_init result"

definition input_step :: "boost \<Rightarrow> input_event \<Rightarrow> post_input \<Rightarrow> input_action" where
  "input_step B ev inp =
     (case ev of
        Input_eof \<Rightarrow> ServerError
      | Input_data bytes \<Rightarrow>
          (if size_greater (length (pi_postBody inp) + length bytes) (pi_maxPostSize inp) then ServerError
           else
             let inp = inp\<lparr>pi_postBody := pi_postBody inp @ bytes\<rparr> in
             if length (pi_postBody inp) < pi_expectedSize inp then ReadMore inp
             else Handle (post_init B inp)))"

text \<open>The events of one request; input behind the last one that is needed is not read.\<close>

fun consume :: "boost \<Rightarrow> input_event list \<Rightarrow> post_input \<Rightarrow> input_action" where
  "consume B [] inp = ReadMore inp"
| "consume B (ev # evs) inp =
     (case input_step B ev inp of ReadMore inp' \<Rightarrow> consume B evs inp' | a \<Rightarrow> a)"

text \<open>What \<^verbatim>\<open>HttpHandler\<close> does first with a request: refuse it, read the body, answer it, or nothing
  at all (the exceptions of a bad \<^verbatim>\<open>content-length\<close> or \<^verbatim>\<open>post/max_size\<close> are swallowed). The
  product \<^verbatim>\<open>stol(...) * 1024\<close> has to fit.\<close>

datatype http_action = HttpError | HttpRead post_input | HttpServe request_init | HttpNothing
  | HttpThrow cxx_error

definition http_start :: "boost \<Rightarrow> config \<Rightarrow> http_request \<Rightarrow> http_action" where
  "http_start B cfg req =
     (case http_init B cfg req of
        Inl e \<Rightarrow> HttpThrow e
      | Inr ri \<Rightarrow>
          (if hq_method req = ''POST'' \<and> umap_has (ri_environment ri) ''content-length'' then
             (case stoul 10 (Env_get (ri_environment ri) ''content-length'') of
                Inl _ \<Rightarrow> HttpNothing
              | Inr contentLength \<Rightarrow>
                  (case stol 10 (Config_get cfg (''post'', ''max_size'')) of
                     Inl _ \<Rightarrow> HttpNothing
                   | Inr kb \<Rightarrow>
                       (if kb * 1024 < - (2 ^ 63) \<or> 2 ^ 63 \<le> kb * 1024 then HttpThrow Undefined
                        else if size_greater contentLength (kb * 1024) then HttpError
                        else HttpRead \<lparr>pi_requestInit = ri, pi_maxPostSize = kb * 1024,
                               pi_expectedSize = contentLength, pi_postBody = [],
                               pi_rawPostAccess = rawPostAccess cfg\<rparr>)))
           else HttpServe ri))"

text \<open>The whole exchange: the events of the connection, and what is sent. \<open>None\<close> in the second
  component means that nothing has been sent yet when the input ends.\<close>

datatype http_reply = Reply500 | ReplyFlushed "flush_container list" | NoReply | Escaped cxx_error

definition http_reply_of ::
    "(unit result \<times> connection \<times> 'b any world) option \<Rightarrow> (http_reply \<times> 'b any world) option" where
  "http_reply_of r =
     (case r of
        None \<Rightarrow> None
      | Some (Inl e, c, w) \<Rightarrow> Some (Escaped e, w)
      | Some (Inr _, c, w) \<Rightarrow> Some (ReplyFlushed (cn_flushed c), w))"

definition http_exchange ::
    "(string \<Rightarrow> string) \<Rightarrow> boost \<Rightarrow> os \<Rightarrow> 'b request_handler \<Rightarrow> config \<Rightarrow> http_request \<Rightarrow> input_event list
       \<Rightarrow> 'b any world \<Rightarrow> (http_reply \<times> 'b any world) option" where
  "http_exchange H B os rh cfg req evs w =
     (case http_start B cfg req of
        HttpError \<Rightarrow> Some (Reply500, w)
      | HttpNothing \<Rightarrow> Some (NoReply, w)
      | HttpThrow e \<Rightarrow> Some (Escaped e, w)
      | HttpServe ri \<Rightarrow> http_reply_of (serve H os rh ri cfg w)
      | HttpRead inp \<Rightarrow>
          (case consume B evs inp of
             ServerError \<Rightarrow> Some (Reply500, w)
           | ReadMore _ \<Rightarrow> Some (NoReply, w)
           | Handle (Inl e) \<Rightarrow> Some (Escaped e, w)
           | Handle (Inr ri) \<Rightarrow> http_reply_of (serve H os rh ri cfg w)))"

end
