(* ===== verification/Request_Handler_Props.thy ===== *)
theory Request_Handler_Props
  imports Request_Handler
begin

text \<open>
  What the request handlers guarantee: the server's own variables cannot be overridden by request
  headers, POST bodies are bounded and do not depend on how they arrive in pieces, and the
  application runs only when the filters let the request pass.
\<close>

section \<open>The environment of an HTTP request\<close>

text \<open>The variables set by the server, and the headers under their lower-case names.\<close>

definition server_vars :: "config \<Rightarrow> http_request \<Rightarrow> env" where
  "server_vars cfg req =
     [(''REMOTE_ADDR'', substr_to (hq_source req) (find_char (CHR '':'') (hq_source req))),
      (''REQUEST_URI'', hq_destination req),
      (''REMOTE_PORT'', dec (hq_source_port req)),
      (''REQUEST_METHOD'', hq_method req),
      (''SERVER_ADDR'', getListenAddr cfg),
      (''SERVER_PORT'', getListenPort cfg),
      (''SERVER_SOFTWARE'', ''NAWA Development Web Server'')]"

definition header_vars :: "http_request \<Rightarrow> env" where
  "header_vars req = map (\<lambda>(n, v). (toLowercase n, v)) (hq_headers req)"

definition base_url :: "http_request \<Rightarrow> string" where
  "base_url req = ''http://'' @ (case map_of (header_vars req) ''host'' of Some v \<Rightarrow> v | None \<Rightarrow> [])"

definition url_vars :: "http_request \<Rightarrow> env" where
  "url_vars req =
     [(''BASE_URL'', base_url req), (''FULL_URL_WITH_QS'', base_url req @ hq_destination req),
      (''FULL_URL_WITHOUT_QS'', base_url req @
         substr_to (hq_destination req) (find_char (CHR ''?'') (hq_destination req)))]"

lemma fold_insert_lower:
  "fold (\<lambda>(n, v) e. umap_insert (toLowercase n) v e) hs e =
     fold (\<lambda>(k, v). umap_insert k v) (map (\<lambda>(n, v). (toLowercase n, v)) hs) e"
  by (induction hs arbitrary: e) (auto split: prod.splits)

lemma server_vars_host: "map_of (server_vars cfg req) ''host'' = None"
  by (simp add: server_vars_def)

lemma http_environment_get:
  "umap_get (http_environment cfg req) k =
     (case map_of (url_vars req) k of Some v \<Rightarrow> Some v | None \<Rightarrow>
        (case map_of (server_vars cfg req) k of Some v \<Rightarrow> Some v | None \<Rightarrow>
           (case map_of (header_vars req) k of Some v \<Rightarrow> Some v
            | None \<Rightarrow> if k = ''host'' then Some [] else None)))"
proof -
  define e where "e = fold (\<lambda>(k, v). umap_insert k v) (header_vars req) (server_vars cfg req)"
  have get: "umap_get e k = (case map_of (server_vars cfg req) k of Some v \<Rightarrow> Some v
      | None \<Rightarrow> map_of (header_vars req) k)" for k
    using um.get_add_list [of "header_vars req" "server_vars cfg req" k] by (simp add: e_def umap_get_def)
  have host: "Env_get e ''host'' = (case map_of (header_vars req) ''host'' of Some v \<Rightarrow> v | None \<Rightarrow> [])"
    by (simp add: Env_get_def get server_vars_host)
  have "http_environment cfg req =
      (let e = umap_insert ''host'' [] e; e = umap_set ''BASE_URL'' (base_url req) e;
           e = umap_set ''FULL_URL_WITH_QS'' (base_url req @ hq_destination req) e
       in umap_set ''FULL_URL_WITHOUT_QS'' (base_url req @
            substr_to (hq_destination req) (find_char (CHR ''?'') (hq_destination req))) e)"
    unfolding http_environment_def env_touch_def Let_def fold_insert_lower header_vars_def [symmetric]
      server_vars_def [symmetric] e_def [symmetric] by (simp add: host base_url_def)
  then show ?thesis
    by (auto simp: Let_def um.get_put um.get_add get url_vars_def server_vars_host split: option.splits)
qed

lemma toLowercase_upper: "is_upper c \<Longrightarrow> c \<notin> set (toLowercase s)"
  by (auto simp: toLowercase_def)

lemma server_keys_R: "map_of (server_vars cfg req) k = Some v \<or> map_of (url_vars req) k = Some v \<Longrightarrow> CHR ''R'' \<in> set k"
  by (auto simp: server_vars_def url_vars_def split: if_splits)

lemma lower_not_server:
  "map_of (server_vars cfg req) (toLowercase n) = None" "map_of (url_vars req) (toLowercase n) = None"
proof -
  have "is_upper (CHR ''R'')" by (simp add: is_upper_def less_eq_char_def)
  then have R: "CHR ''R'' \<notin> set (toLowercase n)" by (rule toLowercase_upper)
  have "map_of (server_vars cfg req) (toLowercase n) \<noteq> Some v" "map_of (url_vars req) (toLowercase n) \<noteq> Some v" for v
    using R server_keys_R [of cfg req "toLowercase n" v] by blast+
  then show "map_of (server_vars cfg req) (toLowercase n) = None" "map_of (url_vars req) (toLowercase n) = None"
    by blast+
qed

text \<open>A request header is found under its lower-case name; of several the first counts.\<close>

lemma http_environment_header:
  "Env_get (http_environment cfg req) (toLowercase n) =
     (case map_of (header_vars req) (toLowercase n) of Some v \<Rightarrow> v | None \<Rightarrow> [])"
  by (simp add: Env_get_def http_environment_get lower_not_server split: option.split)

lemma http_environment_server:
  "k \<in> set (map fst (server_vars cfg req)) \<Longrightarrow> umap_get (http_environment cfg req) k = map_of (server_vars cfg req) k"
  by (auto simp: http_environment_get url_vars_def server_vars_def)

section \<open>The body of a POST request\<close>

text \<open>A piece is accepted when it fits the limit (as the code compares them).\<close>

lemma input_step_data:
  "input_step B (Input_data x) inp =
     (if size_greater (length (pi_postBody inp) + length x) (pi_maxPostSize inp) then ServerError
      else if length (pi_postBody inp) + length x < pi_expectedSize inp
      then ReadMore (inp\<lparr>pi_postBody := pi_postBody inp @ x\<rparr>)
      else Handle (post_init B (inp\<lparr>pi_postBody := pi_postBody inp @ x\<rparr>)))"
  by (simp add: input_step_def Let_def)

lemma input_step_eof [simp]: "input_step B Input_eof inp = ServerError"
  by (simp add: input_step_def)

fun piece :: "input_event \<Rightarrow> string" where
  "piece Input_eof = []"
| "piece (Input_data x) = x"

text \<open>A handled request has its whole body, within the limit; it is the input so far, in order.\<close>

lemma consume_handle:
  assumes "consume B evs inp = Handle r"
  shows "\<exists>used rest. evs = map Input_data used @ rest \<and>
    r = post_init B (inp\<lparr>pi_postBody := pi_postBody inp @ concat used\<rparr>)
    \<and> pi_expectedSize inp \<le> length (pi_postBody inp @ concat used)
    \<and> \<not> size_greater (length (pi_postBody inp @ concat used)) (pi_maxPostSize inp)"
  using assms
proof (induction evs arbitrary: inp)
  case (Cons ev evs)
  show ?case
  proof (cases ev)
    case (Input_data x)
    let ?inp = "inp\<lparr>pi_postBody := pi_postBody inp @ x\<rparr>"
    have ok: "\<not> size_greater (length (pi_postBody inp) + length x) (pi_maxPostSize inp)"
      using Cons.prems by (auto simp: Input_data input_step_data)
    show ?thesis
    proof (cases "length (pi_postBody inp) + length x < pi_expectedSize inp")
      case True
      with ok Cons.prems have "consume B evs ?inp = Handle r" by (simp add: Input_data input_step_data)
      from Cons.IH [OF this] obtain used rest where u: "evs = map Input_data used @ rest"
        "r = post_init B (?inp\<lparr>pi_postBody := pi_postBody ?inp @ concat used\<rparr>)"
        "pi_expectedSize ?inp \<le> length (pi_postBody ?inp @ concat used)"
        "\<not> size_greater (length (pi_postBody ?inp @ concat used)) (pi_maxPostSize ?inp)"
        by blast
      then show ?thesis by (intro exI [of _ "x # used"] exI [of _ rest]) (simp add: Input_data)
    next
      case False
      with ok Cons.prems show ?thesis
        by (intro exI [of _ "[x]"] exI [of _ evs]) (simp add: Input_data input_step_data)
    qed
  qed (use Cons.prems in simp)
qed simp

text \<open>Every sequence of pieces of a body of the announced length gives the same request.\<close>

lemma consume_pieces:
  assumes "length (pi_postBody inp @ concat xs) = pi_expectedSize inp" and "xs \<noteq> []"
    and "\<forall>x \<in> set xs. x \<noteq> []"
    and "\<not> size_greater (pi_expectedSize inp) (pi_maxPostSize inp)"
  shows "consume B (map Input_data xs @ rest) inp =
    Handle (post_init B (inp\<lparr>pi_postBody := pi_postBody inp @ concat xs\<rparr>))"
  using assms
proof (induction xs arbitrary: inp)
  case (Cons x xs)
  have le: "length (pi_postBody inp) + length x \<le> pi_expectedSize inp" using Cons.prems(1) by simp
  have ok: "\<not> size_greater (length (pi_postBody inp) + length x) (pi_maxPostSize inp)"
    using Cons.prems(4) le by (simp add: size_greater_def)
  show ?case
  proof (cases "xs = []")
    case True
    then show ?thesis using Cons.prems(1) ok by (simp add: input_step_data)
  next
    case False
    then obtain y ys where xs: "xs = y # ys" by (cases xs) auto
    then have "length (pi_postBody inp) + length x < pi_expectedSize inp"
      using Cons.prems(1,3) by (cases y) auto
    moreover have "consume B (map Input_data xs @ rest) (inp\<lparr>pi_postBody := pi_postBody inp @ x\<rparr>) =
        Handle (post_init B (inp\<lparr>pi_postBody := (pi_postBody inp @ x) @ concat xs\<rparr>))"
      using Cons.IH [of "inp\<lparr>pi_postBody := pi_postBody inp @ x\<rparr>"] Cons.prems False by simp
    ultimately show ?thesis using ok by (simp add: input_step_data)
  qed
qed simp

text \<open>What is buffered while reading stays within the limit.\<close>

lemma consume_bound:
  assumes "consume B evs inp = ReadMore inp'"
    and "\<not> size_greater (length (pi_postBody inp)) (pi_maxPostSize inp)"
  shows "\<not> size_greater (length (pi_postBody inp')) (pi_maxPostSize inp) \<and> pi_maxPostSize inp' = pi_maxPostSize inp"
  using assms
proof (induction evs arbitrary: inp)
  case (Cons ev evs)
  show ?case
  proof (cases ev)
    case (Input_data x)
    with Cons.prems Cons.IH [of "inp\<lparr>pi_postBody := pi_postBody inp @ x\<rparr>"] show ?thesis
      by (auto simp: input_step_data split: if_splits)
  qed (use Cons.prems in simp)
qed simp

lemma consume_too_large:
  assumes "size_greater (length (pi_postBody inp @ concat xs @ x)) (pi_maxPostSize inp)"
    and "length (pi_postBody inp @ concat xs) < pi_expectedSize inp"
  shows "consume B (map Input_data xs @ Input_data x # rest) inp = ServerError"
  using assms
proof (induction xs arbitrary: inp)
  case Nil
  then show ?case by (simp add: input_step_data)
next
  case (Cons y ys)
  with Cons.IH [of "inp\<lparr>pi_postBody := pi_postBody inp @ y\<rparr>"] show ?case
    by (simp add: input_step_data add.assoc)
qed

text \<open>With a limit that fits its types, the comparison is the one of the numbers.\<close>

lemma size_greater_iff: "0 \<le> m \<Longrightarrow> m < 2 ^ 64 \<Longrightarrow> size_greater n m \<longleftrightarrow> m < int n"
  by (simp add: size_greater_def)

section \<open>Dispatch\<close>

text \<open>What the application sees has passed the filters.\<close>

definition admitted :: "(string \<Rightarrow> string) \<Rightarrow> os \<Rightarrow> filter_list \<Rightarrow> connection \<Rightarrow> 'b any world \<Rightarrow> bool" where
  "admitted H os fl c w \<longleftrightarrow> (\<exists>c' w'. applyFilters H os fl c w = Some (Inr False, c', w'))"

lemma handleRequest_admitted:
  assumes "rh_accessFilters rh = Some fl"
  shows "handleRequest H os (rh\<lparr>rh_handleRequestFunction := f\<rparr>) c w
      = handleRequest H os (rh\<lparr>rh_handleRequestFunction := g\<rparr>) c w \<or> admitted H os fl c w"
proof (cases "applyFilters H os fl c w")
  case (Some q)
  obtain r c' w' where q: "q = (r, c', w')" by (cases q)
  show ?thesis
  proof (cases r)
    case (Inr b)
    then show ?thesis using assms Some q by (cases b) (auto simp: handleRequest_def admitted_def)
  qed (use assms Some q in \<open>simp add: handleRequest_def\<close>)
qed (use assms in \<open>simp add: handleRequest_def\<close>)

lemma handleRequest_run:
  assumes "rh_accessFilters rh = Some fl" and "applyFilters H os fl c w = Some (Inr False, c', w')"
  shows "handleRequest H os rh c w = run_app rh c' w'"
  using assms by (simp add: handleRequest_def)

lemma handleRequest_no_filters:
  "rh_accessFilters rh = None \<Longrightarrow> handleRequest H os rh c w = run_app rh c w"
  by (simp add: handleRequest_def)

text \<open>Reconfiguration replaces what is given and keeps the rest.\<close>

lemma reconfigure_fields:
  "rh_handleRequestFunction (reconfigure f fl cfg rh) =
     (case f of Some g \<Rightarrow> g | None \<Rightarrow> rh_handleRequestFunction rh)"
  "rh_accessFilters (reconfigure f fl cfg rh) = (case fl of Some l \<Rightarrow> Some l | None \<Rightarrow> rh_accessFilters rh)"
  "rh_config (reconfigure f fl cfg rh) = (case cfg of Some c \<Rightarrow> Some c | None \<Rightarrow> rh_config rh)"
  by (simp_all add: reconfigure_def Let_def split: option.split)

section \<open>Serving\<close>

text \<open>A request that is served is flushed at the end: the last container carries what had not been
  sent before, with the status of the connection.\<close>

lemma serve_flushed:
  assumes "serve H os rh ri cfg w = Some (Inr (), c, w')"
  shows "cn_isFlushed c \<and> cn_flushed c \<noteq> [] \<and> pending c = []
    \<and> fc_status (last (cn_flushed c)) = cn_responseStatus c"
proof -
  from assms obtain c1 where "c = flushResponse c1"
    by (auto simp: serve_def split: option.splits prod.splits sum.splits)
  then show ?thesis by (simp add: flushResponse_simps)
qed

end
