(* ===== verification/Fastcgi.thy ===== *)
theory Fastcgi
  imports Request_Handler_Props "HOL-Library.Word"
begin

text \<open>
  The FastCGI request handler (\<^verbatim>\<open>src/RequestHandler/impl/FastcgiRequestHandler.cpp\<close>): the request
  built from the parameters that fastcgi++-lite hands over, what is dumped back to it, and the
  configuration of the socket. The library is a parameter: \<open>fcgi_env\<close> is its \<^verbatim>\<open>environment()\<close>
  (the parameters in the order of its map), and \<open>listening\<close> tells whether \<^verbatim>\<open>listen\<close> succeeds.
\<close>

record fcgi_env =
  fe_parameters :: "(string, string) umap"
  fe_gets :: "(string, string) ummap"
  fe_posts :: "(string, string) ummap"
  fe_cookies :: "(string, string) ummap"
  fe_contentType :: string
  fe_files :: "(string \<times> upload) list"
  fe_postBuffer :: string

text \<open>The template \<^verbatim>\<open>utils::toUnorderedMultimap\<close>.\<close>

definition toUnorderedMultimap :: "('k \<times> 'v) list \<Rightarrow> ('k, 'v) ummap" where
  "toUnorderedMultimap m = fold (\<lambda>(k, v). ummap_insert k v) m []"

definition renvp :: "fcgi_env \<Rightarrow> string \<Rightarrow> string" where
  "renvp fe k = (case umap_get (fe_parameters fe) k of Some v \<Rightarrow> v | None \<Rightarrow> [])"

definition fcgi_key :: "string \<Rightarrow> string" where
  "fcgi_key k =
     (if take 5 k = ''HTTP_'' then stringReplaceChars (toLowercase (drop 5 k)) [(CHR ''_'', CHR ''-'')]
      else k)"

definition fcgi_environment :: "fcgi_env \<Rightarrow> env" where
  "fcgi_environment fe =
     (let e = [(''content-type'', renvp fe ''CONTENT_TYPE'')];
          baseUrl = (if umap_has (fe_parameters fe) ''HTTPS'' then ''https://'' else ''http://'')
            @ renvp fe ''HTTP_HOST'';
          e = umap_set ''BASE_URL'' baseUrl e;
          requestUri = renvp fe ''REQUEST_URI'';
          e = umap_set ''FULL_URL_WITH_QS'' (baseUrl @ requestUri) e;
          e = umap_set ''FULL_URL_WITHOUT_QS''
            (baseUrl @ substr_to requestUri (find_char (CHR ''?'') requestUri)) e
      in fold (\<lambda>(k, v) e. umap_insert (fcgi_key k) v e) (fe_parameters fe) e)"

text \<open>\<^verbatim>\<open>inProcessor\<close>: whether the raw POST data is kept.\<close>

definition inProcessor :: "config \<Rightarrow> fcgi_env \<Rightarrow> string option" where
  "inProcessor cfg fe =
     (let postContentType = fe_contentType fe;
          access = Config_get cfg (''post'', ''raw_access'')
      in if postContentType = [] \<or> access = ''never'' \<or>
            (access \<noteq> ''always'' \<and> (postContentType = ''multipart/form-data''
               \<or> postContentType = ''application/x-www-form-urlencoded''))
         then None else Some (fe_postBuffer fe))"

definition fcgi_init :: "config \<Rightarrow> fcgi_env \<Rightarrow> request_init" where
  "fcgi_init cfg fe =
     \<lparr>ri_environment = fcgi_environment fe,
      ri_getVars = toUnorderedMultimap (fe_gets fe),
      ri_postVars = toUnorderedMultimap (fe_posts fe),
      ri_cookieVars = toUnorderedMultimap (fe_cookies fe),
      ri_postContentType = fe_contentType fe,
      ri_postFiles = fold (\<lambda>(k, f). ummap_insert k f) (fe_files fe) [],
      ri_rawPost = inProcessor cfg fe\<rparr>"

text \<open>The flush callback.\<close>

definition fcgi_dump :: "flush_container \<Rightarrow> string" where
  "fcgi_dump f =
     (if \<not> fc_flushedBefore f then ''status: '' @ getStatusString f @ CRLF else []) @ getFullHttp f"

text \<open>\<^verbatim>\<open>response()\<close>: the bytes dumped, or the exception that escapes. The handler has a
  configuration from its construction on; a null pointer would be dereferenced.\<close>

definition fcgi_response ::
    "(string \<Rightarrow> string) \<Rightarrow> os \<Rightarrow> 'b request_handler \<Rightarrow> fcgi_env \<Rightarrow> 'b any world
       \<Rightarrow> (string result \<times> 'b any world) option" where
  "fcgi_response H os rh fe w =
     (case getConfig rh of
        None \<Rightarrow> Some (Inl Undefined, w)
      | Some cfg \<Rightarrow>
          (case serve H os rh (fcgi_init cfg fe) cfg w of
             None \<Rightarrow> None
           | Some (Inl e, c, w) \<Rightarrow> Some (Inl e, w)
           | Some (Inr _, c, w) \<Rightarrow> Some (Inr (concat (map fcgi_dump (cn_flushed c))), w)))"

section \<open>Configuration\<close>

definition fcgi_postMax :: "config \<Rightarrow> nat result" where
  "fcgi_postMax cfg =
     (if Config_isSet cfg (''post'', ''max_size'') then
        (case stoul 10 (Config_get cfg (''post'', ''max_size'')) of
           Inr n \<Rightarrow> Inr (n * 1024 mod 2 ^ 64)
         | Inl InvalidArgument \<Rightarrow> Inr 0
         | Inl e \<Rightarrow> Inl e)
      else Inr 0)"

text \<open>\<^verbatim>\<open>strtol(s, &end, 8)\<close> where the caller requires \<^verbatim>\<open>*end == 0\<close>; the value saturates.\<close>

definition strtol8 :: "string \<Rightarrow> int option" where
  "strtol8 str =
     (let s = takeWhile (\<lambda>c. c \<noteq> CHR 0x00) str;
          s1 = dropWhile is_space s;
          neg = (s1 \<noteq> [] \<and> hd s1 = CHR ''-'');
          s2 = (if s1 \<noteq> [] \<and> (hd s1 = CHR ''-'' \<or> hd s1 = CHR ''+'') then tl s1 else s1);
          v = int (read_digits 8 0 s2)
      in if s = [] then Some 0
         else if s2 \<noteq> [] \<and> list_all (\<lambda>c. base_digit 8 c \<noteq> None) s2
         then Some (max (- (2 ^ 63)) (min (2 ^ 63 - 1) (if neg then - v else v)))
         else None)"

definition fcgi_permissions :: "string \<Rightarrow> 32 word" where
  "fcgi_permissions permStr =
     (if permStr = [] then 0xFFFFFFFF
      else (case strtol8 permStr of Some perm \<Rightarrow> word_of_int perm | None \<Rightarrow> 0xFFFFFFFF))"

datatype fcgi_socket =
    TcpSocket "string option" string
  | UnixSocket string "32 word" "string option" "string option"

definition null_if_empty :: "string \<Rightarrow> string option" where
  "null_if_empty s = (if s = [] then None else Some s)"

definition fcgi_socket_of :: "config \<Rightarrow> fcgi_socket result" where
  "fcgi_socket_of cfg =
     (let mode = Config_get cfg (''fastcgi'', ''mode'') in
      if mode = ''tcp'' then
        (let addr = Config_get cfg (''fastcgi'', ''listen'');
             port = Config_get cfg (''fastcgi'', ''port'');
             addr = (if addr = [] then ''127.0.0.1'' else addr)
         in Inr (TcpSocket (if addr = ''all'' then None else Some addr)
                  (if port = [] then ''8000'' else port)))
      else if mode = ''unix'' then
        (let path = Config_get cfg (''fastcgi'', ''path'')
         in Inr (UnixSocket (if path = [] then ''/etc/nawarun/sock.d/nawarun.sock'' else path)
                  (fcgi_permissions (Config_get cfg (''fastcgi'', ''permissions'')))
                  (null_if_empty (Config_get cfg (''fastcgi'', ''owner'')))
                  (null_if_empty (Config_get cfg (''fastcgi'', ''group'')))))
      else Inl (NawaException 3 ''Unknown FastCGI socket mode in configuration.''))"

text \<open>The constructor: the size limit given to the manager, the socket it listens on, and whether
  the address may be reused.\<close>

definition FastcgiRequestHandler_new :: "(fcgi_socket \<Rightarrow> bool) \<Rightarrow> config \<Rightarrow> (nat \<times> fcgi_socket \<times> bool) result" where
  "FastcgiRequestHandler_new listening cfg =
     bind_result (fcgi_postMax cfg) (\<lambda>postMax.
       bind_result (fcgi_socket_of cfg) (\<lambda>sock.
         if listening sock
         then Inr (postMax, sock, Config_get cfg (''fastcgi'', ''reuseaddr'') \<noteq> ''off'')
         else (case sock of
                 TcpSocket _ _ \<Rightarrow> Inl (NawaException 1 ''Could not create TCP socket for FastCGI.'')
               | UnixSocket _ _ _ _ \<Rightarrow> Inl (NawaException 2 ''Could not create UNIX socket for FastCGI.''))))"

section \<open>Lemmas\<close>

lemma toUnorderedMultimap_entries: "count_list (toUnorderedMultimap m) e = count_list m e"
  by (simp add: toUnorderedMultimap_def umm.entries_fold)

text \<open>A parameter of a header cannot become a variable of the server: its key has no upper-case
  letter.\<close>

lemma fcgi_key_header: "take 5 k = ''HTTP_'' \<Longrightarrow> is_upper c \<Longrightarrow> c \<notin> set (fcgi_key k)"
proof -
  assume k: "take 5 k = ''HTTP_''" and c: "is_upper c"
  have "\<not> is_upper (CHR ''-'')" by (simp add: is_upper_def)
  with c show "c \<notin> set (fcgi_key k)"
    by (auto simp: fcgi_key_def k stringReplaceChars_single toLowercase_def)
qed

lemma fold_insert_key:
  "fold (\<lambda>(k, v) e. umap_insert (f k) v e) ps e = fold (\<lambda>(k, v). umap_insert k v) (map (\<lambda>(k, v). (f k, v)) ps) e"
  by (induction ps arbitrary: e) (auto split: prod.splits)

definition fcgi_url_vars :: "fcgi_env \<Rightarrow> env" where
  "fcgi_url_vars fe =
     (let baseUrl = (if umap_has (fe_parameters fe) ''HTTPS'' then ''https://'' else ''http://'')
            @ renvp fe ''HTTP_HOST'';
          uri = renvp fe ''REQUEST_URI''
      in [(''content-type'', renvp fe ''CONTENT_TYPE''), (''BASE_URL'', baseUrl),
          (''FULL_URL_WITH_QS'', baseUrl @ uri),
          (''FULL_URL_WITHOUT_QS'', baseUrl @ substr_to uri (find_char (CHR ''?'') uri))])"

lemma fcgi_environment_get:
  "umap_get (fcgi_environment fe) k =
     (case map_of (fcgi_url_vars fe) k of Some v \<Rightarrow> Some v
      | None \<Rightarrow> map_of (map (\<lambda>(k, v). (fcgi_key k, v)) (fe_parameters fe)) k)"
proof -
  have "fcgi_environment fe = fold (\<lambda>(k, v). umap_insert k v)
      (map (\<lambda>(k, v). (fcgi_key k, v)) (fe_parameters fe)) (fcgi_url_vars fe)"
    unfolding fcgi_environment_def Let_def fold_insert_key [of fcgi_key] fcgi_url_vars_def
    by (simp add: umap_set_def)
  then show ?thesis by (simp add: um.get_add_list) (simp add: umap_get_def)
qed

text \<open>A server variable is the FastCGI parameter of that name, whatever the headers are.\<close>

lemma map_of_fcgi_key:
  assumes "is_upper c" and "c \<in> set k" and "take 5 k \<noteq> ''HTTP_''"
  shows "map_of (map (\<lambda>(k, v). (fcgi_key k, v)) ps) k = map_of ps k"
proof (induction ps)
  case (Cons p ps)
  obtain key v where p: "p = (key, v)" by (cases p)
  have "fcgi_key key = k \<longleftrightarrow> key = k"
    using assms fcgi_key_header [of key c] by (cases "take 5 key = ''HTTP_''") (auto simp: fcgi_key_def)
  then show ?case by (cases "key = k") (simp_all add: p Cons.IH)
qed simp

text \<open>What is dumped: the status line, the headers and the bodies in the order they were flushed.\<close>

lemma fcgi_dump_all:
  assumes "flags_ok c" and "cn_flushed c = f # fs"
  shows "concat (map fcgi_dump (cn_flushed c)) =
    ''status: '' @ getStatusString f @ CRLF
    @ concat (map (\<lambda>(k, v). k @ '': '' @ v @ CRLF) (fc_headers f)) @ CRLF @ sent_bodies c"
proof -
  have "fcgi_dump g = getFullHttp g" if "g \<in> set fs" for g
    using that assms by (auto simp: flags_ok_def in_set_conv_nth fcgi_dump_def)
  then have "concat (map fcgi_dump fs) = concat (map getFullHttp fs)" by (metis map_eq_conv)
  moreover have "\<not> fc_flushedBefore f" using assms by (auto simp: flags_ok_def)
  ultimately show ?thesis using full_http_all [OF assms] by (simp add: assms(2)) (simp add: fcgi_dump_def)
qed

lemma fcgi_socket_mode:
  "(\<exists>s. fcgi_socket_of cfg = Inr s) \<longleftrightarrow> Config_get cfg (''fastcgi'', ''mode'') \<in> {''tcp'', ''unix''}"
  by (auto simp: fcgi_socket_of_def Let_def)

lemma read_digits_octal:
  "fcgi_permissions ''0660'' = 432" "fcgi_permissions ''rw'' = -1" "fcgi_permissions [] = -1"
  by code_simp+

text \<open>No header can take the place of a variable of the server.\<close>

lemma fcgi_environment_trusted:
  assumes "is_upper c" and "c \<in> set k" and "take 5 k \<noteq> ''HTTP_''"
    and "k \<notin> {''BASE_URL'', ''FULL_URL_WITH_QS'', ''FULL_URL_WITHOUT_QS''}"
  shows "Env_get (fcgi_environment fe) k = renvp fe k"
proof -
  have "k \<noteq> ''content-type''"
  proof
    assume "k = ''content-type''"
    with assms(1,2) show False by (auto simp: is_upper_def less_eq_char_def)
  qed
  with assms(4) have "map_of (fcgi_url_vars fe) k = None" by (simp add: fcgi_url_vars_def Let_def)
  then show ?thesis
    by (simp add: Env_get_def fcgi_environment_get renvp_def map_of_fcgi_key [OF assms(1-3)])
      (simp add: umap_get_def)
qed

end
