(* ===== verification/Lifecycle.thy ===== *)
theory Lifecycle
  imports Fastcgi
begin

text \<open>
  The life cycle of the servers: \<^verbatim>\<open>start\<close>, \<^verbatim>\<open>stop\<close>, \<^verbatim>\<open>terminate\<close>, \<^verbatim>\<open>join\<close> and the destructors of
  \<^verbatim>\<open>HttpRequestHandler\<close> and \<^verbatim>\<open>FastcgiRequestHandler\<close>, the choice between the two, and the wrapper
  of the application's function. A state keeps the trace of the calls to the network library and
  the threads; the locale is the contract both servers meet.
\<close>

datatype server_call = Spawn nat | Call_stop | Call_terminate | Join nat

section \<open>HTTP\<close>

text \<open>\<open>hs_next\<close> counts the threads created so far; thread objects are named by it.\<close>

record http_server =
  hs_concurrency :: nat
  hs_threadPool :: "nat list"
  hs_requestHandlingActive :: bool
  hs_joined :: bool
  hs_next :: nat
  hs_calls :: "server_call list"

definition HttpRequestHandler_new :: "bool \<Rightarrow> int \<Rightarrow> http_server result" where
  "HttpRequestHandler_new listening concurrency =
     (if listening
      then Inr \<lparr>hs_concurrency = (if 0 < concurrency then nat concurrency else 1), hs_threadPool = [],
             hs_requestHandlingActive = False, hs_joined = False, hs_next = 0, hs_calls = []\<rparr>
      else Inl (NawaException 1 ''Could not listen to host/port.''))"

definition emplace_thread :: "http_server \<Rightarrow> http_server" where
  "emplace_thread st = st\<lparr>hs_threadPool := hs_threadPool st @ [hs_next st], hs_next := hs_next st + 1,
     hs_calls := hs_calls st @ [Spawn (hs_next st)]\<rparr>"

text \<open>\<open>limit\<close> is the number of threads the system lets the call create; the next one throws.\<close>

definition Http_start :: "nat \<Rightarrow> http_server \<Rightarrow> unit result \<times> http_server" where
  "Http_start limit st =
     (if hs_requestHandlingActive st then (Inr (), st)
      else if hs_joined st then (Inl (NawaException 10 ''HttpRequestHandler was already joined.''), st)
      else if hs_concurrency st \<le> limit
      then (Inr (), ((emplace_thread ^^ hs_concurrency st) st)\<lparr>hs_requestHandlingActive := True\<rparr>)
      else (Inl (NawaException 1 ''An error occurred during start of request handling.''),
            (emplace_thread ^^ limit) st))"

definition Http_stop :: "http_server \<Rightarrow> http_server" where
  "Http_stop st = (if hs_joined st then st else st\<lparr>hs_calls := hs_calls st @ [Call_stop]\<rparr>)"

definition Http_terminate :: "http_server \<Rightarrow> http_server" where
  "Http_terminate st = (if hs_joined st then st else st\<lparr>hs_calls := hs_calls st @ [Call_stop]\<rparr>)"

definition Http_join :: "http_server \<Rightarrow> http_server" where
  "Http_join st =
     (if hs_joined st then st
      else st\<lparr>hs_calls := hs_calls st @ map Join (hs_threadPool st), hs_joined := True, hs_threadPool := []\<rparr>)"

definition Http_destroy :: "http_server \<Rightarrow> http_server" where
  "Http_destroy st =
     (let st = (if hs_requestHandlingActive st \<and> \<not> hs_joined st
                then st\<lparr>hs_calls := hs_calls st @ [Call_stop]\<rparr> else st)
      in if \<not> hs_joined st
         then st\<lparr>hs_calls := hs_calls st @ map Join (hs_threadPool st), hs_threadPool := []\<rparr> else st)"

section \<open>FastCGI\<close>

text \<open>The manager's own threads are one unit here: \<open>Spawn 0\<close> is its \<^verbatim>\<open>start\<close>, \<open>Join 0\<close> its
  \<^verbatim>\<open>join\<close>; \<open>fs_manager\<close> tells whether the pointer is set.\<close>

record fcgi_server =
  fs_manager :: bool
  fs_requestHandlingActive :: bool
  fs_joined :: bool
  fs_calls :: "server_call list"

definition fcgi_server_new :: fcgi_server where
  "fcgi_server_new = \<lparr>fs_manager = True, fs_requestHandlingActive = False, fs_joined = False, fs_calls = []\<rparr>"

definition Fcgi_start :: "bool \<Rightarrow> fcgi_server \<Rightarrow> unit result \<times> fcgi_server" where
  "Fcgi_start started st =
     (if fs_requestHandlingActive st then (Inr (), st)
      else if fs_joined st then (Inl (NawaException 10 ''FastcgiRequestHandler was already joined.''), st)
      else if fs_manager st then
        (if started
         then (Inr (), st\<lparr>fs_calls := fs_calls st @ [Spawn 0], fs_requestHandlingActive := True\<rparr>)
         else (Inl (NawaException 1 ''An unknown error occurred during start of request handling.''), st))
      else (Inl (NawaException 2 ''FastCGI manager is not available.''), st))"

definition Fcgi_stop :: "fcgi_server \<Rightarrow> fcgi_server" where
  "Fcgi_stop st =
     (if fs_joined st then st
      else if fs_manager st then st\<lparr>fs_calls := fs_calls st @ [Call_stop]\<rparr> else st)"

definition Fcgi_terminate :: "fcgi_server \<Rightarrow> fcgi_server" where
  "Fcgi_terminate st =
     (if fs_joined st then st
      else if fs_manager st then st\<lparr>fs_calls := fs_calls st @ [Call_terminate]\<rparr> else st)"

definition Fcgi_join :: "fcgi_server \<Rightarrow> fcgi_server" where
  "Fcgi_join st =
     (if fs_joined st then st
      else if fs_manager st
      then st\<lparr>fs_calls := fs_calls st @ [Join 0], fs_joined := True, fs_manager := False\<rparr> else st)"

definition Fcgi_destroy :: "fcgi_server \<Rightarrow> fcgi_server" where
  "Fcgi_destroy st =
     (let st = (if fs_requestHandlingActive st \<and> \<not> fs_joined st
                then st\<lparr>fs_calls := fs_calls st @ [Call_terminate]\<rparr> else st)
      in if \<not> fs_joined st
         then st\<lparr>fs_calls := fs_calls st @ [Join 0], fs_manager := False\<rparr> else st)"

section \<open>The contract\<close>

text \<open>The calls an owner makes; the argument of \<open>Op_start\<close> is what the system grants.\<close>

datatype 'g server_op = Op_start 'g | Op_stop | Op_terminate | Op_join

primrec Http_op :: "nat server_op \<Rightarrow> http_server \<Rightarrow> http_server" where
  "Http_op (Op_start l) st = snd (Http_start l st)"
| "Http_op Op_stop st = Http_stop st"
| "Http_op Op_terminate st = Http_terminate st"
| "Http_op Op_join st = Http_join st"

primrec Fcgi_op :: "bool server_op \<Rightarrow> fcgi_server \<Rightarrow> fcgi_server" where
  "Fcgi_op (Op_start b) st = snd (Fcgi_start b st)"
| "Fcgi_op Op_stop st = Fcgi_stop st"
| "Fcgi_op Op_terminate st = Fcgi_terminate st"
| "Fcgi_op Op_join st = Fcgi_join st"

text \<open>Every thread that has been created has been joined, and once.\<close>

definition all_joined :: "server_call list \<Rightarrow> bool" where
  "all_joined cs \<longleftrightarrow> (\<forall>t. count_list cs (Spawn t) \<le> 1 \<and> count_list cs (Join t) \<le> 1
     \<and> (Spawn t \<in> set cs \<longrightarrow> Join t \<in> set cs))"

lemma all_joinedI:
  assumes "\<And>t. count_list cs (Spawn t) \<le> count_list cs (Join t)" and "\<And>t. count_list cs (Join t) \<le> 1"
  shows "all_joined cs"
  unfolding all_joined_def
proof (intro allI conjI impI)
  fix t
  show "count_list cs (Spawn t) \<le> 1" using assms(1) [of t] assms(2) [of t] by simp
  show "count_list cs (Join t) \<le> 1" by (rule assms(2))
  show "Join t \<in> set cs" if "Spawn t \<in> set cs"
    using that assms(1) [of t] by (metis count_list_0_iff le_zero_eq)
qed

locale server =
  fixes op :: "'g server_op \<Rightarrow> 's \<Rightarrow> 's"
    and destroy :: "'s \<Rightarrow> 's"
    and calls :: "'s \<Rightarrow> server_call list"
    and joined :: "'s \<Rightarrow> bool"
    and ok :: "'s \<Rightarrow> bool"
  assumes ok_op: "ok s \<Longrightarrow> ok (op p s)"
    and joined_stays: "ok s \<Longrightarrow> joined s \<Longrightarrow> op p s = s"
    and join_joins: "ok s \<Longrightarrow> joined (op Op_join s)"
    and destroy_joins: "ok s \<Longrightarrow> all_joined (calls (destroy s))"
    and destroy_joined: "ok s \<Longrightarrow> joined s \<Longrightarrow> calls (destroy s) = calls s"
begin

lemma ok_run: "ok s \<Longrightarrow> ok (fold op ps s)"
  by (induction ps arbitrary: s) (simp_all add: ok_op)

lemma joined_run: "ok s \<Longrightarrow> joined s \<Longrightarrow> fold op ps s = s"
  by (induction ps arbitrary: s) (simp_all add: joined_stays)

lemma quiet_after_join:
  assumes "ok s"
  shows "calls (destroy (fold op (ps @ Op_join # qs) s)) = calls (fold op (ps @ [Op_join]) s)"
proof -
  let ?t = "op Op_join (fold op ps s)"
  have "ok ?t" "joined ?t" using ok_run [OF assms] by (simp_all add: ok_op join_joins)
  then show ?thesis by (simp add: joined_run destroy_joined)
qed

lemma destroyed_joined: "ok s \<Longrightarrow> all_joined (calls (destroy (fold op ps s)))"
  using ok_run destroy_joins by blast

end

subsection \<open>The HTTP server meets it\<close>

definition http_ok :: "http_server \<Rightarrow> bool" where
  "http_ok st \<longleftrightarrow>
     (\<forall>t. count_list (hs_calls st) (Spawn t) = (if t < hs_next st then 1 else 0)) \<and>
     (if hs_joined st
      then hs_threadPool st = [] \<and> (\<forall>t. count_list (hs_calls st) (Join t) = count_list (hs_calls st) (Spawn t))
      else hs_threadPool st = [0..<hs_next st] \<and> (\<forall>t. count_list (hs_calls st) (Join t) = 0))"

lemma count_list_map_Join [simp]:
  "count_list (map Join xs) (Join t) = count_list xs t" "count_list (map Join xs) (Spawn t) = 0"
  by (induction xs) simp_all

lemma count_list_upt [simp]: "count_list [0..<n] t = (if t < n then 1 else 0)"
  by (induction n) auto

lemma emplace_thread_fields [simp]:
  "hs_joined (emplace_thread st) = hs_joined st"
  "hs_requestHandlingActive (emplace_thread st) = hs_requestHandlingActive st"
  "hs_concurrency (emplace_thread st) = hs_concurrency st"
  by (simp_all add: emplace_thread_def)

lemma emplace_threads_fields [simp]:
  "hs_joined ((emplace_thread ^^ n) st) = hs_joined st"
  "hs_requestHandlingActive ((emplace_thread ^^ n) st) = hs_requestHandlingActive st"
  "hs_calls ((emplace_thread ^^ n) st) = hs_calls st @ map Spawn [hs_next st..<hs_next st + n]"
  "hs_next ((emplace_thread ^^ n) st) = hs_next st + n"
  by (induction n) (simp_all add: emplace_thread_def)

lemma http_ok_emplace: "http_ok st \<Longrightarrow> \<not> hs_joined st \<Longrightarrow> http_ok (emplace_thread st)"
  by (simp add: http_ok_def emplace_thread_def)

lemma http_ok_emplaces: "http_ok st \<Longrightarrow> \<not> hs_joined st \<Longrightarrow> http_ok ((emplace_thread ^^ n) st)"
  by (induction n) (simp_all add: http_ok_emplace)

lemma http_ok_active: "http_ok (st\<lparr>hs_requestHandlingActive := b\<rparr>) = http_ok st"
  by (simp add: http_ok_def)

lemma http_ok_stop: "http_ok st \<Longrightarrow> http_ok (st\<lparr>hs_calls := hs_calls st @ [Call_stop]\<rparr>)"
  by (simp add: http_ok_def)

lemma http_ok_join: "http_ok st \<Longrightarrow> http_ok (Http_join st)"
  by (auto simp: http_ok_def Http_join_def)

lemma http_ok_op: "http_ok st \<Longrightarrow> http_ok (Http_op p st)"
  by (cases p) (simp_all add: Http_start_def Http_stop_def Http_terminate_def http_ok_active
      http_ok_emplaces http_ok_stop http_ok_join)

lemma http_destroy_joins: "http_ok st \<Longrightarrow> all_joined (hs_calls (Http_destroy st))"
  by (rule all_joinedI) (auto simp: http_ok_def Http_destroy_def Let_def)

interpretation httpd: server Http_op Http_destroy hs_calls hs_joined http_ok
proof
  fix st :: http_server and p
  show "http_ok st \<Longrightarrow> http_ok (Http_op p st)" by (rule http_ok_op)
  show "http_ok st \<Longrightarrow> hs_joined st \<Longrightarrow> Http_op p st = st"
    by (cases p) (simp_all add: Http_start_def Http_stop_def Http_terminate_def Http_join_def)
  show "http_ok st \<Longrightarrow> hs_joined (Http_op Op_join st)" by (simp add: Http_join_def)
  show "http_ok st \<Longrightarrow> all_joined (hs_calls (Http_destroy st))" by (rule http_destroy_joins)
  show "http_ok st \<Longrightarrow> hs_joined st \<Longrightarrow> hs_calls (Http_destroy st) = hs_calls st"
    by (simp add: Http_destroy_def)
qed

lemma http_new_ok: "HttpRequestHandler_new l n = Inr st \<Longrightarrow> http_ok st"
  by (auto simp: HttpRequestHandler_new_def http_ok_def split: if_splits)

subsection \<open>The FastCGI server meets it\<close>

definition fcgi_ok :: "fcgi_server \<Rightarrow> bool" where
  "fcgi_ok st \<longleftrightarrow> fs_manager st = (\<not> fs_joined st)
     \<and> count_list (fs_calls st) (Spawn 0) = (if fs_requestHandlingActive st then 1 else 0)
     \<and> count_list (fs_calls st) (Join 0) = (if fs_joined st then 1 else 0)
     \<and> (\<forall>t > 0. Spawn t \<notin> set (fs_calls st) \<and> Join t \<notin> set (fs_calls st))"

lemma fcgi_ok_op: "fcgi_ok st \<Longrightarrow> fcgi_ok (Fcgi_op p st)"
  by (cases p) (auto simp: fcgi_ok_def Fcgi_start_def Fcgi_stop_def Fcgi_terminate_def Fcgi_join_def)

lemma fcgi_destroy_joins:
  assumes "fcgi_ok st"
  shows "all_joined (fs_calls (Fcgi_destroy st))"
proof (rule all_joinedI)
  fix t
  show "count_list (fs_calls (Fcgi_destroy st)) (Spawn t) \<le> count_list (fs_calls (Fcgi_destroy st)) (Join t)"
    "count_list (fs_calls (Fcgi_destroy st)) (Join t) \<le> 1"
    using assms by (cases t; auto simp: fcgi_ok_def Fcgi_destroy_def Let_def count_list_0_iff)+
qed

interpretation fcgid: server Fcgi_op Fcgi_destroy fs_calls fs_joined fcgi_ok
proof
  fix st :: fcgi_server and p
  show "fcgi_ok st \<Longrightarrow> fcgi_ok (Fcgi_op p st)" by (rule fcgi_ok_op)
  show "fcgi_ok st \<Longrightarrow> fs_joined st \<Longrightarrow> Fcgi_op p st = st"
    by (cases p) (simp_all add: fcgi_ok_def Fcgi_start_def Fcgi_stop_def Fcgi_terminate_def Fcgi_join_def)
  show "fcgi_ok st \<Longrightarrow> fs_joined (Fcgi_op Op_join st)" by (simp add: fcgi_ok_def Fcgi_join_def)
  show "fcgi_ok st \<Longrightarrow> all_joined (fs_calls (Fcgi_destroy st))" by (rule fcgi_destroy_joins)
  show "fcgi_ok st \<Longrightarrow> fs_joined st \<Longrightarrow> fs_calls (Fcgi_destroy st) = fs_calls st"
    by (simp add: Fcgi_destroy_def)
qed

lemma fcgi_new_ok: "fcgi_ok fcgi_server_new"
  by (simp add: fcgi_ok_def fcgi_server_new_def)

text \<open>An active server is stopped before its threads are joined; threads left by a failed \<^verbatim>\<open>start\<close>
  are joined without a stop.\<close>

lemma http_destroy_active:
  "hs_requestHandlingActive st \<Longrightarrow> \<not> hs_joined st \<Longrightarrow>
     hs_calls (Http_destroy st) = hs_calls st @ [Call_stop] @ map Join (hs_threadPool st)"
  by (simp add: Http_destroy_def)

lemma http_failed_start:
  assumes "HttpRequestHandler_new l n = Inr st" and "Http_start limit st = (Inl e, st')"
  shows "hs_calls (Http_destroy st') = map Spawn [0..<limit] @ map Join [0..<limit]"
proof -
  have st: "http_ok st" "\<not> hs_joined st" "\<not> hs_requestHandlingActive st" "hs_calls st = []" "hs_next st = 0"
    using assms(1) http_new_ok [OF assms(1)] by (auto simp: HttpRequestHandler_new_def split: if_splits)
  then have st': "st' = (emplace_thread ^^ limit) st"
    using assms(2) by (auto simp: Http_start_def split: if_splits)
  have "http_ok st'" using http_ok_emplaces [OF st(1,2)] by (simp add: st')
  then have "hs_threadPool st' = [0..<limit]" using st by (simp add: http_ok_def st')
  then show ?thesis using st by (simp add: Http_destroy_def st')
qed

section \<open>The choice of the server, and the application's function\<close>

datatype handler = Handler_http http_server | Handler_fcgi "nat \<times> fcgi_socket \<times> bool" fcgi_server

text \<open>\<open>http_listening\<close> tells whether the HTTP library can listen at an address and port.\<close>

definition newRequestHandler ::
    "(string \<Rightarrow> string \<Rightarrow> bool) \<Rightarrow> (fcgi_socket \<Rightarrow> bool) \<Rightarrow> config \<Rightarrow> int \<Rightarrow> handler result" where
  "newRequestHandler http_listening fcgi_listening cfg concurrency =
     (if Config_get cfg (''system'', ''request_handler'') = ''http''
      then bind_result (HttpRequestHandler_new (http_listening (getListenAddr cfg) (getListenPort cfg)) concurrency)
             (\<lambda>st. Inr (Handler_http st))
      else bind_result (FastcgiRequestHandler_new fcgi_listening cfg)
             (\<lambda>r. Inr (Handler_fcgi r fcgi_server_new)))"

text \<open>The wrapper of the application's function calls its destruction callback, if it has one, with
  the reference it was given; \<open>'s\<close> is what the callback changes.\<close>

record ('b, 'r, 's) function_wrapper =
  hw_handleRequestFunction :: "'b app"
  hw_reference :: 'r
  hw_destructionCallback :: "('r \<Rightarrow> 's \<Rightarrow> 's) option"

definition wrapper_call ::
    "('b, 'r, 's) function_wrapper \<Rightarrow> connection \<Rightarrow> 'b any world
       \<Rightarrow> (unit result \<times> connection \<times> 'b any world) option" where
  "wrapper_call hw c w = hw_handleRequestFunction hw c w"

definition wrapper_destroy :: "('b, 'r, 's) function_wrapper \<Rightarrow> 's \<Rightarrow> 's" where
  "wrapper_destroy hw s =
     (case hw_destructionCallback hw of Some f \<Rightarrow> f (hw_reference hw) s | None \<Rightarrow> s)"

text \<open>What an application's \<^verbatim>\<open>init\<close> gets to see and change.\<close>

record app_init =
  ai_config :: config
  ai_accessFilters :: filter_list
  ai_numThreads :: nat

end
