(* ===== verification/Logging.thy ===== *)
theory Logging
  imports Http_Time "HOL-Library.Word"
begin

text \<open>
  The logger (\<^verbatim>\<open>src/logging/Log.cpp\<close>). All \<^verbatim>\<open>Log\<close> objects share the variables of the anonymous
  namespace: the output stream, the log file, the levels, the lock and the number of instances,
  an \<^verbatim>\<open>atomic_uint\<close> of 32 bits that wraps around. A step is an operation on one object or on the
  shared variables; what the streams have received is kept as the list of writes.
\<close>

section \<open>Levels\<close>

datatype Level = OFF | ERROR | WARNING | INFORMATIONAL | DEBUG

text \<open>The order of the enumeration is that of the values.\<close>

fun level_value :: "Level \<Rightarrow> nat" where
  "level_value OFF = 0"
| "level_value ERROR = 1"
| "level_value WARNING = 2"
| "level_value INFORMATIONAL = 3"
| "level_value DEBUG = 4"

lemma level_value_inj [simp]: "level_value a = level_value b \<longleftrightarrow> a = b"
  by (cases a; cases b) simp_all

instantiation Level :: linorder
begin

definition less_eq_Level :: "Level \<Rightarrow> Level \<Rightarrow> bool" where
  "less_eq_Level a b \<longleftrightarrow> level_value a \<le> level_value b"

definition less_Level :: "Level \<Rightarrow> Level \<Rightarrow> bool" where
  "less_Level a b \<longleftrightarrow> level_value a < level_value b"

instance
  by standard (auto simp: less_eq_Level_def less_Level_def)

end

lemma level_bounds [simp]: "OFF \<le> l" "l \<le> DEBUG"
  by (cases l; simp add: less_eq_Level_def)+

section \<open>The shared variables and the objects\<close>

datatype stream = Cerr | Log_file | Other_stream nat

text \<open>\<open>lg_out\<close> is \<^verbatim>\<open>None\<close> until the first object sets the pointer. \<open>lg_file\<close> is the name under
  which \<^verbatim>\<open>logFile\<close> is open. \<open>lg_written\<close> is what the streams received, in order.\<close>

record log_globals =
  lg_destructed :: bool
  lg_locked :: bool
  lg_out :: "stream option"
  lg_file :: "string option"
  lg_outputLevel :: Level
  lg_extendedFormat :: bool
  lg_hostname :: string
  lg_pid :: nat
  lg_instanceCount :: "32 word"
  lg_written :: "(stream \<times> string) list"

record log_data =
  lo_appname :: string
  lo_defaultLevel :: Level

text \<open>What the logger asks the system: host name, process, local time, and whether a file can be
  opened for appending.\<close>

record log_os =
  ls_hostname :: string
  ls_pid :: nat
  ls_progname :: string
  ls_now :: tm
  ls_can_open :: "string \<Rightarrow> bool"

definition log_globals_init :: log_globals where
  "log_globals_init =
     \<lparr>lg_destructed = False, lg_locked = False, lg_out = None, lg_file = None,
      lg_outputLevel = INFORMATIONAL, lg_extendedFormat = False, lg_hostname = [], lg_pid = 0,
      lg_instanceCount = 0, lg_written = []\<rparr>"

definition Log_new :: "log_os \<Rightarrow> log_globals \<Rightarrow> log_data \<times> log_globals" where
  "Log_new os g =
     (let g' = (if lg_instanceCount g = 0
                then g\<lparr>lg_out := Some Cerr, lg_hostname := ls_hostname os, lg_pid := ls_pid os\<rparr> else g)
      in (\<lparr>lo_appname = ''nawa'', lo_defaultLevel = INFORMATIONAL\<rparr>,
          g'\<lparr>lg_instanceCount := lg_instanceCount g' + 1\<rparr>))"

definition Log_new_named :: "log_os \<Rightarrow> string \<Rightarrow> Level \<Rightarrow> log_globals \<Rightarrow> log_data \<times> log_globals" where
  "Log_new_named os appname level g =
     (let (d, g') = Log_new os g in (d\<lparr>lo_appname := appname, lo_defaultLevel := level\<rparr>, g'))"

definition Log_new_level :: "log_os \<Rightarrow> Level \<Rightarrow> log_globals \<Rightarrow> log_data \<times> log_globals" where
  "Log_new_level os level g = (let (d, g') = Log_new os g in (d\<lparr>lo_defaultLevel := level\<rparr>, g'))"

definition Log_copy :: "log_data \<Rightarrow> log_globals \<Rightarrow> log_data \<times> log_globals" where
  "Log_copy other g = (other, g\<lparr>lg_instanceCount := lg_instanceCount g + 1\<rparr>)"

text \<open>The assignment counts the object again; an assignment to itself does nothing.\<close>

definition Log_assign :: "bool \<Rightarrow> log_data \<Rightarrow> log_data \<Rightarrow> log_globals \<Rightarrow> log_data \<times> log_globals" where
  "Log_assign same this other g =
     (if \<not> same then (other, g\<lparr>lg_instanceCount := lg_instanceCount g + 1\<rparr>) else (this, g))"

definition Log_destroy :: "log_globals \<Rightarrow> log_globals" where
  "Log_destroy g =
     (if \<not> lg_destructed g then
        (let g = g\<lparr>lg_instanceCount := lg_instanceCount g - 1\<rparr> in
         if lg_instanceCount g = 0 then g\<lparr>lg_file := None, lg_locked := False\<rparr> else g)
      else g\<lparr>lg_file := None\<rparr>)"

definition setStream :: "nat \<Rightarrow> log_globals \<Rightarrow> log_globals" where
  "setStream os g = (if \<not> lg_locked g then g\<lparr>lg_out := Some (Other_stream os)\<rparr> else g)"

definition setOutfile :: "log_os \<Rightarrow> string \<Rightarrow> log_globals \<Rightarrow> unit result \<times> log_globals" where
  "setOutfile os filename g =
     (if \<not> lg_locked g then
        (if ls_can_open os filename
         then (Inr (), g\<lparr>lg_file := Some filename, lg_out := Some Log_file\<rparr>)
         else (Inl (NawaException 1 ''Failed to open requested file for writing.''), g\<lparr>lg_file := None\<rparr>))
      else (Inr (), g))"

definition setOutputLevel :: "Level \<Rightarrow> log_globals \<Rightarrow> log_globals" where
  "setOutputLevel level g = (if \<not> lg_locked g then g\<lparr>lg_outputLevel := level\<rparr> else g)"

definition setExtendedFormat :: "bool \<Rightarrow> log_globals \<Rightarrow> log_globals" where
  "setExtendedFormat useExtendedFormat g =
     (if \<not> lg_locked g then g\<lparr>lg_extendedFormat := useExtendedFormat\<rparr> else g)"

definition lockStream :: "log_globals \<Rightarrow> log_globals" where
  "lockStream g = g\<lparr>lg_locked := True\<rparr>"

definition isLocked :: "log_globals \<Rightarrow> bool" where
  "isLocked g = lg_locked g"

definition setAppname :: "string \<Rightarrow> log_data \<Rightarrow> log_data" where
  "setAppname appname d = d\<lparr>lo_appname := appname\<rparr>"

definition setDefaultLogLevel :: "Level \<Rightarrow> log_data \<Rightarrow> log_data" where
  "setDefaultLogLevel level d = d\<lparr>lo_defaultLevel := level\<rparr>"

section \<open>Writing\<close>

text \<open>What is sent to the log file while it is not open is lost. \<^verbatim>\<open>%b %d %H:%M:%S\<close> is the time
  stamp of the extended format. The prefix goes to the chosen stream, the message to \<^verbatim>\<open>cerr\<close>.\<close>

definition emit :: "stream option \<Rightarrow> string \<Rightarrow> log_globals \<Rightarrow> log_globals" where
  "emit s text g =
     (case s of
        None \<Rightarrow> g
      | Some st \<Rightarrow> if st = Log_file \<and> lg_file g = None then g
                   else g\<lparr>lg_written := lg_written g @ [(st, text)]\<rparr>)"

definition log_prefix :: "log_os \<Rightarrow> log_globals \<Rightarrow> string" where
  "log_prefix os g =
     (let now = ls_now os in
      getMonth (tm_mon now) @ '' '' @ pad2 (tm_mday now) @ '' '' @ pad2 (tm_hour now) @ '':''
      @ pad2 (tm_min now) @ '':'' @ pad2 (tm_sec now) @ '' '' @ lg_hostname g @ '' ''
      @ ls_progname os @ ''['' @ dec (lg_pid g) @ '']: '')"

definition log_line :: "log_data \<Rightarrow> string \<Rightarrow> string" where
  "log_line d msg = ''['' @ lo_appname d @ ''] '' @ msg @ [LF]"

definition Log_write_at :: "log_os \<Rightarrow> log_data \<Rightarrow> string \<Rightarrow> Level \<Rightarrow> log_globals \<Rightarrow> log_globals" where
  "Log_write_at os d msg level g =
     (if level \<le> lg_outputLevel g \<and> lg_outputLevel g \<noteq> OFF \<and> level \<noteq> OFF then
        (let g' = (if lg_extendedFormat g then emit (lg_out g) (log_prefix os g) g else g)
         in emit (Some Cerr) (log_line d msg) g')
      else g)"

definition Log_write :: "log_os \<Rightarrow> log_data \<Rightarrow> string \<Rightarrow> log_globals \<Rightarrow> log_globals" where
  "Log_write os d msg g = Log_write_at os d msg (lo_defaultLevel d) g"

definition Log_call :: "log_os \<Rightarrow> log_data \<Rightarrow> string \<Rightarrow> log_globals \<Rightarrow> log_globals" where
  "Log_call os d msg g = Log_write_at os d msg (lo_defaultLevel d) g"

definition Log_call_at :: "log_os \<Rightarrow> log_data \<Rightarrow> string \<Rightarrow> Level \<Rightarrow> log_globals \<Rightarrow> log_globals" where
  "Log_call_at os d msg level g = Log_write_at os d msg level g"

text \<open>The macros that write what was streamed into \<open>msg\<close>, with the level of their name.\<close>

definition NLOG :: "log_os \<Rightarrow> log_data \<Rightarrow> string \<Rightarrow> log_globals \<Rightarrow> log_globals" where
  "NLOG os d msg g = Log_write os d msg g"

definition NLOG_ERROR :: "log_os \<Rightarrow> log_data \<Rightarrow> string \<Rightarrow> log_globals \<Rightarrow> log_globals" where
  "NLOG_ERROR os d msg g = Log_write_at os d msg ERROR g"

definition NLOG_WARNING :: "log_os \<Rightarrow> log_data \<Rightarrow> string \<Rightarrow> log_globals \<Rightarrow> log_globals" where
  "NLOG_WARNING os d msg g = Log_write_at os d msg WARNING g"

definition NLOG_INFO :: "log_os \<Rightarrow> log_data \<Rightarrow> string \<Rightarrow> log_globals \<Rightarrow> log_globals" where
  "NLOG_INFO os d msg g = Log_write_at os d msg INFORMATIONAL g"

definition NLOG_DEBUG :: "log_os \<Rightarrow> log_data \<Rightarrow> string \<Rightarrow> log_globals \<Rightarrow> log_globals" where
  "NLOG_DEBUG os d msg g = Log_write_at os d msg DEBUG g"

section \<open>Sequences of operations\<close>

text \<open>A world is the shared variables and the objects that live. An operation names its objects.\<close>

type_synonym log_world = "log_globals \<times> (nat \<times> log_data) list"

datatype log_op = Op_new nat | Op_new_named nat string Level | Op_new_level nat Level
  | Op_copy nat nat | Op_assign nat nat | Op_destroy nat
  | Op_setStream nat | Op_setOutfile string | Op_setOutputLevel Level | Op_setExtendedFormat bool
  | Op_lockStream | Op_setAppname nat string | Op_setDefaultLogLevel nat Level
  | Op_write nat string | Op_write_at nat string Level

inductive log_step :: "log_os \<Rightarrow> log_world \<Rightarrow> log_op \<Rightarrow> log_world \<Rightarrow> bool" for os where
  new: "i \<notin> fst ` set objs \<Longrightarrow> Log_new os g = (d, g') \<Longrightarrow>
      log_step os (g, objs) (Op_new i) (g', (i, d) # objs)"
| new_named: "i \<notin> fst ` set objs \<Longrightarrow> Log_new_named os name level g = (d, g') \<Longrightarrow>
      log_step os (g, objs) (Op_new_named i name level) (g', (i, d) # objs)"
| new_level: "i \<notin> fst ` set objs \<Longrightarrow> Log_new_level os level g = (d, g') \<Longrightarrow>
      log_step os (g, objs) (Op_new_level i level) (g', (i, d) # objs)"
| copy: "i \<notin> fst ` set objs \<Longrightarrow> map_of objs j = Some other \<Longrightarrow> Log_copy other g = (d, g') \<Longrightarrow>
      log_step os (g, objs) (Op_copy i j) (g', (i, d) # objs)"
| assign: "map_of objs i = Some this \<Longrightarrow> map_of objs j = Some other \<Longrightarrow>
      Log_assign (i = j) this other g = (d, g') \<Longrightarrow>
      log_step os (g, objs) (Op_assign i j) (g', AList.update i d objs)"
| destroy: "map_of objs i = Some d \<Longrightarrow>
      log_step os (g, objs) (Op_destroy i) (Log_destroy g, AList.delete i objs)"
| setStream: "log_step os (g, objs) (Op_setStream n) (setStream n g, objs)"
| setOutfile: "setOutfile os f g = (r, g') \<Longrightarrow> log_step os (g, objs) (Op_setOutfile f) (g', objs)"
| setOutputLevel: "log_step os (g, objs) (Op_setOutputLevel l) (setOutputLevel l g, objs)"
| setExtendedFormat: "log_step os (g, objs) (Op_setExtendedFormat b) (setExtendedFormat b g, objs)"
| lockStream: "log_step os (g, objs) Op_lockStream (lockStream g, objs)"
| setAppname: "map_of objs i = Some d \<Longrightarrow>
      log_step os (g, objs) (Op_setAppname i name) (g, AList.update i (setAppname name d) objs)"
| setDefaultLogLevel: "map_of objs i = Some d \<Longrightarrow>
      log_step os (g, objs) (Op_setDefaultLogLevel i l) (g, AList.update i (setDefaultLogLevel l d) objs)"
| plain: "map_of objs i = Some d \<Longrightarrow>
      log_step os (g, objs) (Op_write i msg) (Log_write os d msg g, objs)"
| levelled: "map_of objs i = Some d \<Longrightarrow>
      log_step os (g, objs) (Op_write_at i msg l) (Log_write_at os d msg l g, objs)"

code_pred (modes: i \<Rightarrow> i \<Rightarrow> i \<Rightarrow> o \<Rightarrow> bool, i \<Rightarrow> i \<Rightarrow> i \<Rightarrow> i \<Rightarrow> bool) log_step .

inductive_cases log_stepE: "log_step os (g, objs) op (g', objs')"

inductive log_run :: "log_os \<Rightarrow> log_world \<Rightarrow> log_op list \<Rightarrow> log_world \<Rightarrow> bool" for os w where
  none: "log_run os w [] w"
| more: "log_run os w ops w' \<Longrightarrow> log_step os w' op w'' \<Longrightarrow> log_run os w (ops @ [op]) w''"

definition log_start :: log_world where
  "log_start = (log_globals_init, [])"

fun is_assign :: "log_op \<Rightarrow> nat" where
  "is_assign (Op_assign i j) = (if i = j then 0 else 1)"
| "is_assign _ = 0"

definition assigns :: "log_op list \<Rightarrow> nat" where
  "assigns ops = sum_list (map is_assign ops)"

lemma assigns_simps [simp]: "assigns [] = 0" "assigns (ops @ [op]) = assigns ops + is_assign op"
  by (simp_all add: assigns_def)

text \<open>What the lock protects.\<close>

definition settings :: "log_globals \<Rightarrow> stream option \<times> string option \<times> Level \<times> bool" where
  "settings g = (lg_out g, lg_file g, lg_outputLevel g, lg_extendedFormat g)"

section \<open>The invariant\<close>

text \<open>The instance count is the number of live objects plus the number of assignments.\<close>

definition log_inv :: "nat \<Rightarrow> log_world \<Rightarrow> bool" where
  "log_inv n w \<longleftrightarrow> distinct (map fst (snd w)) \<and> \<not> lg_destructed (fst w)
     \<and> lg_instanceCount (fst w) = of_nat (length (snd w) + n)"

lemma emit_fields [simp]:
  "settings (emit s t g) = settings g" "lg_locked (emit s t g) = lg_locked g"
  "lg_destructed (emit s t g) = lg_destructed g" "lg_instanceCount (emit s t g) = lg_instanceCount g"
  by (simp_all add: emit_def settings_def split: option.split)

lemma write_fields [simp]:
  "settings (Log_write_at os d msg l g) = settings g" "lg_locked (Log_write_at os d msg l g) = lg_locked g"
  "lg_destructed (Log_write_at os d msg l g) = lg_destructed g"
  "lg_instanceCount (Log_write_at os d msg l g) = lg_instanceCount g"
  by (simp_all add: Log_write_at_def Let_def)

lemmas log_op_defs = Log_new_def Log_new_named_def Log_new_level_def Log_copy_def Log_assign_def
  Log_destroy_def setStream_def setOutfile_def setOutputLevel_def setExtendedFormat_def
  lockStream_def Log_write_def Let_def

lemma length_update_present: "map_of m k = Some v \<Longrightarrow> length (AList.update k v' m) = length m"
  by (induction m) auto

lemma delete_absent: "k \<notin> fst ` set m \<Longrightarrow> AList.delete k m = m"
  by (induction m) auto

lemma length_delete_present:
  "distinct (map fst m) \<Longrightarrow> map_of m k = Some v \<Longrightarrow> Suc (length (AList.delete k m)) = length m"
proof (induction m)
  case (Cons e m)
  then show ?case using delete_absent [of k m] by (cases e) auto
qed simp

lemma log_step_inv:
  assumes "log_step os w op w'" and "log_inv n w"
  shows "log_inv (n + is_assign op) w'"
  using assms
proof (cases rule: log_step.cases)
  case (destroy objs i d g)
  with assms(2) have "Suc (length (AList.delete i objs)) = length objs"
    by (intro length_delete_present) (auto simp: log_inv_def)
  then have "(of_nat (length objs) :: 32 word) = of_nat (length (AList.delete i objs)) + 1"
    by (metis of_nat_Suc add.commute)
  with assms(2) destroy show ?thesis
    by (auto simp: log_inv_def log_op_defs distinct_delete algebra_simps)
qed (auto simp: log_inv_def log_op_defs distinct_update length_update_present split: if_splits)

lemma log_run_inv: "log_run os log_start ops w \<Longrightarrow> log_inv (assigns ops) w"
proof (induction rule: log_run.induct)
  case none
  show ?case by (simp add: log_inv_def log_start_def log_globals_init_def)
next
  case (more ops w' op w'')
  then show ?case using log_step_inv by simp
qed

text \<open>As long as the count stays below its bound, it is zero exactly when no object lives and no
  assignment has been made.\<close>

lemma count_zero: "log_inv n w \<Longrightarrow> length (snd w) + n < 2 ^ 32 \<Longrightarrow>
    lg_instanceCount (fst w) = 0 \<longleftrightarrow> snd w = [] \<and> n = 0"
  unfolding log_inv_def by (auto simp: word_of_nat_eq_0_iff simp del: of_nat_add dest: nat_dvd_not_less)

lemma settings_frame [simp]:
  "settings (g\<lparr>lg_instanceCount := c\<rparr>) = settings g" "settings (g\<lparr>lg_locked := b\<rparr>) = settings g"
  by (simp_all add: settings_def)

lemma locked_step:
  assumes inv: "log_inv n (g, objs)" and step: "log_step os (g, objs) op (g', objs')"
    and small: "length objs + n < 2 ^ 32" and busy: "objs \<noteq> [] \<or> n \<noteq> 0" and lock: "lg_locked g"
  shows "if objs' = [] \<and> n + is_assign op = 0 \<and> objs \<noteq> []
      then \<not> lg_locked g' \<and> lg_file g' = None
      else lg_locked g' \<and> settings g' = settings g"
proof -
  from inv busy small have pos: "lg_instanceCount g \<noteq> 0" using count_zero [of n "(g, objs)"] by auto
  from log_step_inv [OF step inv] have inv': "log_inv (n + is_assign op) (g', objs')" .
  from step show ?thesis
  proof (cases rule: log_step.cases)
    case (destroy i d)
    from destroy inv have "Suc (length objs') = length objs"
      using length_delete_present by (fastforce simp: log_inv_def)
    with small have "length objs' + n < 2 ^ 32" by simp
    with inv' destroy have "lg_instanceCount g' = 0 \<longleftrightarrow> objs' = [] \<and> n = 0"
      using count_zero [of n "(g', objs')"] by simp
    with destroy inv lock \<open>Suc (length objs') = length objs\<close> show ?thesis
      by (auto simp: log_inv_def log_op_defs split: if_splits)
  qed (use inv pos lock in \<open>auto simp: log_inv_def log_op_defs split: if_splits
      dest: length_update_present\<close>)
qed

section \<open>The effect of a write\<close>

lemma write_at_effect:
  "let g' = Log_write_at os d msg level g
   in if level = OFF \<or> lg_outputLevel g < level then g' = g
      else \<exists>prefix. lg_written g' = lg_written g @ prefix @ [(Cerr, ''['' @ lo_appname d @ ''] '' @ msg @ [LF])]
             \<and> (prefix = [] \<or> (\<exists>s. lg_extendedFormat g \<and> lg_out g = Some s \<and> prefix = [(s, log_prefix os g)]))"
proof (cases "level = OFF \<or> lg_outputLevel g < level")
  case True
  then show ?thesis by (auto simp: Log_write_at_def)
next
  case False
  then have ok: "level \<le> lg_outputLevel g" "level \<noteq> OFF" "lg_outputLevel g \<noteq> OFF"
    using antisym [OF _ level_bounds(1), of level] by (auto simp: not_less)
  then show ?thesis using False
    by (auto simp: Log_write_at_def emit_def log_line_def Let_def split: option.split)
qed

end
