(* ===== verification/Nawarun.thy ===== *)
theory Nawarun
  imports Complex_Main Lifecycle Logging
begin

text \<open>
  The runner \<^verbatim>\<open>nawarun\<close> (\<^verbatim>\<open>src/nawarun/nawarun.cpp\<close>): command line, concurrency, privileges, loading
  of the application, start, signals. What the process asks the system and the dynamic loader is
  in the record \<open>nawarun_os\<close>; what it does to them is the list of events of the state, in order.
  An application is a library with its version, its \<^verbatim>\<open>init\<close> and its \<^verbatim>\<open>handleRequest\<close>. Messages
  are events too; the debug lines, whose text is that of the library's debug messages, are left out.
\<close>

section \<open>The command line\<close>

record Parameters =
  pa_configFile :: "string option"
  pa_configOverrides :: "((string \<times> string) \<times> string) list"

text \<open>\<^verbatim>\<open>printHelpAndExit\<close> and \<^verbatim>\<open>printVersionAndExit\<close> end the process with code 0.\<close>

datatype command_line = Run_with Parameters "string list" | Help_printed | Version_printed

definition parse_override :: "string \<Rightarrow> ((string \<times> string) \<times> string) option" where
  "parse_override currentArg =
     (if take 2 currentArg = ''--'' then
        (case splitString (drop 2 currentArg) (CHR ''='') True of
           [ident, val] \<Rightarrow>
             (case splitString ident (CHR '':'') True of
                [category, key] \<Rightarrow> Some ((category, key), val)
              | _ \<Rightarrow> None)
         | _ \<Rightarrow> None)
      else None)"

text \<open>The loop after the first argument's options; only the last argument may name the config file.
  Any other argument that is not an override is ignored with a warning.\<close>

definition ignored_argument :: "string \<Rightarrow> string" where
  "ignored_argument currentArg = ''WARNING: Invalid command line argument '' @ [DQUOTE] @ currentArg @ [DQUOTE] @ '' will be ignored''"

fun parse_args :: "string list \<Rightarrow> ((string \<times> string) \<times> string) list \<Rightarrow> string list
    \<Rightarrow> string option \<times> bool \<times> ((string \<times> string) \<times> string) list \<times> string list" where
  "parse_args [] overrides warnings = (None, False, overrides, warnings)"
| "parse_args (currentArg # rest) overrides warnings =
     (case parse_override currentArg of
        Some ov \<Rightarrow> parse_args rest (overrides @ [ov]) warnings
      | None \<Rightarrow>
          (if rest = [] then
             (if currentArg \<noteq> ''--no-config-file'' then (Some currentArg, False, overrides, warnings)
              else (None, True, overrides, warnings))
           else parse_args rest overrides (warnings @ [ignored_argument currentArg])))"

definition parseCommandLine :: "string list \<Rightarrow> command_line" where
  "parseCommandLine argv =
     (let args = drop 1 argv in
      if args \<noteq> [] \<and> hd args \<in> {''--help'', ''-h''} then Help_printed
      else if args \<noteq> [] \<and> hd args \<in> {''--version'', ''-v''} then Version_printed
      else
        let (configPath, noConfigFile, overrides, warnings) = parse_args args [] [];
            configPath = (if configPath = None \<and> \<not> noConfigFile then Some ''config.ini'' else configPath)
        in Run_with \<lparr>pa_configFile = configPath, pa_configOverrides = overrides\<rparr> warnings)"

section \<open>The state of the process\<close>

text \<open>A library's symbols are found or not (\<open>None\<close>). \<open>nr_join\<close> tells whether waiting for the server's
  threads comes to an end, given the calls made to the network library so far.\<close>

record 'b app_library =
  al_version_major :: "int option"
  al_version_minor :: "int option"
  al_init :: "(app_init \<Rightarrow> int \<times> app_init) option"
  al_handleRequest :: "'b app option"

record 'b nawarun_os =
  nr_files :: "string \<Rightarrow> string option"
  nr_dlopen :: "string \<Rightarrow> 'b app_library option"
  nr_version :: "int \<times> int"
  nr_uid :: nat
  nr_getpwnam :: "string \<Rightarrow> nat option"
  nr_getgrnam :: "string \<Rightarrow> nat option"
  nr_groups :: "string \<Rightarrow> nat \<Rightarrow> nat list"
  nr_groups_read :: bool
  nr_setgroups :: bool
  nr_setgid :: bool
  nr_setuid :: bool
  nr_http_listening :: "string \<Rightarrow> string \<Rightarrow> bool"
  nr_fcgi_listening :: "fcgi_socket \<Rightarrow> bool"
  nr_threads :: nat
  nr_fcgi_started :: bool
  nr_join :: "server_call list \<Rightarrow> bool"
  nr_hardware_concurrency :: nat
  nr_stod :: "string \<Rightarrow> rat result"
  nr_round :: "rat \<Rightarrow> rat"

datatype event =
    Message Level string | Printed string | Signal_handler string string | Dlopen nat string | Dlclose nat | Setgroups "nat list" | Setgid nat
  | Setuid nat | Handler_created | Init nat | Reconfigured | Started | Stopped | Slept "32 word" | Terminated | Joined
  | Destroyed "server_call list"

definition setUpSignalHandlers :: "event list" where
  [simp]: "setUpSignalHandlers = [Signal_handler ''SIGINT'' ''shutdown'', Signal_handler ''SIGTERM'' ''shutdown'',
     Signal_handler ''SIGUSR1'' ''shutdown'', Signal_handler ''SIGHUP'' ''reload'']"

text \<open>
  \<open>nw_handler\<close> is \<^verbatim>\<open>requestHandlerPtr\<close> with the configuration it holds and the library whose function
  it calls; \<open>nw_main\<close> is the library \<^verbatim>\<open>run\<close> itself refers to until it returns.
\<close>

record 'b running =
  ru_server :: handler
  ru_config :: "'b request_handler"
  ru_library :: nat

record 'b nawarun =
  nw_handler :: "'b running option"
  nw_configFile :: "string option"
  nw_readyToReconfigure :: bool
  nw_terminationTimeout :: "32 word"
  nw_log :: log_globals
  nw_main :: "nat option"
  nw_opened :: nat
  nw_events :: "event list"

definition nawarun_init :: "log_globals \<Rightarrow> 'b nawarun" where
  "nawarun_init g =
     \<lparr>nw_handler = None, nw_configFile = None, nw_readyToReconfigure = False, nw_terminationTimeout = 10,
      nw_log = g, nw_main = None, nw_opened = 0, nw_events = []\<rparr>"

definition happen :: "event list \<Rightarrow> 'b nawarun \<Rightarrow> 'b nawarun" where
  "happen es st = st\<lparr>nw_events := nw_events st @ es\<rparr>"

lemma happen_fields [simp]:
  "nw_handler (happen es st) = nw_handler st" "nw_configFile (happen es st) = nw_configFile st"
  "nw_readyToReconfigure (happen es st) = nw_readyToReconfigure st"
  "nw_terminationTimeout (happen es st) = nw_terminationTimeout st" "nw_log (happen es st) = nw_log st"
  "nw_main (happen es st) = nw_main st" "nw_opened (happen es st) = nw_opened st"
  "nw_events (happen es st) = nw_events st @ es"
  by (simp_all add: happen_def)

fun getMessage :: "cxx_error \<Rightarrow> string" where
  "getMessage (NawaException n m) = m"
| "getMessage e = []"

section \<open>Configuration\<close>

definition setTerminationTimeout :: "config \<Rightarrow> 'b nawarun \<Rightarrow> unit result \<times> 'b nawarun" where
  "setTerminationTimeout cfg st =
     (let s = Config_get cfg (''system'', ''termination_timeout'') in
      if s = [] then (Inr (), st)
      else case stoul 10 s of
        Inr n \<Rightarrow> (Inr (), st\<lparr>nw_terminationTimeout := of_nat n\<rparr>)
      | Inl InvalidArgument \<Rightarrow>
          (Inr (), happen [Message WARNING (''WARNING: Invalid termination timeout given in configuration, ''
             @ ''default value or previous value will be used.'')] st)
      | Inl e \<Rightarrow> (Inl e, st))"

definition loadConfig :: "'b nawarun_os \<Rightarrow> bool \<Rightarrow> 'b nawarun \<Rightarrow> config option \<times> 'b nawarun" where
  "loadConfig os reload st =
     (case nw_configFile st of
        None \<Rightarrow> (Some Config_new, st)
      | Some f \<Rightarrow>
          (case Config_file (nr_files os) f of
             Inr cfg \<Rightarrow> (Some cfg, st)
           | Inl e \<Rightarrow>
               (None, happen
                  (if reload
                   then [Message ERROR (''ERROR: Could not reload config: '' @ getMessage e),
                         Message WARNING ''WARNING: App will not be reloaded as well'']
                   else [Message ERROR (''Fatal Error: Could not load config: '' @ getMessage e)]) st)))"

definition setUpLogging :: "config \<Rightarrow> log_globals \<Rightarrow> log_globals" where
  "setUpLogging cfg g =
     (let configuredLogLevel = Config_get cfg (''logging'', ''level'');
          g = (if configuredLogLevel = ''off'' then setOutputLevel OFF g
               else if configuredLogLevel = ''error'' then setOutputLevel ERROR g
               else if configuredLogLevel = ''warning'' then setOutputLevel WARNING g
               else if configuredLogLevel = ''debug'' then setOutputLevel DEBUG g else g);
          g = (if Config_get cfg (''logging'', ''extended'') = ''on'' then setExtendedFormat True g else g)
      in lockStream g)"

text \<open>
  \<^verbatim>\<open>stod\<close> yields a finite double, as the rational it stands for, and \<open>nr_round\<close> rounds a product to
  one. The conversion to \<^verbatim>\<open>unsigned int\<close> cuts the fraction off and is undefined outside its range.
\<close>

definition to_uint :: "rat \<Rightarrow> nat result" where
  "to_uint x = (if - 1 < x \<and> x < 2 ^ 32 then Inr (nat \<lfloor>x\<rfloor>) else Inl Undefined)"

definition getConcurrency :: "'b nawarun_os \<Rightarrow> config \<Rightarrow> nat result \<times> event list" where
  "getConcurrency os cfg =
     (let finish = (\<lambda>cReal.
            to_uint (if Config_get cfg (''system'', ''concurrency'') = ''hardware''
                     then max 1 (nr_round os (of_nat (nr_hardware_concurrency os) * cReal)) else cReal))
      in if Config_isSet cfg (''system'', ''threads'')
         then (case nr_stod os (Config_get cfg (''system'', ''threads'')) of
             Inr cReal \<Rightarrow> (finish cReal, [])
           | Inl InvalidArgument \<Rightarrow>
               (finish 1, [Message WARNING
                  ''WARNING: Invalid value given for system/concurrency given in the config file.''])
           | Inl e \<Rightarrow> (Inl e, []))
         else (finish 1, []))"

section \<open>Privileges\<close>

definition preparePrivilegeDowngrade ::
    "'b nawarun_os \<Rightarrow> config \<Rightarrow> (nat \<times> nat \<times> nat list) option result \<times> event list" where
  "preparePrivilegeDowngrade os cfg =
     (if nr_uid os = 0 then
        (if \<not> Config_isSet cfg (''privileges'', ''user'') \<or> \<not> Config_isSet cfg (''privileges'', ''group'')
         then (Inl (NawaException 1 (''Running as root and user or group for privilege downgrade is not set ''
                 @ ''in the configuration.'')), [])
         else
           let username = Config_get cfg (''privileges'', ''user'');
               groupname = Config_get cfg (''privileges'', ''group'')
           in case (nr_getpwnam os username, nr_getgrnam os groupname) of
                (Some privUID, Some privGID) \<Rightarrow>
                  (if privUID = 0 \<or> privGID = 0
                   then (Inr (Some (privUID, privGID, [])),
                         [Message WARNING ''WARNING: nawarun will be running as user or group root. Security risk!''])
                   else if nr_groups_read os
                   then (Inr (Some (privUID, privGID, nr_groups os username privGID)), [])
                   else (Inr (Some (privUID, privGID, [privGID])),
                         [Message WARNING (''WARNING: Could not get supplementary groups for user '' @ username)]))
              | _ \<Rightarrow> (Inl (NawaException 2 (''The user or group name for privilege downgrade given in the ''
                       @ ''configuration is invalid.'')), []))
      else (Inr None, [Message WARNING ''WARNING: Not starting as root, cannot set privileges.'']))"

text \<open>The calls of the downgrade, and whether it went through; otherwise the process exits with 1.\<close>

definition doPrivilegeDowngrade :: "'b nawarun_os \<Rightarrow> nat \<times> nat \<times> nat list \<Rightarrow> bool \<times> event list" where
  "doPrivilegeDowngrade os = (\<lambda>(uid, gid, supplementaryGroups).
     let groups = uid \<noteq> 0 \<and> gid \<noteq> 0;
         es = (if groups then [Setgroups supplementaryGroups] else [])
     in if groups \<and> \<not> nr_setgroups os
        then (False, es @ [Message ERROR
                ''Fatal Error: Could not set supplementary groups during privilege downgrade.''])
        else if nr_setgid os \<and> nr_setuid os then (True, es @ [Setgid gid, Setuid uid])
        else (False, es @ [Setgid gid] @ (if nr_setgid os then [Setuid uid] else [])
                @ [Message ERROR ''Fatal Error: Could not set privileges during privilege downgrade.'']))"

section \<open>The application\<close>

definition loadAppSymbol :: "'a option \<Rightarrow> string \<Rightarrow> 'a result" where
  "loadAppSymbol symbol error = (case symbol of None \<Rightarrow> Inl (NawaException 11 error) | Some x \<Rightarrow> Inr x)"

text \<open>\<open>lib_id\<close> numbers the libraries opened; the wrapper of the function closes its library when it ends.\<close>

definition closeApp :: "nat \<Rightarrow> event list \<Rightarrow> event list" where
  "closeApp lib_id es = es @ [Dlclose lib_id]"

type_synonym 'b app_functions = "(app_init \<Rightarrow> int \<times> app_init) \<times> ('b, nat, event list) function_wrapper"

definition loadAppFunctions ::
    "'b nawarun_os \<Rightarrow> config \<Rightarrow> 'b nawarun \<Rightarrow> 'b app_functions result \<times> 'b nawarun" where
  "loadAppFunctions os cfg st =
     (let appPath = Config_get cfg (''application'', ''path'') in
      if appPath = [] then (Inl (NawaException 1 ''Application path not set in config file.''), st)
      else case nr_dlopen os appPath of
        None \<Rightarrow> (Inl (NawaException 2 ''Application file could not be loaded.''), st)
      | Some lib \<Rightarrow>
          (let lib_id = nw_opened st;
               appVersionError = ''Could not read nawa version from application.''
           in (bind_result (loadAppSymbol (al_version_major lib) appVersionError) (\<lambda>major.
               bind_result (loadAppSymbol (al_version_minor lib) appVersionError) (\<lambda>minor.
                 if (major, minor) \<noteq> nr_version os
                 then Inl (NawaException 3 ''App has been compiled against another version of NAWA.'')
                 else
                   bind_result (loadAppSymbol (al_init lib) ''Could not load init function from application.'')
                     (\<lambda>appInit.
                   bind_result (loadAppSymbol (al_handleRequest lib)
                       ''Could not load handleRequest function from application.'') (\<lambda>appHandleRequest.
                     Inr (appInit, \<lparr>hw_handleRequestFunction = appHandleRequest, hw_reference = lib_id,
                                     hw_destructionCallback = Some closeApp\<rparr>))))),
               happen [Dlopen lib_id appPath] (st\<lparr>nw_opened := nw_opened st + 1\<rparr>))))"

definition drop_wrapper :: "('b, nat, event list) function_wrapper \<Rightarrow> 'b nawarun \<Rightarrow> 'b nawarun" where
  "drop_wrapper hw st = st\<lparr>nw_events := wrapper_destroy hw (nw_events st)\<rparr>"

definition AppInit_new :: "config \<Rightarrow> nat \<Rightarrow> app_init" where
  "AppInit_new cfg n = \<lparr>ai_config = cfg, ai_accessFilters = AccessFilterList_default, ai_numThreads = n\<rparr>"

section \<open>The request handler\<close>

definition server_start :: "'b nawarun_os \<Rightarrow> handler \<Rightarrow> unit result \<times> handler" where
  "server_start os h =
     (case h of
        Handler_http s \<Rightarrow> (let (r, s) = Http_start (nr_threads os) s in (r, Handler_http s))
      | Handler_fcgi c s \<Rightarrow> (let (r, s) = Fcgi_start (nr_fcgi_started os) s in (r, Handler_fcgi c s)))"

definition server_map :: "(http_server \<Rightarrow> http_server) \<Rightarrow> (fcgi_server \<Rightarrow> fcgi_server) \<Rightarrow> handler \<Rightarrow> handler" where
  "server_map f g h = (case h of Handler_http s \<Rightarrow> Handler_http (f s) | Handler_fcgi c s \<Rightarrow> Handler_fcgi c (g s))"

definition on_server :: "(handler \<Rightarrow> handler) \<Rightarrow> 'b running \<Rightarrow> 'b running" where
  "on_server f r = r\<lparr>ru_server := f (ru_server r)\<rparr>"

text \<open>\<^verbatim>\<open>shutdown(signum)\<close>: \<open>hard\<close> is \<^verbatim>\<open>signum != SIGUSR1\<close>, and \<open>gone\<close> tells whether \<^verbatim>\<open>run\<close> has reset the
  handler while the signal handler slept. \<open>None\<close> is the end of the process with code 0.\<close>

definition shutdown :: "string \<Rightarrow> bool \<Rightarrow> bool \<Rightarrow> 'b nawarun \<Rightarrow> 'b nawarun option" where
  "shutdown signum hard gone st =
     (let st = happen [Message INFORMATIONAL (''Terminating on signal '' @ signum)] st in
      case nw_handler st of
        None \<Rightarrow> None
      | Some r \<Rightarrow>
          (let r = on_server (server_map Http_stop Fcgi_stop) r;
               st = happen [Stopped, Slept (nw_terminationTimeout st)] (st\<lparr>nw_handler := Some r\<rparr>)
           in if \<not> gone \<and> hard
              then Some (happen [Message INFORMATIONAL ''Enforcing termination now, ignoring pending requests.'',
                       Terminated] (st\<lparr>nw_handler := Some (on_server (server_map Http_terminate Fcgi_terminate) r)\<rparr>))
              else Some st))"

definition reconfigure_config :: "config \<Rightarrow> 'b running \<Rightarrow> 'b running" where
  "reconfigure_config cfg r = r\<lparr>ru_config := reconfigure None None (Some cfg) (ru_config r)\<rparr>"

definition with_handler :: "'b running \<Rightarrow> 'b nawarun \<Rightarrow> 'b nawarun" where
  "with_handler r st = happen [Reconfigured] (st\<lparr>nw_handler := Some r, nw_readyToReconfigure := True\<rparr>)"

text \<open>
  Replacing the function drops the handler's reference to the old wrapper, which closes its library
  unless \<^verbatim>\<open>run\<close> still refers to it. A new wrapper that is not used is dropped.
\<close>

definition replace_library :: "'b running \<Rightarrow> 'b nawarun \<Rightarrow> 'b nawarun" where
  "replace_library r st = (if nw_main st = Some (ru_library r) then st else happen [Dlclose (ru_library r)] st)"

definition reload_app :: "'b nawarun_os \<Rightarrow> config \<Rightarrow> 'b running \<Rightarrow> 'b nawarun \<Rightarrow> unit result \<times> 'b nawarun" where
  "reload_app os cfg r st =
     (case loadAppFunctions os cfg st of
        (Inl e, st) \<Rightarrow>
          (Inr (), with_handler (reconfigure_config cfg r)
             (happen [Message ERROR (''ERROR: Could not reload app: '' @ getMessage e),
                      Message WARNING ''WARNING: Configuration will be reloaded anyway''] st))
      | (Inr (appInit, hw), st) \<Rightarrow>
          (case getConcurrency os cfg of
             (Inl e, es) \<Rightarrow> (Inl e, drop_wrapper hw (happen es st))
           | (Inr n, es) \<Rightarrow>
               (let st = happen (es @ [Init (hw_reference hw)]) st;
                    (initReturn, ai) = appInit (AppInit_new cfg n)
                in if initReturn \<noteq> 0
                   then (Inr (), drop_wrapper hw (with_handler (reconfigure_config cfg r)
                          (happen [Message ERROR (''ERROR: App init function returned '' @ dec_int initReturn
                                     @ '' -- cancelling reload of app.''),
                                   Message WARNING ''WARNING: Configuration will be reloaded anyway''] st)))
                   else
                     (let r' = r\<lparr>ru_library := hw_reference hw, ru_config := reconfigure
                             (Some (Some (wrapper_call hw))) (Some (ai_accessFilters ai)) (Some (ai_config ai))
                             (ru_config r)\<rparr>
                      in (Inr (), replace_library r (with_handler r' st))))))"

definition reload :: "'b nawarun_os \<Rightarrow> string \<Rightarrow> 'b nawarun \<Rightarrow> unit result \<times> 'b nawarun" where
  "reload os signum st =
     (if nw_configFile st = None
      then (Inr (), happen [Message WARNING (''WARNING: Reloading is not supported without config file and will ''
             @ ''therefore not happen.'')] st)
      else
        case nw_handler st of
          None \<Rightarrow> (Inr (), st)
        | Some r \<Rightarrow>
            (if \<not> nw_readyToReconfigure st then (Inr (), st)
             else
               let st = happen [Message INFORMATIONAL (''Reloading config and app on signal '' @ signum)]
                    (st\<lparr>nw_readyToReconfigure := False\<rparr>)
               in case loadConfig os True st of
                    (None, st) \<Rightarrow> (Inr (), st\<lparr>nw_readyToReconfigure := True\<rparr>)
                  | (Some cfg, st) \<Rightarrow>
                      (case setTerminationTimeout cfg st of
                         (Inl e, st) \<Rightarrow> (Inl e, st)
                       | (Inr _, st) \<Rightarrow> reload_app os cfg r st)))"

section \<open>Running\<close>

datatype signal = Sig_shutdown string bool bool | Sig_reload string

text \<open>\<open>Waiting\<close>: \<^verbatim>\<open>run\<close> has not returned, but stands in \<^verbatim>\<open>join\<close> and waits for the server's threads.\<close>

datatype exit = Return int | Exit int | Raised cxx_error | Waiting

text \<open>The signals that arrive while \<^verbatim>\<open>run\<close> waits in \<^verbatim>\<open>join\<close>, in order. An exception ends the process.\<close>

fun handle_signals :: "'b nawarun_os \<Rightarrow> signal list \<Rightarrow> 'b nawarun \<Rightarrow> exit option \<times> 'b nawarun" where
  "handle_signals os [] st = (None, st)"
| "handle_signals os (Sig_shutdown s hard gone # sigs) st =
     (case shutdown s hard gone st of
        None \<Rightarrow> (Some (Exit 0), st)
      | Some st \<Rightarrow> handle_signals os sigs st)"
| "handle_signals os (Sig_reload s # sigs) st =
     (case reload os s st of
        (Inl e, st) \<Rightarrow> (Some (Raised e), st)
      | (Inr _, st) \<Rightarrow> handle_signals os sigs st)"

definition fatal :: "cxx_error \<Rightarrow> 'b nawarun \<Rightarrow> exit \<times> 'b nawarun" where
  "fatal e st =
     (case e of
        NawaException n m \<Rightarrow> (Return 1, happen [Message ERROR (''Fatal Error: '' @ m)] st)
      | _ \<Rightarrow> (Raised e, st))"

definition new_running :: "config \<Rightarrow> ('b, nat, event list) function_wrapper \<Rightarrow> handler \<Rightarrow> 'b running" where
  "new_running cfg hw h =
     \<lparr>ru_server = h, ru_config = setConfig cfg (setAppRequestHandler (Some (wrapper_call hw)) RequestHandler_default),
      ru_library = hw_reference hw\<rparr>"

definition server_calls :: "handler \<Rightarrow> server_call list" where
  "server_calls h = (case h of Handler_http s \<Rightarrow> hs_calls s | Handler_fcgi c s \<Rightarrow> fs_calls s)"

text \<open>
  Joining and destroying the handler; its library is closed after it, then the one \<^verbatim>\<open>run\<close> loaded. All
  that needs the threads to end first: unless they do, \<^verbatim>\<open>join\<close> blocks, and nothing after it happens.
\<close>

definition finish_run ::
    "'b nawarun_os \<Rightarrow> ('b, nat, event list) function_wrapper \<Rightarrow> 'b nawarun \<Rightarrow> exit \<times> 'b nawarun" where
  "finish_run os hw st =
     (case nw_handler st of
        None \<Rightarrow> (Raised Undefined, st)
      | Some r \<Rightarrow>
          (if \<not> nr_join os (server_calls (ru_server r)) then (Waiting, st)
           else
             let h = server_map Http_join Fcgi_join (ru_server r);
                 h = server_map Http_destroy Fcgi_destroy h;
                 st = happen [Joined, Destroyed (server_calls h)] (st\<lparr>nw_handler := None\<rparr>)
             in (Return 0, drop_wrapper hw (replace_library r st))))"

text \<open>From the start of the server on.\<close>

definition serve_requests ::
    "'b nawarun_os \<Rightarrow> signal list \<Rightarrow> ('b, nat, event list) function_wrapper \<Rightarrow> 'b running \<Rightarrow> 'b nawarun
       \<Rightarrow> exit \<times> 'b nawarun" where
  "serve_requests os sigs hw r st =
     (case server_start os (ru_server r) of
        (Inr _, h) \<Rightarrow>
          (let st = happen [Started] (st\<lparr>nw_handler := Some (r\<lparr>ru_server := h\<rparr>), nw_readyToReconfigure := True\<rparr>)
           in case handle_signals os sigs st of
                (Some x, st) \<Rightarrow> (x, st)
              | (None, st) \<Rightarrow> finish_run os hw st)
      | (Inl e, h) \<Rightarrow>
          (let st = st\<lparr>nw_handler := Some (r\<lparr>ru_server := h\<rparr>)\<rparr> in
           case fatal e st of
             (Return _, st) \<Rightarrow>
               (case handle_signals os sigs st of
                  (Some x, st) \<Rightarrow> (x, st)
                | (None, st) \<Rightarrow> finish_run os hw st)
           | (x, st) \<Rightarrow> (x, st)))"

text \<open>The application's \<^verbatim>\<open>init\<close>, once the handler exists and the privileges are down.\<close>

definition init_and_serve ::
    "'b nawarun_os \<Rightarrow> signal list \<Rightarrow> config \<Rightarrow> nat \<Rightarrow> 'b app_functions \<Rightarrow> 'b running \<Rightarrow> 'b nawarun
       \<Rightarrow> exit \<times> 'b nawarun" where
  "init_and_serve os sigs cfg concurrency = (\<lambda>(appInit, hw) r st.
     let st = happen [Init (hw_reference hw)] st;
         (initReturn, ai) = appInit (AppInit_new cfg concurrency)
     in if initReturn \<noteq> 0
        then (Return 1, happen [Message ERROR (''Fatal Error: App init function returned '' @ dec_int initReturn
                 @ '' -- exiting.'')] st)
        else
          let r = r\<lparr>ru_config := reconfigure None (Some (ai_accessFilters ai)) (Some (ai_config ai)) (ru_config r)\<rparr>
          in serve_requests os sigs hw r (happen [Reconfigured] (st\<lparr>nw_handler := Some r\<rparr>)))"

definition create_handler ::
    "'b nawarun_os \<Rightarrow> signal list \<Rightarrow> config \<Rightarrow> (nat \<times> nat \<times> nat list) option \<Rightarrow> 'b app_functions \<Rightarrow> 'b nawarun
       \<Rightarrow> exit \<times> 'b nawarun" where
  "create_handler os sigs cfg privilegeDowngradeData f st =
     (case getConcurrency os cfg of
        (Inl e, es) \<Rightarrow> (Raised e, happen es st)
      | (Inr concurrency, es) \<Rightarrow>
          (let st = happen es st in
           case newRequestHandler (nr_http_listening os) (nr_fcgi_listening os) cfg
                  (sint (of_nat concurrency :: 32 word)) of
             Inl e \<Rightarrow> (let (x, st) = fatal e st in (x, if x = Return 1 then drop_wrapper (snd f) st else st))
           | Inr h \<Rightarrow>
               (let r = new_running cfg (snd f) h;
                    st = happen [Handler_created] (st\<lparr>nw_handler := Some r\<rparr>)
                in case privilegeDowngradeData of
                     None \<Rightarrow> init_and_serve os sigs cfg concurrency f r st
                   | Some d \<Rightarrow>
                       (case doPrivilegeDowngrade os d of
                          (False, es) \<Rightarrow> (Exit 1, happen es st)
                        | (True, es) \<Rightarrow> init_and_serve os sigs cfg concurrency f r (happen es st)))))"

definition run :: "'b nawarun_os \<Rightarrow> Parameters \<Rightarrow> signal list \<Rightarrow> 'b nawarun \<Rightarrow> exit \<times> 'b nawarun" where
  "run os parameters sigs st =
     (case loadConfig os False (happen setUpSignalHandlers (st\<lparr>nw_configFile := pa_configFile parameters\<rparr>)) of
        (None, st) \<Rightarrow> (Return 1, st)
      | (Some cfg, st) \<Rightarrow>
          (let cfg = Config_override (pa_configOverrides parameters) cfg in
           case setTerminationTimeout cfg st of
             (Inl e, st) \<Rightarrow> (Raised e, st)
           | (Inr _, st) \<Rightarrow>
               (let st = st\<lparr>nw_log := setUpLogging cfg (nw_log st)\<rparr> in
                case preparePrivilegeDowngrade os cfg of
                  (Inl e, es) \<Rightarrow> fatal e (happen es st)
                | (Inr privilegeDowngradeData, es) \<Rightarrow>
                    (case loadAppFunctions os cfg (happen es st) of
                       (Inl e, st) \<Rightarrow> fatal e st
                     | (Inr f, st) \<Rightarrow>
                         create_handler os sigs cfg privilegeDowngradeData f
                           (st\<lparr>nw_main := Some (hw_reference (snd f))\<rparr>)))))"

text \<open>The two options that end the process.\<close>

definition version_text :: "'b nawarun_os \<Rightarrow> string" where
  "version_text os = dec_int (fst (nr_version os)) @ ''.'' @ dec_int (snd (nr_version os)) @ [LF]"

definition printHelpAndExit :: "'b nawarun_os \<Rightarrow> 'b nawarun \<Rightarrow> exit \<times> 'b nawarun" where
  "printHelpAndExit os st = (Exit 0, happen [Printed (
       ''nawarun is the runner for NAWA web applications.'' @ [LF, LF]
     @ ''Usage: nawarun [<overrides>] [<config-file> | --no-config-file]'' @ [LF, LF]
     @ ''Format for configuration overrides: --<category>:<key>=<value>'' @ [LF, LF]
     @ ''If no config file is given, nawarun will try to use config.ini from the current'' @ [LF]
     @ ''working directory, unless the --no-config-file option is given. The config file'' @ [LF]
     @ ''as well as --no-config-file are only accepted as the last command line argument'' @ [LF]
     @ ''after the overrides.'' @ [LF, LF]
     @ ''nawarun version '' @ version_text os)] st)"

definition printVersionAndExit :: "'b nawarun_os \<Rightarrow> 'b nawarun \<Rightarrow> exit \<times> 'b nawarun" where
  "printVersionAndExit os st = (Exit 0, happen [Printed (version_text os)] st)"

text \<open>\<^verbatim>\<open>main\<close>, and \<^verbatim>\<open>nawarun::replaceLogger\<close>, an assignment to the logger object.\<close>

definition nawarun_main :: "'b nawarun_os \<Rightarrow> string list \<Rightarrow> signal list \<Rightarrow> 'b nawarun \<Rightarrow> exit \<times> 'b nawarun" where
  "nawarun_main os argv sigs st =
     (case parseCommandLine argv of
        Run_with pa warnings \<Rightarrow> run os pa sigs (happen (map (Message WARNING) warnings) st)
      | Help_printed \<Rightarrow> printHelpAndExit os st
      | Version_printed \<Rightarrow> printVersionAndExit os st)"

definition replaceLogger :: "bool \<Rightarrow> log_data \<Rightarrow> log_data \<Rightarrow> 'b nawarun \<Rightarrow> log_data \<times> 'b nawarun" where
  "replaceLogger same newLog logger st =
     (let (logger, g) = Log_assign same logger newLog (nw_log st) in (logger, st\<lparr>nw_log := g\<rparr>))"

section \<open>Which events happen\<close>

definition is_privilege :: "event \<Rightarrow> bool" where
  "is_privilege e \<longleftrightarrow> (case e of Setgroups gs \<Rightarrow> True | Setgid g \<Rightarrow> True | Setuid u \<Rightarrow> True | _ \<Rightarrow> False)"

text \<open>
  The calls of the application's functions: \<^verbatim>\<open>init\<close> (\<open>Init\<close>), what it asked for put into force
  (\<open>Reconfigured\<close>), and \<^verbatim>\<open>handleRequest\<close>, which the threads call once the server has started (\<open>Started\<close>).
  Opening the library (\<open>Dlopen\<close>) is none of them, although the loader then runs the static constructors of
  the library: that code runs with the privileges the process has at that time.
\<close>

definition calls_app :: "event \<Rightarrow> bool" where
  "calls_app e \<longleftrightarrow> (case e of Init k \<Rightarrow> True | Started \<Rightarrow> True | Reconfigured \<Rightarrow> True | _ \<Rightarrow> False)"

lemma is_privilege_simps [simp]:
  "is_privilege (Setgroups gs)" "is_privilege (Setgid g)" "is_privilege (Setuid u)" "\<not> is_privilege (Message l m)"
  "\<not> is_privilege (Signal_handler s f)" "\<not> is_privilege (Printed str)" "\<not> is_privilege (Dlopen k p)" "\<not> is_privilege (Dlclose k)"
  "\<not> is_privilege Handler_created" "\<not> is_privilege (Init k)" "\<not> is_privilege Reconfigured" "\<not> is_privilege Started"
  "\<not> is_privilege Stopped" "\<not> is_privilege (Slept t)" "\<not> is_privilege Terminated" "\<not> is_privilege Joined"
  "\<not> is_privilege (Destroyed cs)"
  by (simp_all add: is_privilege_def)

lemma calls_app_simps [simp]:
  "calls_app (Init k)" "calls_app Started" "calls_app Reconfigured" "\<not> calls_app (Message l m)"
  "\<not> calls_app (Signal_handler s f)" "\<not> calls_app (Printed str)" "\<not> calls_app (Dlopen k p)" "\<not> calls_app (Dlclose k)" "\<not> calls_app Handler_created"
  "\<not> calls_app (Setgroups gs)" "\<not> calls_app (Setgid g)" "\<not> calls_app (Setuid u)"
  by (simp_all add: calls_app_def)

text \<open>\<open>adds P st st'\<close>: the events of \<open>st'\<close> are those of \<open>st\<close> followed by events that satisfy \<open>P\<close>.\<close>

definition adds :: "(event \<Rightarrow> bool) \<Rightarrow> 'b nawarun \<Rightarrow> 'b nawarun \<Rightarrow> bool" where
  "adds P st st' \<longleftrightarrow> (\<exists>es. nw_events st' = nw_events st @ es \<and> list_all P es)"

named_theorems adds_rules \<open>operations of the runner and the events they add\<close>

lemma adds_refl [adds_rules]: "nw_events st' = nw_events st \<Longrightarrow> adds P st st'"
  by (simp add: adds_def)

lemma adds_trans: "adds P st st' \<Longrightarrow> adds P st' st'' \<Longrightarrow> adds P st st''"
  by (fastforce simp: adds_def)

lemma adds_happen: "adds P st st' \<Longrightarrow> list_all P es \<Longrightarrow> adds P st (happen es st')"
  by (fastforce simp: adds_def)

lemma adds_update [simp]:
  "adds P (st\<lparr>nw_handler := h\<rparr>) st' = adds P st st'" "adds P (st\<lparr>nw_readyToReconfigure := b\<rparr>) st' = adds P st st'"
  "adds P st (st'\<lparr>nw_handler := h\<rparr>) = adds P st st'" "adds P st (st'\<lparr>nw_readyToReconfigure := b\<rparr>) = adds P st st'"
  "adds P st (st'\<lparr>nw_terminationTimeout := t\<rparr>) = adds P st st'" "adds P st (st'\<lparr>nw_main := m\<rparr>) = adds P st st'"
  "adds P (st\<lparr>nw_main := m\<rparr>) st' = adds P st st'" "adds P st (st'\<lparr>nw_log := g\<rparr>) = adds P st st'"
  "adds P st (st'\<lparr>nw_opened := n\<rparr>) = adds P st st'"
  by (simp_all add: adds_def)

lemma adds_refl' [simp]: "adds P st st"
  by (simp add: adds_def)

text \<open>What the steps outside the privileges add: messages, library and life cycle events.\<close>

abbreviation unprivileged :: "'b nawarun \<Rightarrow> 'b nawarun \<Rightarrow> bool" where
  "unprivileged \<equiv> adds (\<lambda>e. \<not> is_privilege e)"

abbreviation quiet :: "'b nawarun \<Rightarrow> 'b nawarun \<Rightarrow> bool" where
  "quiet \<equiv> adds (\<lambda>e. \<not> is_privilege e \<and> e \<noteq> Started)"

abbreviation before_app :: "'b nawarun \<Rightarrow> 'b nawarun \<Rightarrow> bool" where
  "before_app \<equiv> adds (\<lambda>e. \<not> is_privilege e \<and> \<not> calls_app e)"

definition closes :: "('b, nat, event list) function_wrapper \<Rightarrow> bool" where
  "closes hw \<longleftrightarrow> hw_destructionCallback hw = Some closeApp"

lemma drop_wrapper_closes: "closes hw \<Longrightarrow> drop_wrapper hw st = happen [Dlclose (hw_reference hw)] st"
  by (simp add: drop_wrapper_def wrapper_destroy_def closes_def closeApp_def happen_def)

lemma timeout_adds: "setTerminationTimeout cfg st = (x, st') \<Longrightarrow> before_app st st'"
  by (auto simp: setTerminationTimeout_def Let_def intro: adds_happen split: if_splits sum.splits cxx_error.splits)

lemma loadConfig_adds: "loadConfig os b st = (x, st') \<Longrightarrow> before_app st st'"
  by (auto simp: loadConfig_def intro: adds_happen split: option.splits sum.splits)

lemma loadAppFunctions_adds: "loadAppFunctions os cfg st = (x, st') \<Longrightarrow> before_app st st'"
  by (auto simp: loadAppFunctions_def Let_def adds_def split: if_splits option.splits)

lemma concurrency_messages: "getConcurrency os cfg = (x, es) \<Longrightarrow> list_all (\<lambda>e. \<not> is_privilege e \<and> \<not> calls_app e) es"
  by (auto simp: getConcurrency_def Let_def split: if_splits sum.splits cxx_error.splits)

lemma prepare_messages:
  "preparePrivilegeDowngrade os cfg = (x, es) \<Longrightarrow> list_all (\<lambda>e. \<not> is_privilege e \<and> \<not> calls_app e) es"
  by (auto simp: preparePrivilegeDowngrade_def Let_def split: if_splits option.splits)

lemma before_app_quiet: "before_app st st' \<Longrightarrow> quiet st st'"
  by (fastforce simp: adds_def list_all_iff)

lemma quiet_unprivileged: "quiet st st' \<Longrightarrow> unprivileged st st'"
  by (auto simp: adds_def list_all_iff)

lemma wrapper_call_function: "wrapper_call hw = hw_handleRequestFunction hw"
  by (simp add: wrapper_call_def fun_eq_iff)

text \<open>The functions that were loaded, and their wrapper.\<close>

lemma loadAppFunctions_ok:
  assumes "loadAppFunctions os cfg st = (Inr (i, hw), st')"
  shows "closes hw" "hw_reference hw = nw_opened st" "nw_opened st' = Suc (nw_opened st)"
    "nw_handler st' = nw_handler st" "nw_main st' = nw_main st" "nw_configFile st' = nw_configFile st"
    "nw_events st' = nw_events st @ [Dlopen (nw_opened st) (Config_get cfg (''application'', ''path''))]"
    "\<exists>lib. nr_dlopen os (Config_get cfg (''application'', ''path'')) = Some lib \<and>
       al_version_major lib = Some (fst (nr_version os)) \<and> al_version_minor lib = Some (snd (nr_version os)) \<and>
       al_handleRequest lib = Some (wrapper_call hw)"
  using assms
  by (auto simp: loadAppFunctions_def Let_def loadAppSymbol_def closes_def wrapper_call_function prod_eq_iff
      split: if_splits option.splits)

section \<open>The application runs without the privileges\<close>

lemma shutdown_quiet: "shutdown s hard gone st = Some st' \<Longrightarrow> quiet st st'"
  by (auto simp: shutdown_def Let_def adds_def split: option.splits if_splits)

lemma with_handler_quiet: "quiet st st' \<Longrightarrow> quiet st (with_handler r st')"
  by (simp add: with_handler_def adds_happen)

lemma drop_wrapper_quiet: "closes hw \<Longrightarrow> quiet st st' \<Longrightarrow> quiet st (drop_wrapper hw st')"
  by (simp add: drop_wrapper_closes adds_happen)

lemma replace_library_quiet: "quiet st st' \<Longrightarrow> quiet st (replace_library r st')"
  by (simp add: replace_library_def adds_happen)

lemma reload_app_quiet:
  assumes "reload_app os cfg r st = (x, st')"
  shows "quiet st st'"
proof -
  obtain y st1 where l: "loadAppFunctions os cfg st = (y, st1)" by fastforce
  note q = before_app_quiet [OF loadAppFunctions_adds [OF l]]
  show ?thesis
  proof (cases y)
    case (Inl e)
    with l assms q show ?thesis by (auto simp: reload_app_def intro!: with_handler_quiet adds_happen)
  next
    case (Inr f)
    obtain i hw where f: "f = (i, hw)" by fastforce
    from l Inr f have hw: "closes hw" using loadAppFunctions_ok(1) by blast
    obtain z es where c: "getConcurrency os cfg = (z, es)" by fastforce
    from concurrency_messages [OF c] have es: "list_all (\<lambda>e. \<not> is_privilege e \<and> e \<noteq> Started) es"
      by (fastforce simp: list_all_iff)
    have q1: "quiet st (happen es st1)" using adds_happen [OF q es] .
    show ?thesis
    proof (cases z)
      case (Inl e)
      with l Inr f c hw q1 assms show ?thesis by (auto simp: reload_app_def intro: drop_wrapper_quiet)
    next
      case z: (Inr n)
      have q2: "quiet st (happen (es @ [Init (hw_reference hw)]) st1)" using es by (intro adds_happen [OF q]) simp
      obtain ret ai where "i (AppInit_new cfg n) = (ret, ai)" by fastforce
      with l Inr f c z hw q2 assms show ?thesis
        by (auto simp: reload_app_def Let_def split: if_splits
            intro!: drop_wrapper_quiet with_handler_quiet replace_library_quiet adds_happen)
    qed
  qed
qed

lemma reload_quiet:
  assumes "reload os s st = (x, st')"
  shows "quiet st st'"
proof (cases "nw_configFile st = None \<or> nw_handler st = None \<or> \<not> nw_readyToReconfigure st")
  case True
  with assms show ?thesis by (auto simp: reload_def intro: adds_happen split: option.splits if_splits)
next
  case False
  then obtain r where r: "nw_handler st = Some r" "nw_configFile st \<noteq> None" "nw_readyToReconfigure st" by auto
  let ?st = "happen [Message INFORMATIONAL (''Reloading config and app on signal '' @ s)]
    (st\<lparr>nw_readyToReconfigure := False\<rparr>)"
  have q0: "quiet st ?st" by (intro adds_happen) simp_all
  obtain c st1 where l: "loadConfig os True ?st = (c, st1)" by fastforce
  have q1: "quiet st st1" using adds_trans [OF q0 before_app_quiet [OF loadConfig_adds [OF l]]] .
  show ?thesis
  proof (cases c)
    case None
    with r l q1 assms show ?thesis by (auto simp: reload_def Let_def)
  next
    case (Some cfg)
    obtain y st2 where t: "setTerminationTimeout cfg st1 = (y, st2)" by fastforce
    have q2: "quiet st st2" using adds_trans [OF q1 before_app_quiet [OF timeout_adds [OF t]]] .
    from r l Some t assms have "st' = st2 \<or> reload_app os cfg r st2 = (x, st')"
      by (auto simp: reload_def Let_def split: sum.splits)
    then show ?thesis using q2 adds_trans [OF q2 reload_app_quiet] by blast
  qed
qed

lemma signals_quiet: "handle_signals os sigs st = (x, st') \<Longrightarrow> quiet st st'"
proof (induction os sigs st rule: handle_signals.induct)
  case (2 os s hard gone sigs st)
  then show ?case by (auto split: option.splits dest: shutdown_quiet intro: adds_trans)
next
  case (3 os s sigs st)
  obtain y st1 where r: "reload os s st = (y, st1)" by fastforce
  with "3" reload_quiet [OF r] show ?case by (cases y) (auto intro: adds_trans)
qed simp

lemma finish_quiet: "closes hw \<Longrightarrow> finish_run os hw st = (x, st') \<Longrightarrow> quiet st st'"
  by (auto simp: finish_run_def Let_def intro!: drop_wrapper_quiet replace_library_quiet adds_happen
      split: option.splits if_splits)

lemma fatal_quiet: "fatal e st = (x, st') \<Longrightarrow> before_app st st'"
  by (auto simp: fatal_def intro: adds_happen split: cxx_error.splits)

lemma signals_finish_quiet:
  assumes "closes hw" and "quiet st0 st"
    and "(case handle_signals os sigs st of (Some x, st) \<Rightarrow> (x, st) | (None, st) \<Rightarrow> finish_run os hw st) = (y, st')"
  shows "quiet st0 st'"
proof -
  obtain z st1 where s: "handle_signals os sigs st = (z, st1)" by fastforce
  note q = adds_trans [OF assms(2) signals_quiet [OF s]]
  show ?thesis
    using assms(3) s q adds_trans [OF q finish_quiet [OF assms(1)]] by (cases z) auto
qed

lemma serve_failed_quiet:
  assumes "closes hw" and "serve_requests os sigs hw r st = (x, st')" and "server_start os (ru_server r) = (Inl e, h)"
  shows "quiet st st'"
proof -
  let ?st = "st\<lparr>nw_handler := Some (r\<lparr>ru_server := h\<rparr>)\<rparr>"
  obtain z st1 where f: "fatal e ?st = (z, st1)" by fastforce
  have q: "quiet st st1" using before_app_quiet [OF fatal_quiet [OF f]] by simp
  show ?thesis
    using assms(2) q signals_finish_quiet [OF assms(1) q]
    by (cases z) (simp_all add: serve_requests_def assms(3) Let_def f)
qed

lemma serve_unprivileged:
  assumes "closes hw" and "serve_requests os sigs hw r st = (x, st')"
  shows "unprivileged st st'"
proof -
  obtain y h where s: "server_start os (ru_server r) = (y, h)" by fastforce
  show ?thesis
  proof (cases y)
    case (Inr u)
    let ?st = "happen [Started] (st\<lparr>nw_handler := Some (r\<lparr>ru_server := h\<rparr>), nw_readyToReconfigure := True\<rparr>)"
    have "unprivileged st ?st" by (intro adds_happen) simp_all
    moreover have "quiet ?st st'"
      by (rule signals_finish_quiet [OF assms(1)]) (use assms(2) in \<open>simp_all add: serve_requests_def s Inr Let_def\<close>)
    ultimately show ?thesis using adds_trans quiet_unprivileged by blast
  next
    case (Inl e)
    with serve_failed_quiet [OF assms] s show ?thesis by (simp add: quiet_unprivileged)
  qed
qed

definition downgrade_calls :: "nat \<times> nat \<times> nat list \<Rightarrow> event list" where
  "downgrade_calls = (\<lambda>(uid, gid, gs). (if uid \<noteq> 0 \<and> gid \<noteq> 0 then [Setgroups gs] else []) @ [Setgid gid, Setuid uid])"

text \<open>The system grants the calls it is asked for.\<close>

definition downgrade_granted :: "'b nawarun_os \<Rightarrow> nat \<times> nat \<times> nat list \<Rightarrow> bool" where
  "downgrade_granted os = (\<lambda>(uid, gid, gs). (uid \<noteq> 0 \<and> gid \<noteq> 0 \<longrightarrow> nr_setgroups os) \<and> nr_setgid os \<and> nr_setuid os)"

lemma init_and_serve_events:
  assumes "closes hw" and "init_and_serve os sigs cfg n (i, hw) r st = (x, st')"
  shows "\<exists>post. nw_events st' = nw_events st @ Init (hw_reference hw) # post \<and> list_all (\<lambda>e. \<not> is_privilege e) post"
proof -
  let ?st = "happen [Init (hw_reference hw)] st"
  obtain ret ai where i: "i (AppInit_new cfg n) = (ret, ai)" by fastforce
  have "unprivileged ?st st'"
  proof (cases "ret = 0")
    case False
    with assms(2) i show ?thesis by (auto simp: init_and_serve_def Let_def intro: adds_happen)
  next
    case True
    let ?r = "r\<lparr>ru_config := reconfigure None (Some (ai_accessFilters ai)) (Some (ai_config ai)) (ru_config r)\<rparr>"
    have q: "unprivileged ?st (happen [Reconfigured] (?st\<lparr>nw_handler := Some ?r\<rparr>))" by (intro adds_happen) simp_all
    from assms(2) i True have
      "serve_requests os sigs hw ?r (happen [Reconfigured] (?st\<lparr>nw_handler := Some ?r\<rparr>)) = (x, st')"
      by (simp add: init_and_serve_def Let_def)
    from adds_trans [OF q serve_unprivileged [OF assms(1) this]] show ?thesis .
  qed
  then show ?thesis by (auto simp: adds_def)
qed

lemma create_handler_events:
  assumes "closes (snd f)" and "create_handler os sigs cfg (Some d) f st = (x, st')"
  shows "(\<exists>es. nw_events st' = nw_events st @ es \<and> list_all (\<lambda>e. \<not> calls_app e) es) \<or>
    (\<exists>pre post. nw_events st' = nw_events st @ pre @ downgrade_calls d @ Init (hw_reference (snd f)) # post
       \<and> downgrade_granted os d \<and> Handler_created \<in> set pre \<and> list_all (\<lambda>e. \<not> is_privilege e \<and> \<not> calls_app e) pre \<and> list_all (\<lambda>e. \<not> is_privilege e) post)"
    (is "?none \<or> ?down")
proof -
  obtain z es where c: "getConcurrency os cfg = (z, es)" by fastforce
  note m = concurrency_messages [OF c]
  have m': "list_all (\<lambda>e. \<not> calls_app e) es" using m by (simp add: list_all_iff)
  show ?thesis
  proof (cases z)
    case (Inl e)
    with assms(2) c m' have ?none by (auto simp: create_handler_def)
    then show ?thesis ..
  next
    case (Inr n)
    obtain h where h: "newRequestHandler (nr_http_listening os) (nr_fcgi_listening os) cfg
      (sint (of_nat n :: 32 word)) = h" by simp
    show ?thesis
    proof (cases h)
      case (Inl e)
      with assms c Inr h m' have ?none
        by (auto simp: create_handler_def Let_def fatal_def drop_wrapper_closes split: cxx_error.splits)
      then show ?thesis ..
    next
      case h': (Inr hd)
      let ?r = "new_running cfg (snd f) hd"
      obtain ok ds where p: "doPrivilegeDowngrade os d = (ok, ds)" by fastforce
      let ?st = "happen ds (happen [Handler_created] ((happen es st)\<lparr>nw_handler := Some ?r\<rparr>))"
      show ?thesis
      proof (cases ok)
        case False
        have "list_all (\<lambda>e. \<not> calls_app e) ds"
          using p by (auto simp: doPrivilegeDowngrade_def Let_def split: prod.splits if_splits)
        with False assms(2) c Inr h h' p m' have ?none by (auto simp: create_handler_def Let_def)
        then show ?thesis ..
      next
        case True
        have ds: "ds = downgrade_calls d" "downgrade_granted os d"
          using p True by (auto simp: doPrivilegeDowngrade_def downgrade_calls_def downgrade_granted_def Let_def
              split: prod.splits if_splits)
        obtain i hw where f: "f = (i, hw)" by fastforce
        from True assms(2) c Inr h h' p f have r: "init_and_serve os sigs cfg n (i, hw) ?r ?st = (x, st')"
          by (simp add: create_handler_def Let_def)
        from assms(1) f have "closes hw" by simp
        from init_and_serve_events [OF this r] obtain post where
          "nw_events st' = nw_events ?st @ Init (hw_reference hw) # post" "list_all (\<lambda>e. \<not> is_privilege e) post" by blast
        then have ?down using m ds f
          by (intro exI [of _ "es @ [Handler_created]"] exI [of _ post]) simp
        then show ?thesis ..
      qed
    qed
  qed
qed

text \<open>The configuration \<^verbatim>\<open>run\<close> works with, and the identity it asks for.\<close>

definition effective_config :: "'b nawarun_os \<Rightarrow> Parameters \<Rightarrow> config option" where
  "effective_config os pa =
     map_option (Config_override (pa_configOverrides pa))
       (case pa_configFile pa of
          None \<Rightarrow> Some Config_new
        | Some f \<Rightarrow> (case Config_file (nr_files os) f of Inr cfg \<Rightarrow> Some cfg | Inl e \<Rightarrow> None))"

definition configured_identity :: "'b nawarun_os \<Rightarrow> config \<Rightarrow> nat \<times> nat \<times> nat list \<Rightarrow> bool" where
  "configured_identity os cfg = (\<lambda>(uid, gid, gs).
     nr_getpwnam os (Config_get cfg (''privileges'', ''user'')) = Some uid
     \<and> nr_getgrnam os (Config_get cfg (''privileges'', ''group'')) = Some gid
     \<and> (uid \<noteq> 0 \<and> gid \<noteq> 0 \<longrightarrow>
          gs = (if nr_groups_read os then nr_groups os (Config_get cfg (''privileges'', ''user'')) gid else [gid])))"

lemma prepare_identity:
  assumes "preparePrivilegeDowngrade os cfg = (Inr d, es)" and "nr_uid os = 0"
  obtains d' where "d = Some d'" "configured_identity os cfg d'"
  using assms by (auto simp: preparePrivilegeDowngrade_def configured_identity_def Let_def
      split: if_splits option.splits)

lemma run_privileges:
  assumes run: "run os pa sigs st = (x, st')" and root: "nr_uid os = 0"
    and start: "list_all (\<lambda>e. \<not> is_privilege e \<and> \<not> calls_app e) (nw_events st)"
    and app: "\<exists>e \<in> set (nw_events st'). calls_app e"
  shows "\<exists>cfg d pre k post. effective_config os pa = Some cfg \<and> configured_identity os cfg d
    \<and> downgrade_granted os d \<and> nw_events st' = pre @ downgrade_calls d @ Init k # post
    \<and> Dlopen k (Config_get cfg (''application'', ''path'')) \<in> set pre \<and> Handler_created \<in> set pre
    \<and> list_all (\<lambda>e. \<not> is_privilege e \<and> \<not> calls_app e) pre \<and> list_all (\<lambda>e. \<not> is_privilege e) post"
proof -
  let ?st0 = "happen setUpSignalHandlers (st\<lparr>nw_configFile := pa_configFile pa\<rparr>)"
  let ?calm = "\<lambda>t. list_all (\<lambda>e. \<not> is_privilege e \<and> \<not> calls_app e) (nw_events t)"
  have calm: "?calm t'" if "?calm t" "before_app t t'" for t t' :: "'b nawarun"
    using that by (auto simp: adds_def list_all_iff)
  have noapp: "\<not> ?calm st'" using app by (auto simp: list_all_iff)
  have c0: "?calm ?st0" using start by simp
  obtain c st1 where l: "loadConfig os False ?st0 = (c, st1)" by fastforce
  have c1: "?calm st1" using calm [OF c0 loadConfig_adds [OF l]] .
  from run l c1 noapp obtain cfg0 where cfg0: "c = Some cfg0" by (cases c) (auto simp: run_def)
  let ?cfg = "Config_override (pa_configOverrides pa) cfg0"
  have eff: "effective_config os pa = Some ?cfg"
    using l cfg0 by (auto simp: effective_config_def loadConfig_def split: option.splits sum.splits)
  obtain t st2 where t: "setTerminationTimeout ?cfg st1 = (t, st2)" by fastforce
  have c2: "?calm st2" using calm [OF c1 timeout_adds [OF t]] .
  from run l cfg0 t c2 noapp obtain u where u: "t = Inr u" by (cases t) (auto simp: run_def Let_def)
  let ?st3 = "st2\<lparr>nw_log := setUpLogging ?cfg (nw_log st2)\<rparr>"
  obtain d es where d: "preparePrivilegeDowngrade os ?cfg = (d, es)" by fastforce
  have c3: "?calm (happen es ?st3)" using c2 prepare_messages [OF d] by simp
  from run l cfg0 t u d calm [OF c3 fatal_quiet] noapp obtain pd where pd: "d = Inr pd"
    by (cases d) (auto simp: run_def Let_def)
  from prepare_identity [OF d [unfolded pd] root] obtain d' where d': "pd = Some d'" "configured_identity os ?cfg d'"
    by blast
  obtain f st4 where f: "loadAppFunctions os ?cfg (happen es ?st3) = (f, st4)" by fastforce
  have c4: "?calm st4" using calm [OF c3 loadAppFunctions_adds [OF f]] .
  from run l cfg0 t u d pd f calm [OF c4 fatal_quiet] noapp obtain g where g: "f = Inr g"
    by (cases f) (auto simp: run_def Let_def)
  have cl: "closes (snd g)" using f g loadAppFunctions_ok(1) [of os ?cfg _ "fst g" "snd g"] by simp
  from run l cfg0 t u d pd f g d' have
    "create_handler os sigs ?cfg (Some d') g (st4\<lparr>nw_main := Some (hw_reference (snd g))\<rparr>) = (x, st')"
    by (simp add: run_def Let_def)
  have lib: "Dlopen (hw_reference (snd g)) (Config_get ?cfg (''application'', ''path'')) \<in> set (nw_events st4)"
    using f g loadAppFunctions_ok(2,7) [of os ?cfg _ "fst g" "snd g"] by simp
  from create_handler_events [OF cl \<open>create_handler _ _ _ _ _ _ = _\<close>] obtain pre post where
    ev: "nw_events st' = nw_events st4 @ pre @ downgrade_calls d' @ Init (hw_reference (snd g)) # post"
    "downgrade_granted os d'" "Handler_created \<in> set pre" "list_all (\<lambda>e. \<not> is_privilege e \<and> \<not> calls_app e) pre" "list_all (\<lambda>e. \<not> is_privilege e) post"
    using app c4 by (auto simp: list_all_iff)
  show ?thesis
    using eff d'(2) ev c4 lib
    by (intro exI [of _ ?cfg] exI [of _ d'] exI [of _ "nw_events st4 @ pre"] exI [of _ "hw_reference (snd g)"]
        exI [of _ post]) simp
qed

section \<open>The handler's code stays loaded\<close>

definition handler_ok :: "handler \<Rightarrow> bool" where
  "handler_ok h = (case h of Handler_http s \<Rightarrow> http_ok s | Handler_fcgi c s \<Rightarrow> fcgi_ok s)"

lemma handler_ok_new: "newRequestHandler l l' cfg n = Inr h \<Longrightarrow> handler_ok h"
  by (auto simp: newRequestHandler_def handler_ok_def http_new_ok fcgi_new_ok split: if_splits)

lemma handler_ok_start: "server_start os h = (x, h') \<Longrightarrow> handler_ok h \<Longrightarrow> handler_ok h'"
  using httpd.ok_op [of _ "Op_start (nr_threads os)"] fcgid.ok_op [of _ "Op_start (nr_fcgi_started os)"]
  by (auto simp: server_start_def handler_ok_def Let_def split: handler.splits prod.splits)
    (metis Http_op.simps(1) Fcgi_op.simps(1) snd_conv)+

lemma handler_ok_ops:
  "handler_ok h \<Longrightarrow> handler_ok (server_map Http_stop Fcgi_stop h)"
  "handler_ok h \<Longrightarrow> handler_ok (server_map Http_terminate Fcgi_terminate h)"
  "handler_ok h \<Longrightarrow> handler_ok (server_map Http_join Fcgi_join h)"
  using httpd.ok_op [of _ Op_stop] fcgid.ok_op [of _ Op_stop] httpd.ok_op [of _ Op_terminate]
    fcgid.ok_op [of _ Op_terminate] httpd.ok_op [of _ Op_join] fcgid.ok_op [of _ Op_join]
  by (cases h; simp add: handler_ok_def server_map_def)+

lemma handler_destroy_joins: "handler_ok h \<Longrightarrow> all_joined (server_calls (server_map Http_destroy Fcgi_destroy h))"
  by (cases h) (simp_all add: handler_ok_def server_map_def server_calls_def httpd.destroy_joins fcgid.destroy_joins)

text \<open>The library numbered \<open>k\<close> is open, is of this version, and \<open>f\<close> is its \<^verbatim>\<open>handleRequest\<close>.\<close>

definition open_library :: "'b nawarun_os \<Rightarrow> event list \<Rightarrow> nat \<Rightarrow> 'b app \<Rightarrow> bool" where
  "open_library os es k f \<longleftrightarrow> Dlclose k \<notin> set es \<and> (\<exists>path lib. Dlopen k path \<in> set es \<and> nr_dlopen os path = Some lib
     \<and> al_version_major lib = Some (fst (nr_version os)) \<and> al_version_minor lib = Some (snd (nr_version os))
     \<and> al_handleRequest lib = Some f)"

definition running_ok :: "'b nawarun_os \<Rightarrow> 'b nawarun \<Rightarrow> 'b running \<Rightarrow> bool" where
  "running_ok os st r \<longleftrightarrow> ru_library r < nw_opened st \<and> handler_ok (ru_server r)
     \<and> (\<exists>f. rh_handleRequestFunction (ru_config r) = Some f \<and> open_library os (nw_events st) (ru_library r) f)"

definition serving_ok :: "'b nawarun_os \<Rightarrow> 'b nawarun \<Rightarrow> bool" where
  "serving_ok os st \<longleftrightarrow> (\<forall>k. Dlclose k \<in> set (nw_events st) \<longrightarrow> k < nw_opened st)
     \<and> (\<exists>m f. nw_main st = Some m \<and> m < nw_opened st \<and> open_library os (nw_events st) m f)
     \<and> (\<exists>r. nw_handler st = Some r \<and> running_ok os st r)"

definition no_close :: "event \<Rightarrow> bool" where
  "no_close e \<longleftrightarrow> (\<forall>k. e \<noteq> Dlclose k)"

lemma no_close_simps [simp]:
  "no_close (Message l m)" "no_close (Init k)" "no_close Reconfigured" "no_close Stopped" "no_close (Slept t)"
  "no_close Terminated" "no_close Started" "no_close Handler_created" "no_close Joined" "no_close (Destroyed cs)"
  "no_close (Dlopen k p)" "no_close (Setgroups gs)" "no_close (Setgid g)" "no_close (Setuid u)" "\<not> no_close (Dlclose k)"
  by (simp_all add: no_close_def)

lemma open_library_append:
  "open_library os es k f \<Longrightarrow> Dlclose k \<notin> set es' \<Longrightarrow> open_library os (es @ es') k f"
  by (auto simp: open_library_def)

lemma open_library_close: "open_library os (es @ [Dlclose j]) k f \<longleftrightarrow> k \<noteq> j \<and> open_library os es k f"
  by (auto simp: open_library_def)

lemma no_close_notin: "list_all no_close es \<Longrightarrow> Dlclose k \<notin> set es"
  by (auto simp: list_all_iff no_close_def)

text \<open>What keeps the invariant: events other than closing, with the same or more libraries, and the
  closing of a library that is neither the handler's nor \<^verbatim>\<open>run\<close>'s.\<close>

lemma serving_ok_events:
  assumes "serving_ok os st" and "nw_events st' = nw_events st @ es" and "list_all no_close es"
    and "nw_handler st' = nw_handler st" and "nw_main st' = nw_main st" and "nw_opened st \<le> nw_opened st'"
  shows "serving_ok os st'"
proof -
  have "Dlclose k \<notin> set es" for k using no_close_notin [OF assms(3)] .
  with assms show ?thesis
    by (auto simp: serving_ok_def running_ok_def intro: open_library_append less_le_trans)
qed

lemma serving_ok_handler:
  assumes "serving_ok os st" and "running_ok os st r"
  shows "serving_ok os (st\<lparr>nw_handler := Some r\<rparr>)"
  using assms by (auto simp: serving_ok_def running_ok_def)

lemma serving_ok_close:
  assumes "serving_ok os st" and "k < nw_opened st" and "nw_main st \<noteq> Some k"
    and "nw_handler st = Some r" and "ru_library r \<noteq> k"
  shows "serving_ok os (happen [Dlclose k] st)"
  using assms by (auto simp: serving_ok_def running_ok_def open_library_close)

lemma serving_ok_ready [simp]: "serving_ok os (st\<lparr>nw_readyToReconfigure := b\<rparr>) = serving_ok os st"
  "serving_ok os (st\<lparr>nw_terminationTimeout := t\<rparr>) = serving_ok os st"
  by (simp_all add: serving_ok_def running_ok_def)

lemma running_ok_update [simp]:
  "running_ok os (st\<lparr>nw_handler := h\<rparr>) r = running_ok os st r"
  "running_ok os (st\<lparr>nw_readyToReconfigure := b\<rparr>) r = running_ok os st r"
  by (simp_all add: running_ok_def)

lemma running_ok_happen: "running_ok os st r \<Longrightarrow> list_all no_close es \<Longrightarrow> running_ok os (happen es st) r"
  by (auto simp: running_ok_def intro: open_library_append dest: no_close_notin)

lemma serving_ok_happen: "serving_ok os st \<Longrightarrow> list_all no_close es \<Longrightarrow> serving_ok os (happen es st)"
  by (rule serving_ok_events [of os st "happen es st" es]) (simp_all add: happen_def)

lemma shutdown_serving:
  assumes ok: "serving_ok os st" and "shutdown s hard gone st = Some st'"
  shows "serving_ok os st'"
proof -
  obtain r where r: "nw_handler st = Some r" "running_ok os st r" using ok by (auto simp: serving_ok_def)
  let ?f = "on_server (server_map Http_stop Fcgi_stop)" and ?g = "on_server (server_map Http_terminate Fcgi_terminate)"
  have f: "running_ok os t (?f u)" "running_ok os t (?g u)" if "running_ok os t u" for t u
    using that by (simp_all add: running_ok_def on_server_def handler_ok_ops)
  let ?st = "happen [Message INFORMATIONAL (''Terminating on signal '' @ s)] st"
  have "serving_ok os ?st" "running_ok os ?st (?f r)"
    using ok r f by (simp_all add: serving_ok_happen running_ok_happen)
  then have s1: "serving_ok os (happen [Stopped, Slept (nw_terminationTimeout st)] (?st\<lparr>nw_handler := Some (?f r)\<rparr>))"
    (is "serving_ok os ?st1") by (simp add: serving_ok_happen serving_ok_handler)
  then have g: "running_ok os ?st1 (?g (?f r))" using f(2) by (auto simp: serving_ok_def)
  have s2: "serving_ok os (happen [Message INFORMATIONAL ''Enforcing termination now, ignoring pending requests.'',
      Terminated] (?st1\<lparr>nw_handler := Some (?g (?f r))\<rparr>))"
    by (rule serving_ok_happen [OF serving_ok_handler [OF s1 g]]) simp
  show ?thesis using assms(2) r s1 s2 by (auto simp: shutdown_def Let_def split: if_splits)
qed

lemma running_config [simp]:
  "running_ok os st (r\<lparr>ru_config := reconfigure None fl cfg (ru_config r)\<rparr>) = running_ok os st r"
  by (simp add: running_ok_def reconfigure_def Let_def split: option.split)

lemma reconfigure_config_ok: "running_ok os st (reconfigure_config cfg r) = running_ok os st r"
  by (simp add: reconfigure_config_def)

lemma loadAppFunctions_serving:
  assumes "serving_ok os st" and "loadAppFunctions os cfg st = (x, st')"
  shows "serving_ok os st'" "nw_handler st' = nw_handler st" "nw_main st' = nw_main st"
proof -
  from assms(2) obtain es where "nw_events st' = nw_events st @ es" "list_all no_close es"
    "nw_handler st' = nw_handler st" "nw_main st' = nw_main st" "nw_opened st \<le> nw_opened st'"
    by (auto simp: loadAppFunctions_def Let_def split: if_splits option.splits)
  with assms(1) show "serving_ok os st'" "nw_handler st' = nw_handler st" "nw_main st' = nw_main st"
    by (auto intro: serving_ok_events)
qed

lemma loaded_library:
  assumes "\<forall>k. Dlclose k \<in> set (nw_events st) \<longrightarrow> k < nw_opened st"
    and "loadAppFunctions os cfg st = (Inr (i, hw), st')"
  shows "open_library os (nw_events st') (hw_reference hw) (wrapper_call hw)" "hw_reference hw = nw_opened st"
    "nw_opened st' = Suc (nw_opened st)" "closes hw"
  using assms(1) loadAppFunctions_ok [OF assms(2)] by (auto simp: open_library_def)

lemma concurrency_no_close: "getConcurrency os cfg = (x, es) \<Longrightarrow> list_all no_close es"
  by (auto simp: getConcurrency_def Let_def split: if_splits sum.splits cxx_error.splits)

lemma with_handler_serving: "serving_ok os st \<Longrightarrow> running_ok os st r \<Longrightarrow> serving_ok os (with_handler r st)"
  by (simp add: with_handler_def serving_ok_happen serving_ok_handler)

lemma reload_app_serving:
  assumes ok: "serving_ok os st" and r: "nw_handler st = Some r" and "reload_app os cfg r st = (x, st')"
  shows "serving_ok os st'"
proof -
  obtain y st1 where l: "loadAppFunctions os cfg st = (y, st1)" by fastforce
  note ok1 = loadAppFunctions_serving [OF ok l]
  have run: "running_ok os t r" if "serving_ok os t" "nw_handler t = Some r" for t using that by (auto simp: serving_ok_def)
  show ?thesis
  proof (cases y)
    case (Inl e)
    let ?st = "happen [Message ERROR (''ERROR: Could not reload app: '' @ getMessage e),
                      Message WARNING ''WARNING: Configuration will be reloaded anyway''] st1"
    have "serving_ok os ?st" using ok1(1) by (simp add: serving_ok_happen)
    moreover have "running_ok os ?st r" using run [OF calculation] ok1(2) r by simp
    ultimately have "serving_ok os (with_handler (reconfigure_config cfg r) ?st)"
      by (simp add: with_handler_serving reconfigure_config_ok)
    with Inl l assms(3) show ?thesis by (simp add: reload_app_def)
  next
    case (Inr f)
    obtain i hw where f: "f = (i, hw)" by fastforce
    have "\<forall>k. Dlclose k \<in> set (nw_events st) \<longrightarrow> k < nw_opened st" using ok by (simp add: serving_ok_def)
    note hw = loaded_library [OF this l [unfolded Inr f]]
    have old: "ru_library r < nw_opened st" "nw_main st \<noteq> Some (nw_opened st)"
      using ok r by (auto simp: serving_ok_def running_ok_def)
    have drop: "serving_ok os (drop_wrapper hw t)" if "serving_ok os t" "nw_handler t = Some u" "ru_library u = ru_library r"
      "nw_main t = nw_main st" "nw_opened t = Suc (nw_opened st)" for t u
      unfolding drop_wrapper_closes [OF hw(4)] hw(2)
      by (rule serving_ok_close [OF that(1) _ _ that(2)]) (use that old in auto)
    obtain z es where c: "getConcurrency os cfg = (z, es)" by fastforce
    note es = concurrency_no_close [OF c]
    show ?thesis
    proof (cases z)
      case (Inl e)
      have "serving_ok os (drop_wrapper hw (happen es st1))"
        by (rule drop [where u = r]) (use ok1 r hw es in \<open>simp_all add: serving_ok_happen\<close>)
      with l Inr f c Inl assms(3) show ?thesis by (simp add: reload_app_def)
    next
      case z: (Inr n)
      let ?st = "happen (es @ [Init (hw_reference hw)]) st1"
      have s2: "serving_ok os ?st" using ok1(1) es by (simp add: serving_ok_happen)
      obtain ret ai where a: "i (AppInit_new cfg n) = (ret, ai)" by fastforce
      show ?thesis
      proof (cases "ret = 0")
        case False
        let ?st2 = "happen [Message ERROR (''ERROR: App init function returned '' @ dec_int ret
                     @ '' -- cancelling reload of app.''),
                   Message WARNING ''WARNING: Configuration will be reloaded anyway''] ?st"
        have s3: "serving_ok os ?st2" using s2 by (simp add: serving_ok_happen)
        have r3: "running_ok os ?st2 r" using run [OF s3] ok1(2) r by simp
        have s4: "serving_ok os (with_handler (reconfigure_config cfg r) ?st2)"
          using s3 r3 by (simp add: with_handler_serving reconfigure_config_ok)
        have "serving_ok os (drop_wrapper hw (with_handler (reconfigure_config cfg r) ?st2))"
          by (rule drop [OF s4, where u = "reconfigure_config cfg r"])
            (use ok1 hw in \<open>simp_all add: with_handler_def reconfigure_config_def\<close>)
        with l Inr f c z a False assms(3) show ?thesis by (simp add: reload_app_def Let_def)
      next
        case True
        let ?r = "r\<lparr>ru_library := hw_reference hw, ru_config := reconfigure
                             (Some (Some (wrapper_call hw))) (Some (ai_accessFilters ai)) (Some (ai_config ai))
                             (ru_config r)\<rparr>"
        have "open_library os (nw_events ?st) (hw_reference hw) (wrapper_call hw)"
          using hw(1) es by (simp add: open_library_append no_close_notin)
        then have "running_ok os ?st ?r"
          using hw run [OF ok r] by (simp add: running_ok_def reconfigure_def Let_def)
        with s2 have s3: "serving_ok os (with_handler ?r ?st)" by (rule with_handler_serving)
        have "serving_ok os (replace_library r (with_handler ?r ?st))"
        proof (cases "nw_main st = Some (ru_library r)")
          case True
          then show ?thesis using s3 ok1 by (simp add: replace_library_def with_handler_def)
        next
          case False
          then have "replace_library r (with_handler ?r ?st) = happen [Dlclose (ru_library r)] (with_handler ?r ?st)"
            using ok1 by (simp add: replace_library_def with_handler_def)
          moreover have "serving_ok os (happen [Dlclose (ru_library r)] (with_handler ?r ?st))"
            by (rule serving_ok_close [OF s3, where r = ?r])
              (use old ok1 hw False in \<open>simp_all add: with_handler_def\<close>)
          ultimately show ?thesis by simp
        qed
        with l Inr f c z a True assms(3) show ?thesis by (simp add: reload_app_def Let_def)
      qed
    qed
  qed
qed

lemma reload_serving:
  assumes ok: "serving_ok os st" and "reload os s st = (x, st')"
  shows "serving_ok os st'"
proof -
  obtain r where r: "nw_handler st = Some r" using ok by (auto simp: serving_ok_def)
  show ?thesis
  proof (cases "nw_configFile st = None \<or> \<not> nw_readyToReconfigure st")
    case True
    with assms r show ?thesis by (auto simp: reload_def intro: serving_ok_happen split: if_splits)
  next
    case False
    let ?st = "happen [Message INFORMATIONAL (''Reloading config and app on signal '' @ s)]
      (st\<lparr>nw_readyToReconfigure := False\<rparr>)"
    have ok0: "serving_ok os ?st" "nw_handler ?st = Some r" using ok r by (simp_all add: serving_ok_happen)
    obtain c st1 where l: "loadConfig os True ?st = (c, st1)" by fastforce
    have ok1: "serving_ok os st1" "nw_handler st1 = Some r"
      using l ok0 by (auto simp: loadConfig_def intro: serving_ok_happen split: option.splits sum.splits)
    show ?thesis
    proof (cases c)
      case None
      with False r l ok1 assms(2) show ?thesis by (auto simp: reload_def Let_def)
    next
      case (Some cfg)
      obtain y st2 where t: "setTerminationTimeout cfg st1 = (y, st2)" by fastforce
      have ok2: "serving_ok os st2" "nw_handler st2 = Some r"
        using t ok1 by (auto simp: setTerminationTimeout_def Let_def intro: serving_ok_happen
            split: if_splits sum.splits cxx_error.splits)
      from False r l Some t assms(2) have "st' = st2 \<or> reload_app os cfg r st2 = (x, st')"
        by (auto simp: reload_def Let_def split: sum.splits)
      then show ?thesis using ok2 reload_app_serving [OF ok2] by blast
    qed
  qed
qed

text \<open>Signals are the steps of a transition system; the handler's code stays loaded in all its states.\<close>

inductive nawarun_step :: "'b nawarun_os \<Rightarrow> 'b nawarun \<Rightarrow> 'b nawarun \<Rightarrow> bool" for os where
  on_shutdown: "shutdown s hard gone st = Some st' \<Longrightarrow> nawarun_step os st st'"
| on_reload: "reload os s st = (Inr (), st') \<Longrightarrow> nawarun_step os st st'"

interpretation nawarun: transition_system "nawarun_step os" "serving_ok os"
  by unfold_locales (auto elim!: nawarun_step.cases intro: shutdown_serving reload_serving)

lemma handle_signals_steps: "handle_signals os sigs st = (None, st') \<Longrightarrow> (nawarun_step os)\<^sup>*\<^sup>* st st'"
proof (induction os sigs st rule: handle_signals.induct)
  case (2 os s hard gone sigs st)
  then show ?case by (auto split: option.splits intro: converse_rtranclp_into_rtranclp on_shutdown)
next
  case (3 os s sigs st)
  obtain y st1 where r: "reload os s st = (y, st1)" by fastforce
  with "3" show ?case by (cases y) (auto intro: converse_rtranclp_into_rtranclp on_reload)
qed simp

lemma loadConfig_main: "loadConfig os b st = (x, st') \<Longrightarrow> nw_main st' = nw_main st"
  by (auto simp: loadConfig_def split: option.splits sum.splits)

lemma timeout_main: "setTerminationTimeout cfg st = (x, st') \<Longrightarrow> nw_main st' = nw_main st"
  by (auto simp: setTerminationTimeout_def Let_def split: if_splits sum.splits cxx_error.splits)

lemma loadAppFunctions_main: "loadAppFunctions os cfg st = (x, st') \<Longrightarrow> nw_main st' = nw_main st"
  by (auto simp: loadAppFunctions_def Let_def split: if_splits option.splits)

lemma reload_app_main: "reload_app os cfg r st = (x, st') \<Longrightarrow> nw_main st' = nw_main st"
  by (auto simp: reload_app_def Let_def with_handler_def replace_library_def drop_wrapper_def
      dest!: loadAppFunctions_main split: if_splits prod.splits sum.splits)

lemma reload_main: "reload os s st = (x, st') \<Longrightarrow> nw_main st' = nw_main st"
  by (auto simp: reload_def Let_def dest!: reload_app_main loadConfig_main timeout_main
      split: if_splits option.splits prod.splits sum.splits)

lemma step_main: "nawarun_step os st st' \<Longrightarrow> nw_main st' = nw_main st"
  by (erule nawarun_step.cases) (auto simp: shutdown_def Let_def reload_main split: option.splits if_splits)

lemma steps_main: "(nawarun_step os)\<^sup>*\<^sup>* st st' \<Longrightarrow> nw_main st' = nw_main st"
  by (induction rule: rtranclp_induct) (simp_all add: step_main)

definition ends_clean :: "'b nawarun_os \<Rightarrow> 'b nawarun \<Rightarrow> bool" where
  "ends_clean os st \<longleftrightarrow> (\<exists>pre cs ks. nw_events st = pre @ [Joined, Destroyed cs] @ map Dlclose ks
     \<and> all_joined cs \<and> ks \<noteq> [] \<and> distinct ks \<and> (\<forall>k \<in> set ks. \<exists>f. open_library os pre k f))"

text \<open>A run ends clean, or it waits in \<^verbatim>\<open>join\<close> while the handler serves.\<close>

definition ends_well :: "'b nawarun_os \<Rightarrow> exit \<Rightarrow> 'b nawarun \<Rightarrow> bool" where
  "ends_well os x st \<longleftrightarrow> (x = Return 0 \<longrightarrow> ends_clean os st) \<and> (x = Waiting \<longrightarrow> serving_ok os st)"

abbreviation ran :: "exit \<Rightarrow> bool" where
  "ran x \<equiv> x = Return 0 \<or> x = Waiting"

lemma finish_ends_well:
  assumes ok: "serving_ok os st" and cl: "closes hw" and m: "nw_main st = Some (hw_reference hw)"
    and fin: "finish_run os hw st = (x, st')"
  shows "ends_well os x st'"
proof (cases "x = Return 0")
  case False
  with fin ok show ?thesis by (auto simp: ends_well_def finish_run_def Let_def split: option.splits if_splits)
next
  case True
  obtain r where r: "nw_handler st = Some r" "running_ok os st r" using ok by (auto simp: serving_ok_def)
  let ?cs = "server_calls (server_map Http_destroy Fcgi_destroy (server_map Http_join Fcgi_join (ru_server r)))"
  let ?ks = "(if hw_reference hw = ru_library r then [] else [ru_library r]) @ [hw_reference hw]"
  have "all_joined ?cs" using r(2) by (simp add: running_ok_def handler_ok_ops handler_destroy_joins)
  moreover have "\<forall>k \<in> set ?ks. \<exists>f. open_library os (nw_events st) k f"
    using ok m r(2) by (auto simp: serving_ok_def running_ok_def)
  moreover have "nw_events st' = nw_events st @ [Joined, Destroyed ?cs] @ map Dlclose ?ks"
    using fin r(1) m True
    by (auto simp: finish_run_def Let_def drop_wrapper_closes [OF cl] replace_library_def split: if_splits)
  ultimately have "ends_clean os st'" unfolding ends_clean_def
    by (intro exI [of _ "nw_events st"] exI [of _ ?cs] exI [of _ ?ks]) simp
  with True show ?thesis by (simp add: ends_well_def)
qed

lemma signals_ends_well:
  assumes "serving_ok os st" and "closes hw" and "nw_main st = Some (hw_reference hw)"
    and "(case handle_signals os sigs st of (Some x, st) \<Rightarrow> (x, st) | (None, st) \<Rightarrow> finish_run os hw st) = (x, st')" and "ran x"
  shows "ends_well os x st'"
proof -
  have never: "fst (handle_signals os sigs st) \<noteq> Some (Return 0)" "fst (handle_signals os sigs st) \<noteq> Some Waiting"
    by (induction os sigs st rule: handle_signals.induct) (auto split: option.splits sum.splits prod.splits)
  obtain z st1 where s: "handle_signals os sigs st = (z, st1)" by fastforce
  from never s assms(4,5) have z: "z = None" "finish_run os hw st1 = (x, st')" by (cases z; auto)+
  note steps = handle_signals_steps [OF s [unfolded z(1)]]
  show ?thesis
    using finish_ends_well [OF nawarun.inv_reachable [OF steps assms(1)] assms(2) _ z(2)] steps_main [OF steps] assms(3)
    by simp
qed

lemma serve_ends_well:
  assumes ok: "serving_ok os st" "nw_handler st = Some r" and hw: "closes hw" "nw_main st = Some (hw_reference hw)"
    and "serve_requests os sigs hw r st = (x, st')" "ran x"
  shows "ends_well os x st'"
proof -
  obtain y h where s: "server_start os (ru_server r) = (y, h)" by fastforce
  have r: "running_ok os st r" using ok by (auto simp: serving_ok_def)
  then have "running_ok os st (r\<lparr>ru_server := h\<rparr>)" using handler_ok_start [OF s] by (simp add: running_ok_def)
  with ok(1) have ok': "serving_ok os (st\<lparr>nw_handler := Some (r\<lparr>ru_server := h\<rparr>)\<rparr>)" (is "serving_ok os ?st")
    by (rule serving_ok_handler)
  show ?thesis
  proof (cases y)
    case (Inr u)
    let ?st1 = "happen [Started] (?st\<lparr>nw_readyToReconfigure := True\<rparr>)"
    have "serving_ok os ?st1" using ok' by (simp add: serving_ok_happen)
    from signals_ends_well [OF this hw(1), of sigs x st'] show ?thesis
      using assms(5,6) hw(2) by (simp add: serve_requests_def s Inr Let_def)
  next
    case (Inl e)
    obtain z st1 where f: "fatal e ?st = (z, st1)" by fastforce
    have ok1: "serving_ok os st1" "nw_main st1 = nw_main st"
      using f ok' by (auto simp: fatal_def intro: serving_ok_happen split: cxx_error.splits)
    have "z = Return 1 \<or> z = Raised e" using f by (auto simp: fatal_def split: cxx_error.splits)
    with assms(5,6) f s Inl have
      "(case handle_signals os sigs st1 of (Some x, st) \<Rightarrow> (x, st) | (None, st) \<Rightarrow> finish_run os hw st) = (x, st')"
      by (auto simp: serve_requests_def Let_def)
    with ok1 hw assms(6) show ?thesis by (intro signals_ends_well) simp_all
  qed
qed

lemma fatal_not_ran: "fatal e st = (x, st') \<Longrightarrow> \<not> ran x"
  by (auto simp: fatal_def split: cxx_error.splits)

lemma init_ends_well:
  assumes ok: "serving_ok os st" "nw_handler st = Some r" and hw: "closes hw" "nw_main st = Some (hw_reference hw)"
    and "init_and_serve os sigs cfg n (i, hw) r st = (x, st')" "ran x"
  shows "ends_well os x st'"
proof -
  obtain ret ai where a: "i (AppInit_new cfg n) = (ret, ai)" by fastforce
  let ?st = "happen [Init (hw_reference hw)] st"
  let ?r = "r\<lparr>ru_config := reconfigure None (Some (ai_accessFilters ai)) (Some (ai_config ai)) (ru_config r)\<rparr>"
  have "running_ok os st r" using ok by (auto simp: serving_ok_def)
  with ok(1) have "serving_ok os ?st" "running_ok os ?st ?r"
    by (simp_all add: serving_ok_happen running_ok_happen)
  then have s: "serving_ok os (happen [Reconfigured] (?st\<lparr>nw_handler := Some ?r\<rparr>))"
    by (simp add: serving_ok_happen serving_ok_handler)
  from a assms(5,6) have "serve_requests os sigs hw ?r (happen [Reconfigured] (?st\<lparr>nw_handler := Some ?r\<rparr>)) = (x, st')"
    by (auto simp: init_and_serve_def Let_def split: if_splits)
  from serve_ends_well [OF s _ hw(1) _ this assms(6)] show ?thesis using hw(2) by simp
qed

lemma create_ends_well:
  assumes lib: "\<forall>k. Dlclose k \<in> set (nw_events st) \<longrightarrow> k < nw_opened st" "hw_reference hw < nw_opened st"
      "open_library os (nw_events st) (hw_reference hw) (wrapper_call hw)"
    and hw: "closes hw" "nw_main st = Some (hw_reference hw)"
    and run: "create_handler os sigs cfg pd (i, hw) st = (x, st')" "ran x"
  shows "ends_well os x st'"
proof -
  obtain z es where c: "getConcurrency os cfg = (z, es)" by fastforce
  with run obtain n where n: "z = Inr n" by (cases z) (auto simp: create_handler_def)
  obtain y where y: "newRequestHandler (nr_http_listening os) (nr_fcgi_listening os) cfg
      (sint (of_nat n :: 32 word)) = y" by simp
  with run c n obtain h where h: "y = Inr h"
    by (cases y) (auto simp: create_handler_def Let_def fatal_def split: cxx_error.splits if_splits prod.splits)
  let ?r = "new_running cfg hw h"
  let ?st = "happen [Handler_created] ((happen es st)\<lparr>nw_handler := Some ?r\<rparr>)"
  have nc: "Dlclose k \<notin> set (es @ [Handler_created])" for k using no_close_notin [OF concurrency_no_close [OF c]] by simp
  have "open_library os (nw_events ?st) (hw_reference hw) (wrapper_call hw)"
    using open_library_append [OF lib(3) nc] by simp
  moreover have "handler_ok h" using handler_ok_new y h by blast
  ultimately have s: "serving_ok os ?st"
    using lib hw(2) nc
    by (auto simp: serving_ok_def running_ok_def new_running_def setConfig_def setAppRequestHandler_def)
  show ?thesis
  proof (cases pd)
    case None
    with run(1) c n y h have "init_and_serve os sigs cfg n (i, hw) ?r ?st = (x, st')"
      by (simp add: create_handler_def Let_def)
    from init_ends_well [OF s _ hw(1) _ this run(2)] show ?thesis using hw(2) by simp
  next
    case (Some d)
    obtain ok ds where p: "doPrivilegeDowngrade os d = (ok, ds)" by fastforce
    with run c n y h Some have r: "init_and_serve os sigs cfg n (i, hw) ?r (happen ds ?st) = (x, st')"
      by (cases ok) (auto simp: create_handler_def Let_def)
    have "list_all no_close ds" using p by (auto simp: doPrivilegeDowngrade_def Let_def split: prod.splits if_splits)
    from init_ends_well [OF serving_ok_happen [OF s this] _ hw(1) _ r run(2)] show ?thesis using hw(2) by simp
  qed
qed

lemma run_ends_well:
  assumes "run os pa sigs (nawarun_init g) = (x, st')" and "ran x"
  shows "ends_well os x st'"
proof -
  let ?st0 = "happen setUpSignalHandlers ((nawarun_init g)\<lparr>nw_configFile := pa_configFile pa\<rparr>) :: 'a nawarun"
  let ?fresh = "\<lambda>t. \<forall>k. Dlclose k \<notin> set (nw_events t)"
  obtain c st1 where l: "loadConfig os False ?st0 = (c, st1)" by fastforce
  have c1: "?fresh st1" using l
    by (auto simp: loadConfig_def nawarun_init_def split: option.splits sum.splits)
  from assms l obtain cfg0 where cfg0: "c = Some cfg0" by (cases c) (auto simp: run_def)
  let ?cfg = "Config_override (pa_configOverrides pa) cfg0"
  obtain t st2 where t: "setTerminationTimeout ?cfg st1 = (t, st2)" by fastforce
  have c2: "?fresh st2" using t c1
    by (auto simp: setTerminationTimeout_def Let_def split: if_splits sum.splits cxx_error.splits)
  from assms l cfg0 t obtain u where u: "t = Inr u" by (cases t) (auto simp: run_def Let_def)
  let ?st3 = "st2\<lparr>nw_log := setUpLogging ?cfg (nw_log st2)\<rparr>"
  obtain d es where d: "preparePrivilegeDowngrade os ?cfg = (d, es)" by fastforce
  have c3: "?fresh (happen es ?st3)" using c2 d
    by (auto simp: preparePrivilegeDowngrade_def Let_def split: if_splits option.splits)
  from assms l cfg0 t u d obtain pd where pd: "d = Inr pd"
    by (cases d) (auto simp: run_def Let_def dest: fatal_not_ran)
  obtain f st4 where f: "loadAppFunctions os ?cfg (happen es ?st3) = (f, st4)" by fastforce
  from assms l cfg0 t u d pd f obtain i hw where g: "f = Inr (i, hw)"
    by (cases f) (auto simp: run_def Let_def dest: fatal_not_ran)
  have lib: "\<forall>k. Dlclose k \<in> set (nw_events (happen es ?st3)) \<longrightarrow> k < nw_opened (happen es ?st3)" using c3 by blast
  note hw = loaded_library [OF lib f [unfolded g]]
  have c4: "?fresh st4" using loadAppFunctions_ok(7) [OF f [unfolded g]] c3 by simp
  from assms l cfg0 t u d pd f g have
    r: "create_handler os sigs ?cfg pd (i, hw) (st4\<lparr>nw_main := Some (hw_reference hw)\<rparr>) = (x, st')"
    by (simp add: run_def Let_def)
  show ?thesis by (rule create_ends_well [OF _ _ _ hw(4) _ r assms(2)]) (use c4 hw in auto)
qed

section \<open>The command line and the configuration\<close>

definition override_arg :: "(string \<times> string) \<times> string \<Rightarrow> string" where
  "override_arg = (\<lambda>((category, key), val). ''--'' @ category @ '':'' @ key @ ''='' @ val)"

definition override_ok :: "(string \<times> string) \<times> string \<Rightarrow> bool" where
  "override_ok = (\<lambda>((category, key), val).
     category \<noteq> [] \<and> key \<noteq> [] \<and> val \<noteq> [] \<and> CHR ''='' \<notin> set (category @ key @ val)
     \<and> CHR '':'' \<notin> set (category @ key))"

lemma parse_override_arg:
  assumes "override_ok ov"
  shows "parse_override (override_arg ov) = Some ov"
proof -
  obtain c k v where ov: "ov = ((c, k), v)" by (metis prod.exhaust)
  with assms have ne: "c \<noteq> []" "k \<noteq> []" "v \<noteq> []"
    and eq: "CHR ''='' \<notin> set (c @ '':'' @ k)" "CHR ''='' \<notin> set v" and col: "CHR '':'' \<notin> set c" "CHR '':'' \<notin> set k"
    by (auto simp: override_ok_def)
  have "splitString ((c @ '':'' @ k) @ CHR ''='' # v) (CHR ''='') True = [c @ '':'' @ k, v]"
    using ne eq by (subst splitString_step) (simp_all add: splitString_token)
  moreover have "splitString (c @ CHR '':'' # k) (CHR '':'') True = [c, k]"
    using ne col by (simp add: splitString_token)
  ultimately show ?thesis by (simp add: parse_override_def override_arg_def ov)
qed

lemma parse_args_overrides:
  assumes "list_all override_ok ovs" and "parse_override f = None"
  shows "parse_args (map override_arg ovs @ [f]) acc ws =
    (if f = ''--no-config-file'' then (None, True, acc @ ovs, ws) else (Some f, False, acc @ ovs, ws))"
  using assms(1) by (induction ovs arbitrary: acc) (simp_all add: parse_override_arg assms(2))

lemma options_no_override:
  "parse_override ''--help'' = None" "parse_override ''-h'' = None" "parse_override ''--version'' = None"
  "parse_override ''-v'' = None" "parse_override ''--no-config-file'' = None"
  by (simp_all add: parse_override_def splitString_token)

lemma parse_command_line:
  assumes "list_all override_ok ovs" and "parse_override f = None"
    and "ovs = [] \<Longrightarrow> f \<notin> {''--help'', ''-h'', ''--version'', ''-v''}"
  shows "parseCommandLine (prog # map override_arg ovs @ [f]) =
    Run_with \<lparr>pa_configFile = (if f = ''--no-config-file'' then None else Some f), pa_configOverrides = ovs\<rparr> []"
proof -
  have "hd (map override_arg ovs @ [f]) \<notin> {''--help'', ''-h'', ''--version'', ''-v''}"
  proof (cases ovs)
    case Nil
    with assms(3) show ?thesis by simp
  next
    case (Cons ov ovs')
    with assms(1) have "parse_override (override_arg ov) = Some ov" by (simp add: parse_override_arg)
    then have "override_arg ov \<notin> {''--help'', ''-h'', ''--version'', ''-v''}" using options_no_override by fastforce
    with Cons show ?thesis by simp
  qed
  then show ?thesis using parse_args_overrides [OF assms(1,2), of "[]" "[]"]
    by (auto simp: parseCommandLine_def Let_def)
qed

text \<open>A later override wins over an earlier one, and every override over the file.\<close>

lemma effective_value:
  assumes "effective_config os pa = Some cfg" and "pa_configFile pa = Some f" and "Config_file (nr_files os) f = Inr cfg0"
  shows "umap_get cfg k = (case map_of (rev (pa_configOverrides pa)) k of Some v \<Rightarrow> Some v | None \<Rightarrow> umap_get cfg0 k)"
  using assms by (auto simp: effective_config_def Config_get_override)

text \<open>A reload reads the file alone: the overrides of the command line are gone.\<close>

lemma reload_forgets_overrides:
  assumes "nw_configFile st = Some f" "nw_handler st = Some r" "nw_readyToReconfigure st"
    and "Config_file (nr_files os) f = Inr cfg" "Config_get cfg (''system'', ''termination_timeout'') = []"
    and "Config_get cfg (''application'', ''path'') = []"
  shows "\<exists>st' r'. reload os s st = (Inr (), st') \<and> nw_handler st' = Some r' \<and> rh_config (ru_config r') = Some cfg"
  using assms by (simp add: reload_def Let_def loadConfig_def setTerminationTimeout_def reload_app_def
      loadAppFunctions_def with_handler_def reconfigure_config_def reconfigure_def)

end
