(* ===== verification/Nawarun_End.thy ===== *)
theory Nawarun_End
  imports Nawarun
begin

text \<open>
  The end of a run: once the server has started, \<open>run\<close> returns 0 if a shutdown signal arrives, and waits
  in \<^verbatim>\<open>join\<close> if none does, unless an exception escapes from the handling of a reload signal.
\<close>

definition is_reload :: "signal \<Rightarrow> bool" where
  "is_reload s \<longleftrightarrow> (case s of Sig_reload n \<Rightarrow> True | _ \<Rightarrow> False)"

definition is_shutdown :: "signal \<Rightarrow> bool" where
  "is_shutdown s \<longleftrightarrow> (case s of Sig_shutdown n hard gone \<Rightarrow> True | _ \<Rightarrow> False)"

lemma signal_kinds [simp]:
  "is_reload (Sig_reload n)" "\<not> is_reload (Sig_shutdown n hard gone)"
  "is_shutdown (Sig_shutdown n hard gone)" "\<not> is_shutdown (Sig_reload n)"
  by (simp_all add: is_reload_def is_shutdown_def)

lemma signals_kinds:
  "list_ex is_shutdown sigs \<longleftrightarrow> (\<exists>n hard gone. Sig_shutdown n hard gone \<in> set sigs)"
  "list_ex is_reload sigs \<longleftrightarrow> (\<exists>n. Sig_reload n \<in> set sigs)"
proof -
  have "is_shutdown s \<longleftrightarrow> (\<exists>n hard gone. s = Sig_shutdown n hard gone)" "is_reload s \<longleftrightarrow> (\<exists>n. s = Sig_reload n)" for s
    by (cases s; simp)+
  then show "list_ex is_shutdown sigs \<longleftrightarrow> (\<exists>n hard gone. Sig_shutdown n hard gone \<in> set sigs)"
    "list_ex is_reload sigs \<longleftrightarrow> (\<exists>n. Sig_reload n \<in> set sigs)"
    by (auto simp: list_ex_iff)
qed

definition ended :: "signal list \<Rightarrow> exit \<Rightarrow> bool" where
  "ended sigs x \<longleftrightarrow>
     x = (if list_ex is_shutdown sigs then Return 0 else Waiting) \<or> (\<exists>e. x = Raised e) \<and> list_ex is_reload sigs"

section \<open>The threads of the server\<close>

text \<open>
  What the network libraries document: their threads run until the server is stopped or terminated, and
  then they end (when the requests in progress have been answered).
\<close>

definition told :: "server_call list \<Rightarrow> bool" where
  "told cs \<longleftrightarrow> Call_stop \<in> set cs \<or> Call_terminate \<in> set cs"

definition join_documented :: "(server_call list \<Rightarrow> bool) \<Rightarrow> bool" where
  "join_documented f \<longleftrightarrow> (\<forall>cs. f cs \<longleftrightarrow> told cs \<or> (\<forall>t. Spawn t \<notin> set cs))"

definition fresh_server :: "handler \<Rightarrow> bool" where
  "fresh_server h \<longleftrightarrow>
     (case h of
        Handler_http s \<Rightarrow> \<not> hs_joined s \<and> \<not> hs_requestHandlingActive s \<and> 0 < hs_concurrency s \<and> hs_calls s = []
      | Handler_fcgi c s \<Rightarrow> s = fcgi_server_new)"

definition threads_run :: "handler \<Rightarrow> bool" where
  "threads_run h \<longleftrightarrow> (\<exists>t. Spawn t \<in> set (server_calls h)) \<and>
     (case h of Handler_http s \<Rightarrow> \<not> hs_joined s | Handler_fcgi c s \<Rightarrow> \<not> fs_joined s \<and> fs_manager s)"

lemma fresh_new: "newRequestHandler l l' cfg n = Inr h \<Longrightarrow> fresh_server h"
  by (auto simp: newRequestHandler_def HttpRequestHandler_new_def fresh_server_def split: if_splits)

lemma fresh_start:
  assumes "fresh_server h" and "server_start os h = (Inr u, h')"
  shows "threads_run h'" "\<not> told (server_calls h')"
proof -
  have "threads_run h' \<and> \<not> told (server_calls h')"
  proof (cases h)
    case (Handler_http s)
    with assms have h': "h' = Handler_http (((emplace_thread ^^ hs_concurrency s) s)\<lparr>hs_requestHandlingActive := True\<rparr>)"
      and s: "\<not> hs_joined s" "0 < hs_concurrency s" "hs_calls s = []"
      by (auto simp: fresh_server_def server_start_def Http_start_def split: if_splits)
    have "Spawn (hs_next s) \<in> Spawn ` {hs_next s..<hs_next s + hs_concurrency s}" using s by simp
    then have "\<exists>t. Spawn t \<in> Spawn ` {hs_next s..<hs_next s + hs_concurrency s}" by blast
    then show ?thesis using s by (auto simp: h' threads_run_def told_def server_calls_def)
  next
    case (Handler_fcgi c s)
    with assms show ?thesis
      by (auto simp: fresh_server_def server_start_def Fcgi_start_def fcgi_server_new_def threads_run_def told_def
          server_calls_def split: if_splits)
  qed
  then show "threads_run h'" "\<not> told (server_calls h')" by simp_all
qed

lemma stop_told:
  "threads_run h \<Longrightarrow> threads_run (server_map Http_stop Fcgi_stop h)"
  "threads_run h \<Longrightarrow> told (server_calls (server_map Http_stop Fcgi_stop h))"
  by (auto simp: threads_run_def told_def server_calls_def server_map_def Http_stop_def Fcgi_stop_def split: handler.splits)

lemma terminate_told:
  "threads_run h \<Longrightarrow> threads_run (server_map Http_terminate Fcgi_terminate h)"
  "threads_run h \<Longrightarrow> told (server_calls (server_map Http_terminate Fcgi_terminate h))"
  by (auto simp: threads_run_def told_def server_calls_def server_map_def Http_terminate_def Fcgi_terminate_def
      split: handler.splits)

lemma join_ends:
  assumes "join_documented (nr_join os)" and "threads_run h"
  shows "nr_join os (server_calls h) = told (server_calls h)"
  using assms by (auto simp: join_documented_def threads_run_def)

section \<open>Signals\<close>

lemma shutdown_handler:
  assumes "nw_handler st = Some r"
  shows "\<exists>st'. shutdown s hard gone st = Some st' \<and>
    nw_handler st' = Some (let r = on_server (server_map Http_stop Fcgi_stop) r in
       if \<not> gone \<and> hard then on_server (server_map Http_terminate Fcgi_terminate) r else r)"
  using assms by (simp add: shutdown_def Let_def)

lemma shutdown_told:
  assumes "nw_handler st = Some r" and "threads_run (ru_server r)"
  obtains st' r' where "shutdown s hard gone st = Some st'" "nw_handler st' = Some r'" "threads_run (ru_server r')"
    "told (server_calls (ru_server r'))"
proof -
  from shutdown_handler [OF assms(1)] obtain st' where st': "shutdown s hard gone st = Some st'"
    "nw_handler st' = Some (let r = on_server (server_map Http_stop Fcgi_stop) r in
       if \<not> gone \<and> hard then on_server (server_map Http_terminate Fcgi_terminate) r else r)" (is "_ = Some ?r") by blast
  have "threads_run (ru_server ?r)" "told (server_calls (ru_server ?r))"
    using stop_told [OF assms(2)] terminate_told [OF stop_told(1) [OF assms(2)]] by (simp_all add: on_server_def Let_def)
  with st' show thesis by (rule that)
qed

lemma loadConfig_handler: "loadConfig os b st = (x, st') \<Longrightarrow> nw_handler st' = nw_handler st"
  by (auto simp: loadConfig_def split: option.splits sum.splits)

lemma timeout_handler: "setTerminationTimeout cfg st = (x, st') \<Longrightarrow> nw_handler st' = nw_handler st"
  by (auto simp: setTerminationTimeout_def Let_def split: if_splits sum.splits cxx_error.splits)

lemma loadAppFunctions_handler: "loadAppFunctions os cfg st = (x, st') \<Longrightarrow> nw_handler st' = nw_handler st"
  by (auto simp: loadAppFunctions_def Let_def split: if_splits option.splits)

text \<open>A reload leaves the server alone.\<close>

abbreviation same_server :: "handler \<Rightarrow> 'b nawarun \<Rightarrow> bool" where
  "same_server h st \<equiv> (\<exists>r. nw_handler st = Some r \<and> ru_server r = h)"

lemma reload_app_handler:
  assumes "reload_app os cfg r st = (x, st')" and "nw_handler st = Some r"
  shows "same_server (ru_server r) st'"
proof -
  obtain y st1 where l: "loadAppFunctions os cfg st = (y, st1)" by fastforce
  note h = loadAppFunctions_handler [OF l]
  show ?thesis
    using assms l h by (auto simp: reload_app_def Let_def with_handler_def drop_wrapper_def replace_library_def
      reconfigure_config_def split: if_splits sum.splits prod.splits)
qed

lemma reload_handler:
  assumes "reload os s st = (x, st')" and "nw_handler st = Some r"
  shows "same_server (ru_server r) st'"
proof (cases "nw_configFile st = None \<or> \<not> nw_readyToReconfigure st")
  case True
  with assms show ?thesis by (auto simp: reload_def split: if_splits)
next
  case False
  let ?st = "happen [Message INFORMATIONAL (''Reloading config and app on signal '' @ s)]
      (st\<lparr>nw_readyToReconfigure := False\<rparr>)"
  obtain c st1 where l: "loadConfig os True ?st = (c, st1)" by fastforce
  note h1 = loadConfig_handler [OF l]
  show ?thesis
  proof (cases c)
    case None
    with False assms l h1 show ?thesis by (auto simp: reload_def Let_def)
  next
    case (Some cfg)
    obtain y st2 where t: "setTerminationTimeout cfg st1 = (y, st2)" by fastforce
    from False assms l Some t have "st' = st2 \<or> reload_app os cfg r st2 = (x, st')"
      by (auto simp: reload_def Let_def split: sum.splits)
    then show ?thesis using reload_app_handler [of os cfg r st2 x st'] timeout_handler [OF t] h1 assms(2) by auto
  qed
qed

lemma signals_told:
  assumes "handle_signals os sigs st = (z, st')" and "nw_handler st = Some r" and "threads_run (ru_server r)"
  shows "z = None \<and> (\<exists>r'. nw_handler st' = Some r' \<and> threads_run (ru_server r')
      \<and> told (server_calls (ru_server r')) = (told (server_calls (ru_server r)) \<or> list_ex is_shutdown sigs))
    \<or> (\<exists>e. z = Some (Raised e)) \<and> list_ex is_reload sigs"
  using assms
proof (induction os sigs st arbitrary: r rule: handle_signals.induct)
  case (2 os s hard gone sigs st)
  from shutdown_told [OF 2(3,4), of s hard gone] obtain st1 r1 where d: "shutdown s hard gone st = Some st1"
    "nw_handler st1 = Some r1" "threads_run (ru_server r1)" "told (server_calls (ru_server r1))" .
  from 2(2) d(1) have "handle_signals os sigs st1 = (z, st')" by simp
  from 2(1) [OF d(1) this d(2,3)] d(4) show ?case by simp
next
  case (3 os s sigs st)
  obtain y st1 where y: "reload os s st = (y, st1)" by fastforce
  from reload_handler [OF y 3(3)] obtain r1 where r1: "nw_handler st1 = Some r1" "ru_server r1 = ru_server r" by blast
  show ?case
  proof (cases y)
    case (Inl e)
    with y 3(2) have "z = Some (Raised e)" by simp
    then show ?thesis by simp
  next
    case (Inr u)
    with y 3(2) have "handle_signals os sigs st1 = (z, st')" by simp
    from 3(1) [OF _ Inr this r1(1)] y Inr r1(2) 3(4) show ?thesis by auto
  qed
qed simp

lemma serve_end:
  assumes "(case handle_signals os sigs st of (Some x, st) \<Rightarrow> (x, st) | (None, st) \<Rightarrow> finish_run os hw st) = (x, st')"
    and "nw_handler st = Some r" and "threads_run (ru_server r)" "\<not> told (server_calls (ru_server r))"
    and "join_documented (nr_join os)"
  shows "ended sigs x"
proof -
  obtain z st1 where s: "handle_signals os sigs st = (z, st1)" by fastforce
  from signals_told [OF s assms(2,3)] show ?thesis
  proof
    assume "z = None \<and> (\<exists>r'. nw_handler st1 = Some r' \<and> threads_run (ru_server r')
      \<and> told (server_calls (ru_server r')) = (told (server_calls (ru_server r)) \<or> list_ex is_shutdown sigs))"
    then obtain r' where r': "z = None" "nw_handler st1 = Some r'" "threads_run (ru_server r')"
      "told (server_calls (ru_server r')) = list_ex is_shutdown sigs" using assms(4) by auto
    from assms(1) s r'(1) have "finish_run os hw st1 = (x, st')" by simp
    with r' join_ends [OF assms(5) r'(3)] show ?thesis
      by (auto simp: finish_run_def ended_def Let_def split: if_splits)
  next
    assume "(\<exists>e. z = Some (Raised e)) \<and> list_ex is_reload sigs"
    with assms(1) s show ?thesis by (auto simp: ended_def)
  qed
qed

text \<open>A server whose start fails after some threads were created is never stopped: the run reports the error
  and then waits for these threads.\<close>

lemma failed_start_waits:
  assumes "server_start os (ru_server r) = (Inl (NawaException n m), h)" and "join_documented (nr_join os)"
    and "Spawn t \<in> set (server_calls h)" and "\<not> told (server_calls h)"
  shows "\<exists>st'. serve_requests os [] hw r st = (Waiting, st') \<and> Message ERROR (''Fatal Error: '' @ m) \<in> set (nw_events st')"
proof -
  have "\<not> nr_join os (server_calls h)" using assms(2-4) by (auto simp: join_documented_def)
  then show ?thesis by (simp add: serve_requests_def assms(1) fatal_def finish_run_def Let_def)
qed

section \<open>The whole run\<close>

abbreviation not_started :: "'b nawarun \<Rightarrow> bool" where
  "not_started st \<equiv> Started \<notin> set (nw_events st)"

lemma before_app_not_started: "before_app st st' \<Longrightarrow> not_started st \<Longrightarrow> not_started st'"
  by (fastforce simp: adds_def list_all_iff)

lemma quiet_not_started: "quiet st st' \<Longrightarrow> not_started st \<Longrightarrow> not_started st'"
  by (fastforce simp: adds_def list_all_iff)

lemma started_serve:
  assumes run: "serve_requests os sigs hw r st = (x, st')" and ns: "not_started st" and cl: "closes hw"
    and h: "fresh_server (ru_server r)" and j: "join_documented (nr_join os)"
  shows "not_started st' \<or> ended sigs x"
proof -
  obtain y h' where s: "server_start os (ru_server r) = (y, h')" by fastforce
  show ?thesis
  proof (cases y)
    case (Inr u)
    from fresh_start [OF h s [unfolded Inr]] have t: "threads_run h'" "\<not> told (server_calls h')" .
    have "ended sigs x"
      by (rule serve_end [OF _ _ _ _ j, where r = "r\<lparr>ru_server := h'\<rparr>" and st' = st' and hw = hw
          and st = "happen [Started] (st\<lparr>nw_handler := Some (r\<lparr>ru_server := h'\<rparr>), nw_readyToReconfigure := True\<rparr>)"])
        (use run s Inr t in \<open>simp_all add: serve_requests_def Let_def\<close>)
    then show ?thesis ..
  next
    case (Inl e)
    from quiet_not_started [OF serve_failed_quiet [OF cl run s [unfolded Inl]] ns] show ?thesis ..
  qed
qed

lemma started_init:
  assumes "init_and_serve os sigs cfg n (i, hw) r st = (x, st')" and "not_started st"
    and cl: "closes hw" and h: "fresh_server (ru_server r)" and j: "join_documented (nr_join os)"
  shows "not_started st' \<or> ended sigs x"
proof -
  obtain ret ai where a: "i (AppInit_new cfg n) = (ret, ai)" by fastforce
  show ?thesis
  proof (cases "ret = 0")
    case False
    with assms a show ?thesis by (auto simp: init_and_serve_def Let_def)
  next
    case True
    with assms(1) a have "serve_requests os sigs hw
       (r\<lparr>ru_config := reconfigure None (Some (ai_accessFilters ai)) (Some (ai_config ai)) (ru_config r)\<rparr>)
       (happen [Reconfigured] ((happen [Init (hw_reference hw)] st)\<lparr>nw_handler :=
          Some (r\<lparr>ru_config := reconfigure None (Some (ai_accessFilters ai)) (Some (ai_config ai)) (ru_config r)\<rparr>)\<rparr>))
       = (x, st')"
      by (auto simp: init_and_serve_def Let_def)
    from started_serve [OF this _ cl _ j] assms(2) h show ?thesis by simp
  qed
qed

lemma started_create:
  assumes run: "create_handler os sigs cfg pd (i, hw) st = (x, st')" and ns: "not_started st" and cl: "closes hw"
    and j: "join_documented (nr_join os)"
  shows "not_started st' \<or> ended sigs x"
proof -
  obtain z es where c: "getConcurrency os cfg = (z, es)" by fastforce
  have es: "Started \<notin> set es" using concurrency_messages [OF c] by (auto simp: list_all_iff)
  show ?thesis
  proof (cases z)
    case (Inl e)
    with run c ns es show ?thesis by (auto simp: create_handler_def)
  next
    case n: (Inr n)
    obtain y where y: "newRequestHandler (nr_http_listening os) (nr_fcgi_listening os) cfg
      (sint (of_nat n :: 32 word)) = y" by simp
    show ?thesis
    proof (cases y)
      case (Inl e)
      obtain w st1 where f: "fatal e (happen es st) = (w, st1)" by fastforce
      have "not_started st1" using before_app_not_started [OF fatal_quiet [OF f]] ns es by simp
      with run c n y Inl f show ?thesis
        by (auto simp: create_handler_def Let_def drop_wrapper_closes [OF cl] split: if_splits)
    next
      case h: (Inr h)
      let ?r = "new_running cfg hw h"
      let ?st = "happen [Handler_created] ((happen es st)\<lparr>nw_handler := Some ?r\<rparr>)"
      have q: "not_started ?st" using ns es by simp
      have fr: "fresh_server (ru_server ?r)" using fresh_new y h by (simp add: new_running_def)
      show ?thesis
      proof (cases pd)
        case None
        with run c n y h have "init_and_serve os sigs cfg n (i, hw) ?r ?st = (x, st')"
          by (simp add: create_handler_def Let_def)
        from started_init [OF this q cl fr j] show ?thesis .
      next
        case (Some d)
        obtain ok ds where p: "doPrivilegeDowngrade os d = (ok, ds)" by fastforce
        have "Started \<notin> set ds" using p by (auto simp: doPrivilegeDowngrade_def Let_def split: prod.splits if_splits)
        with q have q': "not_started (happen ds ?st)" by simp
        show ?thesis
        proof (cases ok)
          case True
          with run c n y h Some p have "init_and_serve os sigs cfg n (i, hw) ?r (happen ds ?st) = (x, st')"
            by (simp add: create_handler_def Let_def)
          from started_init [OF this q' cl fr j] show ?thesis .
        next
          case False
          with run c n y h Some p q' show ?thesis by (auto simp: create_handler_def Let_def)
        qed
      qed
    qed
  qed
qed

lemma started_run:
  assumes run: "run os pa sigs (nawarun_init g) = (x, st')" and s: "Started \<in> set (nw_events st')"
    and j: "join_documented (nr_join os)"
  shows "ended sigs x"
proof -
  let ?st0 = "happen setUpSignalHandlers ((nawarun_init g)\<lparr>nw_configFile := pa_configFile pa\<rparr>) :: 'a nawarun"
  obtain c st1 where l: "loadConfig os False ?st0 = (c, st1)" by fastforce
  have c1: "not_started st1" using before_app_not_started [OF loadConfig_adds [OF l]] by (simp add: nawarun_init_def)
  from run l c1 s obtain cfg0 where cfg0: "c = Some cfg0" by (cases c) (auto simp: run_def)
  let ?cfg = "Config_override (pa_configOverrides pa) cfg0"
  obtain t st2 where t: "setTerminationTimeout ?cfg st1 = (t, st2)" by fastforce
  have c2: "not_started st2" using before_app_not_started [OF timeout_adds [OF t] c1] .
  from run l cfg0 t c2 s obtain u where u: "t = Inr u" by (cases t) (auto simp: run_def Let_def)
  let ?st3 = "st2\<lparr>nw_log := setUpLogging ?cfg (nw_log st2)\<rparr>"
  obtain d es where d: "preparePrivilegeDowngrade os ?cfg = (d, es)" by fastforce
  have "Started \<notin> set es" using prepare_messages [OF d] by (auto simp: list_all_iff)
  with c2 have c3: "not_started (happen es ?st3)" by simp
  from run l cfg0 t u d before_app_not_started [OF fatal_quiet c3] s obtain pd where pd: "d = Inr pd"
    by (cases d) (auto simp: run_def Let_def)
  obtain f st4 where f: "loadAppFunctions os ?cfg (happen es ?st3) = (f, st4)" by fastforce
  have c4: "not_started st4" using before_app_not_started [OF loadAppFunctions_adds [OF f] c3] .
  from run l cfg0 t u d pd f before_app_not_started [OF fatal_quiet c4] s obtain i hw where g: "f = Inr (i, hw)"
    by (cases f) (auto simp: run_def Let_def)
  have cl: "closes hw" using f g loadAppFunctions_ok(1) [of os ?cfg _ i hw] by simp
  from run l cfg0 t u d pd f g have
    "create_handler os sigs ?cfg pd (i, hw) (st4\<lparr>nw_main := Some (hw_reference hw)\<rparr>) = (x, st')"
    by (simp add: run_def Let_def)
  from started_create [OF this _ cl j] c4 s show ?thesis by simp
qed

end
