(* ===== verification/Fixtures.thy ===== *)
theory Fixtures
  imports Html Idn Smtp Bcrypt Nawarun_End
begin

text \<open>
  Concrete inputs on which the properties are exercised: a digest, a configuration, requests,
  a session world with one stored session, and an application.
\<close>

definition demo_hash :: "string \<Rightarrow> string" where
  "demo_hash s = take 20 (s @ replicate 20 (CHR ''x''))"

definition demo_config :: config where
  "demo_config = Config_init [((''session'', ''validate_ip''), ''strict''),
     ((''post'', ''max_size''), ''1''), ((''http'', ''port''), ''8080'')]"

definition demo_env :: "string \<Rightarrow> env" where
  "demo_env addr = [(''REMOTE_ADDR'', addr), (''REQUEST_URI'', ''/admin/index.html''), (''host'', ''localhost'')]"

text \<open>One session, of the client 10.0.0.1; it is 50 o'clock and the session expires at 100.\<close>

definition demo_world :: "string any world" where
  "demo_world =
     \<lparr>w_heap = (\<lambda>_. \<lparr>sd_data = [(''user'', AnyString ''alice'')], sd_expires = 100, sd_sourceIP = ''10.0.0.1''\<rparr>),
      w_next = 1, w_sessions = [(''abc'', 0)], w_clock = (\<lambda>_. 50), w_ticks = 0,
      w_random = (\<lambda>n. n), w_draws = 1\<rparr>"

definition empty_world :: "string any world" where
  "empty_world = demo_world\<lparr>w_next := 0, w_sessions := []\<rparr>"

definition demo_init :: request_init where
  "demo_init = request_init_empty\<lparr>ri_environment := demo_env ''10.0.0.1''\<rparr>"

definition demo_connection :: connection where
  "demo_connection = (Connection_data demo_init demo_config)
     \<lparr>cn_headers := [(''content-type'', [''text/html; charset=utf-8''])]\<rparr>"

definition demo_os :: os where
  "demo_os = \<lparr>os_read = [''/srv/a.txt'' \<mapsto> ''hello''], os_mtime = [''/srv/a.txt'' \<mapsto> 1000]\<rparr>"

text \<open>An application that answers with its name.\<close>

definition demo_app :: "string \<Rightarrow> string app" where
  "demo_app name c w = Some (Inr (), setResponseBody name c, w)"

definition demo_filters :: filter_list where
  "demo_filters = AccessFilterList_default\<lparr>fl_filtersEnabled := True,
     fl_blockFilters := [BlockFilter_default\<lparr>af_pathFilter := [[''internal'']]\<rparr>]\<rparr>"

definition demo_handler :: "string request_handler" where
  "demo_handler = reconfigure (Some (Some (demo_app ''app''))) (Some demo_filters) (Some demo_config)
     RequestHandler_default"

definition demo_post :: http_request where
  "demo_post = \<lparr>hq_source = ''10.0.0.1:4711'', hq_source_port = 4711, hq_destination = ''/form'',
     hq_method = ''POST'', hq_headers = [(''Host'', ''localhost''), (''Content-Length'', ''7'')]\<rparr>"

lemma world_ok_demo: "world_ok demo_world"
  by (auto simp: world_ok_def demo_world_def umap_wf_def umap_get_def split: if_splits)

lemma world_ok_empty: "world_ok empty_world"
  by (simp add: world_ok_def empty_world_def)

lemma demo_path: "getRequestPath (rq_env (cn_request demo_connection)) = [''admin'', ''index.html'']"
  by code_simp

lemma demo_config_get:
  "Config_get demo_config (''session'', ''validate_ip'') = ''strict''"
  "Config_get demo_config (''session'', ''keepalive'') = []"
  "Config_get demo_config (''session'', ''gc_divisor'') = []"
  "Config_get demo_config (''session'', ''autostart'') = []"
  by code_simp+

lemma demo_filters_pass:
  "applyFilters demo_hash demo_os demo_filters demo_connection demo_world = Some (Inr False, demo_connection, demo_world)"
proof -
  have b: "apply_block (fl_blockFilters demo_filters) [''admin'', ''index.html''] demo_connection = (Inr False, demo_connection)"
    by (rule apply_block_none) code_simp
  have f: "fl_filtersEnabled demo_filters" "fl_authFilters demo_filters = []" "fl_forwardFilters demo_filters = []"
    by (simp_all add: demo_filters_def AccessFilterList_default_def)
  show ?thesis unfolding applyFilters_def Let_def demo_path b using f by simp
qed

lemma demo_handler_runs:
  "handleRequest demo_hash demo_os (demo_handler\<lparr>rh_handleRequestFunction := Some (demo_app name)\<rparr>)
     demo_connection demo_world = Some (Inr (), setResponseBody name demo_connection, demo_world)"
  using handleRequest_run [OF _ demo_filters_pass,
      of "demo_handler\<lparr>rh_handleRequestFunction := Some (demo_app name)\<rparr>"]
  by (simp add: demo_handler_def reconfigure_fields run_app_def demo_app_def)

lemma setResponseBody_body [simp]: "cn_bodyString (setResponseBody s c) = s"
  by (simp add: setResponseBody_def clearStream_def)

text \<open>Two threads in the same session: the first creates it, the second resumes it.\<close>

abbreviation demo_steps :: "string any sess_state \<Rightarrow> string any sess_state \<Rightarrow> bool" where
  "demo_steps \<equiv> sess_step demo_hash demo_config (\<lambda>_. demo_env ''10.0.0.1'')"

lemma demo_addr: "Env_get (demo_env a) ''REMOTE_ADDR'' = a"
  by (simp add: demo_env_def Env_get_def umap_get_def)

lemma length_demo_hash: "length (demo_hash s) = 20"
  by (simp add: demo_hash_def)

lemma demo_shared_run:
  "\<exists>w ths. demo_steps\<^sup>*\<^sup>* (empty_world, \<lambda>_. (Session_new, Idle)) (w, ths)
     \<and> se_current (fst (ths 0)) = Some 0 \<and> se_current (fst (ths 1)) = Some 0"
proof -
  let ?e = "demo_env ''10.0.0.1''"
  define sid where "sid = fst (generateID demo_hash ''10.0.0.1'' empty_world)"
  let ?w0 = "snd (generateID demo_hash ''10.0.0.1'' empty_world)"
  define w1 where "w1 = ?w0\<lparr>w_ticks := 1,
    w_heap := (w_heap ?w0)(0 := (SessionData_new ''10.0.0.1'')\<lparr>sd_expires := 1850\<rparr>),
    w_next := 1, w_sessions := [(sid, 0)]\<rparr>"
  let ?s = "Session_new\<lparr>se_current := Some 0\<rparr>"
  let ?t0 = "\<lambda>_::nat. (Session_new, Idle)"
  let ?t1 = "?t0(0 := (Session_new, Looked [] 1800))" and ?t2 = "?t0(0 := (?s, Created sid))"
  have "length sid = 40"
    by (simp add: sid_def generateID_candidate candidate_def length_sha1_hex length_demo_hash)
  then have ne: "sid \<noteq> []" by auto
  have "start_create demo_hash ?e [] 1800 empty_world Session_new = Some (sid, w1, ?s)"
    unfolding start_create_def demo_addr
    by (subst pick_id.simps) (simp add: Session_new_def w1_def sid_def empty_world_def demo_world_def
        read_time_def time_t_add_def umap_set_def split_beta umap_has_def umap_get_def
        del: generateID_world, simp add: generateID_def read_random_def)
  then have create: "demo_steps (empty_world, ?t1) (w1, ?t2)"
    using sess_step.create [of ?t1 0 Session_new "[]" 1800 demo_hash "\<lambda>_. ?e" empty_world sid w1 ?s demo_config]
    by simp
  have lookup: "demo_steps (empty_world, ?t0) (empty_world, ?t1)"
    by (rule sess_step.lookup [where i = 0 and s = Session_new and ka = "Some 1800"])
      (simp_all add: established_def Session_new_def session_keepalive_def start_lookup_def)
  define w2 where "w2 = fst (start_lookup demo_config ?e sid 1800 w1 Session_new)"
  have heap: "sd_expires (w_heap w1 0) = 1850" "sd_sourceIP (w_heap w1 0) = ''10.0.0.1''"
    "umap_get (w_sessions w1) sid = Some 0" "w_clock w1 = (\<lambda>_. 50)"
    by (simp_all add: w1_def SessionData_new_def umap_get_def empty_world_def demo_world_def)
  have "snd (start_lookup demo_config ?e sid 1800 w1 Session_new) = Session_new\<lparr>se_current := Some 0\<rparr>"
    using ne heap demo_addr by (simp add: start_lookup_def read_time_def)
  then have lk: "start_lookup demo_config ?e sid 1800 w1 Session_new = (w2, ?s)"
    by (simp add: w2_def prod_eq_iff)
  have lookup2: "demo_steps (w1, ?t2) (w2, ?t2(1 := (?s, Looked sid 1800)))"
    by (rule sess_step.lookup [where i = 1 and s = Session_new and ka = "Some 1800"])
      (simp_all add: established_def session_keepalive_def lk, simp add: Session_new_def)
  have "demo_steps\<^sup>*\<^sup>* (empty_world, ?t0) (w2, ?t2(1 := (?s, Looked sid 1800)))"
    using lookup create lookup2 by (meson rtranclp.rtrancl_into_rtrancl rtranclp.rtrancl_refl)
  then show ?thesis by (intro exI conjI) (assumption, simp_all)
qed

lemma candidate_unused_demo:
  "\<not> umap_has (w_sessions demo_world) (candidate demo_hash addr (w_random demo_world) n)"
proof -
  have "length (candidate demo_hash addr (w_random demo_world) n) = 40"
    by (simp add: candidate_def length_sha1_hex length_demo_hash)
  then have "candidate demo_hash addr (w_random demo_world) n \<noteq> ''abc''" by auto
  then show ?thesis by (simp add: demo_world_def umap_has_def umap_get_def)
qed

lemma id_available_demo:
  "id_available demo_hash e (fst (start_lookup cfg e' sid k demo_world s))"
proof -
  have "umap_wf (w_sessions demo_world)" by (rule world_okD(1) [OF world_ok_demo])
  then have "umap_has (w_sessions (fst (start_lookup cfg e' sid k demo_world s))) i
      \<longrightarrow> umap_has (w_sessions demo_world) i" for i
    using start_lookup_shape [of cfg e' sid k demo_world s] by (auto simp: umap_has_def um.get_erase split: if_splits)
  moreover have "w_random (fst (start_lookup cfg e' sid k demo_world s)) = w_random demo_world"
    by (auto simp: start_lookup_def read_time_def Let_def split: option.split)
  ultimately show ?thesis unfolding id_available_def using candidate_unused_demo by metis
qed

text \<open>The state of a handler that waits for a body of three bytes.\<close>

definition demo_input :: post_input where
  "demo_input = \<lparr>pi_requestInit = demo_init, pi_maxPostSize = 1024, pi_expectedSize = 3, pi_postBody = [],
     pi_rawPostAccess = RawPost_ALWAYS\<rparr>"

lemma demo_consume:
  "consume boost_ref (map Input_data [''a='', ''1'']) demo_input =
     Handle (post_init boost_ref (demo_input\<lparr>pi_postBody := ''a=1''\<rparr>))"
  by (simp add: input_step_data demo_input_def size_greater_def)

lemma demo_lower: "toLowercase ''Content-Length'' = ''content-length''" "toLowercase ''Host'' = ''host''"
  "toLowercase ''Content-Type'' = ''content-type''"
  by code_simp+

lemma demo_headers_wf: "umap_wf (cn_headers demo_connection)"
  by (simp add: demo_connection_def umap_wf_def)

lemma demo_numbers: "stoul 10 ''7'' = Inr 7" "stol 10 ''0'' = Inr 0" "stol 10 [] = Inl InvalidArgument"
proof -
  have "dec 7 = ''7''" by code_simp
  then show "stoul 10 ''7'' = Inr 7" using stoul_dec [of 7] by simp
  show "stol 10 ''0'' = Inr 0" "stol 10 [] = Inl InvalidArgument"
    by (simp_all add: stol_def parse_int_def skip_0x_def starts_digit_def is_space_def base_digit_def
        digit_val_def code_ineq_facts)
qed

lemma demo_post_init:
  "\<exists>ri. http_init boost_ref cfg demo_post = Inr ri \<and> umap_has (ri_environment ri) ''content-length''
     \<and> Env_get (ri_environment ri) ''content-length'' = ''7''"
proof -
  let ?e = "http_environment cfg demo_post"
  have g: "umap_get ?e ''content-length'' = Some ''7''"
    by (simp add: http_environment_get url_vars_def server_vars_def header_vars_def)
      (simp add: demo_post_def demo_lower)
  then have "umap_get (snd (env_touch ''cookie'' ?e)) ''content-length'' = Some ''7''"
    by (simp add: env_touch_def um.get_add)
  then have "umap_has (snd (env_touch ''cookie'' ?e)) ''content-length''"
    "Env_get (snd (env_touch ''cookie'' ?e)) ''content-length'' = ''7''"
    by (simp_all add: umap_has_def Env_get_def)
  then show ?thesis by (simp add: http_init_def split_beta Let_def) (simp add: demo_post_def)
qed

lemma demo_form:
  "mime_boundary ''multipart/form-data; boundary=xy'' = Some ''--xy''"
  "mime_section_ok ''--xy'' (''a: bc'', ''hello'')"
  by code_simp+

definition demo_log_os :: log_os where
  "demo_log_os = \<lparr>ls_hostname = ''host'', ls_pid = 7, ls_progname = ''nawarun'',
     ls_now = \<lparr>tm_sec = 0, tm_min = 0, tm_hour = 12, tm_mday = 1, tm_mon = 0, tm_year = 2022, tm_wday = 6\<rparr>,
     ls_can_open = (\<lambda>f. True)\<rparr>"

lemma demo_log_run:
  "log_run demo_log_os log_start ([Op_new 0] @ [Op_lockStream])
     (lockStream (snd (Log_new demo_log_os log_globals_init)), [(0, fst (Log_new demo_log_os log_globals_init))])"
  by (rule log_run.more [OF log_run.more [OF log_run.none, simplified] log_step.lockStream])
    (simp add: log_start_def log_step.new)

section \<open>Mail\<close>

definition demo_address :: EmailAddress where
  "demo_address = EmailAddress_new ''Ann'' ''ann@b.c''"

definition demo_email :: email where
  "demo_email = \<lparr>em_headers = [(''Subject'', ''Hi'')], em_body = Simple ''hello'' False\<rparr>"

definition demo_objects :: objects where
  "demo_objects = \<lparr>ob_emails = [0 \<mapsto> demo_email], ob_addresses = [0 \<mapsto> demo_address], ob_rules = Map.empty\<rparr>"

definition demo_smtp_os :: smtp_os where
  "demo_smtp_os = \<lparr>so_time = 0, so_clock = (0, 0), so_localtime = (\<lambda>t. None), so_md5 = demo_hash, so_random = (\<lambda>n. n)\<rparr>"

definition demo_mailer :: SmtpMailer where
  "demo_mailer = (SmtpMailer_new ''localhost'' 25 REQUIRE_STARTTLS True [] [] 10000)
     \<lparr>sm_queue := [\<lparr>qe_email = 0, qe_from = 0, qe_recipients = [demo_address], qe_replacementRules = None\<rparr>]\<rparr>"

lemma demo_address_get: "EmailAddress_get demo_address False True = Inr ''<ann@b.c>''"
  by code_simp

lemma demo_address_valid: "EmailAddress_isValid demo_address = Inr True"
  by code_simp

lemma demo_envelopes: "\<exists>es. envelopes demo_smtp_os demo_objects (sm_queue demo_mailer) 0 = Some es \<and> length es = 1"
proof -
  have "\<exists>s k. getRaw demo_hash (\<lambda>n. n) None demo_email 0 = Some (s, k)"
    by (simp add: getRaw_def demo_email_def SimpleEmail_getRaw_def replaced_def)
  then show ?thesis
    by (auto simp: demo_mailer_def demo_objects_def demo_smtp_os_def from_calls_def demo_address_get elem_raw_def)
qed

section \<open>A process started by root\<close>

definition demo_library :: "string app_library" where
  "demo_library = \<lparr>al_version_major = Some 0, al_version_minor = Some 9, al_init = Some (\<lambda>ai. (0, ai)),
     al_handleRequest = Some (demo_app ''app'')\<rparr>"

text \<open>Waiting for the threads ends as the network libraries document it.\<close>

definition demo_join :: "server_call list \<Rightarrow> bool" where
  "demo_join cs \<longleftrightarrow> Call_stop \<in> set cs \<or> Call_terminate \<in> set cs
     \<or> list_all (\<lambda>c. case c of Spawn t \<Rightarrow> False | _ \<Rightarrow> True) cs"

lemma demo_join_documented: "join_documented demo_join"
  by (auto simp: join_documented_def demo_join_def told_def list_all_iff split: server_call.splits)

definition demo_process :: "string nawarun_os" where
  "demo_process = \<lparr>nr_files = Map.empty, nr_dlopen = [''/srv/app.so'' \<mapsto> demo_library], nr_version = (0, 9), nr_uid = 0,
     nr_getpwnam = [''www'' \<mapsto> 33], nr_getgrnam = [''www'' \<mapsto> 34], nr_groups = (\<lambda>u g. [g, 50]), nr_groups_read = True,
     nr_setgroups = True, nr_setgid = True, nr_setuid = True, nr_http_listening = (\<lambda>a p. True),
     nr_fcgi_listening = (\<lambda>s. True), nr_threads = 8, nr_fcgi_started = True, nr_join = demo_join, nr_hardware_concurrency = 2,
     nr_stod = (\<lambda>s. Inl InvalidArgument), nr_round = (\<lambda>x. x)\<rparr>"

definition demo_parameters :: Parameters where
  "demo_parameters = \<lparr>pa_configFile = None, pa_configOverrides = [((''application'', ''path''), ''/srv/app.so''),
     ((''privileges'', ''user''), ''www''), ((''privileges'', ''group''), ''www''),
     ((''system'', ''request_handler''), ''http'')]\<rparr>"

definition demo_run :: "signal list \<Rightarrow> exit \<times> string nawarun" where
  "demo_run sigs = run demo_process demo_parameters sigs (nawarun_init log_globals_init)"

lemma demo_run_served:
  "fst (demo_run [Sig_shutdown ''SIGTERM'' True False]) = Return 0
     \<and> Started \<in> set (nw_events (snd (demo_run [Sig_shutdown ''SIGTERM'' True False])))"
  by code_simp

lemma demo_run_waits:
  "fst (demo_run []) = Waiting \<and> Started \<in> set (nw_events (snd (demo_run [])))"
  by code_simp

section \<open>An engine for passwords\<close>

text \<open>It obeys the documented form of the text; the raw hash depends on the password and the salt.\<close>

definition demo_raw :: "argon2_params \<Rightarrow> string \<Rightarrow> string \<Rightarrow> nat \<Rightarrow> string" where
  "demo_raw p inp salt n = take n (inp @ salt @ replicate n (CHR ''x''))"

definition demo_libs :: hash_libs where
  "demo_libs = \<lparr>hl_argon2 = (\<lambda>p inp salt n len. (0, argon2_text p salt (demo_raw p inp salt n))),
     hl_argon2_error = (\<lambda>e. []), hl_entropy32 = True, hl_random32 = (\<lambda>n. n), hl_random16 = (\<lambda>n. n),
     hl_gensalt = (\<lambda>n. (0, [])), hl_hashpw = (\<lambda>p s. (0, [])), hl_checkpw = (\<lambda>p h. 0)\<rparr>"

lemma b64_no_nul: "CHR 0x00 \<notin> set (b64_nopad s)"
  using b64_nopad_props(2) [of s]
  by (auto simp: list_all_iff is_base64_def is_upper_def is_lower_def is_digit_def less_eq_char_def)

lemma demo_documented: "argon2_documented demo_libs demo_raw"
proof -
  have "CHR 0x00 \<notin> set (dec n)" for n using set_dec [of "CHR 0x00" n] 
    by (auto simp: base_digit_def digit_val_def is_digit_def is_upper_def is_lower_def less_eq_char_def)
  then have "CHR 0x00 \<notin> set (argon2_text p salt h)" for p salt h
    using b64_no_nul by (auto simp: argon2_text_def algorithm_name_def split: Algorithm.split)
  then show ?thesis
    by (auto simp: argon2_documented_def demo_libs_def c_string_no_nul demo_raw_def min_def)
qed

definition demo_engine :: Argon2HashingEngine where
  "demo_engine = \<lparr>ae_params = \<lparr>ap_algorithm = ARGON2ID, ap_timeCost = 2, ap_memoryCost = 65536, ap_parallelism = 1\<rparr>,
     ae_salt = ''saltsalt'', ae_hashLen = 4\<rparr>"

text \<open>A label that is not ASCII.\<close>

lemma demo_label: "label_ok [CHR 0xC3, CHR 0xA9]"
proof -
  have "from_bytes [CHR 0xC3, CHR 0xA9] = Inr [233]" "\<not> ascii [CHR 0xC3, CHR 0xA9]" by code_simp+
  moreover have "length (var_loop 72 36 105 (Suc (Suc (Suc n)))) = 3" for n
    by (simp add: threshold_def Let_def)
  from this [of 5] have "length (punycode_encode [233] 8) < 8"
    by (simp add: punycode_encode_def next_point_def encode_var_int_def size_max_def)
  ultimately show ?thesis by (simp add: label_ok_def)
qed

end
