(* ===== verification/Multipage.thy ===== *)
theory Multipage
  imports Nawarun
begin

text \<open>
  Two of the example applications (\<^verbatim>\<open>examples/helloworld.cpp\<close>, \<^verbatim>\<open>examples/multipage.cpp\<close>): what
  their \<^verbatim>\<open>init\<close> and \<^verbatim>\<open>handleRequest\<close> do through the library. The result 0 of \<^verbatim>\<open>handleRequest\<close> is
  not looked at by the library and is left out. The second part is the policy that the filters of
  \<^verbatim>\<open>multipage\<close> stand for, as one decision over the path and the credentials.
\<close>

section \<open>helloworld\<close>

definition helloworld_init :: "app_init \<Rightarrow> int \<times> app_init" where
  "helloworld_init appInit = (0, appInit)"

definition helloworld_handleRequest :: "'b app" where
  "helloworld_handleRequest connection w = Some (Inr (), writeStream ''Hello World!'' connection, w)"

section \<open>multipage\<close>

definition image_extensions :: "string list" where
  "image_extensions = [''png'', ''jpeg'', ''jpg'', ''gif'']"

definition html_extensions :: "string list" where
  "html_extensions = [''html'', ''htm'']"

definition image_paths :: "string list list" where
  "image_paths = [[''test'', ''static'', ''images''], [''test2'', ''static'', ''images'']]"

definition html_paths :: "string list list" where
  "html_paths = [[''test'', ''static'', ''html'']]"

definition static_paths :: "string list list" where
  "static_paths = [[''test'', ''static''], [''test2'', ''static'']]"

definition imageFilter :: forward_filter where
  "imageFilter = ForwardFilter_default\<lparr>af_pathFilter := image_paths, af_extensionFilter := image_extensions,
     ff_basePath := ''/var/www/multipage/images''\<rparr>"

definition blockNonImages :: block_filter where
  "blockNonImages = BlockFilter_default\<lparr>af_pathFilter := image_paths, af_extensionFilter := image_extensions,
     af_invertExtensionFilter := True, bf_status := 404\<rparr>"

definition htmlFilter :: forward_filter where
  "htmlFilter = ForwardFilter_default\<lparr>af_pathFilter := html_paths,
     af_extensionFilter := html_extensions, ff_basePath := ''/var/www/multipage/html''\<rparr>"

definition blockNonHtml :: block_filter where
  "blockNonHtml = BlockFilter_default\<lparr>af_pathFilter := html_paths,
     af_extensionFilter := html_extensions, af_invertExtensionFilter := True, bf_status := 404\<rparr>"

definition known_user :: "string \<Rightarrow> string \<Rightarrow> bool" where
  "known_user user password \<longleftrightarrow> user = ''test'' \<and> password = ''supersecure''"

definition authFilter :: auth_filter where
  "authFilter = AuthFilter_default\<lparr>af_pathFilter := static_paths,
     au_authName := ''Not for everyone!'', au_authFunction := Some known_user\<rparr>"

definition multipage_init :: "app_init \<Rightarrow> int \<times> app_init" where
  "multipage_init appInit =
     (let fl = (ai_accessFilters appInit)\<lparr>fl_filtersEnabled := True\<rparr>;
          fl = fl\<lparr>fl_forwardFilters := fl_forwardFilters fl @ [imageFilter]\<rparr>;
          fl = fl\<lparr>fl_blockFilters := fl_blockFilters fl @ [blockNonImages]\<rparr>;
          fl = fl\<lparr>fl_forwardFilters := fl_forwardFilters fl @ [htmlFilter]\<rparr>;
          fl = fl\<lparr>fl_blockFilters := fl_blockFilters fl @ [blockNonHtml]\<rparr>;
          fl = fl\<lparr>fl_authFilters := fl_authFilters fl @ [authFilter]\<rparr>
      in (0, appInit\<lparr>ai_accessFilters := fl\<rparr>))"

definition multipage_link :: "string \<Rightarrow> string \<Rightarrow> string" where
  "multipage_link href text = ''<li><a href='' @ [DQUOTE] @ href @ [DQUOTE] @ ''>'' @ text @ ''</a></li>''"

definition multipage_handleRequest :: "'b app" where
  "multipage_handleRequest connection w =
     (let requestPath = getRequestPath (rq_env (cn_request connection));
          c = writeStream (''<!DOCTYPE html><html><head>'' @ ''<title>nawa Multipage Example</title>''
                @ ''</head><body><p>Request Path Elements: '') connection;
          c = fold (\<lambda>e. writeStream (e @ '', '')) requestPath c;
          c = writeStream ''</p>'' c
      in if 1 < length requestPath \<and> requestPath ! 0 = ''test'' \<and> requestPath ! 1 = ''page1''
         then Some (Inr (), writeStream (''<h1>First Page</h1>'' @ ''<p>Lorem ipsum sit dolor</p>'' @ ''</body></html>'') c, w)
         else Some (Inr (), writeStream (''<h1>Index</h1>'' @ ''<ul>'' @ multipage_link ''/test/page1'' ''First Page''
                @ multipage_link ''/test/static/html/somedocument.html'' ''A static HTML document''
                @ ''</ul></body></html>'') c, w))"

section \<open>The policy of the filters\<close>

definition multipage_filters :: filter_list where
  "multipage_filters = ai_accessFilters (snd (multipage_init (AppInit_new [] 1)))"

definition static_path :: "string list \<Rightarrow> bool" where
  "static_path path \<longleftrightarrow> (\<exists>rest. path = ''test'' # ''static'' # rest \<or> path = ''test2'' # ''static'' # rest)"

definition image_path :: "string list \<Rightarrow> bool" where
  "image_path path \<longleftrightarrow> (\<exists>rest. path = ''test'' # ''static'' # ''images'' # rest \<or> path = ''test2'' # ''static'' # ''images'' # rest)"

definition html_path :: "string list \<Rightarrow> bool" where
  "html_path path \<longleftrightarrow> (\<exists>rest. path = ''test'' # ''static'' # ''html'' # rest)"

definition has_extension :: "string list \<Rightarrow> string list \<Rightarrow> bool" where
  "has_extension exts path \<longleftrightarrow> getFileExtension (last path) \<in> set exts"

lemma multipage_fields:
  "fl_filtersEnabled multipage_filters" "fl_blockFilters multipage_filters = [blockNonImages, blockNonHtml]"
  "fl_authFilters multipage_filters = [authFilter]" "fl_forwardFilters multipage_filters = [imageFilter, htmlFilter]"
  by (simp_all add: multipage_filters_def multipage_init_def AppInit_new_def AccessFilterList_default_def)

lemma multipage_init_filters:
  "ai_accessFilters (snd (multipage_init (AppInit_new cfg n))) = multipage_filters"
  by (simp add: multipage_filters_def multipage_init_def AppInit_new_def)

text \<open>Which filter applies.\<close>

lemma path_conditions:
  "list_ex (path_matches path) image_paths \<longleftrightarrow> image_path path"
  "list_ex (path_matches path) html_paths \<longleftrightarrow> html_path path"
  "list_ex (path_matches path) static_paths \<longleftrightarrow> static_path path"
  by (auto simp: path_matches_prefix image_paths_def html_paths_def static_paths_def image_path_def html_path_def static_path_def)

lemma path_not_empty: "static_path path \<Longrightarrow> path \<noteq> []" "image_path path \<Longrightarrow> static_path path" "html_path path \<Longrightarrow> static_path path"
  "image_path path \<Longrightarrow> \<not> html_path path"
  by (auto simp: static_path_def image_path_def html_path_def)

lemma multipage_filter_fields [simp]:
  "af_invert imageFilter = False" "af_invert htmlFilter = False" "af_invert blockNonImages = False"
  "af_invert blockNonHtml = False" "af_invert authFilter = False"
  "af_pathFilter imageFilter = image_paths" "af_pathFilter blockNonImages = image_paths"
  "af_pathFilter htmlFilter = html_paths"
  "af_pathFilter blockNonHtml = html_paths"
  "af_pathFilter authFilter = static_paths"
  "\<not> af_invertPathFilter imageFilter" "\<not> af_invertPathFilter htmlFilter" "\<not> af_invertPathFilter blockNonImages"
  "\<not> af_invertPathFilter blockNonHtml" "\<not> af_invertPathFilter authFilter"
  "af_extensionFilter imageFilter = image_extensions" "af_extensionFilter blockNonImages = image_extensions"
  "af_extensionFilter htmlFilter = html_extensions" "af_extensionFilter blockNonHtml = html_extensions"
  "af_extensionFilter authFilter = []"
  "\<not> af_invertExtensionFilter imageFilter" "\<not> af_invertExtensionFilter htmlFilter"
  "af_invertExtensionFilter blockNonImages" "af_invertExtensionFilter blockNonHtml"
  "\<not> af_regexFilterEnabled imageFilter" "\<not> af_regexFilterEnabled htmlFilter" "\<not> af_regexFilterEnabled blockNonImages"
  "\<not> af_regexFilterEnabled blockNonHtml" "\<not> af_regexFilterEnabled authFilter"
  "af_response imageFilter = []" "af_response htmlFilter = []" "af_response blockNonImages = []"
  "af_response blockNonHtml = []" "af_response authFilter = []"
  "ff_basePath imageFilter = ''/var/www/multipage/images''" "ff_basePath htmlFilter = ''/var/www/multipage/html''"
  "ff_basePathExtension imageFilter = BY_FILENAME" "ff_basePathExtension htmlFilter = BY_FILENAME"
  "bf_status blockNonImages = 404" "bf_status blockNonHtml = 404"
  "au_useSessions authFilter = False" "au_authFunction authFilter = Some known_user"
  "au_authName authFilter = ''Not for everyone!''"
  by (simp_all add: imageFilter_def htmlFilter_def blockNonImages_def blockNonHtml_def authFilter_def
      ForwardFilter_default_def BlockFilter_default_def AuthFilter_default_def AccessFilter_default_def
      access_filter.defs forward_filter.defs block_filter.defs auth_filter.defs)

lemma extension_lists: "image_extensions \<noteq> []" "html_extensions \<noteq> []" "image_paths \<noteq> []" "html_paths \<noteq> []" "static_paths \<noteq> []"
  by (simp_all add: image_extensions_def html_extensions_def image_paths_def html_paths_def static_paths_def)

lemma list_ex_has: "list_ex (\<lambda>e. getFileExtension (last path) = e) exts \<longleftrightarrow> has_extension exts path"
  by (auto simp: has_extension_def list_ex_iff)

lemma applies_multipage:
  "applies imageFilter path = Inr (image_path path \<and> has_extension image_extensions path)"
  "applies htmlFilter path = Inr (html_path path \<and> has_extension html_extensions path)"
  "applies blockNonImages path = Inr (image_path path \<and> \<not> has_extension image_extensions path)"
  "applies blockNonHtml path = Inr (html_path path \<and> \<not> has_extension html_extensions path)"
  "applies authFilter path = Inr (static_path path)"
  using path_not_empty(1) [of path] path_not_empty(2) [of path] path_not_empty(3) [of path]
  by (simp_all add: applies_def matches_def path_condition_def path_conditions extension_condition_def
      regex_condition_def extension_lists list_ex_has Let_def)

text \<open>What a request to a static path gets, once it has passed the authentication.\<close>

definition served_file :: "string list \<Rightarrow> string option" where
  "served_file path =
     (if image_path path \<and> has_extension image_extensions path then Some (''/var/www/multipage/images/'' @ last path)
      else if html_path path \<and> has_extension html_extensions path then Some (''/var/www/multipage/html/'' @ last path)
      else None)"

definition blocked_path :: "string list \<Rightarrow> bool" where
  "blocked_path path \<longleftrightarrow>
     image_path path \<and> \<not> has_extension image_extensions path \<or> html_path path \<and> \<not> has_extension html_extensions path"

definition answer_file :: "os \<Rightarrow> string \<Rightarrow> connection \<Rightarrow> bool result \<times> connection" where
  "answer_file os path c =
     (case sendFile os path [] False [] True c of
        (Inr _, c') \<Rightarrow> (Inr True, c')
      | (Inl (NawaException _ _), c') \<Rightarrow> (Inr True, setResponseBody (generateErrorPage 404) (setStatus 404 c'))
      | (Inl e, c') \<Rightarrow> (Inl e, c'))"

definition static_answer :: "os \<Rightarrow> string list \<Rightarrow> connection \<Rightarrow> bool result \<times> connection" where
  "static_answer os path c = (case served_file path of Some f \<Rightarrow> answer_file os f c | None \<Rightarrow> (Inr False, c))"

lemma multipage_block:
  "apply_block [blockNonImages, blockNonHtml] path c =
     (if blocked_path path then (Inr True, setResponseBody (generateErrorPage 404) (setStatus 404 c)) else (Inr False, c))"
  using path_not_empty(4) [of path]
  by (cases "image_path path"; cases "html_path path"; cases "has_extension image_extensions path";
      cases "has_extension html_extensions path") (simp_all add: applies_multipage blocked_path_def filter_response_def)

lemma multipage_forward:
  "apply_forward os [imageFilter, htmlFilter] path c = static_answer os path c"
proof -
  have "path \<noteq> []" if "image_path path \<or> html_path path" using that by (auto simp: image_path_def html_path_def)
  then show ?thesis
    using path_not_empty(4) [of path]
    by (cases "image_path path"; cases "html_path path"; cases "has_extension image_extensions path";
        cases "has_extension html_extensions path")
      (simp_all add: applies_multipage static_answer_def served_file_def forward_path_def answer_file_def filter_response_def
        split: sum.split cxx_error.split prod.split)
qed

lemma multipage_decision:
  "applyFilters H os multipage_filters c w =
     (let path = getRequestPath (rq_env (cn_request c)) in
      if blocked_path path then Some (Inr True, setResponseBody (generateErrorPage 404) (setStatus 404 c), w)
      else if static_path path then
        (case apply_credentials 0 authFilter c w of
           (Inr False, c, w) \<Rightarrow> (case static_answer os path c of (r, c) \<Rightarrow> Some (r, c, w))
         | r \<Rightarrow> Some r)
      else Some (Inr False, c, w))"
proof -
  have "static_answer os path c = (Inr False, c)" if "\<not> static_path path" for path c
    using that path_not_empty(2,3) [of path] by (auto simp: static_answer_def served_file_def)
  then show ?thesis
    unfolding applyFilters_def multipage_fields multipage_block multipage_forward
    by (simp add: applies_multipage Let_def multipage_fields split: prod.split sum.split bool.split)
qed


section \<open>What the policy protects\<close>

definition knows_password :: "connection \<Rightarrow> bool" where
  "knows_password c \<longleftrightarrow>
     auth_credentials (Env_get (rq_env (cn_request c)) ''authorization'') = Inr (Some (''test'', ''supersecure''))"

lemma knows_accepted: "credentials_accepted authFilter c \<longleftrightarrow> knows_password c"
  by (auto simp: credentials_accepted_def knows_password_def known_user_def)

lemma known_credentials: "knows_password c \<Longrightarrow> apply_credentials 0 authFilter c w = (Inr False, c, w)"
proof -
  assume k: "knows_password c"
  let ?h = "Env_get (rq_env (cn_request c)) ''authorization''"
  have ne: "?h \<noteq> []"
    using k by (auto simp: knows_password_def auth_credentials_def vec_at_def)
  from k have "auth_check authFilter ?h = Inr (Some ''test'')"
    by (simp add: auth_check_def knows_password_def known_user_def)
  with ne show ?thesis by (simp add: apply_credentials_def)
qed

text \<open>Without the password neither the files nor the application have a part in the answer.\<close>

lemma multipage_refused:
  assumes "static_path (getRequestPath (rq_env (cn_request c)))" and "\<not> knows_password c"
  shows "\<exists>r c' w'. (\<forall>os. applyFilters H os multipage_filters c w = Some (r, c', w')) \<and> r \<noteq> Inr False"
proof (cases "blocked_path (getRequestPath (rq_env (cn_request c)))")
  case True
  then show ?thesis by (simp add: multipage_decision)
next
  case False
  obtain r c' w' where r: "apply_credentials 0 authFilter c w = (r, c', w')" by (metis prod_cases3)
  have "r \<noteq> Inr False"
    using apply_credentials_pass [of 0 authFilter c w c' w'] r assms(2) knows_accepted by blast
  then have "applyFilters H os multipage_filters c w = Some (r, c', w')" for os
    using assms False r by (simp add: multipage_decision Let_def split: sum.split bool.split)
  with \<open>r \<noteq> Inr False\<close> show ?thesis by blast
qed

lemma multipage_without_password:
  assumes "rh_accessFilters rh = Some multipage_filters"
    and "static_path (getRequestPath (rq_env (cn_request c)))" and "\<not> knows_password c"
  shows "handleRequest H os' (rh\<lparr>rh_handleRequestFunction := f\<rparr>) c w = handleRequest H os rh c w"
proof -
  from multipage_refused [OF assms(2,3), of H w] obtain r c' w' where
    r: "\<And>os. applyFilters H os multipage_filters c w = Some (r, c', w')" "r \<noteq> Inr False" by blast
  then show ?thesis by (simp add: handleRequest_def assms(1) split: sum.split bool.split)
qed

lemma multipage_blocked:
  assumes "rh_accessFilters rh = Some multipage_filters" and "blocked_path (getRequestPath (rq_env (cn_request c)))"
  shows "handleRequest H os rh c w = Some (Inr (), setResponseBody (generateErrorPage 404) (setStatus 404 c), w)"
  using assms by (simp add: handleRequest_def multipage_decision Let_def)

lemma multipage_with_password:
  assumes "rh_accessFilters rh = Some multipage_filters"
    and "static_path (getRequestPath (rq_env (cn_request c)))" and "knows_password c"
    and "\<not> blocked_path (getRequestPath (rq_env (cn_request c)))"
  shows "handleRequest H os rh c w =
    (case served_file (getRequestPath (rq_env (cn_request c))) of
       None \<Rightarrow> run_app rh c w
     | Some f \<Rightarrow> (case answer_file os f c of (r, c) \<Rightarrow> Some (map_sum (\<lambda>e. e) (\<lambda>_. ()) r, c, w)))"
proof -
  let ?path = "getRequestPath (rq_env (cn_request c))"
  have d: "applyFilters H os multipage_filters c w = (case static_answer os ?path c of (r, c) \<Rightarrow> Some (r, c, w))"
    using assms(2,4) by (simp add: multipage_decision known_credentials [OF assms(3)])
  show ?thesis
  proof (cases "served_file ?path")
    case None
    then show ?thesis by (simp add: handleRequest_def assms(1) d static_answer_def)
  next
    case (Some f)
    obtain r c' where r: "answer_file os f c = (r, c')" by fastforce
    then have "r \<noteq> Inr False"
      by (auto simp: answer_file_def split: sum.splits prod.splits cxx_error.splits)
    with Some r show ?thesis
      by (simp add: handleRequest_def assms(1) d static_answer_def split: sum.split bool.split)
  qed
qed

text \<open>A file that is served lies directly in one of the two directories and has a permitted extension.\<close>

lemma served_file_place:
  assumes "served_file (getRequestPath e) = Some f"
  shows "\<exists>name. CHR ''/'' \<notin> set name
    \<and> (f = ''/var/www/multipage/images/'' @ name \<and> getFileExtension name \<in> set image_extensions
       \<or> f = ''/var/www/multipage/html/'' @ name \<and> getFileExtension name \<in> set html_extensions)"
proof -
  have "getRequestPath e \<noteq> []"
    using assms by (auto simp: served_file_def image_path_def html_path_def split: if_splits)
  then have "last (getRequestPath e) \<in> set (getRequestPath e)" by simp
  then have "path_elem (last (getRequestPath e))" unfolding getRequestPath_def by (rule splitPath_elems)
  then show ?thesis using assms
    by (intro exI [of _ "last (getRequestPath e)"])
      (auto simp: served_file_def has_extension_def path_elem_def split: if_splits)
qed

end
