(* ===== verification/Contact_Form.thy ===== *)
theory Contact_Form
  imports Multipage Smtp
begin

text \<open>
  The example application \<^verbatim>\<open>examples/contactform.cpp\<close>: sessions, POST data, emails, the mailer and the
  logger in one request handler. Besides the connection and the world of sessions it works on the
  state of the logger, and it yields the calls made to libcurl. A session variable of this application
  is an \<^verbatim>\<open>unsigned int\<close> (\<open>AnyOther n\<close>). \<^verbatim>\<open>replyTo\<close> is constructed by the code and not used, and the
  debug line of the log is left out.
\<close>

text \<open>What the application uses of the system.\<close>

record contact_env =
  ce_hash :: "string \<Rightarrow> string"
  ce_smtp :: smtp_os
  ce_draws :: nat
  ce_curl :: bool
  ce_perform :: "curl_call list \<Rightarrow> string option"
  ce_log :: log_os
  ce_logger :: log_data

definition contactform_init :: "app_init \<Rightarrow> log_data \<Rightarrow> int \<times> app_init \<times> log_data" where
  "contactform_init appInit logger = (0, appInit, setAppname ''Contact form app'' logger)"

text \<open>\<^verbatim>\<open>any_cast<unsigned int>(randVal) == stoul(post["rand_val"])\<close>; an exception means no.\<close>

definition rand_valid :: "nat any option \<Rightarrow> string \<Rightarrow> bool" where
  "rand_valid randVal s =
     (case randVal of
        Some (AnyOther n) \<Rightarrow> (case stoul 10 s of Inr m \<Rightarrow> n = m | Inl _ \<Rightarrow> False)
      | _ \<Rightarrow> False)"

definition contact_from :: "gpc \<Rightarrow> EmailAddress" where
  "contact_from post = EmailAddress_new (GPC_get post ''name'') ''contactform@example.com''"

definition contact_to :: EmailAddress where
  "contact_to = EmailAddress_new ''The Admin'' ''admin@example.com''"

definition contact_text :: "gpc \<Rightarrow> string" where
  "contact_text post =
     ''This contact form was sent via an example nawa application!'' @ CRLF @ CRLF
     @ ''Name of the sender: '' @ GPC_get post ''name'' @ CRLF
     @ ''Email of the sender: '' @ GPC_get post ''email'' @ CRLF @ CRLF @ GPC_get post ''message''"

text \<open>The email; \<open>None\<close> would be a \<^verbatim>\<open>makeEncodedWord\<close> that does not return.\<close>

definition contact_email :: "gpc \<Rightarrow> email result option" where
  "contact_email post =
     (case EmailAddress_get (contact_from post) True True of
        Inl e \<Rightarrow> Some (Inl e)
      | Inr from \<Rightarrow>
          (case EmailAddress_get contact_to True True of
             Inl e \<Rightarrow> Some (Inl e)
           | Inr to \<Rightarrow>
               (case makeEncodedWord (''[Contact Form] '' @ GPC_get post ''subject'') False True of
                  None \<Rightarrow> None
                | Some subject \<Rightarrow>
                    Some (Inr \<lparr>em_headers = umap_set ''Subject'' subject
                       (umap_set ''Content-Type'' ''text/plain; charset=UTF-8''
                         (umap_set ''To'' to (umap_set ''From'' from []))),
                       em_body = Simple (contact_text post) True\<rparr>))))"

definition contact_mailer :: SmtpMailer where
  "contact_mailer =
     SmtpMailer_new ''example.com'' 587 REQUIRE_STARTTLS True ''test@example.com'' ''12345'' 10000"

type_synonym contact_result =
  "(unit result \<times> connection \<times> nat any world \<times> log_globals \<times> curl_call list) option"

text \<open>
  Queueing and sending, with the email and the sender as new shared objects. The \<^verbatim>\<open>try\<close> around
  \<^verbatim>\<open>processQueue\<close> catches the exceptions of nawa only; an exception of \<^verbatim>\<open>enqueue\<close> leaves the handler.
\<close>

definition contact_objects :: "email \<Rightarrow> EmailAddress \<Rightarrow> objects" where
  "contact_objects em from = \<lparr>ob_emails = [0 \<mapsto> em], ob_addresses = [0 \<mapsto> from], ob_rules = Map.empty\<rparr>"

definition contact_deliver :: "contact_env \<Rightarrow> gpc \<Rightarrow> email \<Rightarrow> connection \<Rightarrow> nat any world \<Rightarrow> log_globals \<Rightarrow> contact_result" where
  "contact_deliver env post em c w g =
     (case enqueue (ce_smtp env) 0 contact_to 0 None
             (contact_mailer, contact_objects em (contact_from post), ce_draws env) of
        (Inl e, _) \<Rightarrow> Some (Inl e, c, w, g, [])
      | (Inr _, m, h, k) \<Rightarrow>
          (case processQueue (ce_curl env) (ce_perform env) (ce_smtp env) h m k of
             (calls, _, None) \<Rightarrow> None
           | (calls, _, Some (Inr _)) \<Rightarrow>
               Some (Inr (), writeStream ''</body></html>'' (writeStream ''<p>Message sent successfully!</p>'' c), w, g, calls)
           | (calls, _, Some (Inl (NawaException n msg))) \<Rightarrow>
               Some (Inr (), writeStream ''</body></html>''
                       (writeStream ''<p>Message could not be sent due to a technical problem :(</p>'' c), w,
                     NLOG_ERROR (ce_log env) (ce_logger env) (''Error sending email: '' @ msg) g, calls)
           | (calls, _, Some (Inl e)) \<Rightarrow> Some (Inl e, c, w, g, calls)))"

definition contact_process :: "contact_env \<Rightarrow> gpc \<Rightarrow> nat any option \<Rightarrow> connection \<Rightarrow> nat any world \<Rightarrow> log_globals \<Rightarrow> contact_result" where
  "contact_process env post randVal c w g =
     (if \<not> rand_valid randVal (GPC_get post ''rand_val'')
      then Some (Inr (), writeStream ''<p>No spamming, please!</p>'' c, w, g, [])
      else if GPC_get post ''name'' = [] \<or> GPC_get post ''email'' = [] \<or> GPC_get post ''subject'' = []
        \<or> GPC_get post ''message'' = []
      then Some (Inr (), writeStream ''<p>Please go back and fill in all required fields!</p></body></html>'' c, w, g, [])
      else
        (case contact_email post of
           None \<Rightarrow> None
         | Some (Inl e) \<Rightarrow> Some (Inl e, c, w, g, [])
         | Some (Inr em) \<Rightarrow> contact_deliver env post em c w g))"

definition contact_input :: "string \<Rightarrow> string \<Rightarrow> string \<Rightarrow> string" where
  "contact_input label type name =
     ''<p>'' @ label @ '': <input type='' @ [DQUOTE] @ type @ [DQUOTE] @ '' name='' @ [DQUOTE] @ name @ [DQUOTE] @ '' /></p>''"

definition contact_form :: "nat \<Rightarrow> string" where
  "contact_form randVal =
     ''<p>Please fill in the following form in order to contact us! All fields are required.</p>'' @ CRLF
     @ ''<form name='' @ [DQUOTE] @ ''contact'' @ [DQUOTE] @ '' method='' @ [DQUOTE] @ ''post'' @ [DQUOTE]
     @ '' action='' @ [DQUOTE] @ ''?'' @ [DQUOTE] @ ''>''
     @ ''<input type='' @ [DQUOTE] @ ''hidden'' @ [DQUOTE] @ '' name='' @ [DQUOTE] @ ''rand_val'' @ [DQUOTE]
     @ '' value='' @ [DQUOTE] @ dec randVal @ [DQUOTE] @ '' />''
     @ contact_input ''Your name'' ''text'' ''name''
     @ contact_input ''Email address'' ''email'' ''email''
     @ contact_input ''Subject'' ''text'' ''subject''
     @ ''<p>Message: <textarea name='' @ [DQUOTE] @ ''message'' @ [DQUOTE] @ '' rows='' @ [DQUOTE] @ ''5'' @ [DQUOTE]
     @ '' cols='' @ [DQUOTE] @ ''30'' @ [DQUOTE] @ ''></textarea></p>''
     @ ''<p><input type='' @ [DQUOTE] @ ''submit'' @ [DQUOTE] @ '' name='' @ [DQUOTE] @ ''go'' @ [DQUOTE]
     @ '' value='' @ [DQUOTE] @ ''Submit'' @ [DQUOTE] @ '' /></p>'' @ ''</form></body></html>''"

text \<open>A new random value is stored in the session and the form shown.\<close>

definition contact_show :: "connection \<Rightarrow> nat any world \<Rightarrow> log_globals \<Rightarrow> contact_result" where
  "contact_show c w g =
     (let (n, w) = read_random w in
      case Session_set ''randVal'' (AnyOther n) w (cn_session c) of
        (Inl e, w) \<Rightarrow> Some (Inl e, c, w, g, [])
      | (Inr _, w) \<Rightarrow> Some (Inr (), writeStream (contact_form n) c, w, g, []))"

definition contactform_handleRequest :: "contact_env \<Rightarrow> connection \<Rightarrow> nat any world \<Rightarrow> log_globals \<Rightarrow> contact_result" where
  "contactform_handleRequest env connection w g =
     (let c = setCookiePolicy (Cookie_default\<lparr>ck_httpOnly := True\<rparr>) connection in
      case startSession (ce_hash env) Cookie_default c w of
        None \<Rightarrow> None
      | Some (Inl e, c, w) \<Rightarrow> Some (Inl e, c, w, g, [])
      | Some (Inr _, c, w) \<Rightarrow>
          (let randVal = Session_get w (cn_session c) ''randVal'';
               post = gpc.truncate (rq_post (cn_request c));
               c = writeStream ''<!DOCTYPE html><head><title>Contact Form</title></head><body>'' c
           in if randVal \<noteq> None \<and> GPC_count post ''rand_val'' = 1
              then contact_process env post randVal c w g
              else contact_show c w g))"

section \<open>The addresses and the headers\<close>

lemma example_domain: "punycodeEncode ''example.com'' = Inr ''example.com''"
proof -
  have "splitString ''example.com'' (CHR ''.'') True = [''example'', ''com'']"
    using splitString_step [of "CHR ''.''" "''example''" "''com''" True]
      splitString_token [of "CHR ''.''" "''com''" True] by simp
  moreover have "encode_label ''example'' = Inr ''example''" "encode_label ''com'' = Inr ''com''"
    by (rule encode_label_ascii; simp add: ascii_def)+
  ultimately show ?thesis by (simp add: punycodeEncode_def)
qed

lemma contact_domain: "applyPunycodeToDomain ''contactform@example.com'' = Inr ''contactform@example.com''"
  "applyPunycodeToDomain ''admin@example.com'' = Inr ''admin@example.com''"
proof -
  have "splitString ''contactform@example.com'' (CHR ''@'') False = [''contactform'', ''example.com'']"
    "splitString ''admin@example.com'' (CHR ''@'') False = [''admin'', ''example.com'']"
    using splitString_step [of "CHR ''@''" "''contactform''" "''example.com''" False]
      splitString_step [of "CHR ''@''" "''admin''" "''example.com''" False]
      splitString_token [of "CHR ''@''" "''example.com''" False] by simp_all
  then show "applyPunycodeToDomain ''contactform@example.com'' = Inr ''contactform@example.com''"
    "applyPunycodeToDomain ''admin@example.com'' = Inr ''admin@example.com''"
    by (simp_all add: applyPunycodeToDomain_def example_domain)
qed

lemma contact_addresses:
  "EmailAddress_get (contact_from post) False True = Inr ''<contactform@example.com>''"
  "EmailAddress_get contact_to False True = Inr ''<admin@example.com>''"
  "EmailAddress_get contact_to True True = Inr ''The Admin <admin@example.com>''"
  "GPC_get post ''name'' \<noteq> [] \<Longrightarrow>
     EmailAddress_get (contact_from post) True True = Inr (GPC_get post ''name'' @ '' <contactform@example.com>'')"
  by (simp_all add: EmailAddress_get_def contact_from_def contact_to_def EmailAddress_new_def contact_domain)

text \<open>An encoded word holds no line break, so a header made with it stays one header.\<close>

lemma q_encoded_no_break: "set (qp_loop le True True n s) \<inter> {CR, LF} = {}"
proof (induction s arbitrary: n)
  case (Cons c s)
  have "set (fst (qp_step le True True n c)) \<inter> {CR, LF} = {}"
    using upper_hex_not_crlf [of _ c]
    by (auto simp: qp_step_def qp_literal_def CR_def LF_def)
  with Cons show ?case by (cases "qp_step le True True n c") auto
qed simp

lemma encoded_word_one_line: "\<exists>w. makeEncodedWord s False True = Some w \<and> set w \<inter> {CR, LF} = {}"
proof -
  let ?q = "quotedPrintableEncode s [] True True"
  let ?r = "concat (map (\<lambda>d. if d = CHR '' '' then ''_'' else [d]) s)"
  have q: "set ?q \<inter> {CR, LF} = {}" unfolding quotedPrintableEncode_def by (rule q_encoded_no_break)
  have r: "stringReplace s [('' '', ''_'')] = Some ?r"
    using stringReplace_fold [of "[('' '', ''_'')]" s] by (simp add: replace_all_single)
  show ?thesis
  proof (cases "?q = ?r")
    case True
    then have "set s \<inter> {CR, LF} = {}" using q by (auto simp: CR_def LF_def)
    with True show ?thesis unfolding makeEncodedWord_def r Let_def by simp
  next
    case False
    with q show ?thesis unfolding makeEncodedWord_def r Let_def by (auto simp: CR_def LF_def)
  qed
qed

lemma contact_email_headers:
  assumes "GPC_get post ''name'' \<noteq> []"
  obtains em subject where "contact_email post = Some (Inr em)"
    "umap_get (em_headers em) ''From'' = Some (GPC_get post ''name'' @ '' <contactform@example.com>'')"
    "umap_get (em_headers em) ''To'' = Some ''The Admin <admin@example.com>''"
    "umap_get (em_headers em) ''Subject'' = Some subject" "set subject \<inter> {CR, LF} = {}"
    "em_body em = Simple (contact_text post) True"
proof -
  obtain w where w: "makeEncodedWord (''[Contact Form] '' @ GPC_get post ''subject'') False True = Some w"
    "set w \<inter> {CR, LF} = {}" using encoded_word_one_line by blast
  show thesis
    by (rule that [of "\<lparr>em_headers = umap_set ''Subject'' w (umap_set ''Content-Type'' ''text/plain; charset=UTF-8''
          (umap_set ''To'' ''The Admin <admin@example.com>''
            (umap_set ''From'' (GPC_get post ''name'' @ '' <contactform@example.com>'') []))),
         em_body = Simple (contact_text post) True\<rparr>" w])
      (use w in \<open>simp_all add: contact_email_def contact_addresses assms um.get_put\<close>)
qed

section \<open>What is sent\<close>

text \<open>What waits in the queue is one envelope, with the two addresses.\<close>

lemma contact_queued:
  assumes "enqueue os 0 contact_to 0 None (contact_mailer, contact_objects em (contact_from post), k) = (Inr u, m, h, k')"
    and "em_body em = Simple t q"
  shows "\<exists>payload. envelopes os h (sm_queue m) k' = Some [(''<contactform@example.com>'', [''<admin@example.com>''], payload)]"
    and "delivery m = delivery contact_mailer"
proof -
  have em: "ob_emails (contact_objects em (contact_from post)) 0 = Some em" by (simp add: contact_objects_def)
  from bulkEnqueue_effect [OF assms(1) [unfolded enqueue_def] em] obtain em' where
    h: "h = set_email 0 em' (contact_objects em (contact_from post))" "extends_email em em'"
    and m: "m = contact_mailer\<lparr>sm_queue := [\<lparr>qe_email = 0, qe_from = 0, qe_recipients = [contact_to],
       qe_replacementRules = None\<rparr>]\<rparr>"
    by (auto simp: contact_mailer_def SmtpMailer_new_def)
  have body: "em_body em' = Simple t q" using h(2) assms(2) by (simp add: extends_email_def)
  have cs: "c_string ''<contactform@example.com>'' = ''<contactform@example.com>''"
    "c_string ''<admin@example.com>'' = ''<admin@example.com>''" by (simp_all add: c_string_def)
  show "\<exists>payload. envelopes os h (sm_queue m) k' = Some [(''<contactform@example.com>'', [''<admin@example.com>''], payload)]"
    by (simp add: m from_calls_def elem_raw_def h(1) set_email_def contact_objects_def contact_addresses cs getRaw_def
        body SimpleEmail_getRaw_def replaced_def)
  show "delivery m = delivery contact_mailer" by (simp add: fun_eq_iff m delivery_def server_options_def)
qed

lemma contact_deliver_transfers:
  assumes "contact_deliver env post em c w g = Some (r, c', w', g', calls)" and "em_body em = Simple t q"
  shows "w' = w \<and> (transfers fresh_handle calls = []
    \<or> (\<exists>payload. transfers fresh_handle calls =
         [delivery contact_mailer (''<contactform@example.com>'', [''<admin@example.com>''], payload)]))"
proof -
  obtain x m h k where e: "enqueue (ce_smtp env) 0 contact_to 0 None
      (contact_mailer, contact_objects em (contact_from post), ce_draws env) = (x, m, h, k)"
    by (metis prod_cases4)
  show ?thesis
  proof (cases x)
    case (Inl err)
    with assms(1) e show ?thesis by (simp add: contact_deliver_def)
  next
    case (Inr u)
    obtain out calls' k' where p: "processQueue (ce_curl env) (ce_perform env) (ce_smtp env) h m k = (calls', k', out)"
      by (metis prod_cases3)
    have c: "w' = w" "calls' = calls"
      using assms(1) e p Inr by (auto simp: contact_deliver_def split: option.splits sum.splits cxx_error.splits)
    from contact_queued(1) [OF e [unfolded Inr] assms(2)] obtain payload where
      es: "envelopes (ce_smtp env) h (sm_queue m) k = Some [(''<contactform@example.com>'', [''<admin@example.com>''], payload)]" ..
    show ?thesis
    proof (cases "ce_curl env")
      case False
      with p have "calls' = []" by (simp add: processQueue_def)
      with c show ?thesis by simp
    next
      case True
      from processQueue_refines [OF es, of "ce_perform env"] obtain calls0 n k0 out0 where
        "processQueue True (ce_perform env) (ce_smtp env) h m k = (calls0 @ [Cleanup], k0, Some out0)"
        "n \<le> 1" "transfers fresh_handle calls0 = map (delivery contact_mailer)
           (take n [(''<contactform@example.com>'', [''<admin@example.com>''], payload)])"
        by (auto simp: contact_queued(2) [OF e [unfolded Inr] assms(2)])
      with p c True show ?thesis by (cases n) (auto simp: transfers_append)
    qed
  qed
qed

text \<open>Where the system can tell the time and libcurl delivers, the email is sent and the visitor told so.\<close>

lemma contact_enqueued:
  assumes "so_localtime os (so_time os) \<noteq> None" and "GPC_get post ''name'' \<noteq> []"
  shows "\<exists>m h k'. enqueue os 0 contact_to 0 None (contact_mailer, contact_objects em (contact_from post), k) = (Inr (), m, h, k')"
proof -
  obtain d where d: "makeSmtpTime (so_localtime os) (so_time os) = Inr d"
    using assms(1) by (auto simp: makeSmtpTime_def split: option.split)
  have "\<exists>em1. add_date os em = Inr em1" by (simp add: add_date_def d)
  moreover have "\<exists>em2. add_from (Some (contact_from post)) em1 = Inr em2" for em1
    by (simp add: add_from_def contact_addresses(4) [OF assms(2)])
  moreover have "\<exists>p. add_message_id os k (Some (contact_from post)) em2 = Inr p" for em2
    by (simp add: add_message_id_def split: option.split)
  ultimately obtain em1 em2 em3 k' where "add_date os em = Inr em1" "add_from (Some (contact_from post)) em1 = Inr em2"
    "add_message_id os k (Some (contact_from post)) em2 = Inr (em3, k')" by (metis surj_pair)
  then show ?thesis
    by (simp add: enqueue_def bulkEnqueue_def addMissingHeaders_def contact_objects_def)
qed

lemma no_failure: "set (answers (\<lambda>calls. None) pre calls) \<subseteq> {None}"
  by (induction calls arbitrary: pre) (simp_all, blast)

lemma contact_delivered:
  assumes "so_localtime (ce_smtp env) (so_time (ce_smtp env)) \<noteq> None" and "GPC_get post ''name'' \<noteq> []"
    and "ce_curl env" and "ce_perform env = (\<lambda>calls. None)" and "em_body em = Simple t q"
  shows "\<exists>calls payload. contact_deliver env post em c w g = Some (Inr (),
      writeStream ''</body></html>'' (writeStream ''<p>Message sent successfully!</p>'' c), w, g, calls)
    \<and> transfers fresh_handle calls =
        [delivery contact_mailer (''<contactform@example.com>'', [''<admin@example.com>''], payload)]"
proof -
  from contact_enqueued [OF assms(1,2)] obtain m h k where e: "enqueue (ce_smtp env) 0 contact_to 0 None
      (contact_mailer, contact_objects em (contact_from post), ce_draws env) = (Inr (), m, h, k)" by blast
  from contact_queued(1) [OF e assms(5)] obtain payload where
    es: "envelopes (ce_smtp env) h (sm_queue m) k = Some [(''<contactform@example.com>'', [''<admin@example.com>''], payload)]" ..
  from processQueue_refines [OF es, of "\<lambda>calls. None"] obtain calls n k0 out where
    p: "processQueue True (\<lambda>calls. None) (ce_smtp env) h m k = (calls @ [Cleanup], k0, Some out)"
    and n: "transfers fresh_handle calls = map (delivery contact_mailer)
       (take n [(''<contactform@example.com>'', [''<admin@example.com>''], payload)])"
    and out: "stops_right (answers (\<lambda>calls. None) [] calls) 1 out"
    by (auto simp: contact_queued(2) [OF e assms(5)])
  let ?as = "answers (\<lambda>calls. None) [] calls"
  have ok: "out = Inr ()"
  proof (cases out)
    case (Inl err)
    with out have as: "?as \<noteq> []" "last ?as \<noteq> None" by (cases "last ?as"; simp)+
    from last_in_set [OF as(1)] no_failure [of "[]" calls] have "last ?as = None" by (metis singletonD subsetD)
    with as(2) show ?thesis by contradiction
  qed simp
  have len: "length (answers f pre xs) = length (transfers cu xs)" for f pre xs cu
    by (induction xs arbitrary: pre cu) simp_all
  from out ok have "length (transfers fresh_handle calls) = 1" using len [of "\<lambda>calls. None" "[]" calls fresh_handle] by simp
  then have "n \<noteq> 0" using n by auto
  with n have "transfers fresh_handle calls =
      [delivery contact_mailer (''<contactform@example.com>'', [''<admin@example.com>''], payload)]"
    by (cases n) simp_all
  with e p ok assms(3,4) show ?thesis
    by (intro exI [of _ "calls @ [Cleanup]"] exI [of _ payload]) (simp add: contact_deliver_def transfers_append)
qed

abbreviation contact_post :: "connection \<Rightarrow> gpc" where
  "contact_post c \<equiv> gpc.truncate (rq_post (cn_request c))"

definition contact_policy :: "connection \<Rightarrow> connection" where
  "contact_policy c = setCookiePolicy (Cookie_default\<lparr>ck_httpOnly := True\<rparr>) c"

lemma rand_valid_iff: "rand_valid v s \<longleftrightarrow> (\<exists>n. v = Some (AnyOther n) \<and> stoul 10 s = Inr n)"
  by (auto simp: rand_valid_def split: option.splits any.splits sum.splits)

definition all_filled :: "gpc \<Rightarrow> bool" where
  "all_filled post \<longleftrightarrow> (\<forall>f \<in> {''name'', ''email'', ''subject'', ''message''}. GPC_get post f \<noteq> [])"

lemma contact_process_valid:
  assumes "rand_valid v (GPC_get post ''rand_val'')" and "all_filled post"
  obtains em where "contact_email post = Some (Inr em)" "em_body em = Simple (contact_text post) True"
    "contact_process env post v c w g = contact_deliver env post em c w g"
proof -
  have "GPC_get post ''name'' \<noteq> []" using assms(2) by (simp add: all_filled_def)
  from contact_email_headers [OF this] obtain em where "contact_email post = Some (Inr em)"
    "em_body em = Simple (contact_text post) True" by metis
  with assms show thesis by (intro that) (simp_all add: contact_process_def all_filled_def)
qed

lemma contact_process_invalid:
  "\<not> (rand_valid v (GPC_get post ''rand_val'') \<and> all_filled post) \<Longrightarrow>
     \<exists>c'. contact_process env post v c w g = Some (Inr (), c', w, g, [])"
  by (auto simp: contact_process_def all_filled_def)

lemma contactform_runs:
  assumes "startSession (ce_hash env) Cookie_default (contact_policy c) w = Some (x, c1, w1)"
  defines "v \<equiv> Session_get w1 (cn_session c1) ''randVal''"
    and "c2 \<equiv> writeStream ''<!DOCTYPE html><head><title>Contact Form</title></head><body>'' c1"
  shows "contactform_handleRequest env c w g = (case x of
      Inl e \<Rightarrow> Some (Inl e, c1, w1, g, [])
    | Inr _ \<Rightarrow> (if v \<noteq> None \<and> GPC_count (contact_post c) ''rand_val'' = 1
              then contact_process env (contact_post c) v c2 w1 g else contact_show c2 w1 g))"
proof -
  have post: "contact_post c1 = contact_post c"
    using startSession_request [OF assms(1)] by (simp add: contact_policy_def setCookiePolicy_def)
  show ?thesis
    using assms(1) unfolding contactform_handleRequest_def contact_policy_def [symmetric] Let_def post [symmetric] v_def c2_def
    by (simp split: sum.split)
qed

text \<open>
  Something is sent only for a request whose session holds the number that the form carries, with all
  fields filled, and what is sent goes from and to the two fixed addresses, encrypted.
\<close>

lemma contactform_sends:
  assumes "contactform_handleRequest env c w g = Some (r, c', w', g', calls)" and "calls \<noteq> []"
  shows "\<exists>c1 w1 n. startSession (ce_hash env) Cookie_default (contact_policy c) w = Some (Inr (), c1, w1)
    \<and> Session_get w1 (cn_session c1) ''randVal'' = Some (AnyOther n)
    \<and> stoul 10 (GPC_get (contact_post c) ''rand_val'') = Inr n \<and> all_filled (contact_post c)
    \<and> (transfers fresh_handle calls = [] \<or> (\<exists>payload. transfers fresh_handle calls =
         [delivery contact_mailer (''<contactform@example.com>'', [''<admin@example.com>''], payload)]))"
proof -
  obtain x c1 w1 where s: "startSession (ce_hash env) Cookie_default (contact_policy c) w = Some (x, c1, w1)"
    using assms(1) unfolding contactform_handleRequest_def contact_policy_def by (auto simp: Let_def split: option.splits)
  let ?v = "Session_get w1 (cn_session c1) ''randVal''" and ?p = "contact_post c"
  let ?c = "writeStream ''<!DOCTYPE html><head><title>Contact Form</title></head><body>'' c1"
  have run: "contactform_handleRequest env c w g = (case x of
      Inl e \<Rightarrow> Some (Inl e, c1, w1, g, [])
    | Inr _ \<Rightarrow> (if ?v \<noteq> None \<and> GPC_count ?p ''rand_val'' = 1 then contact_process env ?p ?v ?c w1 g
              else contact_show ?c w1 g))"
    by (rule contactform_runs [OF s])
  have x: "x = Inr ()" using assms run by (cases x) auto
  have no_calls: "calls = []" if "contact_show ?c w1 g = Some (r, c', w', g', calls)"
    using that by (auto simp: contact_show_def Let_def split: sum.splits prod.splits)
  have p: "contact_process env ?p ?v ?c w1 g = Some (r, c', w', g', calls)"
  proof (cases "?v \<noteq> None \<and> GPC_count ?p ''rand_val'' = 1")
    case True
    with assms(1) run x show ?thesis by simp
  next
    case False
    have "contactform_handleRequest env c w g = contact_show ?c w1 g"
      unfolding run x sum.case by (rule if_not_P [OF False])
    then have "contact_show ?c w1 g = Some (r, c', w', g', calls)" using assms(1) by simp
    from no_calls [OF this] assms(2) show ?thesis by blast
  qed
  have ok: "rand_valid ?v (GPC_get ?p ''rand_val'') \<and> all_filled ?p"
    using contact_process_invalid [of ?v ?p env ?c w1 g] p assms(2) by auto
  then obtain em where em: "em_body em = Simple (contact_text ?p) True"
    "contact_process env ?p ?v ?c w1 g = contact_deliver env ?p em ?c w1 g"
    using contact_process_valid [of ?v ?p env ?c w1 g] by metis
  from contact_deliver_transfers [OF p [unfolded em(2)] em(1)] ok s x show ?thesis
    unfolding rand_valid_iff by blast
qed

section \<open>The form and its answer\<close>

text \<open>Starting a session leaves the data of all sessions as they are.\<close>

lemma start_lookup_data: "sd_data (w_heap (fst (start_lookup cfg e sid k w s)) a) = sd_data (w_heap w a)"
  by (auto simp: start_lookup_def read_time_def Let_def split: option.split)

lemma start_lookup_handle:
  "snd (start_lookup cfg e sid k w s) = s
   \<or> (\<exists>a. snd (start_lookup cfg e sid k w s) = s\<lparr>se_current := Some a\<rparr> \<and> umap_get (w_sessions w) sid = Some a)"
  by (auto simp: start_lookup_def read_time_def Let_def split: option.split)

lemma start_create_data:
  assumes "start_create H e sid k w s = Some (sid', w', s')"
  shows "(a < w_next w \<longrightarrow> w_heap w' a = w_heap w a) \<and> w_next w \<le> w_next w'
    \<and> (\<exists>a. se_current s' = Some a \<and> (se_current s = Some a \<or> a < w_next w'))"
proof (cases "se_current s")
  case None
  from start_create_result(2-4) [OF assms None] show ?thesis by simp
next
  case (Some b)
  with assms start_create_established [OF Some, of H e sid k w] show ?thesis by simp
qed

lemma Session_start_data:
  assumes "Session_start H cfg e sid ka w s = Some (r, w', s')"
  shows "a < w_next w \<Longrightarrow> sd_data (w_heap w' a) = sd_data (w_heap w a)"
    and "world_ok w \<Longrightarrow> \<not> established s \<Longrightarrow> r = Inr i \<Longrightarrow> \<exists>a. se_current s' = Some a \<and> a < w_next w'"
proof -
  consider (old) "established s" | (bad) err where "\<not> established s" "session_keepalive cfg ka = Inl err"
    | (go) k where "\<not> established s" "session_keepalive cfg ka = Inr k"
    by (cases "established s"; cases "session_keepalive cfg ka") auto
  then have "(a < w_next w \<longrightarrow> sd_data (w_heap w' a) = sd_data (w_heap w a))
    \<and> (world_ok w \<longrightarrow> \<not> established s \<longrightarrow> r = Inr i \<longrightarrow> (\<exists>a. se_current s' = Some a \<and> a < w_next w'))"
  proof cases
    case (go k)
    let ?w1 = "fst (start_lookup cfg e sid k w s)" and ?s1 = "snd (start_lookup cfg e sid k w s)"
    obtain sid' w2 s2 where c: "start_create H e sid k ?w1 ?s1 = Some (sid', w2, s2)"
      using assms go by (auto simp: Session_start_def split_beta Let_def split: option.splits)
    from Session_start_unfold [OF go c] assms have w': "w' = snd (start_gc cfg w2)" "s' = s2\<lparr>se_currentID := sid'\<rparr>"
      by simp_all
    have n: "w_next ?w1 = w_next w" using start_lookup_shape by blast
    have old: "a < w_next w" if "world_ok w" "se_current ?s1 = Some a" for a
      using that start_lookup_handle [of cfg e sid k w s] world_okD(2) [OF that(1)] go(1)
      by (auto simp: established_def)
    show ?thesis
      using start_create_data [OF c, of a] old n by (auto simp: w' start_gc_world start_lookup_data)
  qed (use assms in \<open>auto simp: Session_start_def\<close>)
  then show "a < w_next w \<Longrightarrow> sd_data (w_heap w' a) = sd_data (w_heap w a)"
    and "world_ok w \<Longrightarrow> \<not> established s \<Longrightarrow> r = Inr i \<Longrightarrow> \<exists>a. se_current s' = Some a \<and> a < w_next w'"
    by blast+
qed

lemma cookie_expiry_world: "w_heap (snd (cookie_expiry cfg k p w)) = w_heap w" "w_next (snd (cookie_expiry cfg k p w)) = w_next w"
  by (simp_all add: cookie_expiry_def read_time_def)

lemma startSession_data:
  assumes "startSession H p c w = Some (r, c', w')"
  shows "a < w_next w \<Longrightarrow> sd_data (w_heap w' a) = sd_data (w_heap w a)"
    and "world_ok w \<Longrightarrow> \<not> established (cn_session c) \<Longrightarrow> r = Inr i \<Longrightarrow> \<exists>a. se_current (cn_session c') = Some a \<and> a < w_next w'"
proof -
  obtain q s' where q: "Session_start_cookie H (cn_config c) (cn_request c) p w (cn_session c) = Some (q, w', s')"
    and s': "cn_session c' = s'" "r = Inr i \<Longrightarrow> \<exists>x. q = Inr x"
    using assms by (auto simp: startSession_def setCookie_def Let_def split: option.splits sum.splits if_splits)
  have e: "established (s\<lparr>se_cookieName := n\<rparr>) = established s" for s n by (simp add: established_def)
  from q consider (old) "established (cn_session c)" "w' = w"
    | (err) e where "w' = w" "q = Inl e"
    | (go) sid k x w1 s1 where "\<not> established (cn_session c)"
        "Session_start H (cn_config c) (rq_env (cn_request c)) sid (Some k) w
           ((cn_session c)\<lparr>se_cookieName := session_cookieName (cn_config c)\<rparr>) = Some (x, w1, s1)"
        "w_heap w' = w_heap w1" "w_next w' = w_next w1" "se_current s' = se_current s1" "\<exists>y. q = Inr y \<Longrightarrow> \<exists>i. x = Inr i"
    by (auto simp: Session_start_cookie_def Let_def split_beta cookie_expiry_world split: if_splits sum.splits option.splits)
  then have "(a < w_next w \<longrightarrow> sd_data (w_heap w' a) = sd_data (w_heap w a))
    \<and> (world_ok w \<longrightarrow> \<not> established (cn_session c) \<longrightarrow> r = Inr i \<longrightarrow>
        (\<exists>a. se_current (cn_session c') = Some a \<and> a < w_next w'))"
  proof cases
    case (go sid k x w1 s1)
    from Session_start_data(1) [OF go(2)] Session_start_data(2) [OF go(2)] go s' show ?thesis
      by (auto simp: e)
  qed (use s' in auto)
  then show "a < w_next w \<Longrightarrow> sd_data (w_heap w' a) = sd_data (w_heap w a)"
    and "world_ok w \<Longrightarrow> \<not> established (cn_session c) \<Longrightarrow> r = Inr i \<Longrightarrow> \<exists>a. se_current (cn_session c') = Some a \<and> a < w_next w'"
    by blast+
qed


lemma one_value: "GPC_getVector g k = [x] \<Longrightarrow> GPC_get g k = x \<and> GPC_count g k = 1"
proof -
  have "ummap_range m k = [x] \<Longrightarrow> map_of m k = Some x" for m :: "(string, string) ummap"
    by (induction m) (auto simp: ummap_range_def split: if_splits)
  then show "GPC_getVector g k = [x] \<Longrightarrow> GPC_get g k = x \<and> GPC_count g k = 1"
    by (simp add: GPC_getVector_def GPC_get_def GPC_count_def)
qed

text \<open>A request of the same session that gives this number back has its email queued and sent.\<close>

lemma contactform_answered:
  assumes "startSession (ce_hash env) Cookie_default (contact_policy c) w = Some (Inr u, c1, w1)"
    and "se_current (cn_session c1) = Some a" and "se_current s = Some a" and "a < w_next w"
    and "Session_get w s ''randVal'' = Some (AnyOther n)" and "n < 2 ^ 64"
    and "GPC_getVector (contact_post c) ''rand_val'' = [dec n]" and "all_filled (contact_post c)"
  shows "\<exists>em. contact_email (contact_post c) = Some (Inr em)
    \<and> contactform_handleRequest env c w g =
        contact_deliver env (contact_post c) em
          (writeStream ''<!DOCTYPE html><head><title>Contact Form</title></head><body>'' c1) w1 g"
proof -
  have v: "Session_get w1 (cn_session c1) ''randVal'' = Some (AnyOther n)"
    using startSession_data(1) [OF assms(1,4)] assms(2,3,5) by (simp add: Session_get_def)
  note p = one_value [OF assms(7)]
  have ok: "rand_valid (Some (AnyOther n)) (GPC_get (contact_post c) ''rand_val'')"
    using assms(6) p stoul_dec [of n] by (simp add: rand_valid_def)
  from contact_process_valid [OF ok assms(8)] obtain em where em: "contact_email (contact_post c) = Some (Inr em)"
    "contact_process env (contact_post c) (Some (AnyOther n))
       (writeStream ''<!DOCTYPE html><head><title>Contact Form</title></head><body>'' c1) w1 g
     = contact_deliver env (contact_post c) em
         (writeStream ''<!DOCTYPE html><head><title>Contact Form</title></head><body>'' c1) w1 g" by metis
  with contactform_runs [OF assms(1), of g] v p show ?thesis by (intro exI [of _ em]) simp
qed

lemma contactform_sent:
  assumes "startSession (ce_hash env) Cookie_default (contact_policy d) w = Some (Inr u, d1, w1)"
    and "se_current (cn_session d1) = Some a" and "se_current s = Some a" and "a < w_next w"
    and "Session_get w s ''randVal'' = Some (AnyOther n)" and "n < 2 ^ 64"
    and "GPC_getVector (contact_post d) ''rand_val'' = [dec n]" and "all_filled (contact_post d)"
    and "so_localtime (ce_smtp env) (so_time (ce_smtp env)) \<noteq> None" and "ce_curl env"
    and "ce_perform env = (\<lambda>calls. None)"
  shows "\<exists>d2 sent payload. contactform_handleRequest env d w g = Some (Inr (), d2, w1, g, sent)
    \<and> transfers fresh_handle sent =
        [delivery contact_mailer (''<contactform@example.com>'', [''<admin@example.com>''], payload)]
    \<and> cn_responseStream d2 = cn_responseStream d1
        @ ''<!DOCTYPE html><head><title>Contact Form</title></head><body>''
        @ ''<p>Message sent successfully!</p></body></html>''"
proof -
  have name: "GPC_get (contact_post d) ''name'' \<noteq> []" using assms(8) by (simp add: all_filled_def)
  from contactform_answered [OF assms(1-8), of g] obtain em where em: "contact_email (contact_post d) = Some (Inr em)"
    and run: "contactform_handleRequest env d w g = contact_deliver env (contact_post d) em
      (writeStream ''<!DOCTYPE html><head><title>Contact Form</title></head><body>'' d1) w1 g" by blast
  from contact_email_headers [OF name] em have body: "em_body em = Simple (contact_text (contact_post d)) True"
    by (metis option.inject sum.inject(2))
  from contact_delivered [OF assms(9) name assms(10,11) body] obtain sent payload where
    "contact_deliver env (contact_post d) em (writeStream ''<!DOCTYPE html><head><title>Contact Form</title></head><body>'' d1) w1 g
      = Some (Inr (), writeStream ''</body></html>'' (writeStream ''<p>Message sent successfully!</p>''
          (writeStream ''<!DOCTYPE html><head><title>Contact Form</title></head><body>'' d1)), w1, g, sent)"
    "transfers fresh_handle sent =
        [delivery contact_mailer (''<contactform@example.com>'', [''<admin@example.com>''], payload)]" by blast
  then show ?thesis unfolding run by (auto simp: writeStream_def)
qed

lemma contact_mailer_options:
  "ch_ssl (delivery contact_mailer e) = Some USESSL_ALL" "ch_url (delivery contact_mailer e) = Some ''smtp://example.com:587''"
  "ch_verify_peer (delivery contact_mailer e)" "ch_verify_host (delivery contact_mailer e)"
proof -
  have "dec 587 = ''587''" by code_simp
  then show "ch_ssl (delivery contact_mailer e) = Some USESSL_ALL"
    "ch_url (delivery contact_mailer e) = Some ''smtp://example.com:587''"
    "ch_verify_peer (delivery contact_mailer e)" "ch_verify_host (delivery contact_mailer e)"
    by (simp_all add: delivery_def with_envelope_def server_options_def contact_mailer_def SmtpMailer_new_def c_string_def)
qed

text \<open>
  The name of the visitor goes into the header \<^verbatim>\<open>From\<close> as it is. A line break in it ends the header,
  and what follows is a header of its own in the source of the email.
\<close>

lemma header_line_in:
  "umap_get hs k = Some v \<Longrightarrow> \<exists>pre suf. header_lines hs = pre @ (k @ '': '' @ v @ CRLF) @ suf"
proof (induction hs)
  case (Cons e hs)
  obtain k' v' where e: "e = (k', v')" by fastforce
  show ?case
  proof (cases "k' = k")
    case True
    with Cons.prems e show ?thesis
      by (intro exI [of _ "[]"] exI [of _ "header_lines hs"]) (simp add: header_lines_def umap_get_def)
  next
    case False
    with Cons.prems e have "umap_get hs k = Some v" by (simp add: umap_get_def)
    with Cons.IH obtain pre suf where "header_lines hs = pre @ (k @ '': '' @ v @ CRLF) @ suf" by blast
    with e show ?thesis
      by (intro exI [of _ "(k' @ '': '' @ v' @ CRLF) @ pre"] exI [of _ suf]) (simp add: header_lines_def)
  qed
qed (simp add: umap_get_def)

lemma contact_header_injected:
  assumes "GPC_get post ''name'' = name @ CRLF @ header"
  shows "\<exists>em pre suf. contact_email post = Some (Inr em)
    \<and> header_lines (em_headers em) = pre @ CRLF @ header @ '' <contactform@example.com>'' @ CRLF @ suf"
proof -
  have "GPC_get post ''name'' \<noteq> []" using assms by (simp add: CRLF_def)
  from contact_email_headers [OF this] obtain em where em: "contact_email post = Some (Inr em)"
    "umap_get (em_headers em) ''From'' = Some ((name @ CRLF @ header) @ '' <contactform@example.com>'')"
    unfolding assms by metis
  from header_line_in [OF em(2)] obtain pre suf where
    "header_lines (em_headers em) = pre @ (''From'' @ '': '' @ ((name @ CRLF @ header) @ '' <contactform@example.com>'') @ CRLF) @ suf"
    by blast
  with em(1) show ?thesis
    by (intro exI [of _ em] exI [of _ "pre @ ''From: '' @ name"] exI [of _ suf]) simp
qed

end
