(* ===== verification/Contact_Visit.thy ===== *)
theory Contact_Visit
  imports Contact_Form Connection_Props
begin

text \<open>
  Two visits to the contact form, from the requests to the email: the first request of a visitor without a
  session gets a new one with its cookie and the form, and a later request with that cookie that sends
  the form back has its email delivered. Starting the session is followed through its lookup, the drawing
  of the ID, the garbage collector and the cookie.
\<close>

section \<open>Starting a session from a request\<close>

text \<open>The session ID that the request brings.\<close>

definition visitor_id :: "connection \<Rightarrow> string" where
  "visitor_id c = GPC_get (rq_cookie (cn_request c)) (session_cookieName (cn_config c))"

text \<open>The settings let a session be started: keepalive and divisor are numbers, and the name of the cookie is
  one that \<^verbatim>\<open>setCookie\<close> takes.\<close>

definition session_settings :: "config \<Rightarrow> nat \<Rightarrow> bool" where
  "session_settings cfg k \<longleftrightarrow> session_keepalive cfg None = Inr k \<and> (\<exists>dv. gc_divisor cfg = Inr dv \<and> dv \<noteq> 0)
     \<and> list_all key_char (session_cookieName cfg)"

lemma digit_content: "d < 16 \<Longrightarrow> content_char (digit_char d)"
  by (auto simp: content_char_def token_ranges_def in_ranges_def digit_char_def less_eq_char_def)

lemma hex2_content: "list_all content_char (hex2 c)"
  using code_div_16 [of c] by (simp add: hex2_def digit_content)

lemma sha1_content: "list_all content_char (sha1 H x True)"
  using hex2_content by (auto simp: sha1_def digest_def hexDump_def list_all_iff)

lemma cookie_expiry_keeps:
  "w_sessions (snd (cookie_expiry cfg k p w)) = w_sessions w" "w_random (snd (cookie_expiry cfg k p w)) = w_random w"
  "w_clock (snd (cookie_expiry cfg k p w)) = w_clock w"
  by (simp_all add: cookie_expiry_def read_time_def)

lemma established_name [simp]: "established (s\<lparr>se_cookieName := n\<rparr>) = established s"
  by (simp add: established_def)

lemma startSession_runs:
  assumes new: "\<not> established (cn_session c)" and cfg: "session_settings (cn_config c) k"
    and st: "Session_start H (cn_config c) (rq_env (cn_request c)) (visitor_id c) (Some k) w
      ((cn_session c)\<lparr>se_cookieName := session_cookieName (cn_config c)\<rparr>) = Some (Inr sid, w1, s1)"
    and sid: "list_all content_char sid"
  shows "\<exists>c1 w2 ck. startSession H Cookie_default c w = Some (Inr (), c1, w2)
    \<and> cn_responseStream c1 = cn_responseStream c \<and> cn_session c1 = s1\<lparr>se_currentID := sid\<rparr>
    \<and> umap_get (cn_cookies c1) (session_cookieName (cn_config c)) = Some ck \<and> ck_content ck = sid
    \<and> w_heap w2 = w_heap w1 \<and> w_next w2 = w_next w1 \<and> w_sessions w2 = w_sessions w1 \<and> w_random w2 = w_random w1
    \<and> w_clock w2 = w_clock w1"
proof -
  have ka: "session_keepalive (cn_config c) (ck_maxAge Cookie_default) = Inr k"
    and name: "list_all key_char (session_cookieName (cn_config c))"
    using cfg by (simp_all add: session_settings_def Cookie_default_def)
  obtain p w2 where x: "cookie_expiry (cn_config c) k Cookie_default w1 = (p, w2)" by fastforce
  let ?ck = "(cookie_protection (cn_config c) p)\<lparr>ck_content := sid\<rparr>"
  let ?c = "c\<lparr>cn_session := s1\<lparr>se_currentID := sid\<rparr>\<rparr>"
  have "Session_start_cookie H (cn_config c) (cn_request c) Cookie_default w (cn_session c) =
      Some (Inr (Some (session_cookieName (cn_config c), ?ck)), w2, s1\<lparr>se_currentID := sid\<rparr>)"
    using st by (simp add: Session_start_cookie_def Let_def new ka x visitor_id_def)
  moreover have "fst (setCookie (session_cookieName (cn_config c)) ?ck ?c) = Inr ()"
    unfolding setCookie_iff using name sid by simp
  then have "setCookie (session_cookieName (cn_config c)) ?ck ?c =
      (Inr (), ?c\<lparr>cn_cookies := umap_set (session_cookieName (cn_config c)) ?ck (cn_cookies c)\<rparr>)"
    by (auto simp: setCookie_def split: if_splits)
  moreover have "w_heap w2 = w_heap w1" "w_next w2 = w_next w1" "w_sessions w2 = w_sessions w1" "w_random w2 = w_random w1"
    "w_clock w2 = w_clock w1"
    using cookie_expiry_world [of "cn_config c" k Cookie_default w1] cookie_expiry_keeps [of "cn_config c" k Cookie_default w1] x
    by simp_all
  ultimately show ?thesis by (simp add: startSession_def Let_def um.get_put)
qed

lemma startSession_first:
  assumes new: "\<not> established (cn_session c)" and cfg: "session_settings (cn_config c) k"
    and r: "\<not> resumable (cn_config c) (rq_env (cn_request c)) w (visitor_id c)"
    and w: "world_ok w" "id_available H (rq_env (cn_request c)) w" "within_keepalive w k"
  shows "\<exists>sid c1 w1 ck d. startSession H Cookie_default c w = Some (Inr (), c1, w1)
    \<and> cn_responseStream c1 = cn_responseStream c \<and> se_current (cn_session c1) = Some (w_next w)
    \<and> umap_get (cn_cookies c1) (session_cookieName (cn_config c)) = Some ck \<and> ck_content ck = sid
    \<and> (umap_has (w_sessions w) sid \<longrightarrow>
         sid = visitor_id c \<and> erased_by_lookup (cn_config c) (rq_env (cn_request c)) w sid)
    \<and> (\<exists>x. sid = sha1 H x True) \<and> world_ok w1 \<and> w_random w1 = w_random w \<and> w_clock w1 = w_clock w
    \<and> umap_get (w_sessions w1) sid = Some (w_next w) \<and> w_heap w1 (w_next w) = d
    \<and> fresh_session w k (Env_get (rq_env (cn_request c)) ''REMOTE_ADDR'') d"
proof -
  from cfg obtain dv where dv: "gc_divisor (cn_config c) = Inr dv" "dv \<noteq> 0" by (auto simp: session_settings_def)
  let ?s = "(cn_session c)\<lparr>se_cookieName := session_cookieName (cn_config c)\<rparr>"
  have "\<not> established ?s" "session_keepalive (cn_config c) (Some k) = Inr k"
    using new by (simp_all add: session_keepalive_def)
  from Session_start_first [OF this r w(1,2) dv w(3)] obtain sid w1 d where
    st: "Session_start H (cn_config c) (rq_env (cn_request c)) (visitor_id c) (Some k) w ?s =
      Some (Inr sid, w1, ?s\<lparr>se_current := Some (w_next w), se_currentID := sid\<rparr>)"
    and sid: "umap_has (w_sessions w) sid \<longrightarrow>
         sid = visitor_id c \<and> erased_by_lookup (cn_config c) (rq_env (cn_request c)) w (visitor_id c)"
      "\<exists>n. sid = candidate H (Env_get (rq_env (cn_request c)) ''REMOTE_ADDR'') (w_random w) n"
    and w1: "world_ok w1" "w_random w1 = w_random w" "w_clock w1 = w_clock w" "umap_get (w_sessions w1) sid = Some (w_next w)"
      "w_heap w1 (w_next w) = d" "fresh_session w k (Env_get (rq_env (cn_request c)) ''REMOTE_ADDR'') d"
    by metis
  have has: "umap_has (w_sessions w) sid \<longrightarrow>
       sid = visitor_id c \<and> erased_by_lookup (cn_config c) (rq_env (cn_request c)) w sid"
    using sid(1) by auto
  have sha: "\<exists>x. sid = sha1 H x True" using sid(2) by (auto simp: candidate_def)
  then have "list_all content_char sid" using sha1_content by blast
  from startSession_runs [OF new cfg st this] obtain c1 w2 ck where s: "startSession H Cookie_default c w = Some (Inr (), c1, w2)"
    "cn_responseStream c1 = cn_responseStream c"
    "cn_session c1 = ?s\<lparr>se_current := Some (w_next w), se_currentID := sid\<rparr>\<lparr>se_currentID := sid\<rparr>"
    "umap_get (cn_cookies c1) (session_cookieName (cn_config c)) = Some ck" "ck_content ck = sid"
    and same: "w_heap w2 = w_heap w1" "w_next w2 = w_next w1" "w_sessions w2 = w_sessions w1" "w_random w2 = w_random w1"
      "w_clock w2 = w_clock w1"
    by blast
  have "world_ok w2" using w1(1) world_ok_cong [OF same(3,2)] by simp
  with s has sha w1 same show ?thesis
    by (intro exI [of _ sid] exI [of _ c1] exI [of _ w2] exI [of _ ck] exI [of _ d]) simp
qed

lemma startSession_again:
  assumes new: "\<not> established (cn_session c)" and cfg: "session_settings (cn_config c) k"
    and r: "resumable (cn_config c) (rq_env (cn_request c)) w (visitor_id c)" and w: "world_ok w"
    and sid: "list_all content_char (visitor_id c)"
  shows "\<exists>c1 w1 a. startSession H Cookie_default c w = Some (Inr (), c1, w1)
    \<and> cn_responseStream c1 = cn_responseStream c \<and> se_current (cn_session c1) = Some a
    \<and> umap_get (w_sessions w) (visitor_id c) = Some a"
proof -
  from cfg obtain dv where dv: "gc_divisor (cn_config c) = Inr dv" "dv \<noteq> 0" by (auto simp: session_settings_def)
  let ?s = "(cn_session c)\<lparr>se_cookieName := session_cookieName (cn_config c)\<rparr>"
  have s: "\<not> established ?s" "session_keepalive (cn_config c) (Some k) = Inr k"
    using new by (simp_all add: session_keepalive_def)
  from r obtain d where "sess_view w (visitor_id c) = Some d" by (auto simp: resumable_def split: option.splits)
  from Session_start_resume [OF s r w this, of H, unfolded id_returned_ok [OF dv]] obtain w1 s1 a where
    st: "Session_start H (cn_config c) (rq_env (cn_request c)) (visitor_id c) (Some k) w ?s = Some (Inr (visitor_id c), w1, s1)"
    and a: "se_current s1 = Some a" "umap_get (w_sessions w) (visitor_id c) = Some a" by blast
  from startSession_runs [OF new cfg st sid] a show ?thesis by fastforce
qed

section \<open>The first visit\<close>

abbreviation contact_header :: string where
  "contact_header \<equiv> ''<!DOCTYPE html><head><title>Contact Form</title></head><body>''"

lemma contact_policy_fields [simp]:
  "cn_config (contact_policy c) = cn_config c" "cn_request (contact_policy c) = cn_request c"
  "cn_session (contact_policy c) = cn_session c" "cn_responseStream (contact_policy c) = cn_responseStream c"
  "visitor_id (contact_policy c) = visitor_id c"
  by (simp_all add: contact_policy_def setCookiePolicy_def visitor_id_def)

lemma contact_show_first:
  assumes "se_current (cn_session c) = Some a" and "umap_get (w_sessions w) sid = Some a" and "world_ok w"
    and "sd_data (w_heap w a) = []"
  shows "\<exists>w' n. contact_show c w g = Some (Inr (), writeStream (contact_form n) c, w', g, [])
    \<and> n \<in> range (w_random w) \<and> world_ok w' \<and> w_clock w' = w_clock w
    \<and> sess_view w' sid = Some ((w_heap w a)\<lparr>sd_data := [(''randVal'', AnyOther n)]\<rparr>)"
proof -
  obtain n w2 where r: "read_random w = (n, w2)" by fastforce
  have w2: "w_heap w2 = w_heap w" "w_sessions w2 = w_sessions w" "w_next w2 = w_next w" "n \<in> range (w_random w)"
    "w_clock w2 = w_clock w"
    using r by (auto simp: read_random_def)
  let ?w = "upd_data a (umap_set ''randVal'' (AnyOther n)) w2"
  have "contact_show c w g = Some (Inr (), writeStream (contact_form n) c, ?w, g, [])"
    using assms(1) by (simp add: contact_show_def r Session_set_def)
  moreover have "world_ok ?w" using assms(3) world_ok_cong [of ?w w] w2 by (simp add: upd_data_def)
  moreover have "sess_view ?w sid = Some ((w_heap w a)\<lparr>sd_data := [(''randVal'', AnyOther n)]\<rparr>)"
    using assms(2,4) w2 by (simp add: sess_view_def upd_data_def umap_set_def)
  moreover have "w_clock ?w = w_clock w" using w2 by (simp add: upd_data_def)
  ultimately show ?thesis using w2(4) by blast
qed

lemma contactform_first:
  assumes new: "\<not> established (cn_session c)" and cfg: "session_settings (cn_config c) k"
    and r: "\<not> resumable (cn_config c) (rq_env (cn_request c)) w (visitor_id c)"
    and w: "world_ok w" "id_available (ce_hash env) (rq_env (cn_request c)) w" "within_keepalive w k"
  shows "\<exists>c' w' sid ck n d. contactform_handleRequest env c w g = Some (Inr (), c', w', g, [])
    \<and> cn_responseStream c' = cn_responseStream c @ contact_header @ contact_form n
    \<and> umap_get (cn_cookies c') (session_cookieName (cn_config c)) = Some ck \<and> ck_content ck = sid
    \<and> (umap_has (w_sessions w) sid \<longrightarrow>
         sid = visitor_id c \<and> erased_by_lookup (cn_config c) (rq_env (cn_request c)) w sid)
    \<and> (\<exists>x. sid = sha1 (ce_hash env) x True) \<and> n \<in> range (w_random w) \<and> world_ok w' \<and> w_clock w' = w_clock w
    \<and> sess_view w' sid = Some (d\<lparr>sd_data := [(''randVal'', AnyOther n)]\<rparr>)
    \<and> fresh_session w k (Env_get (rq_env (cn_request c)) ''REMOTE_ADDR'') d"
proof -
  have "\<not> established (cn_session (contact_policy c))" "session_settings (cn_config (contact_policy c)) k"
    "\<not> resumable (cn_config (contact_policy c)) (rq_env (cn_request (contact_policy c))) w (visitor_id (contact_policy c))"
    "id_available (ce_hash env) (rq_env (cn_request (contact_policy c))) w"
    using new cfg r w(2) by simp_all
  from startSession_first [OF this(1-3) w(1) this(4) w(3), unfolded contact_policy_fields] obtain sid c1 w1 ck d where
    s: "startSession (ce_hash env) Cookie_default (contact_policy c) w = Some (Inr (), c1, w1)"
    "cn_responseStream c1 = cn_responseStream c" "se_current (cn_session c1) = Some (w_next w)"
    "umap_get (cn_cookies c1) (session_cookieName (cn_config c)) = Some ck" "ck_content ck = sid"
    "umap_has (w_sessions w) sid \<longrightarrow>
       sid = visitor_id c \<and> erased_by_lookup (cn_config c) (rq_env (cn_request c)) w sid"
    "\<exists>x. sid = sha1 (ce_hash env) x True" "world_ok w1" "w_random w1 = w_random w"
    "umap_get (w_sessions w1) sid = Some (w_next w)" "w_heap w1 (w_next w) = d"
    "fresh_session w k (Env_get (rq_env (cn_request c)) ''REMOTE_ADDR'') d" "w_clock w1 = w_clock w"
    by blast
  have empty: "sd_data (w_heap w1 (w_next w)) = []" using s(11,12) by (auto simp: fresh_session_def)
  then have none: "Session_get w1 (cn_session c1) ''randVal'' = None" using s(3) by (simp add: Session_get_def)
  let ?c = "writeStream contact_header c1"
  have run: "contactform_handleRequest env c w g = contact_show ?c w1 g"
    using contactform_runs [OF s(1), of g] none by simp
  have "se_current (cn_session ?c) = Some (w_next w)" using s(3) by (simp add: writeStream_def)
  from contact_show_first [OF this s(10,8) empty, of g] obtain w' n where sh:
    "contact_show ?c w1 g = Some (Inr (), writeStream (contact_form n) ?c, w', g, [])"
    "n \<in> range (w_random w1)" "world_ok w'" "w_clock w' = w_clock w1" "sess_view w' sid = Some (d\<lparr>sd_data := [(''randVal'', AnyOther n)]\<rparr>)"
    unfolding s(11) by blast
  have "cn_responseStream (writeStream (contact_form n) ?c) = cn_responseStream c @ contact_header @ contact_form n"
    "cn_cookies (writeStream (contact_form n) ?c) = cn_cookies c1"
    using s(2) by (simp_all add: writeStream_def)
  with run sh s show ?thesis
    by (intro exI [of _ "writeStream (contact_form n) ?c"] exI [of _ w'] exI [of _ sid] exI [of _ ck] exI [of _ n]
        exI [of _ d]) simp
qed

section \<open>The second visit\<close>

lemma contactform_again:
  assumes new: "\<not> established (cn_session c)" and cfg: "session_settings (cn_config c) k"
    and r: "resumable (cn_config c) (rq_env (cn_request c)) w (visitor_id c)" and w: "world_ok w"
    and sid: "list_all content_char (visitor_id c)"
    and d: "sess_view w (visitor_id c) = Some d" "umap_get (sd_data d) ''randVal'' = Some (AnyOther n)" "n < 2 ^ 64"
    and post: "GPC_getVector (contact_post c) ''rand_val'' = [dec n]" "all_filled (contact_post c)"
    and mail: "so_localtime (ce_smtp env) (so_time (ce_smtp env)) \<noteq> None" "ce_curl env" "ce_perform env = (\<lambda>calls. None)"
  shows "\<exists>c' w' sent payload. contactform_handleRequest env c w g = Some (Inr (), c', w', g, sent)
    \<and> transfers fresh_handle sent =
        [delivery contact_mailer (''<contactform@example.com>'', [''<admin@example.com>''], payload)]
    \<and> cn_responseStream c' = cn_responseStream c @ contact_header @ ''<p>Message sent successfully!</p></body></html>''"
proof -
  from startSession_again [of "contact_policy c" k w "ce_hash env"] assms(1-5) obtain c1 w1 a where
    s: "startSession (ce_hash env) Cookie_default (contact_policy c) w = Some (Inr (), c1, w1)"
    "cn_responseStream c1 = cn_responseStream c" "se_current (cn_session c1) = Some a"
    "umap_get (w_sessions w) (visitor_id c) = Some a" by auto
  let ?s = "Session_new\<lparr>se_current := Some a\<rparr>"
  have h: "w_heap w a = d" using d(1) s(4) by (simp add: sess_view_def)
  have "Session_get w ?s ''randVal'' = Some (AnyOther n)" using d(2) h by (simp add: Session_get_def)
  from contactform_sent [OF s(1,3) _ world_okD(2) [OF w s(4)] this d(3) post mail, of g] s(2) show ?thesis
    by fastforce
qed

end
