(* ===== verification/Library_App.thy ===== *)
theory Library_App
  imports Multipage
begin

text \<open>
  The example \<^verbatim>\<open>examples/aslibrary.cpp\<close>: a program that uses nawa as a library and does itself what the
  runner does otherwise. The result is the exit of \<^verbatim>\<open>main\<close>, the lines it wrote to \<^verbatim>\<open>cerr\<close>, the state of the
  logger and, if a handler was created, its configuration while it serves and all calls it made to the
  network library up to its destruction. An exception that is not one of nawa leaves \<^verbatim>\<open>main\<close> (\<open>Raised\<close>).
  \<open>lb_join\<close> tells whether waiting for the threads ends after the calls made so far. Nothing in the program
  stops the server: unless the system ends the process, \<^verbatim>\<open>main\<close> waits (\<open>Waiting\<close>) for threads that were created.
\<close>

definition aslibrary_handler :: "'b app" where
  "aslibrary_handler connection w = Some (Inr (), writeStream ''Hello World!'' connection, w)"

record library_os =
  lb_files :: "string \<Rightarrow> string option"
  lb_http_listening :: "string \<Rightarrow> string \<Rightarrow> bool"
  lb_fcgi_listening :: "fcgi_socket \<Rightarrow> bool"
  lb_threads :: nat
  lb_fcgi_started :: bool
  lb_join :: "server_call list \<Rightarrow> bool"

definition handler_start :: "library_os \<Rightarrow> handler \<Rightarrow> unit result \<times> handler" where
  "handler_start os h =
     (case h of
        Handler_http s \<Rightarrow> (let (r, s) = Http_start (lb_threads os) s in (r, Handler_http s))
      | Handler_fcgi c s \<Rightarrow> (let (r, s) = Fcgi_start (lb_fcgi_started os) s in (r, Handler_fcgi c s)))"

text \<open>\<open>handled\<close> is a \<^verbatim>\<open>catch (Exception const& e)\<close> that reports and returns 1.\<close>

definition handled :: "string \<Rightarrow> cxx_error \<Rightarrow> exit \<times> string list" where
  "handled text e = (case e of NawaException n m \<Rightarrow> (Return 1, [text @ m]) | _ \<Rightarrow> (Raised e, []))"

definition aslibrary_config :: "library_os \<Rightarrow> config \<times> string list" where
  "aslibrary_config os =
     (case Config_read (lb_files os) ''config.ini'' Config_new of
        Inl e \<Rightarrow> (Config_new, snd (handled ''Could not read config.ini file: '' e))
      | Inr cfg \<Rightarrow> (cfg, []))"

definition destroyed :: "handler \<Rightarrow> server_call list" where
  "destroyed h = server_calls (server_map Http_destroy Fcgi_destroy h)"

text \<open>After a failed \<^verbatim>\<open>start\<close> it is the destructor of the handler that joins.\<close>

definition aslibrary_main :: "library_os \<Rightarrow> log_globals
    \<Rightarrow> exit \<times> string list \<times> log_globals \<times> ('b request_handler \<times> server_call list) option" where
  "aslibrary_main os g =
     (let (cfg, out) = aslibrary_config os;
          g = lockStream (setOutputLevel WARNING g)
      in case newRequestHandler (lb_http_listening os) (lb_fcgi_listening os) cfg 1 of
           Inl e \<Rightarrow>
             (let (x, err) = handled ''NAWA request handler could not be created: '' e in (x, out @ err, g, None))
         | Inr h \<Rightarrow>
             (let rh = setConfig cfg (setAppRequestHandler (Some aslibrary_handler) RequestHandler_default);
                  rh = setAccessFilters AccessFilterList_default rh;
                  (r, h) = handler_start os h;
                  waits = \<not> lb_join os (server_calls h)
              in case r of
                   Inl e \<Rightarrow>
                     (let (x, err) = handled ''NAWA request handling could not be started: '' e
                      in if waits then (Waiting, out @ err, g, Some (rh, server_calls h))
                         else (x, out @ err, g, Some (rh, destroyed h)))
                 | Inr _ \<Rightarrow>
                     (if waits then (Waiting, out, g, Some (rh, server_calls h))
                      else
                        let h = server_map Http_join Fcgi_join h
                        in (Return 0, out, g, Some (rh, destroyed h)))))"

text \<open>Only an exception of nawa can leave the reading of the configuration, so it is always reported.\<close>

lemma Config_read_exception: "Config_read fs f cfg = Inl e \<Longrightarrow> e = NawaException 1 ''Could not read config file.''"
  by (auto simp: Config_read_def Let_def split: prod.splits if_splits)

lemma handler_ok_started: "handler_start os h = (x, h') \<Longrightarrow> handler_ok h \<Longrightarrow> handler_ok h'"
  using httpd.ok_op [of _ "Op_start (lb_threads os)"] fcgid.ok_op [of _ "Op_start (lb_fcgi_started os)"]
  by (auto simp: handler_start_def handler_ok_def Let_def split: handler.splits prod.splits)
    (metis Http_op.simps(1) Fcgi_op.simps(1) snd_conv)+

text \<open>
  Whatever happens, the log is locked, every thread that was created has been joined once if \<^verbatim>\<open>main\<close>
  ends, and the handler answers every request with the greeting.
\<close>

lemma aslibrary_joins:
  assumes "aslibrary_main os g = (x, out, g', Some (rh, calls))"
  shows "x \<noteq> Waiting \<Longrightarrow> all_joined calls" and "lg_locked g'"
proof -
  obtain cfg o1 where c: "aslibrary_config os = (cfg, o1)" by fastforce
  obtain h where h: "newRequestHandler (lb_http_listening os) (lb_fcgi_listening os) cfg 1 = Inr h"
    using assms c by (auto simp: aslibrary_main_def Let_def split: sum.splits prod.splits)
  obtain r h' where s: "handler_start os h = (r, h')" by fastforce
  have ok: "handler_ok h'" by (rule handler_ok_started [OF s handler_ok_new [OF h]])
  then have ok': "handler_ok (server_map Http_join Fcgi_join h')" by (rule handler_ok_ops)
  have "calls = destroyed h' \<or> calls = destroyed (server_map Http_join Fcgi_join h')" if "x \<noteq> Waiting"
    using that assms c h s by (cases r) (auto simp: aslibrary_main_def Let_def split: prod.splits if_splits)
  then show "x \<noteq> Waiting \<Longrightarrow> all_joined calls"
    using handler_destroy_joins [OF ok] handler_destroy_joins [OF ok'] unfolding destroyed_def by metis
  show "lg_locked g'"
    using assms c h s by (cases r) (auto simp: aslibrary_main_def Let_def lockStream_def split: prod.splits if_splits)
qed

lemma aslibrary_answers:
  assumes "aslibrary_main os g = (x, out, g', Some (rh, calls))"
  shows "handleRequest H fs rh c w = Some (Inr (), writeStream ''Hello World!'' c, w)"
proof -
  have "rh_accessFilters rh = Some AccessFilterList_default" "rh_handleRequestFunction rh = Some aslibrary_handler"
    using assms by (auto simp: aslibrary_main_def setAccessFilters_def setConfig_def setAppRequestHandler_def Let_def
        split: prod.splits sum.splits if_splits)
  then show ?thesis
    by (simp add: handleRequest_def applyFilters_def AccessFilterList_default_def run_app_def aslibrary_handler_def)
qed

text \<open>Once the server has started, \<^verbatim>\<open>main\<close> waits for its threads for ever: nothing tells them to stop.\<close>

lemma aslibrary_serves:
  assumes "newRequestHandler (lb_http_listening os) (lb_fcgi_listening os) (fst (aslibrary_config os)) 1 = Inr h"
    and "handler_start os h = (Inr u, h')" and "\<not> lb_join os (server_calls h')"
  shows "\<exists>out g' rh. aslibrary_main os g = (Waiting, out, g', Some (rh, server_calls h'))"
proof -
  obtain cfg out where c: "aslibrary_config os = (cfg, out)" by fastforce
  with assms show ?thesis by (simp add: aslibrary_main_def Let_def)
qed

end
