(* ===== verification/Fixtures_App.thy ===== *)
theory Fixtures_App
  imports Fixtures Contact_Visit Library_App
begin

text \<open>Concrete requests to the example applications, for the witnesses.\<close>

section \<open>multipage\<close>

definition demo_static :: "string \<Rightarrow> connection" where
  "demo_static authorization = Connection_data (request_init_empty\<lparr>ri_environment :=
     [(''REQUEST_URI'', ''/test/static/html/a.html''), (''authorization'', authorization)]\<rparr>) demo_config"

definition demo_multipage :: "string request_handler" where
  "demo_multipage = setAccessFilters (ai_accessFilters (snd (multipage_init (AppInit_new demo_config 1))))
     (setAppRequestHandler (Some multipage_handleRequest) RequestHandler_default)"

lemma demo_static_path:
  "getRequestPath (rq_env (cn_request (demo_static a))) = [''test'', ''static'', ''html'', ''a.html'']"
proof -
  have "Env_get (rq_env (cn_request (demo_static a))) ''REQUEST_URI'' = ''/test/static/html/a.html''"
    by (simp add: demo_static_def Connection_data_def Request_new_def Env_new_def request_init_empty_def Env_get_def umap_get_def)
  moreover have "splitPath ''/test/static/html/a.html'' = [''test'', ''static'', ''html'', ''a.html'']" by code_simp
  ultimately show ?thesis by (simp add: getRequestPath_def)
qed

lemma demo_static_policy:
  "static_path [''test'', ''static'', ''html'', ''a.html'']" "\<not> blocked_path [''test'', ''static'', ''html'', ''a.html'']"
  "served_file [''test'', ''static'', ''html'', ''a.html''] = Some ''/var/www/multipage/html/a.html''"
proof -
  have "getFileExtension ''a.html'' = ''html''" by code_simp
  then show "static_path [''test'', ''static'', ''html'', ''a.html'']" "\<not> blocked_path [''test'', ''static'', ''html'', ''a.html'']"
    "served_file [''test'', ''static'', ''html'', ''a.html''] = Some ''/var/www/multipage/html/a.html''"
    by (auto simp: static_path_def blocked_path_def served_file_def image_path_def html_path_def has_extension_def html_extensions_def)
qed

lemma demo_static_password: "knows_password (demo_static ''Basic dGVzdDpzdXBlcnNlY3VyZQ=='')"
  "\<not> knows_password (demo_static ''Basic dGVzdDpub3Bl'')"
proof -
  have h: "Env_get (rq_env (cn_request (demo_static a))) ''authorization'' = a" for a
    by (simp add: demo_static_def Connection_data_def Request_new_def Env_new_def request_init_empty_def Env_get_def umap_get_def)
  have "splitString ''Basic dGVzdDpzdXBlcnNlY3VyZQ=='' (CHR '' '') True = [''Basic'', ''dGVzdDpzdXBlcnNlY3VyZQ=='']"
    "splitString ''Basic dGVzdDpub3Bl'' (CHR '' '') True = [''Basic'', ''dGVzdDpub3Bl'']"
    "base64Decode ''dGVzdDpzdXBlcnNlY3VyZQ=='' = ''test:supersecure''" "base64Decode ''dGVzdDpub3Bl'' = ''test:nope''"
    "splitString ''test:supersecure'' (CHR '':'') True = [''test'', ''supersecure'']"
    "splitString ''test:nope'' (CHR '':'') True = [''test'', ''nope'']"
    by code_simp+
  then show "knows_password (demo_static ''Basic dGVzdDpzdXBlcnNlY3VyZQ=='')" "\<not> knows_password (demo_static ''Basic dGVzdDpub3Bl'')"
    by (simp_all add: knows_password_def h auth_credentials_def vec_at_def)
qed

section \<open>The contact form\<close>

definition demo_contact :: contact_env where
  "demo_contact = \<lparr>ce_hash = demo_hash, ce_smtp = demo_smtp_os\<lparr>so_localtime := (\<lambda>t. Some (ls_now demo_log_os, 0))\<rparr>,
     ce_draws = 0, ce_curl = True, ce_perform = (\<lambda>calls. None), ce_log = demo_log_os,
     ce_logger = fst (Log_new demo_log_os log_globals_init)\<rparr>"

lemma demo_contact_hash: "ce_hash demo_contact = demo_hash"
  by (simp add: demo_contact_def)

lemma demo_contact_works: "so_localtime (ce_smtp demo_contact) (so_time (ce_smtp demo_contact)) \<noteq> None"
  "ce_curl demo_contact" "ce_perform demo_contact = (\<lambda>calls. None)"
  by (simp_all add: demo_contact_def)

lemma demo_cookie: "Config_get demo_config (''session'', ''cookie_name'') = []"
  by code_simp

text \<open>A visitor without a session, before any session exists, and the one that comes back with a cookie.\<close>

definition demo_newcomer :: "(string, string) ummap \<Rightarrow> (string, string) ummap \<Rightarrow> connection" where
  "demo_newcomer cookies posts = Connection_data (request_init_empty\<lparr>ri_environment := demo_env ''10.0.0.1'',
     ri_cookieVars := cookies, ri_postVars := posts\<rparr>) demo_config"

definition demo_empty :: "nat any world" where
  "demo_empty = \<lparr>w_heap = (\<lambda>_. SessionData_new []), w_next = 0, w_sessions = [], w_clock = (\<lambda>_. 50), w_ticks = 0,
     w_random = (\<lambda>n. 7), w_draws = 0\<rparr>"

definition demo_form :: "nat \<Rightarrow> (string, string) ummap" where
  "demo_form n = [(''rand_val'', dec n), (''name'', ''Ann''), (''email'', ''ann@b.c''), (''subject'', ''Hi''), (''message'', ''Hello'')]"

lemma demo_newcomer_fields:
  "cn_config (demo_newcomer cs ps) = demo_config" "\<not> established (cn_session (demo_newcomer cs ps))"
  "Env_get (rq_env (cn_request (demo_newcomer cs ps))) ''REMOTE_ADDR'' = ''10.0.0.1''"
  "gpc_dataMap (contact_post (demo_newcomer cs ps)) = ps"
  "visitor_id (demo_newcomer cs ps) = (case map_of cs ''SESSION'' of Some v \<Rightarrow> v | None \<Rightarrow> [])"
  by (simp_all add: demo_newcomer_def Connection_data_def Request_new_def Env_new_def GPC_new_def Post_new_def GPC_get_def
      Let_def demo_addr gpc.defs established_def Session_new_def visitor_id_def session_cookieName_def demo_cookie)

lemma demo_settings: "session_settings demo_config 1800"
proof -
  have "list_all key_char ''SESSION''"
    by (simp add: key_char_def token_ranges_def in_ranges_def less_eq_char_def)
  then show ?thesis
    by (simp add: session_settings_def session_keepalive_def gc_divisor_def demo_config_get session_cookieName_def demo_cookie)
qed

lemma demo_empty_world:
  "world_ok demo_empty" "id_available H e demo_empty" "within_keepalive demo_empty 1800"
  "\<not> resumable cfg e demo_empty sid" "w_clock demo_empty i = 50" "\<forall>i. w_random demo_empty i < 2 ^ 32"
  by (simp_all add: world_ok_def demo_empty_def id_available_def within_keepalive_def time_t_add_def resumable_def
      sess_view_def)

lemma demo_form_answer:
  "GPC_getVector (contact_post (demo_newcomer cs (demo_form n))) ''rand_val'' = [dec n]"
  "all_filled (contact_post (demo_newcomer cs (demo_form n)))"
  by (simp_all add: GPC_getVector_def GPC_get_def demo_newcomer_fields all_filled_def demo_form_def ummap_range_def)

text \<open>A world in which the session holds the number 7, and the request that gives it back.\<close>

definition demo_numbered :: "nat any world" where
  "demo_numbered =
     \<lparr>w_heap = (\<lambda>_. \<lparr>sd_data = [(''randVal'', AnyOther 7)], sd_expires = 100, sd_sourceIP = ''10.0.0.1''\<rparr>),
      w_next = 1, w_sessions = [(''abc'', 0)], w_clock = (\<lambda>_. 50), w_ticks = 0, w_random = (\<lambda>n. 7), w_draws = 0\<rparr>"

definition demo_returning :: connection where
  "demo_returning = demo_newcomer [(''SESSION'', ''abc'')] (demo_form 7)"

lemma demo_numbered_world:
  "world_ok demo_numbered" "sess_view demo_numbered ''abc'' = Some (w_heap demo_numbered 0)"
  "umap_get (sd_data (w_heap demo_numbered 0)) ''randVal'' = Some (AnyOther 7)"
  by (auto simp: world_ok_def demo_numbered_def umap_wf_def umap_get_def sess_view_def split: if_splits)

lemma demo_returning_fields:
  "\<not> established (cn_session demo_returning)" "session_settings (cn_config demo_returning) 1800"
  "visitor_id demo_returning = ''abc''"
  "resumable (cn_config demo_returning) (rq_env (cn_request demo_returning)) demo_numbered (visitor_id demo_returning)"
  "list_all content_char (visitor_id demo_returning)"
proof -
  show id: "visitor_id demo_returning = ''abc''" by (simp add: demo_returning_def demo_newcomer_fields)
  show "\<not> established (cn_session demo_returning)" "session_settings (cn_config demo_returning) 1800"
    by (simp_all add: demo_returning_def demo_newcomer_fields demo_settings)
  show "resumable (cn_config demo_returning) (rq_env (cn_request demo_returning)) demo_numbered (visitor_id demo_returning)"
    unfolding id by (simp add: resumable_def demo_numbered_world demo_returning_def demo_newcomer_fields)
      (simp add: demo_numbered_def)
  show "list_all content_char (visitor_id demo_returning)"
    unfolding id by (simp add: content_char_def token_ranges_def in_ranges_def less_eq_char_def)
qed

lemma demo_second_visit:
  "\<exists>r c' w' g' calls. contactform_handleRequest demo_contact demo_returning demo_numbered log_globals_init
     = Some (r, c', w', g', calls) \<and> calls \<noteq> []"
proof -
  have post: "GPC_getVector (contact_post demo_returning) ''rand_val'' = [dec 7]" "all_filled (contact_post demo_returning)"
    by (simp_all add: demo_returning_def demo_form_answer)
  have view: "sess_view demo_numbered (visitor_id demo_returning) = Some (w_heap demo_numbered 0)"
    by (simp add: demo_returning_fields(3) demo_numbered_world(2))
  have "(7 :: nat) < 2 ^ 64" by simp
  from contactform_again [OF demo_returning_fields(1,2,4) demo_numbered_world(1) demo_returning_fields(5) view
      demo_numbered_world(3) this post demo_contact_works, of log_globals_init]
  obtain c' w' sent payload where
    x: "contactform_handleRequest demo_contact demo_returning demo_numbered log_globals_init
        = Some (Inr (), c', w', log_globals_init, sent)"
      "transfers fresh_handle sent = [delivery contact_mailer (''<contactform@example.com>'', [''<admin@example.com>''], payload)]"
    by blast
  from x(2) have "sent \<noteq> []" by auto
  with x(1) show ?thesis by blast
qed

end
