(* ===== verification/Pimpl.thy ===== *)
theory Pimpl
  imports Prelude
begin

text \<open>
  The members that \<^verbatim>\<open>include/nawa/internal/macros.h\<close> gives to nearly every class of the library: an
  object holds a \<^verbatim>\<open>unique_ptr\<close> to its \<^verbatim>\<open>Data\<close>, and the macros define construction, copy and move,
  assignment, destruction and the accessors over that pointer. Here the pointers are explicit: a
  heap of \<^verbatim>\<open>Data\<close> and the pointer of each object that is alive, null in an object that was moved
  from. The result is that the objects are independent values, which is how the other theories model
  the classes (as records), and that the heap holds just the data that some object owns. To
  dereference a null pointer, or to use an object that is not alive, is \<open>Undefined\<close>.
\<close>

section \<open>Objects with a pointer to their data\<close>

record 'd pimpl =
  pm_heap :: "nat \<Rightarrow> 'd option"
  pm_next :: nat
  pm_data :: "nat \<Rightarrow> nat option option"

definition pimpl_empty :: "'d pimpl" where
  "pimpl_empty = \<lparr>pm_heap = Map.empty, pm_next = 0, pm_data = Map.empty\<rparr>"

definition is_alive :: "nat \<Rightarrow> 'd pimpl \<Rightarrow> bool" where
  "is_alive a s \<longleftrightarrow> pm_data s a \<noteq> None"

text \<open>\<^verbatim>\<open>*data\<close>: the address and what it holds.\<close>

definition deref :: "nat \<Rightarrow> 'd pimpl \<Rightarrow> (nat \<times> 'd) result" where
  "deref a s =
     (case pm_data s a of
        Some (Some p) \<Rightarrow> (case pm_heap s p of Some d \<Rightarrow> Inr (p, d) | None \<Rightarrow> Inl Undefined)
      | _ \<Rightarrow> Inl Undefined)"

text \<open>\<^verbatim>\<open>data = make_unique<Data>(d)\<close> in an object under construction.\<close>

definition make_unique :: "nat \<Rightarrow> 'd \<Rightarrow> 'd pimpl \<Rightarrow> 'd pimpl result" where
  "make_unique this d s =
     (if is_alive this s then Inl Undefined
      else Inr (s\<lparr>pm_heap := (pm_heap s)(pm_next s \<mapsto> d), pm_next := pm_next s + 1,
                  pm_data := (pm_data s)(this \<mapsto> Some (pm_next s))\<rparr>))"

text \<open>What the destructor and the move assignment of \<^verbatim>\<open>unique_ptr\<close> do to the data it held.\<close>

definition free_data :: "nat option option \<Rightarrow> (nat \<Rightarrow> 'd option) \<Rightarrow> nat \<Rightarrow> 'd option" where
  "free_data ptr h = (case ptr of Some (Some p) \<Rightarrow> h(p := None) | _ \<Rightarrow> h)"

section \<open>The macros\<close>

definition default_construct :: "'d \<Rightarrow> nat \<Rightarrow> 'd pimpl \<Rightarrow> 'd pimpl result" where
  "default_construct d this s = make_unique this d s"

definition copy_construct :: "nat \<Rightarrow> nat \<Rightarrow> 'd pimpl \<Rightarrow> 'd pimpl result" where
  "copy_construct this other s = bind_result (deref other s) (\<lambda>(_, d). make_unique this d s)"

definition copy_assign :: "nat \<Rightarrow> nat \<Rightarrow> 'd pimpl \<Rightarrow> 'd pimpl result" where
  "copy_assign this other s =
     (if \<not> is_alive this s \<or> \<not> is_alive other s then Inl Undefined
      else if this \<noteq> other then
        bind_result (deref other s) (\<lambda>(_, d).
        bind_result (deref this s) (\<lambda>(p, _). Inr (s\<lparr>pm_heap := (pm_heap s)(p \<mapsto> d)\<rparr>)))
      else Inr s)"

definition move_construct :: "nat \<Rightarrow> nat \<Rightarrow> 'd pimpl \<Rightarrow> 'd pimpl result" where
  "move_construct this other s =
     (if is_alive this s \<or> \<not> is_alive other s then Inl Undefined
      else Inr (s\<lparr>pm_data := (pm_data s)(this := pm_data s other, other := Some None)\<rparr>))"

definition move_assign :: "nat \<Rightarrow> nat \<Rightarrow> 'd pimpl \<Rightarrow> 'd pimpl result" where
  "move_assign this other s =
     (if \<not> is_alive this s \<or> \<not> is_alive other s then Inl Undefined
      else if this \<noteq> other then
        Inr (s\<lparr>pm_heap := free_data (pm_data s this) (pm_heap s),
               pm_data := (pm_data s)(this := pm_data s other, other := Some None)\<rparr>)
      else Inr s)"

definition destruct :: "nat \<Rightarrow> 'd pimpl \<Rightarrow> 'd pimpl result" where
  "destruct this s =
     (if is_alive this s
      then Inr (s\<lparr>pm_heap := free_data (pm_data s this) (pm_heap s), pm_data := (pm_data s)(this := None)\<rparr>)
      else Inl Undefined)"

text \<open>The accessors: reading a member (\<open>f\<close> selects it) and writing it, through \<^verbatim>\<open>Member(value)\<close> or
  the reference that \<^verbatim>\<open>Member()\<close> returns.\<close>

definition data_get :: "('d \<Rightarrow> 'v) \<Rightarrow> nat \<Rightarrow> 'd pimpl \<Rightarrow> 'v result" where
  "data_get f this s = bind_result (deref this s) (\<lambda>(_, d). Inr (f d))"

definition data_set :: "('d \<Rightarrow> 'd) \<Rightarrow> nat \<Rightarrow> 'd pimpl \<Rightarrow> 'd pimpl result" where
  "data_set f this s = bind_result (deref this s) (\<lambda>(p, d). Inr (s\<lparr>pm_heap := (pm_heap s)(p \<mapsto> f d)\<rparr>))"

datatype 'd pimpl_op =
    Construct nat 'd | Copy_Construct nat nat | Copy_Assign nat nat | Move_Construct nat nat
  | Move_Assign nat nat | Destruct nat | Data_Set nat "'d \<Rightarrow> 'd"

fun pimpl_step :: "'d pimpl_op \<Rightarrow> 'd pimpl \<Rightarrow> 'd pimpl result" where
  "pimpl_step (Construct this d) = default_construct d this"
| "pimpl_step (Copy_Construct this other) = copy_construct this other"
| "pimpl_step (Copy_Assign this other) = copy_assign this other"
| "pimpl_step (Move_Construct this other) = move_construct this other"
| "pimpl_step (Move_Assign this other) = move_assign this other"
| "pimpl_step (Destruct this) = destruct this"
| "pimpl_step (Data_Set this f) = data_set f this"

fun run_ops :: "('o \<Rightarrow> 's \<Rightarrow> 's result) \<Rightarrow> 'o list \<Rightarrow> 's \<Rightarrow> 's result" where
  "run_ops step [] s = Inr s"
| "run_ops step (op # ops) s = bind_result (step op s) (run_ops step ops)"

section \<open>Values\<close>

text \<open>The specification: each object that is alive is a value, or was moved from (\<open>Some None\<close>).\<close>

type_synonym 'd vals = "nat \<Rightarrow> 'd option option"

definition val_of :: "nat \<Rightarrow> 'd vals \<Rightarrow> 'd result" where
  "val_of a v = (case v a of Some (Some d) \<Rightarrow> Inr d | _ \<Rightarrow> Inl Undefined)"

fun vals_step :: "'d pimpl_op \<Rightarrow> 'd vals \<Rightarrow> 'd vals result" where
  "vals_step (Construct this d) v = (if v this = None then Inr (v(this \<mapsto> Some d)) else Inl Undefined)"
| "vals_step (Copy_Construct this other) v =
     bind_result (val_of other v) (\<lambda>d. if v this = None then Inr (v(this \<mapsto> Some d)) else Inl Undefined)"
| "vals_step (Copy_Assign this other) v =
     (if v this = None \<or> v other = None then Inl Undefined
      else if this = other then Inr v
      else bind_result (val_of other v) (\<lambda>d. bind_result (val_of this v) (\<lambda>_. Inr (v(this \<mapsto> Some d)))))"
| "vals_step (Move_Construct this other) v =
     (if v this = None \<and> v other \<noteq> None then Inr (v(this := v other, other \<mapsto> None)) else Inl Undefined)"
| "vals_step (Move_Assign this other) v =
     (if v this = None \<or> v other = None then Inl Undefined
      else Inr (if this = other then v else v(this := v other, other \<mapsto> None)))"
| "vals_step (Destruct this) v = (if v this = None then Inl Undefined else Inr (v(this := None)))"
| "vals_step (Data_Set this f) v = bind_result (val_of this v) (\<lambda>d. Inr (v(this \<mapsto> Some (f d))))"

definition pimpl_vals :: "'d pimpl \<Rightarrow> 'd vals" where
  "pimpl_vals s a =
     (case pm_data s a of None \<Rightarrow> None | Some None \<Rightarrow> Some None | Some (Some p) \<Rightarrow> Some (pm_heap s p))"

text \<open>Every cell has one owner, and every pointer that is not null points to a cell.\<close>

definition pimpl_ok :: "'d pimpl \<Rightarrow> bool" where
  "pimpl_ok s \<longleftrightarrow>
     (\<forall>p. pm_heap s p \<noteq> None \<longleftrightarrow> (\<exists>a. pm_data s a = Some (Some p)))
     \<and> (\<forall>a b p. pm_data s a = Some (Some p) \<and> pm_data s b = Some (Some p) \<longrightarrow> a = b)
     \<and> (\<forall>p. pm_heap s p \<noteq> None \<longrightarrow> p < pm_next s)"

section \<open>A simulation, step by step and for all runs\<close>

locale simulation =
  fixes cstep :: "'o \<Rightarrow> 's \<Rightarrow> 's result"
    and astep :: "'o \<Rightarrow> 'a \<Rightarrow> 'a result"
    and absf :: "'s \<Rightarrow> 'a"
    and inv :: "'s \<Rightarrow> bool"
  assumes sim_step: "inv s \<Longrightarrow> map_sum (\<lambda>e. e) absf (cstep op s) = astep op (absf s)"
    and inv_step: "inv s \<Longrightarrow> cstep op s = Inr s' \<Longrightarrow> inv s'"
begin

lemma sim_run: "inv s \<Longrightarrow> map_sum (\<lambda>e. e) absf (run_ops cstep ops s) = run_ops astep ops (absf s)"
proof (induction ops arbitrary: s)
  case (Cons op ops)
  show ?case
  proof (cases "cstep op s")
    case (Inl e)
    then show ?thesis using sim_step [OF Cons.prems, of op, symmetric] by simp
  next
    case (Inr s')
    with Cons show ?thesis using sim_step [of s op, symmetric] inv_step [of s op s'] by simp
  qed
qed simp

lemma inv_run: "inv s \<Longrightarrow> run_ops cstep ops s = Inr s' \<Longrightarrow> inv s'"
  by (induction ops arbitrary: s) (auto dest: inv_step)

end


section \<open>The objects are values\<close>

lemma pimpl_okD:
  assumes "pimpl_ok s"
  shows "pm_data s a = Some (Some p) \<Longrightarrow> \<exists>d. pm_heap s p = Some d"
    and "pm_data s a = Some (Some p) \<Longrightarrow> pm_data s b = Some (Some p) \<Longrightarrow> a = b"
    and "pm_heap s p = Some d \<Longrightarrow> p < pm_next s"
    and "pm_data s a = Some (Some p) \<Longrightarrow> p < pm_next s"
    and "pm_heap s p = Some d \<Longrightarrow> \<exists>a. pm_data s a = Some (Some p)"
  using assms unfolding pimpl_ok_def by blast+

lemma pimpl_ok_empty: "pimpl_ok pimpl_empty"
  by (simp add: pimpl_ok_def pimpl_empty_def)

lemma deref_iff: "deref a s = Inr (p, d) \<longleftrightarrow> pm_data s a = Some (Some p) \<and> pm_heap s p = Some d"
  by (auto simp: deref_def split: option.splits)

lemma deref_error: "deref a s = Inl e \<Longrightarrow> e = Undefined"
  by (auto simp: deref_def split: option.splits)

lemma deref_val: "map_sum (\<lambda>e. e) snd (deref a s) = val_of a (pimpl_vals s)"
  by (auto simp: deref_def val_of_def pimpl_vals_def split: option.splits)

lemma alive_vals: "is_alive a s \<longleftrightarrow> pimpl_vals s a \<noteq> None"
  by (auto simp: is_alive_def pimpl_vals_def split: option.splits)


lemma ex_upd: "(\<exists>b. (f(a := x)) b = y) \<longleftrightarrow> x = y \<or> (\<exists>b. f b = y \<and> b \<noteq> a)"
  by (metis fun_upd_other fun_upd_same)

lemma ex_other: "f a \<noteq> y \<Longrightarrow> (\<exists>b. f b = y \<and> b \<noteq> a) \<longleftrightarrow> (\<exists>b. f b = y)"
  by metis

text \<open>The three ways the store changes: a cell is written, allocated, or passed on or freed.\<close>

lemma write_cell:
  assumes "pimpl_ok s" and "pm_data s a = Some (Some p)"
  shows "pimpl_vals (s\<lparr>pm_heap := (pm_heap s)(p \<mapsto> d)\<rparr>) = (pimpl_vals s)(a \<mapsto> Some d)"
    and "pimpl_ok (s\<lparr>pm_heap := (pm_heap s)(p \<mapsto> d)\<rparr>)"
proof -
  show "pimpl_vals (s\<lparr>pm_heap := (pm_heap s)(p \<mapsto> d)\<rparr>) = (pimpl_vals s)(a \<mapsto> Some d)"
    using assms pimpl_okD(2) [OF assms(1)]
    by (intro ext) (auto simp: pimpl_vals_def split: option.splits)
  have "pm_heap s p \<noteq> None" using pimpl_okD(1) [OF assms] by blast
  then have "((pm_heap s)(p \<mapsto> d)) q \<noteq> None \<longleftrightarrow> pm_heap s q \<noteq> None" for q by simp
  then show "pimpl_ok (s\<lparr>pm_heap := (pm_heap s)(p \<mapsto> d)\<rparr>)"
    using assms(1) unfolding pimpl_ok_def by simp
qed

lemma alloc_cell:
  assumes "pimpl_ok s" and "pm_data s a = None"
  and s'_def: "s' = s\<lparr>pm_heap := (pm_heap s)(pm_next s \<mapsto> d), pm_next := pm_next s + 1,
    pm_data := (pm_data s)(a \<mapsto> Some (pm_next s))\<rparr>"
  shows "pimpl_vals s' = (pimpl_vals s)(a \<mapsto> Some d)" and "pimpl_ok s'"
proof -
  have fresh: "pm_data s b \<noteq> Some (Some (pm_next s))" for b
    using pimpl_okD(4) [OF assms(1), of b "pm_next s"] by blast
  show "pimpl_vals s' = (pimpl_vals s)(a \<mapsto> Some d)"
    using fresh by (intro ext) (auto simp: s'_def pimpl_vals_def split: option.splits)
  show "pimpl_ok s'" unfolding pimpl_ok_def
  proof (intro conjI allI impI)
    show "pm_heap s' p \<noteq> None \<longleftrightarrow> (\<exists>b. pm_data s' b = Some (Some p))" for p
    proof (cases "p = pm_next s")
      case False
      then have "(\<exists>b. pm_data s' b = Some (Some p)) \<longleftrightarrow> (\<exists>b. pm_data s b = Some (Some p))"
        using assms(2) by (simp add: s'_def ex_upd ex_other del: fun_upd_apply)
      with False show ?thesis using assms(1) unfolding pimpl_ok_def s'_def by simp
    qed (auto simp: s'_def)
    show "b = c" if "pm_data s' b = Some (Some p) \<and> pm_data s' c = Some (Some p)" for b c p
      using that fresh pimpl_okD(2) [OF assms(1)] by (auto simp: s'_def split: if_splits)
    show "p < pm_next s'" if "pm_heap s' p \<noteq> None" for p
      using that pimpl_okD(3) [OF assms(1)] by (auto simp: s'_def less_Suc_eq split: if_splits)
  qed
qed

lemma free_cell:
  assumes "pimpl_ok s" and "pm_data s a \<noteq> None"
  and s'_def: "s' = s\<lparr>pm_heap := free_data (pm_data s a) (pm_heap s), pm_data := (pm_data s)(a := None)\<rparr>"
  shows "pimpl_vals s' = (pimpl_vals s)(a := None)" and "pimpl_ok s'"
proof -
  show "pimpl_vals s' = (pimpl_vals s)(a := None)"
    using pimpl_okD(2) [OF assms(1)]
    by (intro ext) (auto simp: s'_def free_data_def pimpl_vals_def split: option.splits)
  show "pimpl_ok s'" unfolding pimpl_ok_def
  proof (intro conjI allI impI)
    show "pm_heap s' p \<noteq> None \<longleftrightarrow> (\<exists>b. pm_data s' b = Some (Some p))" for p
    proof -
      have own: "(\<exists>b. pm_data s' b = Some (Some p)) \<longleftrightarrow> (\<exists>b. pm_data s b = Some (Some p) \<and> b \<noteq> a)"
        by (simp add: s'_def ex_upd del: fun_upd_apply)
      have h: "pm_heap s' p \<noteq> None \<longleftrightarrow> pm_heap s p \<noteq> None \<and> pm_data s a \<noteq> Some (Some p)"
        by (auto simp: s'_def free_data_def split: option.splits)
      have "pm_heap s p \<noteq> None \<longleftrightarrow> (\<exists>b. pm_data s b = Some (Some p))"
        using assms(1) unfolding pimpl_ok_def by blast
      then show ?thesis unfolding own h using pimpl_okD(2) [OF assms(1), of _ p] by metis
    qed
    show "b = c" if "pm_data s' b = Some (Some p) \<and> pm_data s' c = Some (Some p)" for b c p
      using that pimpl_okD(2) [OF assms(1)] by (auto simp: s'_def split: if_splits)
    show "p < pm_next s'" if "pm_heap s' p \<noteq> None" for p
      using that pimpl_okD(3) [OF assms(1)] by (auto simp: s'_def free_data_def split: if_splits option.splits)
  qed
qed

lemma move_cell:
  assumes "pimpl_ok s" and "pm_data s a = None" and "pm_data s b \<noteq> None"
  and s'_def: "s' = s\<lparr>pm_data := (pm_data s)(a := pm_data s b, b := Some None)\<rparr>"
  shows "pimpl_vals s' = (pimpl_vals s)(a := pimpl_vals s b, b \<mapsto> None)" and "pimpl_ok s'"
proof -
  have ab: "a \<noteq> b" using assms by auto
  show "pimpl_vals s' = (pimpl_vals s)(a := pimpl_vals s b, b \<mapsto> None)"
    by (intro ext) (simp add: s'_def pimpl_vals_def split: option.splits)
  have own: "(\<exists>c. pm_data s' c = Some (Some p)) \<longleftrightarrow> (\<exists>c. pm_data s c = Some (Some p))" for p
  proof
    assume "\<exists>c. pm_data s c = Some (Some p)"
    then obtain c where "pm_data s c = Some (Some p)" ..
    then have "pm_data s' (if c = b then a else c) = Some (Some p)" using ab assms(2) by (auto simp: s'_def)
    then show "\<exists>c. pm_data s' c = Some (Some p)" ..
  qed (auto simp: s'_def split: if_splits)
  show "pimpl_ok s'" unfolding pimpl_ok_def own
  proof (intro conjI allI impI)
    show "pm_heap s' p \<noteq> None \<longleftrightarrow> (\<exists>c. pm_data s c = Some (Some p))" for p
      using assms(1) unfolding pimpl_ok_def s'_def by simp
    show "c = e" if "pm_data s' c = Some (Some p) \<and> pm_data s' e = Some (Some p)" for c e p
      using that pimpl_okD(2) [OF assms(1), of _ p] ab assms(2) unfolding s'_def by (auto split: if_splits)
    show "p < pm_next s'" if "pm_heap s' p \<noteq> None" for p
      using that pimpl_okD(3) [OF assms(1)] by (auto simp: s'_def)
  qed
qed

text \<open>Move assignment frees the data of the target and then moves.\<close>

lemma move_assign_alt:
  assumes "pm_data s a \<noteq> None" and "a \<noteq> b"
  shows "s\<lparr>pm_heap := free_data (pm_data s a) (pm_heap s), pm_data := (pm_data s)(a := pm_data s b, b := Some None)\<rparr>
    = (let t = s\<lparr>pm_heap := free_data (pm_data s a) (pm_heap s), pm_data := (pm_data s)(a := None)\<rparr>
       in t\<lparr>pm_data := (pm_data t)(a := pm_data t b, b := Some None)\<rparr>)"
  using assms by simp

interpretation objects_are_values: simulation pimpl_step vals_step pimpl_vals pimpl_ok
proof
  fix s :: "'d pimpl" and op
  assume ok: "pimpl_ok s"
  have v: "val_of a (pimpl_vals s) = map_sum (\<lambda>e. e) snd (deref a s)" for a by (simp add: deref_val)
  have n: "pimpl_vals s a = None \<longleftrightarrow> pm_data s a = None" for a
    by (simp add: pimpl_vals_def split: option.splits)
  show "map_sum (\<lambda>e. e) pimpl_vals (pimpl_step op s) = vals_step op (pimpl_vals s)"
  proof (cases op)
    case (Construct this d)
    then show ?thesis using alloc_cell(1) [OF ok _ refl, of this d]
      by (simp add: default_construct_def make_unique_def is_alive_def n)
  next
    case (Copy_Construct this other)
    then show ?thesis using alloc_cell(1) [OF ok _ refl, of this]
      by (cases "deref other s") (auto simp: copy_construct_def make_unique_def is_alive_def n v)
  next
    case (Copy_Assign this other)
    then show ?thesis using write_cell(1) [OF ok, of this]
      by (cases "deref other s"; cases "deref this s")
        (auto simp: copy_assign_def is_alive_def n v deref_iff)
  next
    case (Move_Construct this other)
    then show ?thesis using move_cell(1) [OF ok _ _ refl, of this other] by (simp add: move_construct_def is_alive_def n)
  next
    case (Move_Assign this other)
    have "pimpl_vals (s\<lparr>pm_heap := free_data (pm_data s this) (pm_heap s),
        pm_data := (pm_data s)(this := pm_data s other, other := Some None)\<rparr>)
      = (pimpl_vals s)(this := pimpl_vals s other, other \<mapsto> None)"
      if "pm_data s this \<noteq> None" "pm_data s other \<noteq> None" "this \<noteq> other"
      unfolding move_assign_alt [OF that(1,3)] Let_def
      using that move_cell(1) [OF free_cell(2) [OF ok that(1) refl] _ _ refl, of this other] free_cell(1) [OF ok that(1) refl]
      by simp
    with Move_Assign show ?thesis by (simp add: move_assign_def is_alive_def n)
  next
    case (Destruct this)
    then show ?thesis using free_cell(1) [OF ok _ refl, of this] by (simp add: destruct_def is_alive_def n)
  next
    case (Data_Set this f)
    then show ?thesis using write_cell(1) [OF ok, of this]
      by (cases "deref this s") (auto simp: data_set_def v deref_iff)
  qed
  show "pimpl_ok s'" if st: "pimpl_step op s = Inr s'" for s'
  proof (cases op)
    case (Construct this d)
    with st show ?thesis using alloc_cell(2) [OF ok _ refl, of this d]
      by (auto simp: default_construct_def make_unique_def is_alive_def split: if_splits)
  next
    case (Copy_Construct this other)
    with st show ?thesis using alloc_cell(2) [OF ok _ refl, of this]
      by (auto simp: copy_construct_def make_unique_def is_alive_def split: if_splits)
  next
    case (Copy_Assign this other)
    with st ok show ?thesis using write_cell(2) [OF ok, of this]
      by (auto simp: copy_assign_def is_alive_def deref_iff split: if_splits)
  next
    case (Move_Construct this other)
    with st show ?thesis using move_cell(2) [OF ok _ _ refl, of this other]
      by (auto simp: move_construct_def is_alive_def split: if_splits)
  next
    case (Move_Assign this other)
    have "pimpl_ok (s\<lparr>pm_heap := free_data (pm_data s this) (pm_heap s),
        pm_data := (pm_data s)(this := pm_data s other, other := Some None)\<rparr>)"
      if "pm_data s this \<noteq> None" "pm_data s other \<noteq> None" "this \<noteq> other"
      unfolding move_assign_alt [OF that(1,3)] Let_def
      using that by (intro move_cell(2) [OF free_cell(2) [OF ok that(1) refl] _ _ refl]) simp_all
    with Move_Assign st ok show ?thesis by (auto simp: move_assign_def is_alive_def split: if_splits)
  next
    case (Destruct this)
    with st show ?thesis using free_cell(2) [OF ok _ refl, of this] by (auto simp: destruct_def is_alive_def split: if_splits)
  next
    case (Data_Set this f)
    with st show ?thesis using write_cell(2) [OF ok, of this] by (auto simp: data_set_def deref_iff)
  qed
qed


text \<open>When all objects are destroyed, no data is left.\<close>

lemma no_leak: "pimpl_ok s \<Longrightarrow> pm_data s = Map.empty \<Longrightarrow> pm_heap s = Map.empty"
  by (rule ext) (auto simp: pimpl_ok_def)

section \<open>Derived classes\<close>

text \<open>
  An object of a derived class has the pointer of its parent and one of its own: a pair of stores with
  the same objects. The macros for derived classes call the parent's member first, except for the
  move assignment, which takes over its own data first.
\<close>

type_synonym ('b, 'd) derived = "'b pimpl \<times> 'd pimpl"

definition derived_empty :: "('b, 'd) derived" where
  "derived_empty = (pimpl_empty, pimpl_empty)"

definition derived_construct :: "'b \<Rightarrow> 'd \<Rightarrow> nat \<Rightarrow> ('b, 'd) derived \<Rightarrow> ('b, 'd) derived result" where
  "derived_construct b d this = (\<lambda>(s, t).
     bind_result (default_construct b this s) (\<lambda>s. bind_result (default_construct d this t) (\<lambda>t. Inr (s, t))))"

definition derived_copy_construct :: "nat \<Rightarrow> nat \<Rightarrow> ('b, 'd) derived \<Rightarrow> ('b, 'd) derived result" where
  "derived_copy_construct this other = (\<lambda>(s, t).
     bind_result (copy_construct this other s) (\<lambda>s. bind_result (copy_construct this other t) (\<lambda>t. Inr (s, t))))"

definition derived_copy_assign :: "nat \<Rightarrow> nat \<Rightarrow> ('b, 'd) derived \<Rightarrow> ('b, 'd) derived result" where
  "derived_copy_assign this other = (\<lambda>(s, t).
     if \<not> is_alive this t \<or> \<not> is_alive other t then Inl Undefined
     else if this \<noteq> other then
       bind_result (copy_assign this other s) (\<lambda>s.
       bind_result (deref other t) (\<lambda>(_, d).
       bind_result (deref this t) (\<lambda>(p, _). Inr (s, t\<lparr>pm_heap := (pm_heap t)(p \<mapsto> d)\<rparr>))))
     else Inr (s, t))"

definition derived_move_construct :: "nat \<Rightarrow> nat \<Rightarrow> ('b, 'd) derived \<Rightarrow> ('b, 'd) derived result" where
  "derived_move_construct this other = (\<lambda>(s, t).
     bind_result (move_construct this other s) (\<lambda>s. bind_result (move_construct this other t) (\<lambda>t. Inr (s, t))))"

definition derived_move_assign :: "nat \<Rightarrow> nat \<Rightarrow> ('b, 'd) derived \<Rightarrow> ('b, 'd) derived result" where
  "derived_move_assign this other = (\<lambda>(s, t).
     if \<not> is_alive this t \<or> \<not> is_alive other t then Inl Undefined
     else if this \<noteq> other then
       (let t = t\<lparr>pm_heap := free_data (pm_data t this) (pm_heap t),
                  pm_data := (pm_data t)(this := pm_data t other, other := Some None)\<rparr>
        in bind_result (move_assign this other s) (\<lambda>s. Inr (s, t)))
     else Inr (s, t))"

definition derived_destruct :: "nat \<Rightarrow> ('b, 'd) derived \<Rightarrow> ('b, 'd) derived result" where
  "derived_destruct this = (\<lambda>(s, t).
     bind_result (destruct this t) (\<lambda>t. bind_result (destruct this s) (\<lambda>s. Inr (s, t))))"

datatype ('b, 'd) derived_op =
    D_Construct nat 'b 'd | D_Copy_Construct nat nat | D_Copy_Assign nat nat | D_Move_Construct nat nat
  | D_Move_Assign nat nat | D_Destruct nat | D_Base_Set nat "'b \<Rightarrow> 'b" | D_Data_Set nat "'d \<Rightarrow> 'd"

fun derived_step :: "('b, 'd) derived_op \<Rightarrow> ('b, 'd) derived \<Rightarrow> ('b, 'd) derived result" where
  "derived_step (D_Construct this b d) st = derived_construct b d this st"
| "derived_step (D_Copy_Construct this other) st = derived_copy_construct this other st"
| "derived_step (D_Copy_Assign this other) st = derived_copy_assign this other st"
| "derived_step (D_Move_Construct this other) st = derived_move_construct this other st"
| "derived_step (D_Move_Assign this other) st = derived_move_assign this other st"
| "derived_step (D_Destruct this) st = derived_destruct this st"
| "derived_step (D_Base_Set this f) (s, t) = bind_result (data_set f this s) (\<lambda>s. Inr (s, t))"
| "derived_step (D_Data_Set this f) (s, t) = bind_result (data_set f this t) (\<lambda>t. Inr (s, t))"

text \<open>On values, an object of a derived class is a pair.\<close>

fun pair_op :: "('b, 'd) derived_op \<Rightarrow> ('b \<times> 'd) pimpl_op" where
  "pair_op (D_Construct this b d) = Construct this (b, d)"
| "pair_op (D_Copy_Construct this other) = Copy_Construct this other"
| "pair_op (D_Copy_Assign this other) = Copy_Assign this other"
| "pair_op (D_Move_Construct this other) = Move_Construct this other"
| "pair_op (D_Move_Assign this other) = Move_Assign this other"
| "pair_op (D_Destruct this) = Destruct this"
| "pair_op (D_Base_Set this f) = Data_Set this (\<lambda>(b, d). (f b, d))"
| "pair_op (D_Data_Set this f) = Data_Set this (\<lambda>(b, d). (b, f d))"

definition zip_vals :: "'b vals \<times> 'd vals \<Rightarrow> ('b \<times> 'd) vals" where
  "zip_vals vw a =
     (case (fst vw a, snd vw a) of
        (Some (Some b), Some (Some d)) \<Rightarrow> Some (Some (b, d)) | (None, _) \<Rightarrow> None | _ \<Rightarrow> Some None)"

text \<open>The two pointers of an object are alive, and null, together.\<close>

definition vals_match :: "'b vals \<Rightarrow> 'd vals \<Rightarrow> bool" where
  "vals_match v w \<longleftrightarrow> (\<forall>a. map_option (\<lambda>d. d = None) (v a) = map_option (\<lambda>d. d = None) (w a))"

definition derived_vals :: "('b, 'd) derived \<Rightarrow> ('b \<times> 'd) vals" where
  "derived_vals st = zip_vals (pimpl_vals (fst st), pimpl_vals (snd st))"

definition derived_ok :: "('b, 'd) derived \<Rightarrow> bool" where
  "derived_ok st \<longleftrightarrow> pimpl_ok (fst st) \<and> pimpl_ok (snd st) \<and> vals_match (pimpl_vals (fst st)) (pimpl_vals (snd st))"

text \<open>The two halves of an operation, and doing both.\<close>

fun base_op :: "('b, 'd) derived_op \<Rightarrow> 'b pimpl_op" where
  "base_op (D_Construct this b d) = Construct this b"
| "base_op (D_Copy_Construct this other) = Copy_Construct this other"
| "base_op (D_Copy_Assign this other) = Copy_Assign this other"
| "base_op (D_Move_Construct this other) = Move_Construct this other"
| "base_op (D_Move_Assign this other) = Move_Assign this other"
| "base_op (D_Destruct this) = Destruct this"
| "base_op (D_Base_Set this f) = Data_Set this f"
| "base_op (D_Data_Set this f) = Data_Set this (\<lambda>b. b)"

fun own_op :: "('b, 'd) derived_op \<Rightarrow> 'd pimpl_op" where
  "own_op (D_Construct this b d) = Construct this d"
| "own_op (D_Copy_Construct this other) = Copy_Construct this other"
| "own_op (D_Copy_Assign this other) = Copy_Assign this other"
| "own_op (D_Move_Construct this other) = Move_Construct this other"
| "own_op (D_Move_Assign this other) = Move_Assign this other"
| "own_op (D_Destruct this) = Destruct this"
| "own_op (D_Base_Set this f) = Data_Set this (\<lambda>d. d)"
| "own_op (D_Data_Set this f) = Data_Set this f"

definition both :: "'a result \<Rightarrow> 'c result \<Rightarrow> ('a \<times> 'c) result" where
  "both x y = bind_result x (\<lambda>a. bind_result y (\<lambda>c. Inr (a, c)))"

lemma alive_both:
  assumes "derived_ok (s, t)"
  shows "is_alive a s \<longleftrightarrow> is_alive a t"
proof -
  have "map_option (\<lambda>d. d = None) (pimpl_vals s a) = map_option (\<lambda>d. d = None) (pimpl_vals t a)"
    using assms by (simp add: derived_ok_def vals_match_def)
  then show ?thesis by (cases "pimpl_vals s a"; cases "pimpl_vals t a") (simp_all add: alive_vals)
qed

lemma deref_live:
  "pimpl_ok s \<Longrightarrow> (\<exists>p d. deref a s = Inr (p, d)) \<longleftrightarrow> map_option (\<lambda>d. d = None) (pimpl_vals s a) = Some False"
  using pimpl_okD(1) [of s a] by (auto simp: deref_def pimpl_vals_def split: option.splits)

lemma null_both: "derived_ok (s, t) \<Longrightarrow> (\<exists>p d. deref a s = Inr (p, d)) \<longleftrightarrow> (\<exists>p d. deref a t = Inr (p, d))"
  unfolding derived_ok_def vals_match_def fst_conv snd_conv using deref_live [of s a] deref_live [of t a] by metis

lemma data_set_same: "deref a s = Inr (p, d) \<Longrightarrow> data_set (\<lambda>d. d) a s = Inr s"
  by (auto simp: data_set_def deref_iff fun_upd_idem)

lemma data_set_null: "deref a s = Inl e \<Longrightarrow> data_set f a s = Inl e"
  by (simp add: data_set_def)

text \<open>An operation on a derived class is the operation on both halves.\<close>

lemma step_halves:
  assumes "derived_ok (s, t)"
  shows "derived_step op (s, t) = both (pimpl_step (base_op op) s) (pimpl_step (own_op op) t)"
proof (cases op)
  case (D_Copy_Assign this other)
  then show ?thesis using alive_both [OF assms]
    by (cases "deref other t"; cases "deref this t") (auto simp: derived_copy_assign_def copy_assign_def both_def)
next
  case (D_Move_Assign this other)
  then show ?thesis using alive_both [OF assms]
    by (auto simp: derived_move_assign_def move_assign_def both_def Let_def)
next
  case (D_Destruct this)
  then show ?thesis using alive_both [OF assms]
    by (auto simp: derived_destruct_def destruct_def both_def)
next
  case (D_Base_Set this f)
  then show ?thesis using null_both [OF assms, of this]
    by (cases "deref this s"; cases "deref this t") (auto simp: both_def data_set_same data_set_null dest: deref_error)
next
  case (D_Data_Set this f)
  then show ?thesis using null_both [OF assms, of this]
    by (cases "deref this s"; cases "deref this t") (auto simp: both_def data_set_same data_set_null dest: deref_error)
qed (simp_all add: derived_construct_def derived_copy_construct_def derived_move_construct_def both_def)


text \<open>So is the specification.\<close>

lemma match_cases:
  assumes "vals_match v w"
  obtains (dead) "v a = None" "w a = None" | (moved) "v a = Some None" "w a = Some None"
    | (live) b d where "v a = Some (Some b)" "w a = Some (Some d)"
proof -
  have "map_option (\<lambda>d. d = None) (v a) = map_option (\<lambda>d. d = None) (w a)"
    using assms by (simp add: vals_match_def)
  then show ?thesis using that by (cases "v a"; cases "w a"; cases "the (v a)"; cases "the (w a)") auto
qed

lemma match_upd:
  "vals_match v w \<Longrightarrow> map_option (\<lambda>d. d = None) x = map_option (\<lambda>d. d = None) y \<Longrightarrow> vals_match (v(a := x)) (w(a := y))"
  by (simp add: vals_match_def)

lemma match_upd_half:
  assumes "vals_match v w"
  shows "v a = Some (Some b) \<Longrightarrow> vals_match (v(a \<mapsto> Some b')) w"
    and "w a = Some (Some d) \<Longrightarrow> vals_match v (w(a \<mapsto> Some d'))"
proof -
  have m: "map_option (\<lambda>d. d = None) (v a) = map_option (\<lambda>d. d = None) (w a)"
    using assms by (simp add: vals_match_def)
  show "vals_match (v(a \<mapsto> Some b')) w" if "v a = Some (Some b)"
    using match_upd [OF assms, of "Some (Some b')" "w a" a] m that by simp
  show "vals_match v (w(a \<mapsto> Some d'))" if "w a = Some (Some d)"
    using match_upd [OF assms, of "v a" "Some (Some d')" a] m that by simp
qed

lemma zip_upd: "zip_vals (v(a := x), w(a := y)) = (zip_vals (v, w))(a := zip_vals (\<lambda>_. x, \<lambda>_. y) a)"
  by (rule ext) (simp add: zip_vals_def)

lemma zip_upd_half:
  "w a = Some (Some d) \<Longrightarrow> zip_vals (v(a \<mapsto> Some b), w) = (zip_vals (v, w))(a \<mapsto> Some (b, d))"
  "v a = Some (Some b) \<Longrightarrow> zip_vals (v, w(a \<mapsto> Some d)) = (zip_vals (v, w))(a \<mapsto> Some (b, d))"
  by (rule ext, simp add: zip_vals_def)+

lemma zip_const [simp]:
  "zip_vals (\<lambda>_. None, w) a = None" "zip_vals (\<lambda>_. Some None, \<lambda>_. Some None) a = Some None"
  "zip_vals (\<lambda>_. Some (Some b), \<lambda>_. Some (Some d)) a = Some (Some (b, d))"
  by (simp_all add: zip_vals_def)

lemma zip_same: "zip_vals (\<lambda>_. v a, \<lambda>_. w a) b = zip_vals (v, w) a"
  by (simp add: zip_vals_def)

lemma spec_halves:
  assumes "vals_match v w"
  shows "map_sum (\<lambda>e. e) zip_vals (both (vals_step (base_op op) v) (vals_step (own_op op) w))
      = vals_step (pair_op op) (zip_vals (v, w))"
    and "both (vals_step (base_op op) v) (vals_step (own_op op) w) = Inr (v', w') \<Longrightarrow> vals_match v' w'"
proof -
  have z: "zip_vals (v, w) a = (case (v a, w a) of
      (Some (Some b), Some (Some d)) \<Rightarrow> Some (Some (b, d)) | (None, _) \<Rightarrow> None | _ \<Rightarrow> Some None)" for a
    by (simp add: zip_vals_def)
  note rules = both_def val_of_def z zip_upd zip_same zip_upd_half fun_upd_idem
  show "map_sum (\<lambda>e. e) zip_vals (both (vals_step (base_op op) v) (vals_step (own_op op) w))
      = vals_step (pair_op op) (zip_vals (v, w))"
  proof (cases op)
    case (D_Construct this b d)
    then show ?thesis by (cases rule: match_cases [OF assms, of this]) (simp_all add: rules)
  next
    case (D_Copy_Construct this other)
    then show ?thesis
      by (cases rule: match_cases [OF assms, of this]; cases rule: match_cases [OF assms, of other])
        (simp_all add: rules)
  next
    case (D_Copy_Assign this other)
    then show ?thesis
      by (cases rule: match_cases [OF assms, of this]; cases rule: match_cases [OF assms, of other])
        (simp_all add: rules)
  next
    case (D_Move_Construct this other)
    then show ?thesis
      by (cases rule: match_cases [OF assms, of this]; cases rule: match_cases [OF assms, of other])
        (simp_all add: rules)
  next
    case (D_Move_Assign this other)
    then show ?thesis
      by (cases rule: match_cases [OF assms, of this]; cases rule: match_cases [OF assms, of other])
        (simp_all add: rules)
  next
    case (D_Destruct this)
    then show ?thesis by (cases rule: match_cases [OF assms, of this]) (simp_all add: rules)
  next
    case (D_Base_Set this f)
    then show ?thesis by (cases rule: match_cases [OF assms, of this]) (simp_all add: rules)
  next
    case (D_Data_Set this f)
    then show ?thesis by (cases rule: match_cases [OF assms, of this]) (simp_all add: rules)
  qed
  show "vals_match v' w'"
    if "both (vals_step (base_op op) v) (vals_step (own_op op) w) = Inr (v', w')"
  proof (cases op)
    case (D_Construct this b d)
    with that assms show ?thesis
      by (cases rule: match_cases [OF assms, of this])
        (auto simp: both_def val_of_def fun_upd_idem split: if_splits intro!: match_upd)
  next
    case (D_Copy_Construct this other)
    with that assms show ?thesis
      by (cases rule: match_cases [OF assms, of this]; cases rule: match_cases [OF assms, of other])
        (auto simp: both_def val_of_def split: if_splits intro!: match_upd)
  next
    case (D_Copy_Assign this other)
    with that assms show ?thesis
      by (cases rule: match_cases [OF assms, of this]; cases rule: match_cases [OF assms, of other])
        (auto simp: both_def val_of_def split: if_splits intro!: match_upd)
  next
    case (D_Move_Construct this other)
    with that assms show ?thesis
      by (cases rule: match_cases [OF assms, of this]; cases rule: match_cases [OF assms, of other])
        (auto simp: both_def val_of_def split: if_splits intro!: match_upd)
  next
    case (D_Move_Assign this other)
    with that assms show ?thesis
      by (cases rule: match_cases [OF assms, of this]; cases rule: match_cases [OF assms, of other])
        (auto simp: both_def val_of_def split: if_splits intro!: match_upd)
  next
    case (D_Destruct this)
    with that assms show ?thesis
      by (cases rule: match_cases [OF assms, of this])
        (auto simp: both_def val_of_def fun_upd_idem split: if_splits intro!: match_upd)
  next
    case (D_Base_Set this f)
    with that assms show ?thesis
      by (cases rule: match_cases [OF assms, of this])
        (auto simp: both_def val_of_def fun_upd_idem match_upd_half)
  next
    case (D_Data_Set this f)
    with that assms show ?thesis
      by (cases rule: match_cases [OF assms, of this])
        (auto simp: both_def val_of_def fun_upd_idem match_upd_half)
  qed
qed

interpretation derived_objects_are_values: simulation "derived_step :: ('b, 'd) derived_op \<Rightarrow> _"
    "\<lambda>op. vals_step (pair_op op)" derived_vals derived_ok
proof
  fix st :: "('b, 'd) derived" and op
  assume ok: "derived_ok st"
  obtain s t where st: "st = (s, t)" by fastforce
  with ok have s: "pimpl_ok s" and t: "pimpl_ok t" and m: "vals_match (pimpl_vals s) (pimpl_vals t)"
    by (simp_all add: derived_ok_def)
  let ?x = "pimpl_step (base_op op) s" and ?y = "pimpl_step (own_op op) t"
  have step: "derived_step op (s, t) = both ?x ?y" by (rule step_halves [OF ok [unfolded st]])
  have halves: "vals_step (base_op op) (pimpl_vals s) = map_sum (\<lambda>e. e) pimpl_vals ?x"
    "vals_step (own_op op) (pimpl_vals t) = map_sum (\<lambda>e. e) pimpl_vals ?y"
    using objects_are_values.sim_step [OF s] objects_are_values.sim_step [OF t] by simp_all
  show "map_sum (\<lambda>e. e) derived_vals (derived_step op st) = vals_step (pair_op op) (derived_vals st)"
    unfolding st step derived_vals_def fst_conv snd_conv spec_halves(1) [OF m, of op, symmetric] halves
    by (cases ?x; cases ?y) (simp_all add: both_def derived_vals_def)
  show "derived_ok st'" if "derived_step op st = Inr st'" for st'
  proof -
    obtain s' t' where xy: "?x = Inr s'" "?y = Inr t'" "st' = (s', t')"
      using \<open>derived_step op st = Inr st'\<close> unfolding st step both_def by auto
    have "vals_match (pimpl_vals s') (pimpl_vals t')"
      by (rule spec_halves(2) [OF m, of op]) (simp add: halves xy both_def)
    then show ?thesis
      using objects_are_values.inv_step [OF s xy(1)] objects_are_values.inv_step [OF t xy(2)]
      by (simp add: derived_ok_def xy)
  qed
qed


lemma vals_empty: "pimpl_vals pimpl_empty = Map.empty" "derived_vals derived_empty = Map.empty"
  by (rule ext, simp add: pimpl_vals_def pimpl_empty_def derived_vals_def derived_empty_def zip_vals_def)+

lemma derived_ok_empty: "derived_ok derived_empty"
  by (simp add: derived_ok_def derived_empty_def pimpl_ok_empty vals_empty vals_match_def)

text \<open>
  Runs of operations from the empty store: the values are those of the specification, and the heap
  holds just the data owned, each by one object.
\<close>

lemmas objects_run = objects_are_values.sim_run [OF pimpl_ok_empty, unfolded vals_empty]
lemmas derived_run = derived_objects_are_values.sim_run [OF derived_ok_empty, unfolded vals_empty]

lemma owned_once:
  assumes "pimpl_ok s"
  shows "dom (pm_heap s) = {p. \<exists>a. pm_data s a = Some (Some p)}"
    and "inj_on (pm_data s) {a. \<exists>p. pm_data s a = Some (Some p)}"
  using assms pimpl_okD(2) [OF assms] by (auto simp: pimpl_ok_def dom_def inj_on_def)

lemma map_sum_Inl: "map_sum (\<lambda>e. e) f x = Inl e \<longleftrightarrow> x = Inl e"
  by (cases x) simp_all

text \<open>
  A copy is independent of its original. Assigning to an object that was moved from is undefined when
  it is copied to: \<^verbatim>\<open>*data = *other.data\<close> dereferences the null pointer; moving to it is defined.
\<close>

lemma assign_to_moved_from:
  "run_ops pimpl_step [Construct 0 d, Move_Construct 1 0, Copy_Assign 0 1] pimpl_empty = Inl Undefined"
  "map_sum (\<lambda>e. e) pimpl_vals (run_ops pimpl_step [Construct 0 d, Move_Construct 1 0, Move_Assign 0 1] pimpl_empty)
     = Inr [0 \<mapsto> Some d, 1 \<mapsto> None]"
  using objects_run [of "[Construct 0 d, Move_Construct 1 0, Copy_Assign 0 1]"]
    objects_run [of "[Construct 0 d, Move_Construct 1 0, Move_Assign 0 1]"]
  by (simp_all add: val_of_def fun_upd_twist map_sum_Inl)

end
