(* ===== verification/Exception_Class.thy ===== *)
theory Exception_Class
  imports Numbers
begin

text \<open>
  The class \<^verbatim>\<open>nawa::Exception\<close> (\<^verbatim>\<open>include/nawa/Exception.h\<close>). The operations of the development yield
  \<open>NawaException n m\<close> for it, with the error code and the message: what its handlers look at, apart from
  the debug lines of the log.
\<close>

record nawa_exception =
  ex_errorCode :: int
  ex_message :: string
  ex_debugMessage :: string

definition Exception_new :: "string \<Rightarrow> int \<Rightarrow> string \<Rightarrow> string \<Rightarrow> nawa_exception" where
  "Exception_new inFunction errorCode message additionalDebugInfo =
     \<lparr>ex_errorCode = errorCode, ex_message = message,
      ex_debugMessage = ''[NAWA Exception #'' @ dec_int errorCode @ '' in '' @ inFunction @ ''] '' @ message
        @ (if additionalDebugInfo \<noteq> [] then '' [Debug Info:] '' @ additionalDebugInfo else [])\<rparr>"

definition no_message :: string where
  "no_message = ''No message provided.''"

definition Exception_getErrorCode :: "nawa_exception \<Rightarrow> int" where
  "Exception_getErrorCode e = ex_errorCode e"

definition Exception_getMessage :: "nawa_exception \<Rightarrow> string" where
  "Exception_getMessage e = ex_message e"

definition Exception_getDebugMessage :: "nawa_exception \<Rightarrow> string" where
  "Exception_getDebugMessage e = ex_debugMessage e"

text \<open>A C string ends at the first NUL.\<close>

definition Exception_what :: "nawa_exception \<Rightarrow> string" where
  "Exception_what e = c_string (ex_debugMessage e)"

definition thrown :: "nawa_exception \<Rightarrow> cxx_error" where
  "thrown e = NawaException (nat (Exception_getErrorCode e)) (Exception_getMessage e)"

text \<open>
  Two exceptions are the same for the operations just when they agree in code and message; what an
  uncaught exception prints begins with its place and code.
\<close>

lemma thrown_iff:
  assumes "0 \<le> n" and "0 \<le> n'"
  shows "thrown (Exception_new f n m d) = thrown (Exception_new f' n' m' d') \<longleftrightarrow> n = n' \<and> m = m'"
  using assms by (auto simp: thrown_def Exception_new_def Exception_getErrorCode_def Exception_getMessage_def)

lemma what_begins:
  assumes "CHR 0x00 \<notin> set f" and "0 \<le> n"
  shows "\<exists>rest. Exception_what (Exception_new f n m d) = ''[NAWA Exception #'' @ dec_int n @ '' in '' @ f @ ''] '' @ rest"
proof -
  let ?p = "''[NAWA Exception #'' @ dec_int n @ '' in '' @ f @ ''] ''"
  have "CHR 0x00 \<notin> set (dec k)" for k
    using set_dec [of "CHR 0x00" k]
    by (auto simp: base_digit_def digit_val_def is_digit_def is_upper_def is_lower_def less_eq_char_def)
  then have "\<forall>c \<in> set ?p. c \<noteq> CHR 0x00" using assms by (auto simp: dec_int_def)
  then have "takeWhile (\<lambda>c. c \<noteq> CHR 0x00) (?p @ r) = ?p @ takeWhile (\<lambda>c. c \<noteq> CHR 0x00) r" for r
    by (simp add: takeWhile_append2)
  from this [of "m @ (if d \<noteq> [] then '' [Debug Info:] '' @ d else [])"] show ?thesis
    unfolding Exception_what_def Exception_new_def c_string_def by (intro exI) simp
qed

end
