(* ===== verification/Spec2Isabelle.thy ===== *)
theory Spec2Isabelle
  imports Fixtures_App Pimpl Exception_Class
begin

text \<open>
  A verification development for NAWA, the C++ web application framework of this repository
  (\<^verbatim>\<open>src/\<close>, \<^verbatim>\<open>include/\<close>, \<^verbatim>\<open>internal/\<close>, \<^verbatim>\<open>libs/\<close>, \<^verbatim>\<open>examples/\<close>).

  \<^bold>\<open>The program.\<close> A request handler (\<^verbatim>\<open>src/RequestHandler\<close>) serves HTTP or FastCGI. It turns what the
  server library delivers into a request (\<^verbatim>\<open>src/request\<close>, \<^verbatim>\<open>src/util\<close>), builds a connection
  (\<^verbatim>\<open>src/connection\<close>) with its session (\<^verbatim>\<open>src/session\<close>), runs the access filters (\<^verbatim>\<open>src/filter\<close>) and then
  the application's function, and flushes the response. The runner (\<^verbatim>\<open>src/nawarun\<close>) reads the command
  line and the configuration (\<^verbatim>\<open>src/config\<close>, \<^verbatim>\<open>libs/inih\<close>), loads the application, drops privileges and
  starts the handler. Applications also use the encoders, password hashing (\<^verbatim>\<open>src/hashing\<close>), emails
  (\<^verbatim>\<open>src/mail\<close>) and the logger (\<^verbatim>\<open>src/logging\<close>).

  \<^bold>\<open>The theories.\<close>
  \<^item> \<^verbatim>\<open>Prelude\<close>, \<^verbatim>\<open>Containers\<close>, \<^verbatim>\<open>Numbers\<close>, \<^verbatim>\<open>Regex\<close>, \<^verbatim>\<open>Regex_Lang\<close>, \<^verbatim>\<open>Utf8\<close>: what the code uses of the C++
    standard library. A failure is a value of \<open>cxx_error\<close> in a sum (\<open>result\<close>); unordered maps are
    association lists in iteration order, with the contract of \<^verbatim>\<open>find\<close>, \<^verbatim>\<open>insert\<close> and \<^verbatim>\<open>erase\<close> as a locale;
    of unordered multimaps only the entries and their number are meant (locale \<^verbatim>\<open>multimap\<close>), not the order;
    regular expressions are a backtracking matcher, proved equal to the language of the pattern.
  \<^item> \<^verbatim>\<open>Utils\<close>, \<^verbatim>\<open>Replace\<close>, \<^verbatim>\<open>Tables\<close>, \<^verbatim>\<open>Http_Text\<close>, \<^verbatim>\<open>Http_Time\<close>, \<^verbatim>\<open>Smtp_Time\<close>: \<^verbatim>\<open>src/util/utils.cpp\<close>.
  \<^item> \<^verbatim>\<open>Encoding\<close>, \<^verbatim>\<open>Base64\<close>, \<^verbatim>\<open>Entities\<close>, \<^verbatim>\<open>Html\<close>, \<^verbatim>\<open>Punycode\<close>, \<^verbatim>\<open>Idn\<close>: \<^verbatim>\<open>src/util/encoding.cpp\<close> with the vendored
    Base64 and Punycode libraries; round trips, and equality with reference definitions.
  \<^item> \<^verbatim>\<open>Ini\<close>, \<^verbatim>\<open>Config\<close>, \<^verbatim>\<open>Request\<close>, \<^verbatim>\<open>Mime\<close>: configuration files, GET, POST and cookie values, uploads.
  \<^item> \<^verbatim>\<open>Session\<close>, \<^verbatim>\<open>Session_Steps\<close>: the session store on an explicit heap of session data, each critical
    section an operation; then all interleavings of the threads as a step relation with an invariant.
  \<^item> \<^verbatim>\<open>Filters\<close>, \<^verbatim>\<open>Connection\<close>, \<^verbatim>\<open>Connection_Props\<close>, \<^verbatim>\<open>Filter_Props\<close>: responses, headers, cookies, files,
    and the filters with the policy they enforce.
  \<^item> \<^verbatim>\<open>Request_Handler\<close>, \<^verbatim>\<open>Request_Handler_Props\<close>, \<^verbatim>\<open>Fastcgi\<close>, \<^verbatim>\<open>Lifecycle\<close>: the two servers, the reading of
    POST bodies in pieces, and the life cycle of server and threads (locale \<^verbatim>\<open>server\<close>, interpreted for both).
  \<^item> \<^verbatim>\<open>Logging\<close>: the logger's shared state with the life of its objects.
  \<^item> \<^verbatim>\<open>Crypto\<close>, \<^verbatim>\<open>Hashing\<close>: digests, password hashing and the tables of engines.
  \<^item> \<^verbatim>\<open>Bf_Tables\<close>, \<^verbatim>\<open>Blowfish\<close>, \<^verbatim>\<open>Bf_Key\<close>, \<^verbatim>\<open>Bcrypt\<close>: the vendored \<^verbatim>\<open>libs/libbcrypt\<close> on 32-bit words: the cipher
    with its tables, the key schedule, the text of settings and hashes, salts and the comparison.
  \<^item> \<^verbatim>\<open>Mail\<close>, \<^verbatim>\<open>Smtp\<close>: addresses, the text of emails, the queue of the mailer and the calls it makes.
  \<^item> \<^verbatim>\<open>Nawarun\<close>, \<^verbatim>\<open>Nawarun_End\<close>: the runner; its effects are a list of events, in order. A run that has not
    returned, because the threads it joins go on, has a value of its own (\<open>Waiting\<close>).
  \<^item> \<^verbatim>\<open>Pimpl\<close>: the members that \<^verbatim>\<open>include/nawa/internal/macros.h\<close> generates for the classes, over explicit
    pointers; they refine independent values (locale \<^verbatim>\<open>simulation\<close>), which is why the other theories may
    model the classes as records. \<^verbatim>\<open>Exception_Class\<close>: the exception of nawa.
  \<^item> \<^verbatim>\<open>Multipage\<close>, \<^verbatim>\<open>Contact_Form\<close>, \<^verbatim>\<open>Contact_Visit\<close>, \<^verbatim>\<open>Library_App\<close>: the programs of \<^verbatim>\<open>examples/\<close>, over the
    operations of the library: the policy of a set of filters, a form with sessions and emails (and two
    visits to it, from the first request to the email), and nawa as a library.
  \<^item> \<^verbatim>\<open>Fixtures\<close>, \<^verbatim>\<open>Fixtures_App\<close>: concrete inputs for the witnesses. This theory: the properties.

  \<^bold>\<open>How code maps to definitions.\<close> Classes are records, enums datatypes, and each member function is a
  definition of the same name that takes and returns the state. Exceptions, \<^verbatim>\<open>nullptr\<close> and early
  returns are branches; \<open>Undefined\<close> stands for undefined behaviour. Machine integers wrap where the code
  can overflow. A loop that need not end is a \<^verbatim>\<open>partial_function\<close> whose \<open>None\<close> is not returning
  (\<^verbatim>\<open>stringReplace\<close>, \<^verbatim>\<open>Session::start\<close>); other loops are recursive functions with a termination proof. Only the
  Punycode loops carry a bound on their rounds, the length of the input: each round consumes or
  produces a character, and the round trip is proved for the bounded definitions themselves.

  \<^bold>\<open>Parameters.\<close> What is not in the repository is an argument of the definitions that use it: the digests
  of OpenSSL, libargon2, libcurl's answers, Boost's string algorithms (\<open>boost_ok\<close>), the clock, the random
  device, the time zone, the system calls, the dynamic loader and the ending of the threads of the network
  libraries. Where a property relies on documented
  behaviour, this is a named hypothesis, and a witness shows an instance of it.

  \<^bold>\<open>What the properties show.\<close> Security of the request path (filters, sessions, trusted variables,
  cookies, POST limits); the runner's order of privileges and the application's calls (the library itself is
  opened before, so that its static constructors run as root), and when it ends; encoders that
  cannot be broken out of and are undone by their decoders; configuration, query strings, headers,
  multipart bodies and dates read as they were written; the mailer and the password functions; the
  objects of the classes; and, composed from all of these, what the example applications promise: static
  files behind a password, and a contact form that serves its visitor and cannot be used to send other mail.

  \<^bold>\<open>Not modelled.\<close> The event loops of Boost.Asio and fastcgi++ (their callbacks are), streams as objects,
  the operating-system wrappers, the debug lines of the log, and the mutexes that only serialise single
  assignments. The headers of \<^verbatim>\<open>include/\<close> are otherwise declarations. Of
  libbcrypt, modelled for a little-endian machine, \<^verbatim>\<open>errno\<close>, the aliases and the test programs are left
  out; the DES and MD5 functions of glibc are parameters of the branches that call them, and the cipher
  is not run by the kernel: the theorems hold for any outcome of its self-test. The options of inih that
  the build switches off are not modelled. The tests are not part of the library.
\<close>

section \<open>The properties\<close>

text \<open>
  C1: When \<^verbatim>\<open>applyFilters\<close> (with filters enabled) returns false, so that the application gets the request, then no block filter and no forward filter applies to the request path, and of the authentication filters either none applies or the first that applies is satisfied: the session holds the key of exactly this filter, or the filter's function accepts the user and the password of the authorization header. They are read from a header of two words, whose first word need not be \<^verbatim>\<open>Basic\<close> although the comment in the code demands it, or of more words beginning with \<^verbatim>\<open>Basic\<close>.
\<close>

theorem filters_enforce_policy:
  assumes "fl_filtersEnabled flts"
    and "applyFilters H os flts c w = Some (Inr False, c', w')"
    and "path = getRequestPath (rq_env (cn_request c))"
  shows "list_all (\<lambda>f. applies f path = Inr False) (fl_blockFilters flts)
    \<and> auth_satisfied (fl_authFilters flts) path c' w'
    \<and> list_all (\<lambda>f. applies f path = Inr False) (fl_forwardFilters flts)
    \<and> (auth_credentials h = Inr (Some (user, pw)) \<longleftrightarrow>
         (\<exists>scheme b rest. splitString h (CHR '' '') True = scheme # b # rest \<and> (rest = [] \<or> scheme = ''Basic'')
            \<and> splitString (base64Decode b) (CHR '':'') True = [user, pw]))"
  using applyFilters_pass [OF assms(2,1)] assms(3) auth_credentials_iff [of h user pw] by simp

theorem filters_enforce_policy_witness:
  "list_all (\<lambda>f. applies f [''admin'', ''index.html''] = Inr False) (fl_blockFilters demo_filters)
    \<and> auth_satisfied (fl_authFilters demo_filters) [''admin'', ''index.html''] demo_connection demo_world
    \<and> list_all (\<lambda>f. applies f [''admin'', ''index.html''] = Inr False) (fl_forwardFilters demo_filters)"
proof -
  have "fl_filtersEnabled demo_filters" by (simp add: demo_filters_def)
  from filters_enforce_policy [OF this demo_filters_pass demo_path [symmetric]] show ?thesis by blast
qed

text \<open>
  C2: The application is reached only through the filters: if \<^verbatim>\<open>handleRequest\<close> with two different applications gives different results, then the filters let the request pass, with everything that this means for the block, authentication and forward filters.
\<close>

theorem application_only_after_filters:
  assumes "rh_accessFilters rh = Some fl" and "fl_filtersEnabled fl"
    and "handleRequest H os (rh\<lparr>rh_handleRequestFunction := f\<rparr>) c w
       \<noteq> handleRequest H os (rh\<lparr>rh_handleRequestFunction := g\<rparr>) c w"
    and "path = getRequestPath (rq_env (cn_request c))"
  shows "\<exists>c' w'. applyFilters H os fl c w = Some (Inr False, c', w')
    \<and> list_all (\<lambda>f. applies f path = Inr False) (fl_blockFilters fl)
    \<and> auth_satisfied (fl_authFilters fl) path c' w'
    \<and> list_all (\<lambda>f. applies f path = Inr False) (fl_forwardFilters fl)"
proof -
  from handleRequest_admitted [OF assms(1), of H os f c w g] assms(3)
  obtain c' w' where "applyFilters H os fl c w = Some (Inr False, c', w')"
    by (auto simp: admitted_def)
  with applyFilters_pass [OF this assms(2)] assms(4) show ?thesis by blast
qed

theorem application_only_after_filters_witness:
  "\<exists>c' w'. applyFilters demo_hash demo_os demo_filters demo_connection demo_world = Some (Inr False, c', w')
    \<and> list_all (\<lambda>f. applies f [''admin'', ''index.html''] = Inr False) (fl_blockFilters demo_filters)
    \<and> auth_satisfied (fl_authFilters demo_filters) [''admin'', ''index.html''] c' w'
    \<and> list_all (\<lambda>f. applies f [''admin'', ''index.html''] = Inr False) (fl_forwardFilters demo_filters)"
proof (rule application_only_after_filters [where rh = demo_handler
      and f = "Some (demo_app ''a'')" and g = "Some (demo_app ''b'')"])
  show a: "rh_accessFilters demo_handler = Some demo_filters"
    by (simp add: demo_handler_def reconfigure_fields)
  show "fl_filtersEnabled demo_filters" by (simp add: demo_filters_def)
  show "[''admin'', ''index.html''] = getRequestPath (rq_env (cn_request demo_connection))"
    by (simp add: demo_path)
  show "handleRequest demo_hash demo_os (demo_handler\<lparr>rh_handleRequestFunction := Some (demo_app ''a'')\<rparr>)
      demo_connection demo_world
    \<noteq> handleRequest demo_hash demo_os (demo_handler\<lparr>rh_handleRequestFunction := Some (demo_app ''b'')\<rparr>)
      demo_connection demo_world"
  proof
    assume "handleRequest demo_hash demo_os (demo_handler\<lparr>rh_handleRequestFunction := Some (demo_app ''a'')\<rparr>)
      demo_connection demo_world
    = handleRequest demo_hash demo_os (demo_handler\<lparr>rh_handleRequestFunction := Some (demo_app ''b'')\<rparr>)
      demo_connection demo_world"
    then have "setResponseBody ''a'' demo_connection = setResponseBody ''b'' demo_connection"
      by (simp only: demo_handler_runs option.inject prod.inject)
    from arg_cong [OF this, of cn_bodyString] show False by simp
  qed
qed

text \<open>
  C3: The filters of the multipage example protect its static files, whatever application is behind them. For a path below \<^verbatim>\<open>/test/static\<close> or \<^verbatim>\<open>/test2/static\<close>, a request without the password gets an answer on which neither the files nor the application have an influence. With the password, a file of a forbidden type is answered with 404, a permitted one is sent, and other paths reach the application. A file that is sent lies directly in the directory of the images or of the HTML files and has a permitted extension.
\<close>

theorem multipage_static_protected:
  assumes "rh_accessFilters rh = Some (ai_accessFilters (snd (multipage_init (AppInit_new cfg n))))"
    and "path = getRequestPath (rq_env (cn_request c))" and "static_path path"
  shows "(if \<not> knows_password c
      then \<forall>os' f. handleRequest H os' (rh\<lparr>rh_handleRequestFunction := f\<rparr>) c w = handleRequest H os rh c w
      else handleRequest H os rh c w =
        (if blocked_path path then Some (Inr (), setResponseBody (generateErrorPage 404) (setStatus 404 c), w)
         else case served_file path of
           Some file \<Rightarrow> (case answer_file os file c of (r, c) \<Rightarrow> Some (map_sum (\<lambda>e. e) (\<lambda>_. ()) r, c, w))
         | None \<Rightarrow> run_app rh c w))
    \<and> (case served_file path of
         Some file \<Rightarrow> \<exists>name. CHR ''/'' \<notin> set name
           \<and> (file = ''/var/www/multipage/images/'' @ name \<and> getFileExtension name \<in> set image_extensions
              \<or> file = ''/var/www/multipage/html/'' @ name \<and> getFileExtension name \<in> set html_extensions)
       | None \<Rightarrow> True)"
proof -
  note rh = assms(1) [unfolded multipage_init_filters] and st = assms(3) [unfolded assms(2)]
  have place: "case served_file path of None \<Rightarrow> True | Some file \<Rightarrow> \<exists>name. CHR ''/'' \<notin> set name
      \<and> (file = ''/var/www/multipage/images/'' @ name \<and> getFileExtension name \<in> set image_extensions
         \<or> file = ''/var/www/multipage/html/'' @ name \<and> getFileExtension name \<in> set html_extensions)"
    unfolding assms(2) using served_file_place by (simp split: option.split)
  show ?thesis
  proof (cases "knows_password c")
    case False
    with place multipage_without_password [OF rh st False] show ?thesis by simp
  next
    case True
    show ?thesis
    proof (cases "blocked_path path")
      case b: True
      with True place multipage_blocked [OF rh] show ?thesis by (simp add: assms(2))
    next
      case False
      with True place multipage_with_password [OF rh st True] show ?thesis by (simp add: assms(2))
    qed
  qed
qed

theorem multipage_static_protected_witness:
  "(\<forall>os f. handleRequest demo_hash os (demo_multipage\<lparr>rh_handleRequestFunction := f\<rparr>) (demo_static ''Basic dGVzdDpub3Bl'') empty_world
      = handleRequest demo_hash demo_os demo_multipage (demo_static ''Basic dGVzdDpub3Bl'') empty_world)
   \<and> handleRequest demo_hash demo_os demo_multipage (demo_static ''Basic dGVzdDpzdXBlcnNlY3VyZQ=='') empty_world
      = (case answer_file demo_os ''/var/www/multipage/html/a.html'' (demo_static ''Basic dGVzdDpzdXBlcnNlY3VyZQ=='') of
           (r, c) \<Rightarrow> Some (map_sum (\<lambda>e. e) (\<lambda>_. ()) r, c, empty_world))"
proof -
  have rh: "rh_accessFilters demo_multipage = Some (ai_accessFilters (snd (multipage_init (AppInit_new demo_config 1))))"
    by (simp add: demo_multipage_def setAccessFilters_def)
  note p = multipage_static_protected [OF rh demo_static_path [symmetric] demo_static_policy(1), where H = demo_hash
      and os = demo_os and w = empty_world, THEN conjunct1]
  from p [of "''Basic dGVzdDpub3Bl''"] p [of "''Basic dGVzdDpzdXBlcnNlY3VyZQ==''"] demo_static_password
  show ?thesis by (simp add: demo_static_policy)
qed

text \<open>
  C4: Whatever the interleaving of the critical sections of all threads: two handles that refer to the same session data stand for the same session ID, every entry of the store is held under the ID it was created for, and with IP validation switched on both handles belong to requests from the same address. So data of one session never becomes visible under another ID or, with validation, from another address.
\<close>

theorem sessions_never_shared:
  assumes "w_sessions w0 = []" and "\<forall>i. se_current (fst (ths0 i)) = None"
    and "(sess_step H cfg envs)\<^sup>*\<^sup>* (w0, ths0) (w, ths)"
    and "se_current (fst (ths i)) = Some a" and "se_current (fst (ths j)) = Some a"
  shows "held_id (ths i) = held_id (ths j)
    \<and> (\<forall>sid. umap_get (w_sessions w) sid = Some a \<longrightarrow> sid = held_id (ths i))
    \<and> (validates_ip cfg \<longrightarrow> Env_get (envs i) ''REMOTE_ADDR'' = Env_get (envs j) ''REMOTE_ADDR'')"
proof -
  have "owned cfg envs (\<lambda>_. []) (w0, ths0)"
    using assms(1,2) by (auto simp: owned_def world_ok_def)
  then have "sess_inv cfg envs (w0, ths0)" by (auto simp: sess_inv_def)
  from sess.inv_reachable [OF assms(3) this] obtain own where "owned cfg envs own (w, ths)"
    by (auto simp: sess_inv_def)
  note o = ownedD [OF this]
  have "own a = held_id (ths i)" "own a = held_id (ths j)" by (rule o(4), rule assms)+
  moreover have "sid = own a" if "umap_get (w_sessions w) sid = Some a" for sid using o(2) [OF that] by simp
  moreover have "Env_get (envs i) ''REMOTE_ADDR'' = Env_get (envs j) ''REMOTE_ADDR''" if "validates_ip cfg"
    using o(5) [OF assms(4) that] o(5) [OF assms(5) that] by simp
  ultimately show ?thesis by simp
qed


theorem sessions_never_shared_witness:
  "\<exists>w ths. demo_steps\<^sup>*\<^sup>* (empty_world, \<lambda>_. (Session_new, Idle)) (w, ths)
     \<and> se_current (fst (ths 0)) = Some 0 \<and> held_id (ths 0) = held_id (ths 1)
     \<and> (\<forall>sid. umap_get (w_sessions w) sid = Some 0 \<longrightarrow> sid = held_id (ths 0))"
proof -
  obtain w ths where run: "demo_steps\<^sup>*\<^sup>* (empty_world, \<lambda>_. (Session_new, Idle)) (w, ths)"
    and c: "se_current (fst (ths 0)) = Some 0" "se_current (fst (ths 1)) = Some 0"
    using demo_shared_run by blast
  have "w_sessions empty_world = []" "\<forall>i. se_current (fst ((\<lambda>_::nat. (Session_new, Idle)) i)) = None"
    by (simp_all add: empty_world_def Session_new_def)
  from sessions_never_shared [OF this run c] run c(1) show ?thesis by blast
qed

text \<open>
  C5: \<^verbatim>\<open>Session::start\<close> with the ID of a session that has not expired (and, with IP validation, was created from the request's address) attaches to exactly this session: the handle gets its data object, the stored values are unchanged and the expiry is the current time plus the keepalive. The ID is returned again, unless \<^verbatim>\<open>session/gc_divisor\<close> is a number \<^verbatim>\<open>stoul\<close> throws on or is zero: then the exception leaves the call (or the division is undefined) after the session was attached.
\<close>

theorem session_resumed:
  assumes "\<not> established s" and "session_keepalive cfg ka = Inr k" and "resumable cfg e w sid"
    and "world_ok w" and "sess_view w sid = Some d"
  shows "\<exists>w' s' a. Session_start H cfg e sid ka w s =
      Some (case gc_divisor cfg of Inl err \<Rightarrow> Inl err | Inr dv \<Rightarrow> if dv = 0 then Inl Undefined else Inr sid, w', s')
    \<and> se_current s' = Some a \<and> umap_get (w_sessions w) sid = Some a
    \<and> w_heap w' a = d\<lparr>sd_expires := time_t_add (w_clock w (w_ticks w + 1)) k\<rparr>
    \<and> Session_getID s' = sid"
  using Session_start_resume [OF assms, of H] unfolding id_returned_def .

theorem session_resumed_witness:
  "\<exists>w' s' a. Session_start demo_hash demo_config (demo_env ''10.0.0.1'') ''abc'' (Some 60) demo_world Session_new
      = Some (Inr ''abc'', w', s')
    \<and> se_current s' = Some a \<and> umap_get (w_sessions demo_world) ''abc'' = Some a
    \<and> w_heap w' a = (w_heap demo_world 0)\<lparr>sd_expires := time_t_add (w_clock demo_world (w_ticks demo_world + 1)) 60\<rparr>
    \<and> Session_getID s' = ''abc''"
proof -
  have v: "sess_view demo_world ''abc'' = Some (w_heap demo_world 0)"
    by (simp add: sess_view_def demo_world_def umap_get_def)
  have n: "\<not> established Session_new" by (simp add: established_def Session_new_def)
  have k: "session_keepalive demo_config (Some 60) = Inr 60" by (simp add: session_keepalive_def)
  have r: "resumable demo_config (demo_env ''10.0.0.1'') demo_world ''abc''"
    unfolding resumable_def v by (simp add: demo_addr) (simp add: demo_world_def)
  have g: "gc_divisor demo_config = Inr 100" by (simp add: gc_divisor_def demo_config_get)
  from session_resumed [OF n k r world_ok_demo v, of demo_hash, unfolded g] show ?thesis by simp
qed

text \<open>
  C6: \<^verbatim>\<open>Session::start\<close> with any other ID (unknown, empty, expired, or sent from another address under IP validation), where some ID that the loop draws is unused, starts a new session: the call ends, the new data object is empty, belongs to the request's address and expires a keepalive after the reading of the clock, its ID is not one of the IDs in the store (except an entry that the lookup has just erased), and no data object of another session is changed. The new ID is returned, unless \<^verbatim>\<open>session/gc_divisor\<close> is a number \<^verbatim>\<open>stoul\<close> throws on or is zero.
\<close>

theorem session_replaced:
  assumes "\<not> established s" and "session_keepalive cfg ka = Inr k" and "\<not> resumable cfg e w sid"
    and "world_ok w" and "id_available H e (fst (start_lookup cfg e sid k w s))"
  shows "\<exists>w' s' sid'. Session_start H cfg e sid ka w s =
      Some (case gc_divisor cfg of Inl err \<Rightarrow> Inl err | Inr dv \<Rightarrow> if dv = 0 then Inl Undefined else Inr sid', w', s')
    \<and> se_current s' = Some (w_next w) \<and> Session_getID s' = sid'
    \<and> (umap_has (w_sessions w) sid' \<longrightarrow> sid' = sid \<and> erased_by_lookup cfg e w sid)
    \<and> (\<exists>n \<in> {w_ticks w, Suc (w_ticks w)}. w_heap w' (w_next w) = \<lparr>sd_data = [], sd_expires = time_t_add (w_clock w n) k,
          sd_sourceIP = Env_get e ''REMOTE_ADDR''\<rparr>)
    \<and> (\<forall>a. a \<noteq> w_next w \<longrightarrow> w_heap w' a = w_heap w a)"
  using Session_start_new [OF assms] unfolding id_returned_def .

theorem session_replaced_witness:
  "\<exists>w' s' sid'. Session_start demo_hash demo_config (demo_env ''10.6.6.6'') ''abc'' (Some 60) demo_world Session_new
      = Some (Inr sid', w', s')
    \<and> se_current s' = Some (w_next demo_world) \<and> Session_getID s' = sid'
    \<and> (umap_has (w_sessions demo_world) sid' \<longrightarrow>
         sid' = ''abc'' \<and> erased_by_lookup demo_config (demo_env ''10.6.6.6'') demo_world ''abc'')
    \<and> (\<exists>n \<in> {w_ticks demo_world, Suc (w_ticks demo_world)}. w_heap w' (w_next demo_world) = \<lparr>sd_data = [], sd_expires = time_t_add (w_clock demo_world n) 60,
          sd_sourceIP = Env_get (demo_env ''10.6.6.6'') ''REMOTE_ADDR''\<rparr>)
    \<and> (\<forall>a. a \<noteq> w_next demo_world \<longrightarrow> w_heap w' a = w_heap demo_world a)"
proof -
  have n: "\<not> established Session_new" by (simp add: established_def Session_new_def)
  have k: "session_keepalive demo_config (Some 60) = Inr 60" by (simp add: session_keepalive_def)
  have v: "sess_view demo_world ''abc'' = Some (w_heap demo_world 0)"
    by (simp add: sess_view_def demo_world_def umap_get_def)
  have r: "\<not> resumable demo_config (demo_env ''10.6.6.6'') demo_world ''abc''"
    unfolding resumable_def v by (simp add: demo_addr validates_ip_def demo_config_get) (simp add: demo_world_def)
  have g: "gc_divisor demo_config = Inr 100" by (simp add: gc_divisor_def demo_config_get)
  from session_replaced [OF n k r world_ok_demo id_available_demo, unfolded g] show ?thesis by simp
qed

text \<open>
  C7: The loop that draws session IDs ends as soon as some round draws an unused ID, and what it returns is an ID that is not in the store, computed from two draws of the random device and the address.
\<close>

theorem session_id_unused:
  assumes "\<not> umap_has (w_sessions w) (candidate H addr (w_random w) (w_draws w + 2 * n))"
  shows "\<exists>sid w'. pick_id H addr w = Some (sid, w') \<and> \<not> umap_has (w_sessions w) sid
    \<and> (\<exists>m. sid = sha1 H (dec (w_random w m) @ dec (w_random w (m + 1)) @ addr) True
          \<and> w' = w\<lparr>w_draws := m + 2\<rparr>)"
proof -
  obtain sid w' where p: "pick_id H addr w = Some (sid, w')" using pick_id_total [OF assms] by blast
  from pick_id_result [OF this] p show ?thesis by (auto simp: candidate_def)
qed

theorem session_id_unused_witness:
  "\<exists>sid w'. pick_id demo_hash ''10.0.0.1'' demo_world = Some (sid, w')
    \<and> \<not> umap_has (w_sessions demo_world) sid
    \<and> (\<exists>m. sid = sha1 demo_hash (dec (w_random demo_world m) @ dec (w_random demo_world (m + 1)) @ ''10.0.0.1'') True
          \<and> w' = demo_world\<lparr>w_draws := m + 2\<rparr>)"
  by (rule session_id_unused [where n = 0]) (rule candidate_unused_demo)

text \<open>
  C8: A value that is set is read by every handle of the same session, and only by them; without an established session \<^verbatim>\<open>set\<close> throws, changes nothing, and \<^verbatim>\<open>isSet\<close> is false.
\<close>

theorem session_data_shared_and_isolated:
  "(let (r, w') = Session_set key val w s in
      (if established s
       then r = Inr () \<and> Session_get w' s' = (if se_current s = se_current s'
              then (Session_get w s')(key \<mapsto> val) else Session_get w s')
       else r = Inl (NawaException 1 ''Session not established.'') \<and> w' = w \<and> \<not> Session_isSet w s key))"
proof (cases "established s")
  case True
  then have "fst (Session_set key val w s) = Inr ()" by (auto simp: Session_set_def established_def)
  with True Session_get_set [of key val w s s'] show ?thesis by (simp add: split_beta)
next
  case False
  with data_ops_error(1) [OF False, of key val w] data_ops_error(3) [OF False, of w key] show ?thesis
    by simp
qed

text \<open>
  C9: \<^verbatim>\<open>Session::invalidate\<close> removes exactly the current session from the store: its ID cannot be resumed any more under any configuration or address, every other session stays, the handle is no longer established, and the session cookie of the connection is to be unset.
\<close>

theorem invalidated_session_gone:
  assumes "world_ok w" and "established s" and "Session_invalidate w s = (w', s', c)"
  shows "\<not> resumable cfg e w' (se_currentID s)
    \<and> (\<forall>sid. sid \<noteq> se_currentID s \<longrightarrow> sess_view w' sid = sess_view w sid)
    \<and> \<not> established s' \<and> c = Some (se_cookieName s)"
  using Session_invalidate_view [OF assms] invalid_not_resumable [OF assms] by simp

theorem invalidated_session_gone_witness:
  "(let s = \<lparr>se_current = Some 0, se_currentID = ''abc'', se_cookieName = ''SESSION''\<rparr>;
        (w', s', c) = Session_invalidate demo_world s in
    \<not> resumable demo_config (demo_env ''10.0.0.1'') w' ''abc'' \<and> \<not> established s' \<and> c = Some ''SESSION'')"
proof -
  let ?s = "\<lparr>se_current = Some 0, se_currentID = ''abc'', se_cookieName = ''SESSION''\<rparr>"
  obtain w' s' c where iv: "Session_invalidate demo_world ?s = (w', s', c)" by (metis prod_cases3)
  from invalidated_session_gone [OF world_ok_demo _ iv, of demo_config "demo_env ''10.0.0.1''"]
  show ?thesis by (simp add: iv established_def)
qed



text \<open>
  C11: When the process was started by root, the application's \<^verbatim>\<open>init\<close> is called, its filters and configuration are installed and the server is started only after the identity of the configuration (file and command line) has been taken on: group list (unless the user or the group is root), group, user, in this order, all granted, with no privilege call before or after. What comes before is the opening of the application's library, whose static constructors therefore run as root, and the creation of the request handler.
\<close>

theorem privileges_dropped_before_application:
  assumes "run os pa sigs (nawarun_init g) = (x, st')" and "nr_uid os = 0"
    and "e \<in> set (nw_events st')" and "calls_app e"
  shows "\<exists>cfg d pre k post. effective_config os pa = Some cfg \<and> configured_identity os cfg d
    \<and> downgrade_granted os d \<and> nw_events st' = pre @ downgrade_calls d @ Init k # post
    \<and> Dlopen k (Config_get cfg (''application'', ''path'')) \<in> set pre \<and> Handler_created \<in> set pre
    \<and> list_all (\<lambda>e. \<not> is_privilege e \<and> \<not> calls_app e) pre \<and> list_all (\<lambda>e. \<not> is_privilege e) post"
  by (rule run_privileges [OF assms(1,2)]) (use assms(3,4) in \<open>auto simp: nawarun_init_def\<close>)

theorem privileges_dropped_before_application_witness:
  "\<exists>cfg d pre k post. effective_config demo_process demo_parameters = Some cfg
    \<and> configured_identity demo_process cfg d
    \<and> downgrade_granted demo_process d
    \<and> nw_events (snd (demo_run [Sig_shutdown ''SIGTERM'' True False])) = pre @ downgrade_calls d @ Init k # post
    \<and> Dlopen k (Config_get cfg (''application'', ''path'')) \<in> set pre \<and> Handler_created \<in> set pre
    \<and> list_all (\<lambda>e. \<not> is_privilege e \<and> \<not> calls_app e) pre \<and> list_all (\<lambda>e. \<not> is_privilege e) post"
proof -
  let ?sigs = "[Sig_shutdown ''SIGTERM'' True False]"
  have "run demo_process demo_parameters ?sigs (nawarun_init log_globals_init)
      = (fst (demo_run ?sigs), snd (demo_run ?sigs))"
    by (simp add: demo_run_def)
  moreover have "nr_uid demo_process = 0" by (simp add: demo_process_def)
  ultimately show ?thesis
    by (rule privileges_dropped_before_application [where e = Started]) (simp_all add: demo_run_served)
qed





text \<open>
  C14: The contact form example cannot be used to send other mail. When a request makes it call libcurl at all, the session of the request holds the number that the form carries and all fields are filled; and at most one email is transferred, from and to the two fixed addresses whatever was posted, with the credentials of the example's mailer and encryption required.
\<close>

theorem contact_form_sends_safely:
  assumes "contactform_handleRequest env c w g = Some (r, c', w', g', calls)" and "calls \<noteq> []"
  shows "(\<exists>c1 w1 n. startSession (ce_hash env) Cookie_default (contact_policy c) w = Some (Inr (), c1, w1)
      \<and> Session_get w1 (cn_session c1) ''randVal'' = Some (AnyOther n)
      \<and> stoul 10 (GPC_get (contact_post c) ''rand_val'') = Inr n \<and> all_filled (contact_post c))
    \<and> (transfers fresh_handle calls = [] \<or> (\<exists>payload. transfers fresh_handle calls =
         [delivery contact_mailer (''<contactform@example.com>'', [''<admin@example.com>''], payload)]))
    \<and> (\<forall>payload. ch_ssl (delivery contact_mailer payload) = Some USESSL_ALL
         \<and> ch_url (delivery contact_mailer payload) = Some ''smtp://example.com:587''
         \<and> ch_verify_peer (delivery contact_mailer payload) \<and> ch_verify_host (delivery contact_mailer payload))"
  using contactform_sends [OF assms] contact_mailer_options by blast

theorem contact_form_sends_safely_witness:
  "\<exists>calls c1 w1 n. startSession demo_hash Cookie_default (contact_policy demo_returning) demo_numbered = Some (Inr (), c1, w1)
     \<and> Session_get w1 (cn_session c1) ''randVal'' = Some (AnyOther n)
     \<and> stoul 10 (GPC_get (contact_post demo_returning) ''rand_val'') = Inr n \<and> calls \<noteq> []
     \<and> (transfers fresh_handle calls = [] \<or> (\<exists>payload. transfers fresh_handle calls =
         [delivery contact_mailer (''<contactform@example.com>'', [''<admin@example.com>''], payload)]))"
proof -
  from demo_second_visit obtain r c' w' g' calls where
    "contactform_handleRequest demo_contact demo_returning demo_numbered log_globals_init = Some (r, c', w', g', calls)"
    "calls \<noteq> []" by blast
  from contact_form_sends_safely [OF this] this(2) show ?thesis
    by (simp add: demo_contact_def) blast
qed



text \<open>
  C16: An address is valid exactly if, its domain converted, it is a local part and a domain of the permitted characters around one \<^verbatim>\<open>@\<close>. What a valid address becomes in a mail command or header is one bracketed address without line breaks, spaces, brackets, commas, semicolons or quotes: it cannot add a recipient, a header or a command.
\<close>

theorem valid_address_cannot_inject:
  "(EmailAddress_isValid a = Inr True \<longleftrightarrow>
      (\<exists>l d. applyPunycodeToDomain (ea_address a) = Inr (l @ ''@'' @ d)
         \<and> l \<noteq> [] \<and> d \<noteq> [] \<and> list_all in_local l \<and> list_all in_domain d))
    \<and> (EmailAddress_isValid a = Inr True \<longrightarrow>
      (\<exists>l d. applyPunycodeToDomain (ea_address a) = Inr (l @ ''@'' @ d)
         \<and> EmailAddress_get a False True = Inr (''<'' @ (l @ ''@'' @ d) @ ''>'')
         \<and> CHR ''@'' \<notin> set (l @ d)
         \<and> set (l @ ''@'' @ d) \<inter> {CR, LF, CHR '' '', CHR ''<'', CHR ''>'', CHR '','', CHR '';'', DQUOTE} = {}))"
proof (intro conjI impI)
  show "EmailAddress_isValid a = Inr True \<longleftrightarrow>
      (\<exists>l d. applyPunycodeToDomain (ea_address a) = Inr (l @ ''@'' @ d)
         \<and> l \<noteq> [] \<and> d \<noteq> [] \<and> list_all in_local l \<and> list_all in_domain d)"
    unfolding isValid_iff by simp
  assume "EmailAddress_isValid a = Inr True"
  from valid_get [OF this] obtain l d where ld: "EmailAddress_get a False True = Inr (''<'' @ (l @ ''@'' @ d) @ ''>'')"
    "list_all in_local l" "list_all in_domain d"
    "set (l @ ''@'' @ d) \<inter> {CR, LF, CHR '' '', CHR ''<'', CHR ''>'', CHR '','', CHR '';'', DQUOTE} = {}" by blast
  from ld(1) have "applyPunycodeToDomain (ea_address a) = Inr (l @ ''@'' @ d)"
    by (cases "applyPunycodeToDomain (ea_address a)") (auto simp: EmailAddress_get_def)
  moreover have "CHR ''@'' \<notin> set (l @ d)" using ld(2,3) at_not_permitted by (auto simp: list_all_iff)
  ultimately show "\<exists>l d. applyPunycodeToDomain (ea_address a) = Inr (l @ ''@'' @ d)
         \<and> EmailAddress_get a False True = Inr (''<'' @ (l @ ''@'' @ d) @ ''>'')
         \<and> CHR ''@'' \<notin> set (l @ d)
         \<and> set (l @ ''@'' @ d) \<inter> {CR, LF, CHR '' '', CHR ''<'', CHR ''>'', CHR '','', CHR '';'', DQUOTE} = {}"
    using ld by blast
qed

theorem valid_address_cannot_inject_witness:
  "EmailAddress_isValid demo_address = Inr True
     \<and> (\<exists>l d. EmailAddress_get demo_address False True = Inr (''<'' @ (l @ ''@'' @ d) @ ''>'') \<and> CHR ''@'' \<notin> set (l @ d))"
  using valid_address_cannot_inject [THEN conjunct2, THEN mp, OF demo_address_valid] demo_address_valid by blast

text \<open>
  C17: Given a library that writes Argon2 hashes in their documented form: what \<^verbatim>\<open>passwordHash\<close> returned for a password is recognised by the default table whatever the parameters, the password verifies against it, and another one verifies exactly if the library computes the same raw hash for it, under the parameters and the salt that the hash was made with.
\<close>

theorem password_verification_exact:
  assumes "argon2_documented L raw" and "params_ok (ae_params e)" and "0 < ae_hashLen e"
    and "passwordHash L password (Engine_argon2 e) = Inr hash"
  shows "passwordVerify L password hash DefaultHashTypeTable = Inr True
    \<and> passwordVerify L guess hash DefaultHashTypeTable =
        Inr (fst (hl_argon2 L (ae_params e) guess (actual_salt L e) (ae_hashLen e)
                 (encoded_ceil (length (actual_salt L e)) (ae_hashLen e))) = 0
             \<and> raw (ae_params e) guess (actual_salt L e) (ae_hashLen e) =
                 raw (ae_params e) password (actual_salt L e) (ae_hashLen e))"
  using password_argon2_accepts [OF assms] password_argon2 [OF assms, of guess] by simp

theorem password_verification_exact_witness:
  "\<exists>hash. passwordHash demo_libs ''secret'' (Engine_argon2 demo_engine) = Inr hash
    \<and> passwordVerify demo_libs ''secret'' hash DefaultHashTypeTable = Inr True
    \<and> passwordVerify demo_libs ''public'' hash DefaultHashTypeTable = Inr False"
proof -
  obtain hash where h: "passwordHash demo_libs ''secret'' (Engine_argon2 demo_engine) = Inr hash"
    by (simp add: passwordHash_def generateHash_def Argon2_generateHash_def demo_engine_def demo_libs_def Let_def)
  have "params_ok (ae_params demo_engine)" "0 < ae_hashLen demo_engine"
    by (simp_all add: params_ok_def demo_engine_def)
  from password_verification_exact [OF demo_documented this h, of "''public''"] h show ?thesis
    by (simp add: demo_raw_def demo_engine_def)
qed

text \<open>
  C18: With the vendored libbcrypt in place, and whatever the salt: if \<^verbatim>\<open>passwordHash\<close> returns a hash, the password verifies against it through the default table, and another password verifies exactly if hashing it with the same salt, whose last bits the hash does not keep, gives this hash.
\<close>

theorem bcrypt_verification_exact:
  "case passwordHash (with_bcrypt L) password (Engine_bcrypt e) of
     Inl x \<Rightarrow> True
   | Inr hash \<Rightarrow> length hash = 60
       \<and> passwordVerify (with_bcrypt L) password hash DefaultHashTypeTable = Inr True
       \<and> passwordVerify (with_bcrypt L) guess hash DefaultHashTypeTable =
           Inr (bcrypt_hashpw (c_string guess) (snd (hl_gensalt L (be_workFactor e))) [] = (0, hash))"
proof (cases "passwordHash (with_bcrypt L) password (Engine_bcrypt e)")
  case (Inr hash)
  from password_bcrypt [OF this] Inr show ?thesis by simp
qed simp

text \<open>
  C19: A salt that \<^verbatim>\<open>bcrypt_gensalt\<close> generated, for any work factor and however the random device splits or interrupts its reads, is a setting that the cipher accepts: it stands for 2 to the work factor (12 when it is out of range) rounds and decodes to the 16 random bytes that were read.
\<close>

theorem bcrypt_salt_accepted:
  "case bcrypt_gensalt factor ur of
     Some (rc, Some salt) \<Rightarrow> rc = 0 \<and> setting_ok salt
       \<and> setting_count salt = 2 ^ (if factor < 4 \<or> 31 < factor then 12 else nat factor)
       \<and> (\<exists>bytes. try_read (ur_reads ur) 16 = Some (Some bytes) \<and> length bytes = 16
            \<and> BF_decode (drop 7 salt) 16 = Some (map of_char bytes))
       \<and> (\<exists>t. BF_crypt password salt BCRYPT_HASHSIZE 16 = Some t)
   | _ \<Rightarrow> True"
proof (cases "\<exists>rc salt. bcrypt_gensalt factor ur = Some (rc, Some salt)")
  case True
  let ?w = "if factor < 4 \<or> 31 < factor then 12 else nat factor"
  from True obtain rc salt where g: "bcrypt_gensalt factor ur = Some (rc, Some salt)" by blast
  from gensalt_text [OF g] obtain bytes where s: "rc = 0" "try_read (ur_reads ur) 16 = Some (Some bytes)"
    "salt = salt_text ?w (map of_char bytes)" by blast
  have w: "4 \<le> ?w" "?w \<le> 31" by auto
  have len: "length bytes = 16" by (rule length_try_read [OF s(2)])
  have "list_all (\<lambda>b. b < 256) (map of_char bytes :: nat list)" by (simp add: list_all_iff)
  from salt_text_accepted [OF w _ this, of password] g s len show ?thesis
    by (simp add: BCRYPT_HASHSIZE_def)
qed (auto split: option.split)

text \<open>
  C20: The key schedule equals its reference: the words are the bytes of the password and its null character, repeated; the flag of \<^verbatim>\<open>$2x$\<close> sign-extends them; the safety measure of \<^verbatim>\<open>$2a$\<close> flips bit 16 of the first subkey exactly when some byte after the first of its word has its high bit set and still the correct and the buggy words agree. Only the first 72 bytes of a password count.
\<close>

theorem bcrypt_key_schedule:
  assumes "CHR 0x00 \<notin> set (key @ rest)" and "flags \<in> {1, 2, 4}"
  shows "BF_set_key key flags = reference_key (flags = 1) (flags = 2) key
    \<and> (length key = 72 \<longrightarrow> BF_set_key (key @ rest) flags = BF_set_key key flags)"
  using BF_set_key_reference [of key flags] BF_set_key_72 [of key rest flags] assms by auto

theorem bcrypt_key_schedule_witness:
  "BF_set_key ''U*U'' 2 = reference_key False True ''U*U''"
  using bcrypt_key_schedule [of "''U*U''" "[]" 2] by simp

text \<open>
  C21: What the encoder writes is text for HTML whatever the input: no markup character is left, every ampersand starts one of the four entities, and different inputs give different outputs.
\<close>

theorem html_output_inert:
  assumes "boost_ok B"
  shows "set (htmlEncode B s) \<inter> {CHR ''<'', CHR ''>'', DQUOTE} = {} \<and> amps_ok (htmlEncode B s)
    \<and> (htmlEncode B s = htmlEncode B t \<longleftrightarrow> s = t)"
proof -
  have "set (htmlEncode B s) \<inter> {CHR ''<'', CHR ''>'', DQUOTE} = {}"
    using html_char_no_markup unfolding htmlEncode_chars [OF assms] by fastforce
  then show ?thesis using amps_ok_encoded html_chars_inj by (auto simp: htmlEncode_chars [OF assms])
qed

theorem html_output_inert_witness:
  "amps_ok (htmlEncode boost_ref ''<a & b>'') \<and> CHR ''<'' \<notin> set (htmlEncode boost_ref ''<a & b>'')"
  using html_output_inert [OF boost_ref_ok, of "''<a & b>''"] by blast

text \<open>
  C22: Encoding a domain name and decoding it gives the name back: for labels in UTF-8 of less than 2147483647 code points that are ASCII without the prefix \<^verbatim>\<open>xn--\<close>, or whose encoding is shorter than the buffer of four bytes for each of their bytes.
\<close>

theorem domain_name_round_trip:
  assumes "list_all label_ok ls"
  shows "bind_result (punycodeEncode (join_sep (CHR ''.'') ls)) punycodeDecode = Inr (join_sep (CHR ''.'') ls)"
  by (rule punycodeDecode_punycodeEncode [OF assms])

theorem domain_name_round_trip_witness:
  "bind_result (punycodeEncode (CHR 0xC3 # CHR 0xA9 # ''.fr'')) punycodeDecode = Inr (CHR 0xC3 # CHR 0xA9 # ''.fr'')"
proof -
  have "from_bytes ''fr'' = Inr [102, 114]" "ascii ''fr''" by code_simp+
  then have "list_all label_ok [[CHR 0xC3, CHR 0xA9], ''fr'']" using demo_label by (simp add: label_ok_def)
  then show ?thesis using domain_name_round_trip [of "[[CHR 0xC3, CHR 0xA9], ''fr'']"] by simp
qed

text \<open>
  C23: With all entities requested, the encoder with its pending character equals a reference definition: decode UTF-8, replace each code point by its entity, or, where a code point only has an entity together with its successor, both by that entity, and write UTF-8. Text that is no UTF-8 is rejected as a whole.
\<close>

theorem html_entities_reference:
  "encoding_htmlEncode B s True =
     bind_result (from_bytes s) (\<lambda>cs. to_bytes (html_ref htmlEntities htmlLookaheads cs))"
  by (simp add: encoding_htmlEncode_def htmlEncode_all_ref)

text \<open>
  C24: No request header can replace a variable of the server. With the HTTP server, the remote address and port, the request URI and method and the server's address and port are those of the connection, whatever headers are sent; a header is found under its lower-case name, whatever the case it was sent in, and of several headers of one name the first counts. With FastCGI, a variable of the server (a name with an upper-case letter that does not start with \<^verbatim>\<open>HTTP_\<close>, other than the URLs that nawa adds) is the parameter of that name: headers arrive as \<^verbatim>\<open>HTTP_\<close> parameters and are stored under lower-case names.
\<close>

theorem server_variables_trusted:
  "(let e = http_environment cfg req in
     Env_get e ''REMOTE_ADDR'' = substr_to (hq_source req) (find_char (CHR '':'') (hq_source req))
     \<and> Env_get e ''REMOTE_PORT'' = dec (hq_source_port req)
     \<and> Env_get e ''REQUEST_URI'' = hq_destination req \<and> Env_get e ''REQUEST_METHOD'' = hq_method req
     \<and> Env_get e ''SERVER_ADDR'' = getListenAddr cfg \<and> Env_get e ''SERVER_PORT'' = getListenPort cfg
     \<and> Env_get e (toLowercase n) =
         (case map_of (map (\<lambda>(k, v). (toLowercase k, v)) (hq_headers req)) (toLowercase n) of
            Some v \<Rightarrow> v | None \<Rightarrow> []))
   \<and> (is_upper c \<and> c \<in> set k \<and> take 5 k \<noteq> ''HTTP_''
       \<and> k \<notin> {''BASE_URL'', ''FULL_URL_WITH_QS'', ''FULL_URL_WITHOUT_QS''}
      \<longrightarrow> Env_get (fcgi_environment fe) k = renvp fe k)"
proof -
  have "Env_get (http_environment cfg req) k = v" if "map_of (server_vars cfg req) k = Some v" for k v
    using that http_environment_server [of k cfg req] by (force simp: Env_get_def dest: map_of_SomeD)
  then show ?thesis
    using http_environment_header [of cfg req n] fcgi_environment_trusted [of c k fe]
    by (simp add: Let_def server_vars_def header_vars_def)
qed

theorem server_variables_trusted_witness:
  "Env_get (fcgi_environment \<lparr>fe_parameters = [(''HTTP_REMOTE_ADDR'', ''127.0.0.1''), (''REMOTE_ADDR'', ''10.0.0.1'')],
     fe_gets = [], fe_posts = [], fe_cookies = [], fe_contentType = [], fe_files = [], fe_postBuffer = []\<rparr>)
     ''REMOTE_ADDR'' = ''10.0.0.1''"
  by (subst server_variables_trusted [THEN conjunct2, rule_format, of "CHR ''R''"])
    (simp_all add: is_upper_def less_eq_char_def renvp_def umap_get_def)

text \<open>
  C25: When the HTTP handler handles a POST request, the body it works on is exactly the pieces read so far, in order; it has at least the announced length, and it is no longer than the configured limit.
\<close>

theorem post_body_complete_and_bounded:
  assumes "consume B evs inp = Handle r" and "0 \<le> pi_maxPostSize inp" and "pi_maxPostSize inp < 2 ^ 63"
  shows "\<exists>used rest. evs = map Input_data used @ rest
    \<and> r = post_init B (inp\<lparr>pi_postBody := pi_postBody inp @ concat used\<rparr>)
    \<and> pi_expectedSize inp \<le> length (pi_postBody inp @ concat used)
    \<and> int (length (pi_postBody inp @ concat used)) \<le> pi_maxPostSize inp"
proof -
  obtain used rest where u: "evs = map Input_data used @ rest"
    "r = post_init B (inp\<lparr>pi_postBody := pi_postBody inp @ concat used\<rparr>)"
    "pi_expectedSize inp \<le> length (pi_postBody inp @ concat used)"
    "\<not> size_greater (length (pi_postBody inp @ concat used)) (pi_maxPostSize inp)"
    using consume_handle [OF assms(1)] by blast
  from u(4) assms(2,3) have "int (length (pi_postBody inp @ concat used)) \<le> pi_maxPostSize inp"
    by (simp add: size_greater_iff)
  with u(1-3) show ?thesis by blast
qed

theorem post_body_complete_and_bounded_witness:
  "\<exists>r used rest. map Input_data [''a='', ''1''] = map Input_data used @ rest
    \<and> r = post_init boost_ref (demo_input\<lparr>pi_postBody := pi_postBody demo_input @ concat used\<rparr>)
    \<and> pi_expectedSize demo_input \<le> length (pi_postBody demo_input @ concat used)
    \<and> int (length (pi_postBody demo_input @ concat used)) \<le> pi_maxPostSize demo_input"
  using post_body_complete_and_bounded [OF demo_consume] by (auto simp: demo_input_def)

text \<open>
  C26: How a POST body of the announced length is cut into pieces does not matter: every sequence of non-empty pieces within the limit leads to the same request, the one for the whole body.
\<close>

theorem post_independent_of_pieces:
  assumes "length (pi_postBody inp @ concat xs) = pi_expectedSize inp" and "xs \<noteq> []" and "[] \<notin> set xs"
    and "int (pi_expectedSize inp) \<le> pi_maxPostSize inp" and "pi_maxPostSize inp < 2 ^ 63"
  shows "consume B (map Input_data xs @ rest) inp =
    Handle (post_init B (inp\<lparr>pi_postBody := pi_postBody inp @ concat xs\<rparr>))"
proof (rule consume_pieces)
  show "\<forall>x \<in> set xs. x \<noteq> []" using assms(3) by auto
  show "\<not> size_greater (pi_expectedSize inp) (pi_maxPostSize inp)"
    using assms(4,5) by (simp add: size_greater_iff)
qed (rule assms)+

theorem post_independent_of_pieces_witness:
  "consume boost_ref (map Input_data [''a'', ''='', ''1''] @ []) demo_input =
    Handle (post_init boost_ref (demo_input\<lparr>pi_postBody := ''a=1''\<rparr>))"
  by (subst post_independent_of_pieces) (simp_all add: demo_input_def)

text \<open>
  C27: The length of a POST body is checked before anything is read, if the request has a content-length header. Where that exceeds the limit (\<^verbatim>\<open>post/max_size\<close> times 1024, not negative and below 2 to the 63), the request is answered with the server error page at once: the application is not run and the session world is unchanged. Where the content-length or \<^verbatim>\<open>post/max_size\<close> is no number (or out of range), the request is never answered: the exception is swallowed. A request without that header, and one that is not POST, is served whatever the limit is set to.
\<close>

theorem post_length_checked:
  assumes "http_init B cfg req = Inr ri"
  shows "(hq_method req = ''POST'' \<and> umap_has (ri_environment ri) ''content-length'' \<longrightarrow>
      (stoul 10 (Env_get (ri_environment ri) ''content-length'') = Inr n
        \<and> stol 10 (Config_get cfg (''post'', ''max_size'')) = Inr kb
        \<and> 0 \<le> kb \<and> kb * 1024 < 2 ^ 63 \<and> kb * 1024 < int n
        \<longrightarrow> http_exchange H B os rh cfg req evs w = Some (Reply500, w))
      \<and> (stoul 10 (Env_get (ri_environment ri) ''content-length'') = Inl e
         \<or> stol 10 (Config_get cfg (''post'', ''max_size'')) = Inl e
        \<longrightarrow> http_exchange H B os rh cfg req evs w = Some (NoReply, w)))
    \<and> (\<not> (hq_method req = ''POST'' \<and> umap_has (ri_environment ri) ''content-length'') \<longrightarrow>
      http_exchange H B os rh cfg req evs w = http_reply_of (serve H os rh ri cfg w))"
proof (intro conjI impI; (elim conjE)?)
  assume post: "hq_method req = ''POST''" "umap_has (ri_environment ri) ''content-length''"
    and n: "stoul 10 (Env_get (ri_environment ri) ''content-length'') = Inr n"
    and kb: "stol 10 (Config_get cfg (''post'', ''max_size'')) = Inr kb" "0 \<le> kb" "kb * 1024 < 2 ^ 63" "kb * 1024 < int n"
  then have "size_greater n (kb * 1024)" by (simp add: size_greater_iff)
  then have "http_start B cfg req = HttpError" using assms post n kb by (simp add: http_start_def)
  then show "http_exchange H B os rh cfg req evs w = Some (Reply500, w)" by (simp add: http_exchange_def)
next
  assume post: "hq_method req = ''POST''" "umap_has (ri_environment ri) ''content-length''"
    and "stoul 10 (Env_get (ri_environment ri) ''content-length'') = Inl e
       \<or> stol 10 (Config_get cfg (''post'', ''max_size'')) = Inl e"
  then have "http_start B cfg req = HttpNothing"
    using assms by (cases "stoul 10 (Env_get (ri_environment ri) ''content-length'')") (auto simp: http_start_def)
  then show "http_exchange H B os rh cfg req evs w = Some (NoReply, w)" by (simp add: http_exchange_def)
next
  assume "\<not> (hq_method req = ''POST'' \<and> umap_has (ri_environment ri) ''content-length'')"
  then have "http_start B cfg req = HttpServe ri" using assms by (auto simp: http_start_def)
  then show "http_exchange H B os rh cfg req evs w = http_reply_of (serve H os rh ri cfg w)"
    by (simp add: http_exchange_def)
qed

theorem post_length_checked_witness:
  "http_exchange demo_hash boost_ref demo_os demo_handler [((''post'', ''max_size''), ''0'')] demo_post [] demo_world
     = Some (Reply500, demo_world)
   \<and> http_exchange demo_hash boost_ref demo_os demo_handler Config_new demo_post [Input_data ''a=1''] demo_world
     = Some (NoReply, demo_world)"
proof
  have post: "hq_method demo_post = ''POST''" by (simp add: demo_post_def)
  let ?cfg = "[((''post'', ''max_size''), ''0'')]"
  obtain ri where ri: "http_init boost_ref ?cfg demo_post = Inr ri" "umap_has (ri_environment ri) ''content-length''"
    "Env_get (ri_environment ri) ''content-length'' = ''7''" using demo_post_init by blast
  show "http_exchange demo_hash boost_ref demo_os demo_handler ?cfg demo_post [] demo_world = Some (Reply500, demo_world)"
    by (rule post_length_checked [OF ri(1), THEN conjunct1, THEN mp, OF conjI [OF post ri(2)], THEN conjunct1, THEN mp, of 7 0])
      (simp add: ri(3) demo_numbers Config_get_def umap_get_def)
  obtain ri' where ri': "http_init boost_ref Config_new demo_post = Inr ri'"
    "umap_has (ri_environment ri') ''content-length''" using demo_post_init by blast
  show "http_exchange demo_hash boost_ref demo_os demo_handler Config_new demo_post [Input_data ''a=1''] demo_world
     = Some (NoReply, demo_world)"
    by (rule post_length_checked [OF ri'(1), THEN conjunct1, THEN mp, OF conjI [OF post ri'(2)], THEN conjunct2, THEN mp,
          of InvalidArgument])
      (simp add: demo_numbers Config_get_def Config_new_def)
qed

text \<open>
  C28: Whatever the application writes to the response stream, and however often it flushes in between, the bodies handed to the flush callback are, in order, exactly what it wrote: nothing is lost, sent twice or left over.
\<close>

theorem response_delivered_once:
  "(let c = flushResponse (fold run_op ops (Connection_data requestInit cfg)) in
     concat (map fc_body (cn_flushed c)) = written ops \<and> fst (getResponseBody c) = [])"
proof -
  let ?c = "Connection_data requestInit cfg"
  have "sent_bodies (fold run_op (ops @ [Flush]) ?c) @ pending (fold run_op (ops @ [Flush]) ?c)
      = written (ops @ [Flush])"
    using writes_delivered [of "ops @ [Flush]" ?c] by (simp add: Connection_data_def)
  moreover have "written (ops @ [Flush]) = written ops" by (induction ops rule: written.induct) simp_all
  ultimately show ?thesis
    by (simp add: flushResponse_simps Let_def getResponseBody_def mergeStream_def clearStream_def)
qed

text \<open>
  C29: What the FastCGI handler dumps for a request, over all flushes, is one status line, one block of headers (those at the first flush), an empty line, and then everything the application wrote.
\<close>

theorem fcgi_output_well_formed:
  "(let c = flushResponse (fold run_op ops (Connection_data requestInit cfg)); f = hd (cn_flushed c) in
     concat (map fcgi_dump (cn_flushed c)) =
       ''status: '' @ getStatusString f @ CRLF
       @ concat (map (\<lambda>(k, v). k @ '': '' @ v @ CRLF) (fc_headers f)) @ CRLF @ written ops)"
proof -
  let ?c = "Connection_data requestInit cfg"
  let ?d = "fold run_op (ops @ [Flush]) ?c"
  have "flags_ok ?d" by (rule flags_ok_run) (simp add: flags_ok_def Connection_data_def)
  moreover obtain f fs where f: "cn_flushed ?d = f # fs"
    by (cases "cn_flushed ?d") (simp_all add: flushResponse_simps)
  ultimately have "concat (map fcgi_dump (cn_flushed ?d)) = ''status: '' @ getStatusString f @ CRLF
      @ concat (map (\<lambda>(k, v). k @ '': '' @ v @ CRLF) (fc_headers f)) @ CRLF @ sent_bodies ?d"
    by (rule fcgi_dump_all)
  moreover have "sent_bodies ?d @ pending ?d = written (ops @ [Flush])"
    using writes_delivered [of "ops @ [Flush]" ?c] by (simp add: Connection_data_def)
  moreover have "written (ops @ [Flush]) = written ops" by (induction ops rule: written.induct) simp_all
  moreover have "pending ?d = []" by (simp add: flushResponse_simps)
  moreover have "flushResponse (fold run_op ops ?c) = ?d" by simp
  ultimately show ?thesis using f by (metis append_Nil2 list.sel(1))
qed

text \<open>
  C30: A cookie is accepted exactly when its name and its content consist of the permitted characters, and then neither contains a line break, a semicolon, a space, a comma or a quote: a cookie can neither end its header nor add an attribute. A cookie that is not accepted changes nothing.
\<close>

theorem cookies_cannot_split_headers:
  "(case setCookie key ck c of
      (Inr _, c') \<Rightarrow> list_all key_char key \<and> list_all content_char (ck_content ck)
        \<and> set (key @ ck_content ck) \<inter> {CR, LF, CHR '';'', CHR '' '', CHR '','', DQUOTE} = {}
        \<and> umap_get (cn_cookies c') key = Some ck
    | (Inl _, c') \<Rightarrow> \<not> (list_all key_char key \<and> list_all content_char (ck_content ck)) \<and> c' = c)"
proof (cases "fst (setCookie key ck c)")
  case (Inl e)
  then have "snd (setCookie key ck c) = c" by (rule setCookie_error)
  with Inl setCookie_iff [of key ck c] show ?thesis by (cases "setCookie key ck c") simp
next
  case (Inr u)
  then have i: "fst (setCookie key ck c) = Inr ()" by simp
  then have ok: "list_all key_char key" "list_all content_char (ck_content ck)" by (simp_all add: setCookie_iff)
  then have "set (key @ ck_content ck) \<inter> {CR, LF, CHR '';'', CHR '' '', CHR '','', DQUOTE} = {}"
    using cookie_chars_safe unfolding list_all_iff by fastforce
  moreover have "umap_get (cn_cookies (snd (setCookie key ck c))) key = Some ck"
    using i by (auto simp: setCookie_def um.get_put split: if_splits)
  ultimately show ?thesis using ok Inr by (cases "setCookie key ck c") simp
qed

text \<open>
  C31: After any sequence of start (with any number of threads granted), stop, terminate and join on the HTTP server, and its destruction, every thread that was created has been joined, exactly once.
\<close>

theorem threads_joined_once:
  assumes "HttpRequestHandler_new listening n = Inr st"
  shows "all_joined (hs_calls (Http_destroy (fold Http_op ops st)))"
  by (rule httpd.destroyed_joined [OF http_new_ok [OF assms]])

theorem threads_joined_once_witness:
  "all_joined (hs_calls (Http_destroy (fold Http_op [Op_start 3, Op_stop, Op_join, Op_start 1]
     (projr (HttpRequestHandler_new True 2)))))"
  by (rule threads_joined_once [where listening = True and n = 2]) (simp add: HttpRequestHandler_new_def)


text \<open>
  C33: The Base64 encoder is the encoding of RFC 4648 (groups of three bytes, padded), the decoder gives every byte string back, also when the encoder broke the lines with white space, and the output is accepted by \<^verbatim>\<open>isBase64\<close> exactly when the input is not empty.
\<close>

theorem base64_round_trip:
  assumes "breakAfter = 0 \<or> list_all is_whitespace breakSequence"
  shows "base64Decode (base64Encode s breakAfter breakSequence) = s
    \<and> base64Encode s 0 breakSequence = b64_ref s
    \<and> isBase64 (base64Encode s 0 breakSequence) ws = (s \<noteq> [])"
  using assms by (intro conjI base64_roundtrip base64Encode_ref isBase64_encoded) (simp add: blank_break_def)

theorem base64_round_trip_witness:
  "base64Decode (base64Encode ''nawa rules'' 4 CRLF) = ''nawa rules''"
  using base64_round_trip [of 4 CRLF "''nawa rules''" True]
  by (simp add: CRLF_def CR_def LF_def is_whitespace_def)

text \<open>
  C34: URL encoding leaves only unreserved characters, percent signs and hexadecimal digits, so that an encoded value never holds a character with a meaning in a query string, and decoding gives every byte string back. Decoding any text never throws and replaces exactly the percent signs followed by two upper-case hexadecimal digits, from left to right.
\<close>

theorem url_round_trip:
  "urlDecode (urlEncode s) = Inr s
    \<and> set (urlEncode s) \<subseteq> set ''ABCDEFGHIJKLMNOPQRSTUVWXYZabcdefghijklmnopqrstuvwxyz0123456789-_.~%''
    \<and> set (urlEncode s) \<inter> {CHR ''&'', CHR ''='', CHR ''?'', CHR '' '', CHR ''#'', CHR ''+'', CHR '';'', CHR ''/''} = {}
    \<and> urlDecode t = Inr (url_scan t)"
  using urlEncode_chars [of s] urlDecode_urlEncode urlDecode_scan by auto

text \<open>
  C35: Quoted-printable text is decoded to exactly the bytes that were encoded, with CRLF or LF line endings, no line of it is longer than 76 characters, and the variant for encoded words (the Q encoding) gives its input back as well.
\<close>

theorem quoted_printable_round_trip:
  assumes "lineEnding = CRLF \<or> lineEnding = [LF]"
  shows "quotedPrintableDecode (quotedPrintableEncode s lineEnding replaceCrlf False) False = Inr s
    \<and> longest_run 0 (quotedPrintableEncode s lineEnding replaceCrlf False) \<le> 76
    \<and> quotedPrintableDecode (quotedPrintableEncode s lineEnding' replaceCrlf True) True = Inr s"
  using quotedPrintable_roundtrip [OF assms] qEncoding_roundtrip qp_loop_run [OF assms, of 0]
  by (simp add: quotedPrintableEncode_def)

theorem quoted_printable_round_trip_witness:
  "quotedPrintableDecode (quotedPrintableEncode ''a=b'' CRLF False False) False = Inr ''a=b''
    \<and> longest_run 0 (quotedPrintableEncode ''a=b'' CRLF False False) \<le> 76"
  using quoted_printable_round_trip [of CRLF "''a=b''" False "[]"] by simp

text \<open>
  C36: A query string, or a form body, that a client writes from names and values (the values URL encoded), with or without a path in front of it, is read back to a multimap with exactly these entries, each as often as it was written, provided the names contain none of the separators; for each name it holds exactly the values that were written for it (in which order, the standard leaves open), and just the one value where the names are distinct.
\<close>

theorem query_string_read:
  assumes "list_all (\<lambda>(k, v). set k \<inter> {CHR ''&'', CHR ''='', CHR ''?''} = {}) kvs"
    and "pre = [] \<or> (\<exists>path. CHR ''?'' \<notin> set path \<and> pre = path @ ''?'')"
  shows "\<exists>mm. splitQueryString (pre @ query_text kvs) = Inr mm
    \<and> (\<forall>k v. count_list mm (k, v) = count_list kvs (k, v))
    \<and> (\<forall>k v. count_list (ummap_range mm k) v = count_list kvs (k, v))
    \<and> (distinct (map fst kvs) \<longrightarrow> (\<forall>(k, v) \<in> set kvs. ummap_range mm k = [v]))"
proof -
  have "\<exists>mm. splitQueryString (pre @ query_text kvs) = Inr mm \<and> (\<forall>e. count_list mm e = count_list kvs e)"
    by (rule splitQueryString_text [OF _ assms(2)]) (use assms(1) in \<open>fastforce simp: list_all_iff\<close>)
  then obtain mm where
    mm: "splitQueryString (pre @ query_text kvs) = Inr mm" "\<And>e. count_list mm e = count_list kvs e" by blast
  from ummap_range_unique [OF mm(2)] have "distinct (map fst kvs) \<longrightarrow> (\<forall>(k, v) \<in> set kvs. ummap_range mm k = [v])"
    by blast
  with mm show ?thesis by (simp add: ummap_range_entries)
qed

theorem query_string_read_witness:
  "\<exists>mm. splitQueryString (''/search?'' @ query_text [(''q'', ''a&b=c''), (''page'', ''2'')]) = Inr mm
     \<and> ummap_range mm ''q'' = [''a&b=c''] \<and> ummap_range mm ''page'' = [''2'']"
proof -
  have "list_all (\<lambda>(k, v). set k \<inter> {CHR ''&'', CHR ''='', CHR ''?''} = {}) [(''q'', ''a&b=c''), (''page'', ''2'')]" by simp
  moreover have "''/search?'' = [] \<or> (\<exists>path. CHR ''?'' \<notin> set path \<and> ''/search?'' = path @ ''?'')"
    by (intro disjI2 exI [of _ "''/search''"]) simp
  ultimately show ?thesis by (rule query_string_read [THEN exE]) auto
qed

text \<open>
  C37: A configuration file that is written plainly, for every setting a line with the section in brackets and a line with key, equals sign and value, is read to exactly these settings, added to those that are set already. The conditions (\<open>ini_entry_ok\<close>): no semicolon, line feed or null character; a section without closing bracket, of at most 49 characters; a key that is not empty, has no equals sign or colon and does not begin with an opening bracket, a hash sign or the byte EF; key and value without white space at their ends, of at most 197 characters together. Whatever a file holds, reading it never replaces a setting.
\<close>

theorem config_file_read:
  assumes "fs iniFile = Some (ini_text kvs)" and "list_all ini_entry_ok kvs"
  shows "Config_read fs iniFile cfg = Inr (Config_insert kvs cfg)
    \<and> (umap_get cfg k = Some v \<and> Config_read fs' f cfg = Inr cfg' \<longrightarrow> umap_get cfg' k = Some v)"
  using Config_read_text [where fs = fs, OF assms] Config_read_keeps by blast

theorem config_file_read_witness:
  "Config_read [''config.ini'' \<mapsto> ini_text [((''http'', ''port''), ''8080'')]] ''config.ini'' []
     = Inr (Config_insert [((''http'', ''port''), ''8080'')] [])"
  using config_file_read [where fs = "[''config.ini'' \<mapsto> ini_text [((''http'', ''port''), ''8080'')]]"
      and iniFile = "''config.ini''" and kvs = "[((''http'', ''port''), ''8080'')]" and cfg = "[]"]
  by (simp add: ini_entry_ok_def ini_plain_def ini_trimmed_def Let_def LF_def is_space_def)

text \<open>
  C38: Every time stamp of the years 1000 to 9999 except -1 is written as an HTTP date, and reading this date gives the time stamp back.
\<close>

theorem http_time_round_trip:
  assumes "- 30610224000 \<le> t" and "t \<le> 253402300799" and "t \<noteq> - 1"
  shows "\<exists>s. makeHttpTime t = Inr s \<and> readHttpTime s = Inr t"
  using year_bounds [OF assms(1,2)] readHttpTime_makeHttpTime [OF _ _ _ assms(3)] by blast

theorem http_time_round_trip_witness: "\<exists>s. makeHttpTime 784111777 = Inr s \<and> readHttpTime s = Inr 784111777"
  by (rule http_time_round_trip) simp_all

text \<open>
  C39: A multipart body, written section by section between the boundaries, is read to one part per section with the section's headers and content, appended to the parts that are there; only a content of a single character is lost.
\<close>

theorem multipart_form_read:
  assumes "mime_boundary contentType = Some boundary" and "list_all (mime_section_ok boundary) hcs"
  shows "mime_parse B contentType (mime_text boundary hcs) m =
    (Inr (), \<lparr>mm_contentType = substr_to contentType (find_char (CHR '';'') contentType),
       mm_parts = mm_parts m @ map (\<lambda>(h, c). make_part B h (if length c = 1 then [] else c)) hcs\<rparr>)"
  by (rule mime_parse_text [OF assms])

theorem multipart_form_read_witness:
  "mime_parse boost_ref ''multipart/form-data; boundary=xy'' (mime_text ''--xy'' [(''a: bc'', ''hello'')])
       MimeMultipart_default
     = (Inr (), \<lparr>mm_contentType = substr_to ''multipart/form-data; boundary=xy''
           (find_char (CHR '';'') ''multipart/form-data; boundary=xy''),
         mm_parts = [make_part boost_ref ''a: bc'' ''hello'']\<rparr>)"
  using multipart_form_read [OF demo_form(1), of "[(''a: bc'', ''hello'')]" boost_ref MimeMultipart_default]
  by (simp add: demo_form(2) MimeMultipart_default_def)

text \<open>
  C40: Once the log is locked, no operation changes its stream, its file, its level or its format, and it stays locked until the last \<^verbatim>\<open>Log\<close> object is destroyed; this then unlocks it and closes the file, provided that no \<^verbatim>\<open>Log\<close> object was ever assigned to another one: an assignment counts the object again, so that after one the log is never unlocked.
\<close>

theorem locked_log_keeps_its_settings:
  assumes "log_run os log_start ops (g, objs)" and "log_step os (g, objs) op (g', objs')"
    and "length objs + assigns ops < 2 ^ 32" and "objs \<noteq> [] \<or> assigns ops \<noteq> 0" and "lg_locked g"
  shows "if objs' = [] \<and> assigns (ops @ [op]) = 0 \<and> objs \<noteq> []
      then \<not> lg_locked g' \<and> lg_file g' = None
      else lg_locked g' \<and> settings g' = settings g"
  using locked_step [OF log_run_inv [OF assms(1)] assms(2-5)] by simp

theorem locked_log_keeps_its_settings_witness:
  "settings (setOutputLevel DEBUG (lockStream (snd (Log_new demo_log_os log_globals_init))))
     = settings (lockStream (snd (Log_new demo_log_os log_globals_init)))"
  using locked_log_keeps_its_settings [OF demo_log_run log_step.setOutputLevel [of demo_log_os _ _ DEBUG]]
  by (simp add: lockStream_def assigns_def)

end
